(* ===== verification/Nfs_Prelude.thy ===== *)
theory Nfs_Prelude
  imports Main "HOL-Library.Word" "HOL-Library.Code_Target_Nat"
begin

text \<open>
  Shared vocabulary of the development: the machine integers of the Rust source, the
  checked and saturating arithmetic it uses on \<open>usize\<close>, the \<open>Result\<close> type with its
  \<open>?\<close> operator, and big-endian byte strings.

  A \<open>u8\<close>, \<open>u16\<close>, \<open>u32\<close> or \<open>u64\<close> of the source is a word of that width.  A \<open>usize\<close> (a length,
  an index or a byte budget) is a natural number, and the 64-bit bound is written out where
  the source checks for it: \<open>checked_add\<close>, \<open>saturating_add\<close> and their kin below.
  \<open>Result<T, E>\<close> is the sum type \<open>'e + 'a\<close> with \<open>Inl\<close> for \<open>Err\<close> and \<open>Inr\<close> for \<open>Ok\<close>.
\<close>

type_synonym u8 = "8 word"
type_synonym u16 = "16 word"
type_synonym u32 = "32 word"
type_synonym u64 = "64 word"
type_synonym usize = nat
type_synonym bytes = "u8 list"

named_theorems codec_simps \<open>success of a decoder or an encoder, as an equivalence\<close>
named_theorems size_simps \<open>the exact size of an encoding\<close>

section \<open>Arithmetic on \<open>usize\<close>\<close>

abbreviation usize_bound :: nat where
  "usize_bound \<equiv> 18446744073709551616"

abbreviation u32_max :: nat where
  "u32_max \<equiv> 4294967295"

definition checked_add :: "usize \<Rightarrow> usize \<Rightarrow> usize option" where
  "checked_add a b = (if a + b < usize_bound then Some (a + b) else None)"

definition saturating_add :: "usize \<Rightarrow> usize \<Rightarrow> usize" where
  "saturating_add a b = min (a + b) (usize_bound - 1)"

definition saturating_sub :: "usize \<Rightarrow> usize \<Rightarrow> usize" where
  "saturating_sub a b = a - b"

definition saturating_mul :: "usize \<Rightarrow> usize \<Rightarrow> usize" where
  "saturating_mul a b = min (a * b) (usize_bound - 1)"

definition div_ceil :: "usize \<Rightarrow> usize \<Rightarrow> usize" where
  "div_ceil a b = a div b + (if a mod b = 0 then 0 else 1)"

section \<open>Results\<close>

fun r_bind :: "'e + 'a \<Rightarrow> ('a \<Rightarrow> 'e + 'b) \<Rightarrow> 'e + 'b" where
  "r_bind (Inl e) f = Inl e"
| "r_bind (Inr a) f = f a"

fun r_map_err :: "('e \<Rightarrow> 'f) \<Rightarrow> 'e + 'a \<Rightarrow> 'f + 'a" where
  "r_map_err f (Inl e) = Inl (f e)"
| "r_map_err f (Inr a) = Inr a"

fun ok_or :: "'e \<Rightarrow> 'a option \<Rightarrow> 'e + 'a" where
  "ok_or e None = Inl e"
| "ok_or e (Some a) = Inr a"

fun r_ok :: "'e + 'a \<Rightarrow> 'a option" where
  "r_ok (Inl e) = None"
| "r_ok (Inr a) = Some a"

section \<open>Big-endian byte strings\<close>

fun be_nat :: "nat \<Rightarrow> nat \<Rightarrow> bytes" where
  "be_nat 0 v = []"
| "be_nat (Suc n) v = be_nat n (v div 256) @ [of_nat v]"

definition nat_of_be :: "bytes \<Rightarrow> nat" where
  "nat_of_be bs = foldl (\<lambda>a b. 256 * a + unat b) 0 bs"

definition be32 :: "u32 \<Rightarrow> bytes" where
  "be32 w = be_nat 4 (unat w)"

definition be64 :: "u64 \<Rightarrow> bytes" where
  "be64 w = be_nat 8 (unat w)"

definition u32_of_be :: "bytes \<Rightarrow> u32" where
  "u32_of_be bs = of_nat (nat_of_be bs)"

definition u64_of_be :: "bytes \<Rightarrow> u64" where
  "u64_of_be bs = of_nat (nat_of_be bs)"

section \<open>Lemmas on \<open>usize\<close> arithmetic\<close>

lemma checked_add_Some [simp]:
  "checked_add a b = Some c \<longleftrightarrow> c = a + b \<and> a + b < usize_bound"
  by (auto simp: checked_add_def)

lemma checked_add_None [simp]: "checked_add a b = None \<longleftrightarrow> usize_bound \<le> a + b"
  by (auto simp: checked_add_def)

lemma saturating_add_le_iff [simp]:
  "c < usize_bound - 1 \<Longrightarrow> saturating_add a b \<le> c \<longleftrightarrow> a + b \<le> c"
  by (auto simp: saturating_add_def min_def)

lemma saturating_add_eq: "a + b < usize_bound \<Longrightarrow> saturating_add a b = a + b"
  by (simp add: saturating_add_def)

lemma div_ceil_le_iff:
  assumes "0 < b"
  shows "div_ceil a b \<le> k \<longleftrightarrow> a \<le> k * b"
proof -
  define q r where "q = a div b" and "r = a mod b"
  have a: "a = q * b + r" and r: "r < b" using assms by (simp_all add: q_def r_def)
  have lower: "a \<le> k * b" if "q + (if r = 0 then 0 else 1) \<le> k"
    using that mult_le_mono1 [of q k b] mult_le_mono1 [of "Suc q" k b] r
    by (auto simp: a split: if_splits)
  have upper: "q + (if r = 0 then 0 else 1) \<le> k" if "a \<le> k * b"
  proof (rule ccontr)
    assume "\<not> q + (if r = 0 then 0 else 1) \<le> k"
    then have "k < q \<or> k = q \<and> r \<noteq> 0" by (auto split: if_splits)
    with that assms mult_le_mono1 [of "Suc k" q b] show False by (auto simp: a)
  qed
  show ?thesis using lower upper by (auto simp: div_ceil_def q_def r_def)
qed

section \<open>Lemmas on results\<close>

lemma r_bind_Inr [simp]: "r_bind m f = Inr b \<longleftrightarrow> (\<exists>a. m = Inr a \<and> f a = Inr b)"
  by (cases m) auto

lemma r_bind_Inl: "r_bind m f = Inl e \<longleftrightarrow> m = Inl e \<or> (\<exists>a. m = Inr a \<and> f a = Inl e)"
  by (cases m) auto

lemma r_map_err_Inr [simp]: "r_map_err f m = Inr a \<longleftrightarrow> m = Inr a"
  by (cases m) auto

lemma ok_or_Inr [simp]: "ok_or e m = Inr a \<longleftrightarrow> m = Some a"
  by (cases m) auto

lemma ok_or_Inl [simp]: "ok_or e m = Inl e' \<longleftrightarrow> m = None \<and> e' = e"
  by (cases m) auto

section \<open>Lemmas on big-endian byte strings\<close>

lemma unat_u8_less: "unat (b :: u8) < 256"
  using unsigned_less [of b, where ?'a = nat] by simp

lemma unat_u16_less: "unat (w :: u16) < 65536"
  using unsigned_less [of w, where ?'a = nat] by simp

lemma unat_u32_less: "unat (w :: u32) < 4294967296"
  using unsigned_less [of w, where ?'a = nat] by simp

lemma unat_u32_le [simp]: "unat (w :: u32) \<le> u32_max"
  using unat_u32_less [of w] by simp

lemma unat_u64_less: "unat (w :: u64) < usize_bound"
  using unsigned_less [of w, where ?'a = nat] by simp

lemma length_be_nat [simp]: "length (be_nat n v) = n"
  by (induction n arbitrary: v) auto

lemma nat_of_be_Nil [simp]: "nat_of_be [] = 0"
  by (simp add: nat_of_be_def)

lemma nat_of_be_snoc [simp]: "nat_of_be (bs @ [b]) = 256 * nat_of_be bs + unat b"
  by (simp add: nat_of_be_def)

lemma nat_of_be_bound: "nat_of_be bs < 256 ^ length bs"
proof (induction bs rule: rev_induct)
  case Nil
  then show ?case by simp
next
  case (snoc b bs)
  have "unat b < 256" by (rule unat_u8_less)
  with snoc show ?case by simp
qed

lemma unat_byte_of_nat: "unat (of_nat v :: u8) = v mod 256"
  by (simp add: unat_of_nat)

lemma nat_of_be_be_nat: "nat_of_be (be_nat n v) = v mod 256 ^ n"
proof (induction n arbitrary: v)
  case 0
  then show ?case by simp
next
  case (Suc n)
  have "256 * (v div 256 mod 256 ^ n) + v mod 256 = v mod (256 * 256 ^ n)"
    by (simp add: mod_mult2_eq)
  with Suc show ?case by (simp add: unat_byte_of_nat)
qed

lemma of_nat_byte_add: "(of_nat (256 * a + unat (b :: u8)) :: u8) = b"
proof -
  have "unat (of_nat (256 * a + unat b) :: u8) = unat b"
    unfolding unat_byte_of_nat using unat_u8_less [of b] by simp
  then show ?thesis by (simp only: word_unat_eq_iff)
qed

lemma be_nat_nat_of_be: "be_nat (length bs) (nat_of_be bs) = bs"
proof (induction bs rule: rev_induct)
  case Nil
  then show ?case by simp
next
  case (snoc b bs)
  have "unat b < 256" by (rule unat_u8_less)
  then have "(256 * nat_of_be bs + unat b) div 256 = nat_of_be bs" by simp
  with snoc show ?case by (simp only: length_append_singleton be_nat.simps nat_of_be_snoc of_nat_byte_add)
qed

lemma length_be32 [simp]: "length (be32 w) = 4"
  by (simp add: be32_def)

lemma length_be64 [simp]: "length (be64 w) = 8"
  by (simp add: be64_def)

lemma u32_of_be_be32 [simp]: "u32_of_be (be32 w) = w"
  using unat_u32_less [of w] by (simp add: u32_of_be_def be32_def nat_of_be_be_nat)

lemma u64_of_be_be64 [simp]: "u64_of_be (be64 w) = w"
  using unat_u64_less [of w] by (simp add: u64_of_be_def be64_def nat_of_be_be_nat)

lemma be32_u32_of_be:
  assumes "length bs = 4"
  shows "be32 (u32_of_be bs) = bs"
proof -
  have "nat_of_be bs < 2 ^ 32" using nat_of_be_bound [of bs] assms by simp
  then have "unat (u32_of_be bs) = nat_of_be bs" by (simp add: u32_of_be_def unat_of_nat)
  then show ?thesis using be_nat_nat_of_be [of bs] assms by (simp add: be32_def)
qed

lemma be64_u64_of_be:
  assumes "length bs = 8"
  shows "be64 (u64_of_be bs) = bs"
proof -
  have "nat_of_be bs < 2 ^ 64" using nat_of_be_bound [of bs] assms by simp
  then have "unat (u64_of_be bs) = nat_of_be bs" by (simp add: u64_of_be_def unat_of_nat)
  then show ?thesis using be_nat_nat_of_be [of bs] assms by (simp add: be64_def)
qed

lemma be32_inject [simp]: "be32 v = be32 w \<longleftrightarrow> v = w"
  by (metis u32_of_be_be32)

lemma be64_inject [simp]: "be64 v = be64 w \<longleftrightarrow> v = w"
  by (metis u64_of_be_be64)

lemma pred_option_True [simp]: "pred_option (\<lambda>_. True) x"
  by (cases x) simp_all

end
