(* ===== verification/Encoded_Reply.thy ===== *)
theory Encoded_Reply
  imports Nfs_Prelude
begin

text \<open>
  Encoded replies, \<^verbatim>\<open>src/rpc/reply.rs\<close>: a reply is one buffer, or a protocol prefix and a payload
  that are written as separate buffers, together with the size of the allocation it retains when
  that is known.

  The capacity that \<open>Vec::with_capacity\<close> really reserves is chosen by the allocator; it is the
  argument \<open>capacity\<close> of the functions that depend on it, and the standard library promises
  that it is at least the requested size.  A violated \<open>assert!\<close> or \<open>expect\<close> is the result \<open>None\<close>.
\<close>

datatype ReplyStorage =
    Contiguous bytes
  | Segmented bytes bytes usize usize

record EncodedReply =
  reply_storage :: ReplyStorage
  reply_retained :: "usize option"

definition XDR_PADDING :: bytes where
  "XDR_PADDING = [0, 0, 0]"

definition reply_segmented :: "bytes \<Rightarrow> bytes \<Rightarrow> usize \<Rightarrow> EncodedReply option" where
  "reply_segmented prefix payload padding =
     (if \<not> padding \<le> length XDR_PADDING then None
      else case Option.bind (checked_add (length prefix) (length payload))
                  (\<lambda>len. checked_add len padding) of
             None \<Rightarrow> None
           | Some len \<Rightarrow>
               Some \<lparr>reply_storage = Segmented prefix payload padding len, reply_retained = None\<rparr>)"

definition reply_len :: "EncodedReply \<Rightarrow> usize" where
  "reply_len r =
     (case reply_storage r of Contiguous bs \<Rightarrow> length bs | Segmented _ _ _ len \<Rightarrow> len)"

definition reply_is_empty :: "EncodedReply \<Rightarrow> bool" where
  "reply_is_empty r \<longleftrightarrow> reply_len r = 0"

definition reply_segments :: "EncodedReply \<Rightarrow> bytes list" where
  "reply_segments r =
     (case reply_storage r of
        Contiguous bs \<Rightarrow> [bs, [], []]
      | Segmented prefix payload padding _ \<Rightarrow> [prefix, payload, take padding XDR_PADDING])"

definition reply_prefix :: "EncodedReply \<Rightarrow> bytes" where
  "reply_prefix r =
     (case reply_storage r of Contiguous bs \<Rightarrow> bs | Segmented prefix _ _ _ \<Rightarrow> prefix)"

definition replay_storage_requires_copy :: "EncodedReply \<Rightarrow> bool" where
  "replay_storage_requires_copy r \<longleftrightarrow> reply_retained r = None"

definition compact_bytes :: "(usize \<Rightarrow> usize) \<Rightarrow> bytes \<Rightarrow> bytes \<times> usize" where
  "compact_bytes capacity inp = (inp, capacity (length inp))"

definition replay_storage :: "(usize \<Rightarrow> usize) \<Rightarrow> EncodedReply \<Rightarrow> EncodedReply \<times> usize" where
  "replay_storage capacity r =
     (case reply_retained r of
        Some retained_bytes \<Rightarrow> (r, retained_bytes)
      | None \<Rightarrow>
          (case reply_storage r of
             Contiguous bs \<Rightarrow>
               (let (bs, retained_bytes) = compact_bytes capacity bs in
                (\<lparr>reply_storage = Contiguous bs, reply_retained = Some retained_bytes\<rparr>,
                 retained_bytes))
           | Segmented prefix payload padding len \<Rightarrow>
               (let (prefix, prefix_bytes) = compact_bytes capacity prefix;
                    (payload, payload_bytes) = compact_bytes capacity payload;
                    retained_bytes = max len (saturating_add prefix_bytes payload_bytes) in
                (\<lparr>reply_storage = Segmented prefix payload padding len,
                  reply_retained = Some retained_bytes\<rparr>, retained_bytes))))"

definition reply_into_bytes :: "EncodedReply \<Rightarrow> bytes" where
  "reply_into_bytes r =
     (case reply_storage r of
        Contiguous bs \<Rightarrow> bs
      | Segmented prefix payload padding _ \<Rightarrow> prefix @ payload @ take padding XDR_PADDING)"

definition reply_from_bytes :: "bytes \<Rightarrow> EncodedReply" where
  "reply_from_bytes value = \<lparr>reply_storage = Contiguous value, reply_retained = None\<rparr>"

text \<open>From an owned \<open>Vec\<close>, whose capacity is the second argument.\<close>

definition reply_from_vec :: "bytes \<Rightarrow> usize \<Rightarrow> EncodedReply" where
  "reply_from_vec value vec_capacity =
     \<lparr>reply_storage = Contiguous value, reply_retained = Some vec_capacity\<rparr>"

definition reply_eq :: "EncodedReply \<Rightarrow> EncodedReply \<Rightarrow> bool" where
  "reply_eq r r' \<longleftrightarrow>
     (if reply_len r \<noteq> reply_len r' then False
      else concat (reply_segments r) = concat (reply_segments r'))"

definition reply_eq_bytes :: "EncodedReply \<Rightarrow> bytes \<Rightarrow> bool" where
  "reply_eq_bytes r bs \<longleftrightarrow> reply_len r = length bs \<and> concat (reply_segments r) = bs"

text \<open>
  The invariant of the type: the recorded length and padding of a segmented reply are right, and
  a recorded allocation is at least the bytes it holds.
\<close>

definition reply_ok :: "EncodedReply \<Rightarrow> bool" where
  "reply_ok r \<longleftrightarrow>
     (case reply_storage r of
        Contiguous bs \<Rightarrow> True
      | Segmented prefix payload padding len \<Rightarrow>
          padding \<le> 3 \<and> len = length prefix + length payload + padding) \<and>
     (case reply_retained r of None \<Rightarrow> True | Some n \<Rightarrow> reply_len r \<le> n)"

section \<open>Lemmas\<close>

lemmas reply_defs = reply_len_def reply_segments_def reply_into_bytes_def reply_ok_def
  XDR_PADDING_def

lemma reply_from_bytes_ok: "reply_ok (reply_from_bytes bs)"
  by (simp add: reply_from_bytes_def reply_defs)

lemma reply_from_vec_ok: "length bs \<le> n \<Longrightarrow> reply_ok (reply_from_vec bs n)"
  by (simp add: reply_from_vec_def reply_defs)

lemma reply_segmented_Some:
  "reply_segmented prefix payload padding = Some r \<longleftrightarrow>
     padding \<le> 3 \<and> length prefix + length payload + padding < usize_bound \<and>
     r = \<lparr>reply_storage = Segmented prefix payload padding
            (length prefix + length payload + padding), reply_retained = None\<rparr>"
  by (auto simp: reply_segmented_def XDR_PADDING_def checked_add_def split: if_splits option.splits)

lemma reply_segmented_ok: "reply_segmented prefix payload padding = Some r \<Longrightarrow> reply_ok r"
  by (auto simp: reply_segmented_Some reply_defs)

lemma concat_reply_segments: "concat (reply_segments r) = reply_into_bytes r"
  by (simp add: reply_defs split: ReplyStorage.splits)

lemma length_reply_into_bytes: "reply_ok r \<Longrightarrow> length (reply_into_bytes r) = reply_len r"
  by (auto simp: reply_defs split: ReplyStorage.splits)

lemma reply_eq_iff:
  "reply_ok r \<Longrightarrow> reply_ok r' \<Longrightarrow> reply_eq r r' \<longleftrightarrow> reply_into_bytes r = reply_into_bytes r'"
  by (metis concat_reply_segments length_reply_into_bytes reply_eq_def)

lemma replay_storage_bytes: "reply_into_bytes (fst (replay_storage capacity r)) = reply_into_bytes r"
  by (auto simp: replay_storage_def compact_bytes_def Let_def reply_into_bytes_def
      split: option.splits ReplyStorage.splits)

lemma replay_storage_charge:
  assumes "reply_ok r" and "\<And>n. n \<le> capacity n"
  shows "reply_len r \<le> snd (replay_storage capacity r)"
  using assms
  by (auto simp: replay_storage_def compact_bytes_def Let_def reply_defs
      split: option.splits ReplyStorage.splits)

lemma replay_storage_ok:
  assumes "reply_ok r" and "\<And>n. n \<le> capacity n"
  shows "reply_ok (fst (replay_storage capacity r))"
  using assms
  by (auto simp: replay_storage_def compact_bytes_def Let_def reply_defs
      split: option.splits ReplyStorage.splits)

lemma replay_storage_retained:
  "reply_retained (fst (replay_storage capacity r)) = Some (snd (replay_storage capacity r))"
  by (auto simp: replay_storage_def compact_bytes_def Let_def split: option.splits ReplyStorage.splits)

section \<open>Properties\<close>

text \<open>
  C40: Caching a reply keeps its wire bytes and charges for them.  \<open>replay_storage\<close> returns a reply
  with the same wire form, whose recorded allocation is the returned charge and is at least its
  length, so that the replay cache never holds more bytes than it accounts for; applied to its
  own result it changes nothing.
\<close>

theorem replay_storage_faithful:
  assumes "reply_ok r" and "\<forall>n. n \<le> capacity n"
  shows "case replay_storage capacity r of
    (stored, charge) \<Rightarrow>
      reply_eq stored r \<and> reply_len r \<le> charge \<and>
      concat (reply_segments stored) = concat (reply_segments r) \<and>
      \<not> replay_storage_requires_copy stored \<and>
      replay_storage capacity stored = (stored, charge)"
proof -
  obtain stored charge where eq: "replay_storage capacity r = (stored, charge)" by fastforce
  have capacity: "\<And>n. n \<le> capacity n" using assms by blast
  have "reply_ok stored" and "reply_into_bytes stored = reply_into_bytes r"
    and "reply_retained stored = Some charge" and "reply_len r \<le> charge"
    using replay_storage_ok [OF assms(1) capacity] replay_storage_bytes [of capacity r]
      replay_storage_retained [of capacity r] replay_storage_charge [OF assms(1) capacity]
    by (simp_all add: eq)
  then show ?thesis
    using assms(1)
    by (simp add: eq reply_eq_iff concat_reply_segments replay_storage_requires_copy_def)
      (simp add: replay_storage_def)
qed

theorem replay_storage_faithful_witness:
  "case replay_storage (\<lambda>n. n + 8)
     \<lparr>reply_storage = Segmented [1, 2] [3, 4, 5] 1 6, reply_retained = None\<rparr> of
     (stored, charge) \<Rightarrow> charge = 21 \<and> 6 \<le> charge \<and> concat (reply_segments stored) = [1, 2, 3, 4, 5, 0]"
proof -
  let ?r = "\<lparr>reply_storage = Segmented [1, 2] [3, 4, 5] 1 6, reply_retained = None\<rparr>"
  have "reply_ok ?r" by (simp add: reply_defs)
  from replay_storage_faithful [OF this, of "\<lambda>n. n + 8"]
  show ?thesis
    by (simp add: replay_storage_def compact_bytes_def Let_def saturating_add_def reply_defs)
qed

end
