(* ===== verification/Xdr_Codec.thy ===== *)
theory Xdr_Codec
  imports Nfs_Prelude
begin

text \<open>
  The bounded XDR primitives of \<^verbatim>\<open>src/rpc/codec.rs\<close>: the \<open>Decoder\<close>, a cursor over an input
  slice, and the \<open>Encoder\<close>, a growing byte vector.

  A decoding method takes \<open>&mut self\<close> and returns a \<open>Result\<close>; here it maps a decoder to an
  error or to a value and the advanced decoder.  Every caller in the source drops the decoder
  after an error, so no decoder is returned with one.  The encoder has one field, its output
  vector, and is that byte list.

  The interface that the typed codecs rely on is the locale \<open>xdr_format\<close>: a decoder succeeds
  exactly on the wire form of a well-formed value.  Its instances for the primitives are at the
  end of the theory, and its consequences (unique and prefix-free encodings, rejection of every
  truncated or extended input) hold for every instance.
\<close>

section \<open>Errors and the decoder\<close>

datatype DecodeError =
    Truncated
  | InvalidBoolean u32
  | InvalidDiscriminant string u32
  | LimitExceeded string usize usize
  | InvalidPadding
  | TrailingBytes
  | DecodeOverflow

datatype EncodeError = TooLarge usize | InvalidTime u64 u32

record decoder =
  dec_input :: bytes
  dec_position :: usize

type_synonym 'a dec = "decoder \<Rightarrow> DecodeError + ('a \<times> decoder)"

definition d_return :: "'a \<Rightarrow> 'a dec" where
  "d_return a d = Inr (a, d)"

definition d_fail :: "DecodeError \<Rightarrow> 'a dec" where
  "d_fail e d = Inl e"

definition d_bind :: "'a dec \<Rightarrow> ('a \<Rightarrow> 'b dec) \<Rightarrow> 'b dec" where
  "d_bind m k d = (case m d of Inl e \<Rightarrow> Inl e | Inr (a, d') \<Rightarrow> k a d')"

definition decoder_new :: "bytes \<Rightarrow> decoder" where
  "decoder_new inp = \<lparr>dec_input = inp, dec_position = 0\<rparr>"

definition dec_remaining :: "decoder \<Rightarrow> usize" where
  "dec_remaining d = saturating_sub (length (dec_input d)) (dec_position d)"

definition dec_take :: "usize \<Rightarrow> bytes dec" where
  "dec_take count d =
     (case checked_add (dec_position d) count of
        None \<Rightarrow> Inl DecodeOverflow
      | Some end_pos \<Rightarrow>
          if end_pos \<le> length (dec_input d)
          then Inr (take count (drop (dec_position d) (dec_input d)), d\<lparr>dec_position := end_pos\<rparr>)
          else Inl Truncated)"

definition read_u32 :: "u32 dec" where
  "read_u32 = d_bind (dec_take 4) (\<lambda>bs. d_return (u32_of_be bs))"

definition read_i32 :: "int dec" where
  "read_i32 = d_bind (dec_take 4) (\<lambda>bs. d_return (sint (u32_of_be bs)))"

definition read_u64 :: "u64 dec" where
  "read_u64 = d_bind (dec_take 8) (\<lambda>bs. d_return (u64_of_be bs))"

definition read_bool :: "bool dec" where
  "read_bool = d_bind read_u32 (\<lambda>value.
     if value = 0 then d_return False
     else if value = 1 then d_return True
     else d_fail (InvalidBoolean value))"

definition read_enum :: "string \<Rightarrow> (u32 \<Rightarrow> 'a option) \<Rightarrow> 'a dec" where
  "read_enum kind convert = d_bind read_u32 (\<lambda>value.
     case convert value of
       None \<Rightarrow> d_fail (InvalidDiscriminant kind value)
     | Some x \<Rightarrow> d_return x)"

definition read_fixed :: "usize \<Rightarrow> bytes dec" where
  "read_fixed n = dec_take n"

definition read_length :: "string \<Rightarrow> usize \<Rightarrow> usize dec" where
  "read_length field limit = d_bind read_u32 (\<lambda>value.
     let len = unat value in
     if limit < len then d_fail (LimitExceeded field len limit) else d_return len)"

definition xdr_padding :: "usize \<Rightarrow> usize" where
  "xdr_padding len = (4 - len mod 4) mod 4"

definition read_opaque_slice :: "string \<Rightarrow> usize \<Rightarrow> bytes dec" where
  "read_opaque_slice field limit =
     d_bind (read_length field limit) (\<lambda>len.
     d_bind (dec_take len) (\<lambda>value.
     d_bind (dec_take (xdr_padding len)) (\<lambda>padding.
     if list_ex (\<lambda>b. b \<noteq> 0) padding then d_fail InvalidPadding else d_return value)))"

definition read_opaque :: "string \<Rightarrow> usize \<Rightarrow> bytes dec" where
  "read_opaque field limit = read_opaque_slice field limit"

definition read_string :: "string \<Rightarrow> usize \<Rightarrow> bytes dec" where
  "read_string field limit = read_opaque field limit"

fun d_repeat :: "nat \<Rightarrow> 'a dec \<Rightarrow> 'a list dec" where
  "d_repeat 0 m = d_return []"
| "d_repeat (Suc n) m = d_bind m (\<lambda>x. d_bind (d_repeat n m) (\<lambda>xs. d_return (x # xs)))"

text \<open>
  The elements of an array.  The source first reserves room for them and reports an allocator that
  refuses as \<open>LimitExceeded\<close>; the lengths are bounded (16 in the only caller) and the reservation
  is taken to succeed.
\<close>

definition read_array :: "string \<Rightarrow> usize \<Rightarrow> 'a dec \<Rightarrow> 'a list dec" where
  "read_array field limit decode =
     d_bind (read_length field limit) (\<lambda>len. d_repeat len decode)"

definition dec_finish :: "decoder \<Rightarrow> DecodeError + unit" where
  "dec_finish d =
     (if dec_position d = length (dec_input d) then Inr () else Inl TrailingBytes)"

text \<open>The pattern \<open>Decoder::new\<close>, read, \<open>finish\<close> of the argument decoders.\<close>

definition decode_all :: "'a dec \<Rightarrow> bytes \<Rightarrow> DecodeError + 'a" where
  "decode_all m inp =
     (case m (decoder_new inp) of
        Inl e \<Rightarrow> Inl e
      | Inr (a, d) \<Rightarrow> r_bind (dec_finish d) (\<lambda>_. Inr a))"

section \<open>The encoder\<close>

type_synonym encoder = bytes
type_synonym 'a put = "'a \<Rightarrow> encoder \<Rightarrow> EncodeError + encoder"

definition write_u32 :: "u32 \<Rightarrow> encoder \<Rightarrow> encoder" where
  "write_u32 value e = e @ be32 value"

definition write_u64 :: "u64 \<Rightarrow> encoder \<Rightarrow> encoder" where
  "write_u64 value e = e @ be64 value"

definition write_bool :: "bool \<Rightarrow> encoder \<Rightarrow> encoder" where
  "write_bool value e = write_u32 (if value then 1 else 0) e"

definition write_fixed :: "bytes \<Rightarrow> encoder \<Rightarrow> encoder" where
  "write_fixed value e = e @ value"

definition vec_resize :: "usize \<Rightarrow> bytes \<Rightarrow> bytes" where
  "vec_resize n xs = take n xs @ replicate (n - length xs) 0"

definition write_opaque :: "bytes put" where
  "write_opaque value e =
     (if u32_max < length value then Inl (TooLarge (length value))
      else
        let padding = xdr_padding (length value) in
        case Option.bind (Option.bind (checked_add (length e) 4)
               (\<lambda>len. checked_add len (length value)))
               (\<lambda>len. checked_add len padding) of
          None \<Rightarrow> Inl (TooLarge (length value))
        | Some final_length \<Rightarrow>
            Inr (vec_resize final_length
                   (write_u32 (of_nat (length value)) e @ value)))"

section \<open>Wire forms and the cursor\<close>

definition opaque_bytes :: "bytes \<Rightarrow> bytes" where
  "opaque_bytes v = be32 (of_nat (length v)) @ v @ replicate (xdr_padding (length v)) 0"

definition bool_bytes :: "bool \<Rightarrow> bytes" where
  "bool_bytes b = be32 (if b then 1 else 0)"

definition array_bytes :: "('a \<Rightarrow> bytes) \<Rightarrow> 'a list \<Rightarrow> bytes" where
  "array_bytes enc xs = be32 (of_nat (length xs)) @ concat (map enc xs)"

text \<open>\<open>consumes d bs d'\<close>: the cursor moves from \<open>d\<close> to \<open>d'\<close> over exactly the bytes \<open>bs\<close>.\<close>

definition consumes :: "decoder \<Rightarrow> bytes \<Rightarrow> decoder \<Rightarrow> bool" where
  "consumes d bs d' \<longleftrightarrow>
     d' = d\<lparr>dec_position := dec_position d + length bs\<rparr> \<and>
     dec_position d + length bs \<le> length (dec_input d) \<and>
     dec_position d + length bs < usize_bound \<and>
     take (length bs) (drop (dec_position d) (dec_input d)) = bs"

section \<open>Lemmas on the decoding monad\<close>

lemma d_return_Inr [codec_simps]: "d_return a d = Inr (b, d') \<longleftrightarrow> b = a \<and> d' = d"
  by (auto simp: d_return_def)

lemma d_fail_Inr [codec_simps]: "d_fail e d = Inr r \<longleftrightarrow> False"
  by (simp add: d_fail_def)

lemma d_if_Inr [codec_simps]:
  "(if b then m1 else m2) d = Inr r \<longleftrightarrow> b \<and> m1 d = Inr r \<or> \<not> b \<and> m2 d = Inr r"
  by simp

lemma d_bind_Inr [codec_simps]:
  "d_bind m k d = Inr (b, d') \<longleftrightarrow> (\<exists>a dm. m d = Inr (a, dm) \<and> k a dm = Inr (b, d'))"
  by (auto simp: d_bind_def split: sum.splits)

lemma d_bind_Inl:
  "d_bind m k d = Inl e \<longleftrightarrow> m d = Inl e \<or> (\<exists>a dm. m d = Inr (a, dm) \<and> k a dm = Inl e)"
  by (auto simp: d_bind_def split: sum.splits)

lemma consumes_append:
  "consumes d (xs @ ys) d' \<longleftrightarrow> (\<exists>dm. consumes d xs dm \<and> consumes dm ys d')"
proof -
  have split: "take (length xs + length ys) zs = xs @ ys \<longleftrightarrow>
        take (length xs) zs = xs \<and> take (length ys) (drop (length xs) zs) = ys"
    if "length xs + length ys \<le> length zs" for zs :: bytes
    using that by (auto simp: take_add append_eq_append_conv)
  show ?thesis
    unfolding consumes_def
    using split [of "drop (dec_position d) (dec_input d)"]
    by (auto simp: add.assoc add.commute [of "dec_position d"])
qed

lemma consumes_det: "consumes d bs d1 \<Longrightarrow> consumes d bs d2 \<Longrightarrow> d1 = d2"
  by (simp add: consumes_def)

lemma consumes_new_full:
  "consumes (decoder_new inp) bs d' \<and> dec_position d' = length (dec_input d') \<longleftrightarrow>
     bs = inp \<and> length inp < usize_bound \<and> d' = \<lparr>dec_input = inp, dec_position = length inp\<rparr>"
  by (auto simp: consumes_def decoder_new_def)

lemma consumes_new:
  "consumes (decoder_new inp) bs d' \<longleftrightarrow>
     (\<exists>rest. inp = bs @ rest) \<and> length bs < usize_bound \<and>
     d' = \<lparr>dec_input = inp, dec_position = length bs\<rparr>"
  by (auto simp: consumes_def decoder_new_def) (metis append_take_drop_id)

lemma consumes_all:
  "(\<exists>d. P \<and> consumes (decoder_new inp) bs d \<and> dec_position d = length (dec_input d)) \<longleftrightarrow>
     P \<and> bs = inp \<and> length inp < usize_bound"
  unfolding consumes_new_full by simp

lemma decode_all_Inr:
  "decode_all m inp = Inr a \<longleftrightarrow>
     (\<exists>d. m (decoder_new inp) = Inr (a, d) \<and> dec_position d = length (dec_input d))"
  by (auto simp: decode_all_def dec_finish_def split: sum.splits if_splits)

lemma dec_take_Inr [codec_simps]:
  "dec_take n d = Inr (bs, d') \<longleftrightarrow> length bs = n \<and> consumes d bs d'"
  by (auto simp: dec_take_def consumes_def split: option.splits if_splits)

section \<open>Success of the primitives, as equivalences\<close>

lemma read_u32_Inr [codec_simps]: "read_u32 d = Inr (v, d') \<longleftrightarrow> consumes d (be32 v) d'"
proof -
  have "(\<exists>bs. length bs = 4 \<and> consumes d bs d' \<and> v = u32_of_be bs) \<longleftrightarrow> consumes d (be32 v) d'"
    by (metis be32_u32_of_be length_be32 u32_of_be_be32)
  then show ?thesis by (auto simp: read_u32_def codec_simps)
qed

lemma read_u64_Inr [codec_simps]: "read_u64 d = Inr (v, d') \<longleftrightarrow> consumes d (be64 v) d'"
proof -
  have "(\<exists>bs. length bs = 8 \<and> consumes d bs d' \<and> v = u64_of_be bs) \<longleftrightarrow> consumes d (be64 v) d'"
    by (metis be64_u64_of_be length_be64 u64_of_be_be64)
  then show ?thesis by (auto simp: read_u64_def codec_simps)
qed

lemma read_bool_Inr [codec_simps]: "read_bool d = Inr (b, d') \<longleftrightarrow> consumes d (bool_bytes b) d'"
proof -
  have "read_bool d = Inr (b, d') \<longleftrightarrow>
      (\<exists>v. consumes d (be32 v) d' \<and> (v = 0 \<and> \<not> b \<or> v = 1 \<and> b))"
    by (auto simp: read_bool_def codec_simps)
  then show ?thesis by (cases b) (auto simp: bool_bytes_def)
qed

lemma read_enum_Inr [codec_simps]:
  "read_enum kind convert d = Inr (x, d') \<longleftrightarrow>
     (\<exists>v. convert v = Some x \<and> consumes d (be32 v) d')"
  by (auto simp: read_enum_def codec_simps split: option.splits)

lemma read_fixed_Inr [codec_simps]:
  "read_fixed n d = Inr (bs, d') \<longleftrightarrow> length bs = n \<and> consumes d bs d'"
  by (simp add: read_fixed_def codec_simps)

lemma read_length_Inr [codec_simps]:
  "read_length field limit d = Inr (n, d') \<longleftrightarrow>
     n \<le> min limit u32_max \<and> consumes d (be32 (of_nat n)) d'"
proof -
  have "read_length field limit d = Inr (n, d') \<longleftrightarrow>
      (\<exists>v :: u32. consumes d (be32 v) d' \<and> unat v \<le> limit \<and> n = unat v)"
    by (auto simp: read_length_def codec_simps Let_def)
  moreover have "(\<exists>v :: u32. P v \<and> unat v \<le> limit \<and> n = unat v) \<longleftrightarrow>
      n \<le> min limit u32_max \<and> P (of_nat n)" for P
    by (auto simp: unat_of_nat)
  ultimately show ?thesis by simp
qed

lemma zero_padding: "\<not> list_ex (\<lambda>b. b \<noteq> 0) bs \<longleftrightarrow> bs = replicate (length bs) 0"
  by (induction bs) auto

lemma skip_padding:
  "d_bind (dec_take n) (\<lambda>padding.
      if list_ex (\<lambda>b. b \<noteq> 0) padding then d_fail InvalidPadding else d_return value) d =
    Inr (v, d') \<longleftrightarrow> v = value \<and> consumes d (replicate n 0) d'"
proof -
  have "(if list_ex (\<lambda>b. b \<noteq> 0) padding then d_fail InvalidPadding else d_return value) dm =
      Inr (v, d') \<longleftrightarrow> padding = replicate (length padding) 0 \<and> v = value \<and> d' = dm"
    for padding :: bytes and dm
    by (auto simp add: zero_padding [symmetric] codec_simps)
  then have "?thesis \<longleftrightarrow> ((\<exists>bs dm. (length bs = n \<and> consumes d bs dm) \<and>
      bs = replicate (length bs) 0 \<and> v = value \<and> d' = dm) \<longleftrightarrow>
      v = value \<and> consumes d (replicate n 0) d')"
    by (simp only: d_bind_Inr dec_take_Inr)
  moreover have "(\<exists>bs dm. (length bs = n \<and> consumes d bs dm) \<and>
      bs = replicate (length bs) 0 \<and> v = value \<and> d' = dm) \<longleftrightarrow>
      v = value \<and> consumes d (replicate n 0) d'"
    by (metis length_replicate)
  ultimately show ?thesis by blast
qed

lemma read_opaque_slice_Inr [codec_simps]:
  "read_opaque_slice field limit d = Inr (v, d') \<longleftrightarrow>
     length v \<le> min limit u32_max \<and> consumes d (opaque_bytes v) d'"
proof -
  have "read_opaque_slice field limit d = Inr (v, d') \<longleftrightarrow>
      (\<exists>n d1. read_length field limit d = Inr (n, d1) \<and>
        (\<exists>value d2. dec_take n d1 = Inr (value, d2) \<and>
          v = value \<and> consumes d2 (replicate (xdr_padding n) 0) d'))"
    unfolding read_opaque_slice_def
    by (subst d_bind_Inr, subst d_bind_Inr, subst skip_padding) (rule refl)
  then show ?thesis
    by (auto simp: opaque_bytes_def consumes_append read_length_Inr dec_take_Inr)
qed

lemma read_opaque_Inr [codec_simps]:
  "read_opaque field limit d = Inr (v, d') \<longleftrightarrow>
     length v \<le> min limit u32_max \<and> consumes d (opaque_bytes v) d'"
  by (simp add: read_opaque_def codec_simps)

lemma read_string_Inr [codec_simps]:
  "read_string field limit d = Inr (v, d') \<longleftrightarrow>
     length v \<le> min limit u32_max \<and> consumes d (opaque_bytes v) d'"
  by (simp add: read_string_def codec_simps)

section \<open>The format interface\<close>

text \<open>
  What a typed codec promises to its callers: decoding succeeds exactly when the cursor stands
  in front of the wire form of a well-formed value, and then moves behind it.
\<close>

locale xdr_format =
  fixes enc :: "'a \<Rightarrow> bytes" and dec :: "'a dec" and wf :: "'a \<Rightarrow> bool"
  assumes dec_iff: "dec d = Inr (a, d') \<longleftrightarrow> wf a \<and> consumes d (enc a) d'"
begin

lemma decode_new:
  assumes "wf a" and "length (enc a) < usize_bound"
  shows "dec (decoder_new (enc a @ rest)) =
           Inr (a, \<lparr>dec_input = enc a @ rest, dec_position = length (enc a)\<rparr>)"
  using assms by (simp add: dec_iff consumes_new)

lemma decode_all_iff:
  "decode_all dec inp = Inr a \<longleftrightarrow> wf a \<and> inp = enc a \<and> length inp < usize_bound"
  using consumes_new_full [of inp "enc a"] by (auto simp: decode_all_Inr dec_iff)

lemma cursor_advances:
  assumes "dec d = Inr (a, d')"
  shows "dec_input d' = dec_input d" and "dec_position d \<le> dec_position d'"
    and "dec_position d' \<le> length (dec_input d')"
  using assms by (auto simp: dec_iff consumes_def)

lemma prefix_free:
  assumes "wf a" and "wf b" and "enc a @ xs = enc b @ ys"
    and "length (enc a) < usize_bound" and "length (enc b) < usize_bound"
  shows "a = b \<and> xs = ys"
proof -
  have "dec (decoder_new (enc a @ xs)) =
      Inr (a, \<lparr>dec_input = enc a @ xs, dec_position = length (enc a)\<rparr>)"
    using assms by (intro decode_new)
  moreover have "dec (decoder_new (enc a @ xs)) =
      Inr (b, \<lparr>dec_input = enc b @ ys, dec_position = length (enc b)\<rparr>)"
    unfolding assms(3) using assms by (intro decode_new)
  ultimately show ?thesis using assms(3) by simp
qed

lemma truncated_rejected:
  assumes "wf a" and "length (enc a) < usize_bound" and "enc a = inp @ rest" and "rest \<noteq> []"
  shows "\<exists>e. decode_all dec inp = Inl e"
proof (cases "decode_all dec inp")
  case (Inl e)
  then show ?thesis by blast
next
  case (Inr b)
  then have "wf b" and "inp = enc b" and "length (enc b) < usize_bound"
    by (auto simp add: decode_all_iff)
  then have "rest = []" using prefix_free [of a b "[]" rest] assms by simp
  with assms show ?thesis by simp
qed

lemma extended_rejected:
  assumes "wf a" and "length (enc a) < usize_bound" and "rest \<noteq> []"
  shows "decode_all dec (enc a @ rest) = Inl TrailingBytes"
  using assms by (simp add: decode_all_def decode_new dec_finish_def)

lemma repeat_iff:
  "d_repeat n dec d = Inr (as, d') \<longleftrightarrow>
     length as = n \<and> (\<forall>a \<in> set as. wf a) \<and>
     (if n = 0 then d' = d else consumes d (concat (map enc as)) d')"
proof (induction n arbitrary: d as)
  case 0
  then show ?case by (auto simp: codec_simps)
next
  case (Suc n)
  show ?case
  proof (cases as)
    case Nil
    then show ?thesis by (auto simp: codec_simps)
  next
    case (Cons b bs)
    have "(\<exists>dm. wf b \<and> consumes d (enc b) dm \<and> d_repeat n dec dm = Inr (bs, d')) \<longleftrightarrow>
       length bs = n \<and> (\<forall>a \<in> set as. wf a) \<and> consumes d (concat (map enc as)) d'"
    proof (cases "n = 0")
      case True
      then show ?thesis using Cons by (auto simp: codec_simps)
    next
      case False
      then show ?thesis using Cons by (auto simp: Suc.IH consumes_append)
    qed
    then show ?thesis using Cons by (auto simp: codec_simps dec_iff)
  qed
qed

lemma array_iff:
  "read_array field limit dec d = Inr (as, d') \<longleftrightarrow>
     (length as \<le> min limit u32_max \<and> (\<forall>a \<in> set as. wf a)) \<and>
     consumes d (array_bytes enc as) d'"
proof -
  have "consumes dm [] d' \<longleftrightarrow> d' = dm" if "consumes d bs dm" for bs dm
    using that by (auto simp: consumes_def)
  then show ?thesis
    by (cases "as = []")
      (auto simp: read_array_def array_bytes_def codec_simps repeat_iff consumes_append)
qed

end

text \<open>An array of a format is again a format.\<close>

locale xdr_array = xdr_format +
  fixes field :: string and limit :: usize

sublocale xdr_array \<subseteq> array: xdr_format "array_bytes enc" "read_array field limit dec"
  "\<lambda>as. length as \<le> min limit u32_max \<and> (\<forall>a \<in> set as. wf a)"
  by unfold_locales (rule array_iff)

interpretation u32: xdr_format be32 read_u32 "\<lambda>_. True"
  by unfold_locales (simp add: codec_simps)

interpretation u64: xdr_format be64 read_u64 "\<lambda>_. True"
  by unfold_locales (simp add: codec_simps)

interpretation xbool: xdr_format bool_bytes read_bool "\<lambda>_. True"
  by unfold_locales (simp add: codec_simps)

interpretation fixed: xdr_format "\<lambda>bs. bs" "read_fixed n" "\<lambda>bs. length bs = n" for n
  by unfold_locales (simp add: codec_simps)

interpretation opaque: xdr_format opaque_bytes "read_opaque field limit"
  "\<lambda>bs. length bs \<le> min limit u32_max" for field limit
  by unfold_locales (simp add: codec_simps)

interpretation u32s: xdr_array be32 read_u32 "\<lambda>_. True" field limit for field limit
  by unfold_locales

section \<open>Encoders\<close>

lemma write_opaque_Inr [codec_simps]:
  "write_opaque v e = Inr e' \<longleftrightarrow>
     length v \<le> u32_max \<and> length e + length (opaque_bytes v) < usize_bound \<and>
     e' = e @ opaque_bytes v"
proof -
  have "Option.bind (Option.bind (checked_add a 4) (\<lambda>len. checked_add len n))
      (\<lambda>len. checked_add len p) =
      (if a + (4 + n + p) < usize_bound then Some (a + (4 + n + p)) else None)" for a n p
    by (auto simp: checked_add_def)
  then show ?thesis
    by (auto simp: write_opaque_def opaque_bytes_def vec_resize_def write_u32_def Let_def)
qed

text \<open>
  What an encoder promises: on an encodable value it appends the wire form, and a failure
  appends nothing that the caller keeps.
\<close>

locale xdr_encoder =
  fixes put :: "'a put" and wire :: "'a \<Rightarrow> bytes" and encodable :: "'a \<Rightarrow> bool"
  assumes put_sound: "put a e = Inr e' \<Longrightarrow> encodable a \<and> e' = e @ wire a"
    and put_complete: "encodable a \<Longrightarrow> length e + length (wire a) < usize_bound \<Longrightarrow>
      put a e = Inr (e @ wire a)"
begin

lemma put_length: "put a e = Inr e' \<Longrightarrow> length e' = length e + length (wire a)"
  by (auto dest: put_sound)

end

interpretation put_opaque: xdr_encoder write_opaque opaque_bytes "\<lambda>v. length v \<le> u32_max"
  by unfold_locales (auto simp: codec_simps)

lemma length_opaque_bytes [size_simps]:
  "length (opaque_bytes v) = 4 + length v + xdr_padding (length v)"
  by (simp add: opaque_bytes_def)

lemma length_bool_bytes [size_simps]: "length (bool_bytes b) = 4"
  by (simp add: bool_bytes_def)

lemma xdr_padding_less: "xdr_padding n < 4"
  by (simp add: xdr_padding_def)

lemma xdr_padding_aligned: "(n + xdr_padding n) mod 4 = 0"
proof -
  have "(n + xdr_padding n) mod 4 = (n mod 4 + (4 - n mod 4)) mod 4"
    by (metis mod_add_left_eq mod_add_right_eq xdr_padding_def)
  moreover have "n mod 4 + (4 - n mod 4) = 4"
    using mod_less_divisor [of 4 n] by linarith
  ultimately show ?thesis by simp
qed

end
