(* ===== verification/Vfs_Types.thy ===== *)
theory Vfs_Types
  imports Xdr_Codec
begin

text \<open>
  The values that cross the boundary between the protocol layer and the application's
  filesystem: \<^verbatim>\<open>src/vfs/types.rs\<close>, \<^verbatim>\<open>src/vfs/context.rs\<close>, \<^verbatim>\<open>src/vfs/capabilities.rs\<close> and
  \<^verbatim>\<open>src/nfs3/types.rs\<close>, and the filesystem contract itself, the trait \<open>VirtualFileSystem\<close> of
  \<^verbatim>\<open>src/vfs/mod.rs\<close>.

  The trait is a record of functions over a backend state \<open>'s\<close>: a method takes the state and
  returns its result with the new state.  The backend is application code, so it is a parameter
  of everything that calls it.  The default methods that the trait itself supplies are
  definitions here.
\<close>

section \<open>Identities, names and callers\<close>

type_synonym ExportId = u32

record ObjectKey =
  obj_file_id :: u64
  obj_generation :: u64

datatype IpAddr = V4 u8 u8 u8 u8 | V6 "u16 list"

record SocketAddr =
  sock_ip :: IpAddr
  sock_port :: u16

datatype Principal =
    Anonymous
  | AuthSys (auth_uid: u32) (auth_gid: u32) (auth_gids: "u32 list") (auth_machine: bytes)

record RequestContext =
  ctx_principal :: Principal
  ctx_client_addr :: SocketAddr
  ctx_export_id :: ExportId

section \<open>Errors and wire statuses\<close>

datatype NfsError =
    Err_Permission
  | Err_NotFound
  | Err_Io
  | Err_NoDeviceOrAddress
  | Err_Access
  | Err_Exists
  | Err_CrossDevice
  | Err_NoDevice
  | Err_NotDirectory
  | Err_IsDirectory
  | Err_Invalid
  | Err_FileTooLarge
  | Err_NoSpace
  | Err_ReadOnly
  | Err_TooManyLinks
  | Err_NameTooLong
  | Err_NotEmpty
  | Err_Quota
  | Err_Stale
  | Err_Remote
  | Err_NotSynchronized
  | Err_BadCookie
  | Err_NotSupported
  | Err_TooSmall
  | Err_ServerFault
  | Err_BadType
  | Err_Jukebox

datatype NfsStatus =
    Nfs_Ok
  | Nfs_Permission
  | Nfs_NotFound
  | Nfs_Io
  | Nfs_NoDeviceOrAddress
  | Nfs_Access
  | Nfs_Exists
  | Nfs_CrossDevice
  | Nfs_NoDevice
  | Nfs_NotDirectory
  | Nfs_IsDirectory
  | Nfs_Invalid
  | Nfs_FileTooLarge
  | Nfs_NoSpace
  | Nfs_ReadOnly
  | Nfs_TooManyLinks
  | Nfs_NameTooLong
  | Nfs_NotEmpty
  | Nfs_Quota
  | Nfs_Stale
  | Nfs_Remote
  | Nfs_BadHandle
  | Nfs_NotSynchronized
  | Nfs_BadCookie
  | Nfs_NotSupported
  | Nfs_TooSmall
  | Nfs_ServerFault
  | Nfs_BadType
  | Nfs_Jukebox

text \<open>The discriminants of the \<open>repr(u32)\<close> enumeration.\<close>

fun nfs_status_code :: "NfsStatus \<Rightarrow> u32" where
  "nfs_status_code Nfs_Ok = 0"
| "nfs_status_code Nfs_Permission = 1"
| "nfs_status_code Nfs_NotFound = 2"
| "nfs_status_code Nfs_Io = 5"
| "nfs_status_code Nfs_NoDeviceOrAddress = 6"
| "nfs_status_code Nfs_Access = 13"
| "nfs_status_code Nfs_Exists = 17"
| "nfs_status_code Nfs_CrossDevice = 18"
| "nfs_status_code Nfs_NoDevice = 19"
| "nfs_status_code Nfs_NotDirectory = 20"
| "nfs_status_code Nfs_IsDirectory = 21"
| "nfs_status_code Nfs_Invalid = 22"
| "nfs_status_code Nfs_FileTooLarge = 27"
| "nfs_status_code Nfs_NoSpace = 28"
| "nfs_status_code Nfs_ReadOnly = 30"
| "nfs_status_code Nfs_TooManyLinks = 31"
| "nfs_status_code Nfs_NameTooLong = 63"
| "nfs_status_code Nfs_NotEmpty = 66"
| "nfs_status_code Nfs_Quota = 69"
| "nfs_status_code Nfs_Stale = 70"
| "nfs_status_code Nfs_Remote = 71"
| "nfs_status_code Nfs_BadHandle = 10001"
| "nfs_status_code Nfs_NotSynchronized = 10002"
| "nfs_status_code Nfs_BadCookie = 10003"
| "nfs_status_code Nfs_NotSupported = 10004"
| "nfs_status_code Nfs_TooSmall = 10005"
| "nfs_status_code Nfs_ServerFault = 10006"
| "nfs_status_code Nfs_BadType = 10007"
| "nfs_status_code Nfs_Jukebox = 10008"

definition nfs_status_from_code :: "u32 \<Rightarrow> NfsStatus option" where
  "nfs_status_from_code value =
     (if value = 0 then Some Nfs_Ok
      else if value = 1 then Some Nfs_Permission
      else if value = 2 then Some Nfs_NotFound
      else if value = 5 then Some Nfs_Io
      else if value = 6 then Some Nfs_NoDeviceOrAddress
      else if value = 13 then Some Nfs_Access
      else if value = 17 then Some Nfs_Exists
      else if value = 18 then Some Nfs_CrossDevice
      else if value = 19 then Some Nfs_NoDevice
      else if value = 20 then Some Nfs_NotDirectory
      else if value = 21 then Some Nfs_IsDirectory
      else if value = 22 then Some Nfs_Invalid
      else if value = 27 then Some Nfs_FileTooLarge
      else if value = 28 then Some Nfs_NoSpace
      else if value = 30 then Some Nfs_ReadOnly
      else if value = 31 then Some Nfs_TooManyLinks
      else if value = 63 then Some Nfs_NameTooLong
      else if value = 66 then Some Nfs_NotEmpty
      else if value = 69 then Some Nfs_Quota
      else if value = 70 then Some Nfs_Stale
      else if value = 71 then Some Nfs_Remote
      else if value = 10001 then Some Nfs_BadHandle
      else if value = 10002 then Some Nfs_NotSynchronized
      else if value = 10003 then Some Nfs_BadCookie
      else if value = 10004 then Some Nfs_NotSupported
      else if value = 10005 then Some Nfs_TooSmall
      else if value = 10006 then Some Nfs_ServerFault
      else if value = 10007 then Some Nfs_BadType
      else if value = 10008 then Some Nfs_Jukebox
      else None)"

fun nfs_status_of_error :: "NfsError \<Rightarrow> NfsStatus" where
  "nfs_status_of_error Err_Permission = Nfs_Permission"
| "nfs_status_of_error Err_NotFound = Nfs_NotFound"
| "nfs_status_of_error Err_Io = Nfs_Io"
| "nfs_status_of_error Err_NoDeviceOrAddress = Nfs_NoDeviceOrAddress"
| "nfs_status_of_error Err_Access = Nfs_Access"
| "nfs_status_of_error Err_Exists = Nfs_Exists"
| "nfs_status_of_error Err_CrossDevice = Nfs_CrossDevice"
| "nfs_status_of_error Err_NoDevice = Nfs_NoDevice"
| "nfs_status_of_error Err_NotDirectory = Nfs_NotDirectory"
| "nfs_status_of_error Err_IsDirectory = Nfs_IsDirectory"
| "nfs_status_of_error Err_Invalid = Nfs_Invalid"
| "nfs_status_of_error Err_FileTooLarge = Nfs_FileTooLarge"
| "nfs_status_of_error Err_NoSpace = Nfs_NoSpace"
| "nfs_status_of_error Err_ReadOnly = Nfs_ReadOnly"
| "nfs_status_of_error Err_TooManyLinks = Nfs_TooManyLinks"
| "nfs_status_of_error Err_NameTooLong = Nfs_NameTooLong"
| "nfs_status_of_error Err_NotEmpty = Nfs_NotEmpty"
| "nfs_status_of_error Err_Quota = Nfs_Quota"
| "nfs_status_of_error Err_Stale = Nfs_Stale"
| "nfs_status_of_error Err_Remote = Nfs_Remote"
| "nfs_status_of_error Err_NotSynchronized = Nfs_NotSynchronized"
| "nfs_status_of_error Err_BadCookie = Nfs_BadCookie"
| "nfs_status_of_error Err_NotSupported = Nfs_NotSupported"
| "nfs_status_of_error Err_TooSmall = Nfs_TooSmall"
| "nfs_status_of_error Err_ServerFault = Nfs_ServerFault"
| "nfs_status_of_error Err_BadType = Nfs_BadType"
| "nfs_status_of_error Err_Jukebox = Nfs_Jukebox"

section \<open>Names\<close>

datatype NfsName = NfsName (name_bytes: bytes)

definition NFS_NAME_MAX_LEN :: usize where
  "NFS_NAME_MAX_LEN = 255"

definition nfs_name_new :: "bytes \<Rightarrow> NfsError + NfsName" where
  "nfs_name_new value =
     (if NFS_NAME_MAX_LEN < length value then Inl Err_NameTooLong
      else if value = [] \<or> 47 \<in> set value \<or> 0 \<in> set value then Inl Err_Invalid
      else Inr (NfsName value))"

section \<open>Attributes and results\<close>

datatype FileType =
    FT_Regular
  | FT_Directory
  | FT_BlockDevice
  | FT_CharacterDevice
  | FT_Symlink
  | FT_Socket
  | FT_Fifo

record DeviceNumber =
  dev_major :: u32
  dev_minor :: u32

record NfsTime =
  time_seconds :: u64
  time_nanoseconds :: u32

record FileAttributes =
  fa_file_type :: FileType
  fa_mode :: u32
  fa_links :: u32
  fa_uid :: u32
  fa_gid :: u32
  fa_size :: u64
  fa_used :: u64
  fa_device :: "DeviceNumber option"
  fa_fs_id :: u64
  fa_file_id :: u64
  fa_access_time :: NfsTime
  fa_modify_time :: NfsTime
  fa_change_time :: NfsTime

datatype SetTime = ServerTime | ClientTime NfsTime

record SetAttributes =
  sa_mode :: "u32 option"
  sa_uid :: "u32 option"
  sa_gid :: "u32 option"
  sa_size :: "u64 option"
  sa_access_time :: "SetTime option"
  sa_modify_time :: "SetTime option"

record WccAttributes =
  wcc_size :: u64
  wcc_modify_time :: NfsTime
  wcc_change_time :: NfsTime

record WccData =
  wcc_before :: "WccAttributes option"
  wcc_after :: "FileAttributes option"

record 'v MutationResult =
  mr_value :: 'v
  mr_before :: "WccAttributes option"
  mr_after :: "FileAttributes option"

datatype CreateMode = Unchecked | Guarded | Exclusive (exclusive_verifier: bytes)

record CreatedObject =
  co_object :: ObjectKey
  co_attributes :: "FileAttributes option"

datatype WriteStability = Unstable | DataSync | FileSync

record VfsWriteResult =
  vw_count :: u32
  vw_committed :: WriteStability

record VfsReadResult =
  vr_data :: bytes
  vr_eof :: bool
  vr_attributes :: "FileAttributes option"

record DirectoryEntry =
  de_object :: ObjectKey
  de_file_id :: u64
  de_name :: NfsName
  de_cookie :: u64
  de_attributes :: "FileAttributes option"

record ReadDirectoryPage =
  page_verifier :: bytes
  page_entries :: "DirectoryEntry list"
  page_eof :: bool

record FsStat =
  fs_total_bytes :: u64
  fs_free_bytes :: u64
  fs_available_bytes :: u64
  fs_total_files :: u64
  fs_free_files :: u64
  fs_available_files :: u64
  fs_invariant_seconds :: u32

record FsInfo =
  fi_max_read :: u32
  fi_preferred_read :: u32
  fi_read_multiple :: u32
  fi_max_write :: u32
  fi_preferred_write :: u32
  fi_write_multiple :: u32
  fi_preferred_readdir :: u32
  fi_max_file_size :: u64
  fi_time_granularity :: NfsTime

record PathConf =
  pc_max_links :: u32
  pc_max_name_length :: u32
  pc_no_truncation :: bool
  pc_chown_restricted :: bool
  pc_case_insensitive :: bool
  pc_case_preserving :: bool

datatype NodeType =
    Node_BlockDevice u32 u32
  | Node_CharacterDevice u32 u32
  | Node_Socket
  | Node_Fifo

definition device_number_default :: DeviceNumber where
  "device_number_default = \<lparr>dev_major = 0, dev_minor = 0\<rparr>"

definition set_attributes_default :: SetAttributes where
  "set_attributes_default =
     \<lparr>sa_mode = None, sa_uid = None, sa_gid = None, sa_size = None,
      sa_access_time = None, sa_modify_time = None\<rparr>"

definition wcc_data_default :: WccData where
  "wcc_data_default = \<lparr>wcc_before = None, wcc_after = None\<rparr>"

section \<open>The filesystem contract\<close>

record VfsCapabilities =
  cap_read_only :: bool
  cap_hard_links :: bool
  cap_symbolic_links :: bool
  cap_mknod :: bool
  cap_homogeneous :: bool
  cap_can_set_time :: bool

definition CAPABILITIES_READ_ONLY :: VfsCapabilities where
  "CAPABILITIES_READ_ONLY =
     \<lparr>cap_read_only = True, cap_hard_links = False, cap_symbolic_links = False,
      cap_mknod = False, cap_homogeneous = True, cap_can_set_time = False\<rparr>"

definition CAPABILITIES_READ_WRITE :: VfsCapabilities where
  "CAPABILITIES_READ_WRITE =
     \<lparr>cap_read_only = False, cap_hard_links = True, cap_symbolic_links = True,
      cap_mknod = True, cap_homogeneous = True, cap_can_set_time = True\<rparr>"

type_synonym ('s, 'r) vfs_op = "'s \<Rightarrow> (NfsError + 'r) \<times> 's"

record 's Vfs =
  vfs_capabilities :: "'s \<Rightarrow> VfsCapabilities"
  vfs_root :: "'s \<Rightarrow> ObjectKey"
  vfs_getattr :: "RequestContext \<Rightarrow> ObjectKey \<Rightarrow> ('s, FileAttributes) vfs_op"
  vfs_lookup :: "RequestContext \<Rightarrow> ObjectKey \<Rightarrow> NfsName \<Rightarrow> ('s, CreatedObject) vfs_op"
  vfs_access :: "RequestContext \<Rightarrow> ObjectKey \<Rightarrow> u32 \<Rightarrow> ('s, u32) vfs_op"
  vfs_setattr :: "RequestContext \<Rightarrow> ObjectKey \<Rightarrow> SetAttributes \<Rightarrow> NfsTime option \<Rightarrow>
    ('s, unit MutationResult) vfs_op"
  vfs_readlink :: "RequestContext \<Rightarrow> ObjectKey \<Rightarrow> ('s, bytes) vfs_op"
  vfs_read_bytes :: "RequestContext \<Rightarrow> ObjectKey \<Rightarrow> u64 \<Rightarrow> u32 \<Rightarrow> ('s, VfsReadResult) vfs_op"
  vfs_write :: "RequestContext \<Rightarrow> ObjectKey \<Rightarrow> u64 \<Rightarrow> bytes \<Rightarrow> WriteStability \<Rightarrow>
    ('s, VfsWriteResult MutationResult) vfs_op"
  vfs_create :: "RequestContext \<Rightarrow> ObjectKey \<Rightarrow> NfsName \<Rightarrow> SetAttributes \<Rightarrow> CreateMode \<Rightarrow>
    ('s, CreatedObject MutationResult) vfs_op"
  vfs_mkdir :: "RequestContext \<Rightarrow> ObjectKey \<Rightarrow> NfsName \<Rightarrow> SetAttributes \<Rightarrow>
    ('s, CreatedObject MutationResult) vfs_op"
  vfs_symlink :: "RequestContext \<Rightarrow> ObjectKey \<Rightarrow> NfsName \<Rightarrow> bytes \<Rightarrow> SetAttributes \<Rightarrow>
    ('s, CreatedObject MutationResult) vfs_op"
  vfs_mknod :: "RequestContext \<Rightarrow> ObjectKey \<Rightarrow> NfsName \<Rightarrow> NodeType \<Rightarrow> SetAttributes \<Rightarrow>
    ('s, CreatedObject MutationResult) vfs_op"
  vfs_remove :: "RequestContext \<Rightarrow> ObjectKey \<Rightarrow> NfsName \<Rightarrow> ('s, unit MutationResult) vfs_op"
  vfs_rmdir :: "RequestContext \<Rightarrow> ObjectKey \<Rightarrow> NfsName \<Rightarrow> ('s, unit MutationResult) vfs_op"
  vfs_rename :: "RequestContext \<Rightarrow> ObjectKey \<Rightarrow> NfsName \<Rightarrow> ObjectKey \<Rightarrow> NfsName \<Rightarrow>
    ('s, unit MutationResult \<times> unit MutationResult) vfs_op"
  vfs_link :: "RequestContext \<Rightarrow> ObjectKey \<Rightarrow> ObjectKey \<Rightarrow> NfsName \<Rightarrow>
    ('s, unit MutationResult) vfs_op"
  vfs_readdir :: "RequestContext \<Rightarrow> ObjectKey \<Rightarrow> u64 \<Rightarrow> bytes \<Rightarrow> usize \<Rightarrow>
    ('s, ReadDirectoryPage) vfs_op"
  vfs_fsstat :: "RequestContext \<Rightarrow> ObjectKey \<Rightarrow> ('s, FsStat) vfs_op"
  vfs_fsinfo :: "RequestContext \<Rightarrow> ObjectKey \<Rightarrow> ('s, FsInfo) vfs_op"
  vfs_pathconf :: "RequestContext \<Rightarrow> ObjectKey \<Rightarrow> ('s, PathConf) vfs_op"
  vfs_commit :: "RequestContext \<Rightarrow> ObjectKey \<Rightarrow> u64 \<Rightarrow> u32 \<Rightarrow> ('s, unit MutationResult) vfs_op"

definition unsupported_mutation :: "VfsCapabilities \<Rightarrow> NfsError" where
  "unsupported_mutation caps = (if cap_read_only caps then Err_ReadOnly else Err_NotSupported)"

text \<open>
  A backend that supplies the required methods \<open>capabilities\<close>, \<open>root\<close>, \<open>getattr\<close> and \<open>lookup\<close>
  and inherits every default of the trait.
\<close>

definition vfs_with_defaults ::
  "('s \<Rightarrow> VfsCapabilities) \<Rightarrow> ('s \<Rightarrow> ObjectKey) \<Rightarrow>
   (RequestContext \<Rightarrow> ObjectKey \<Rightarrow> ('s, FileAttributes) vfs_op) \<Rightarrow>
   (RequestContext \<Rightarrow> ObjectKey \<Rightarrow> NfsName \<Rightarrow> ('s, CreatedObject) vfs_op) \<Rightarrow> 's Vfs" where
  "vfs_with_defaults capabilities root getattr lookup =
     \<lparr>vfs_capabilities = capabilities,
      vfs_root = root,
      vfs_getattr = getattr,
      vfs_lookup = lookup,
      vfs_access = (\<lambda>_ _ _ s. (Inl Err_NotSupported, s)),
      vfs_setattr = (\<lambda>_ _ _ _ s. (Inl (unsupported_mutation (capabilities s)), s)),
      vfs_readlink = (\<lambda>_ _ s. (Inl Err_NotSupported, s)),
      vfs_read_bytes = (\<lambda>_ _ _ _ s. (Inl Err_NotSupported, s)),
      vfs_write = (\<lambda>_ _ _ _ _ s. (Inl (unsupported_mutation (capabilities s)), s)),
      vfs_create = (\<lambda>_ _ _ _ _ s. (Inl (unsupported_mutation (capabilities s)), s)),
      vfs_mkdir = (\<lambda>_ _ _ _ s. (Inl (unsupported_mutation (capabilities s)), s)),
      vfs_symlink = (\<lambda>_ _ _ _ _ s. (Inl (unsupported_mutation (capabilities s)), s)),
      vfs_mknod = (\<lambda>_ _ _ _ _ s. (Inl (unsupported_mutation (capabilities s)), s)),
      vfs_remove = (\<lambda>_ _ _ s. (Inl (unsupported_mutation (capabilities s)), s)),
      vfs_rmdir = (\<lambda>_ _ _ s. (Inl (unsupported_mutation (capabilities s)), s)),
      vfs_rename = (\<lambda>_ _ _ _ _ s. (Inl (unsupported_mutation (capabilities s)), s)),
      vfs_link = (\<lambda>_ _ _ _ s. (Inl (unsupported_mutation (capabilities s)), s)),
      vfs_readdir = (\<lambda>_ _ _ _ _ s. (Inl Err_NotSupported, s)),
      vfs_fsstat = (\<lambda>_ _ s. (Inl Err_NotSupported, s)),
      vfs_fsinfo = (\<lambda>_ _ s. (Inl Err_NotSupported, s)),
      vfs_pathconf = (\<lambda>_ _ s. (Inl Err_NotSupported, s)),
      vfs_commit = (\<lambda>_ _ _ _ s. (Inl (unsupported_mutation (capabilities s)), s))\<rparr>"

section \<open>Lemmas\<close>

lemma nfs_status_from_code_Some:
  "nfs_status_from_code c = Some s \<longleftrightarrow> nfs_status_code s = c"
  by (cases s) (auto simp: nfs_status_from_code_def)

lemma nfs_name_new_Inr:
  "nfs_name_new v = Inr n \<longleftrightarrow>
     n = NfsName v \<and> v \<noteq> [] \<and> length v \<le> 255 \<and> 47 \<notin> set v \<and> 0 \<notin> set v"
  by (auto simp: nfs_name_new_def NFS_NAME_MAX_LEN_def)

end
