(* ===== verification/Replay_Cache.thy ===== *)
theory Replay_Cache
  imports Encoded_Reply Vfs_Types "HOL-Library.AList"
begin

text \<open>
  The duplicate-request cache, \<^verbatim>\<open>src/replay/cache.rs\<close>.

  The two hash maps are association lists with distinct keys (an invariant), updated by
  \<open>AList.update\<close> and \<open>AList.delete\<close>.  An \<open>Instant\<close> is a natural number and \<open>now\<close> an argument.
  A \<open>oneshot\<close> channel is its number: \<open>begin\<close> is given the number of the channel it would create and
  the predicate that tells which receivers have been dropped, and a \<open>send\<close> is an element of the list
  of deliveries that the operation returns.  Each definition of an operation is one critical section
  of the mutex; \<open>complete\<close> has two of them, and other operations may run in between.

  The lemmas show that every operation keeps the invariant of the cache; the machine that
  interleaves the critical sections of any number of requests is in \<open>Replay_Machine\<close>.
\<close>

section \<open>Data\<close>

record ReplayKey =
  rk_client_addr :: SocketAddr
  rk_export_id :: ExportId
  rk_xid :: u32

datatype RequestFingerprint = RequestFingerprint bytes

datatype ReplayError = ErrCapacity | ErrCancelled

record ReplayEntryKey =
  ek_request :: ReplayKey
  ek_fingerprint :: RequestFingerprint
  ek_generation :: u64

record LatestGeneration =
  lg_fingerprint :: RequestFingerprint
  lg_generation :: u64

type_synonym channel = nat

datatype ReplayState =
    InFlight "channel list"
  | Completed EncodedReply usize nat

datatype ReplayDecision =
    Execute ReplayEntryKey
  | Replay EncodedReply
  | Wait channel

record ReplayLease =
  lease_key :: ReplayEntryKey
  lease_finished :: bool

record ReplayConfig =
  rc_capacity :: usize
  rc_max_completed_bytes :: usize
  rc_ttl :: nat

record CacheInner =
  ci_entries :: "(ReplayEntryKey \<times> ReplayState) list"
  ci_latest :: "(ReplayKey \<times> LatestGeneration) list"
  ci_completed_order :: "ReplayEntryKey list"
  ci_completed_bytes :: usize
  ci_next_generation :: u64

type_synonym delivery = "channel \<times> (ReplayError + EncodedReply)"

section \<open>Operations\<close>

definition cache_new :: "usize \<Rightarrow> usize \<Rightarrow> nat \<Rightarrow> ReplayConfig \<times> CacheInner" where
  "cache_new capacity max_completed_bytes ttl =
     (\<lparr>rc_capacity = capacity, rc_max_completed_bytes = max_completed_bytes, rc_ttl = ttl\<rparr>,
      \<lparr>ci_entries = [], ci_latest = [], ci_completed_order = [], ci_completed_bytes = 0,
       ci_next_generation = 0\<rparr>)"

definition is_latest :: "CacheInner \<Rightarrow> ReplayEntryKey \<Rightarrow> bool" where
  "is_latest inner key =
     (case map_of (ci_latest inner) (ek_request key) of
        None \<Rightarrow> False
      | Some latest \<Rightarrow> lg_generation latest = ek_generation key \<and>
          lg_fingerprint latest = ek_fingerprint key)"

fun is_completed :: "ReplayState option \<Rightarrow> bool" where
  "is_completed (Some (Completed _ _ _)) = True"
| "is_completed _ = False"

definition entries_remove :: "ReplayEntryKey \<Rightarrow> CacheInner \<Rightarrow> CacheInner" where
  "entries_remove key inner = inner\<lparr>ci_entries := AList.delete key (ci_entries inner)\<rparr>"

definition latest_remove :: "ReplayKey \<Rightarrow> CacheInner \<Rightarrow> CacheInner" where
  "latest_remove request inner = inner\<lparr>ci_latest := AList.delete request (ci_latest inner)\<rparr>"

definition remove_completed :: "ReplayEntryKey \<Rightarrow> CacheInner \<Rightarrow> CacheInner" where
  "remove_completed key inner =
     (let inner' =
        (case map_of (ci_entries inner) key of
           Some (Completed _ retained_bytes _) \<Rightarrow>
             (entries_remove key inner)
               \<lparr>ci_completed_bytes := saturating_sub (ci_completed_bytes inner) retained_bytes\<rparr>
         | _ \<Rightarrow> entries_remove key inner) in
      if is_latest inner' key then latest_remove (ek_request key) inner' else inner')"

definition pop_order :: "CacheInner \<Rightarrow> CacheInner" where
  "pop_order inner = inner\<lparr>ci_completed_order := tl (ci_completed_order inner)\<rparr>"

function expire :: "nat \<Rightarrow> nat \<Rightarrow> CacheInner \<Rightarrow> CacheInner" where
  "expire now ttl inner =
     (case ci_completed_order inner of
        [] \<Rightarrow> inner
      | oldest # _ \<Rightarrow>
          (case map_of (ci_entries inner) oldest of
             Some (Completed _ _ completed_at) \<Rightarrow>
               if now - completed_at < ttl then inner
               else expire now ttl (remove_completed oldest (pop_order inner))
           | _ \<Rightarrow> expire now ttl (pop_order inner)))"
  by pat_completeness auto
termination
proof -
  have "ci_completed_order (remove_completed k i) = ci_completed_order i" for k i
    by (simp add: remove_completed_def latest_remove_def entries_remove_def Let_def
        split: option.split ReplayState.split)
  then show ?thesis
    by (relation "measure (\<lambda>(now, ttl, inner). length (ci_completed_order inner))")
      (auto simp: pop_order_def)
qed

declare expire.simps [simp del]

function evict_oldest_completed :: "CacheInner \<Rightarrow> bool \<times> CacheInner" where
  "evict_oldest_completed inner =
     (case ci_completed_order inner of
        [] \<Rightarrow> (False, inner)
      | oldest # _ \<Rightarrow>
          if is_completed (map_of (ci_entries inner) oldest)
          then (True, remove_completed oldest (pop_order inner))
          else evict_oldest_completed (pop_order inner))"
  by pat_completeness auto
termination
  by (relation "measure (\<lambda>inner. length (ci_completed_order inner))") (auto simp: pop_order_def)

declare evict_oldest_completed.simps [simp del]

definition remove_completed_for_request :: "ReplayKey \<Rightarrow> CacheInner \<Rightarrow> CacheInner" where
  "remove_completed_for_request request inner =
     (case map_of (ci_latest inner) request of
        None \<Rightarrow> inner
      | Some latest \<Rightarrow>
          let key = \<lparr>ek_request = request, ek_fingerprint = lg_fingerprint latest,
                     ek_generation = lg_generation latest\<rparr> in
          if is_completed (map_of (ci_entries inner) key) then remove_completed key inner else inner)"

definition begin_fresh ::
  "ReplayConfig \<Rightarrow> ReplayKey \<Rightarrow> RequestFingerprint \<Rightarrow> CacheInner \<Rightarrow>
   (ReplayError + ReplayDecision) \<times> CacheInner" where
  "begin_fresh c key fingerprint inner0 =
     (let inner = remove_completed_for_request key inner0;
          (room, inner) =
            (if rc_capacity c \<le> length (ci_entries inner) then evict_oldest_completed inner
             else (True, inner)) in
      if \<not> room then (Inl ErrCapacity, inner)
      else
        let generation = ci_next_generation inner;
            entry_key = \<lparr>ek_request = key, ek_fingerprint = fingerprint, ek_generation = generation\<rparr> in
        (Inr (Execute entry_key),
         inner\<lparr>ci_next_generation := generation + 1,
               ci_latest := AList.update key
                 \<lparr>lg_fingerprint = fingerprint, lg_generation = generation\<rparr> (ci_latest inner),
               ci_entries := AList.update entry_key (InFlight []) (ci_entries inner)\<rparr>))"

definition replay_begin ::
  "ReplayConfig \<Rightarrow> nat \<Rightarrow> (channel \<Rightarrow> bool) \<Rightarrow> channel \<Rightarrow> ReplayKey \<Rightarrow> RequestFingerprint \<Rightarrow>
   CacheInner \<Rightarrow> (ReplayError + ReplayDecision) \<times> CacheInner" where
  "replay_begin c now is_closed new_channel key fingerprint inner0 =
     (let inner = expire now (rc_ttl c) inner0 in
      case map_of (ci_latest inner) key of
        None \<Rightarrow> begin_fresh c key fingerprint inner
      | Some latest \<Rightarrow>
          if lg_fingerprint latest = fingerprint then
            let entry_key = \<lparr>ek_request = key, ek_fingerprint = fingerprint,
                             ek_generation = lg_generation latest\<rparr> in
            case map_of (ci_entries inner) entry_key of
              Some (InFlight waiters) \<Rightarrow>
                (Inr (Wait new_channel),
                 inner\<lparr>ci_entries := AList.update entry_key
                   (InFlight (filter (\<lambda>w. \<not> is_closed w) waiters @ [new_channel]))
                   (ci_entries inner)\<rparr>)
            | Some (Completed encoded_reply _ _) \<Rightarrow> (Inr (Replay encoded_reply), inner)
            | None \<Rightarrow> begin_fresh c key fingerprint inner
          else begin_fresh c key fingerprint inner)"

definition compact_completion_order :: "CacheInner \<Rightarrow> CacheInner" where
  "compact_completion_order inner =
     (let compact_at = max (saturating_mul (length (ci_entries inner)) 2) 64 in
      if compact_at < length (ci_completed_order inner)
      then inner\<lparr>ci_completed_order :=
             filter (\<lambda>key. is_completed (map_of (ci_entries inner) key)) (ci_completed_order inner)\<rparr>
      else inner)"

text \<open>The \<open>while\<close> loop that makes room for a reply; it stops when nothing is left to evict.\<close>

function make_room :: "usize \<Rightarrow> usize \<Rightarrow> CacheInner \<Rightarrow> CacheInner" where
  "make_room max_completed_bytes retained_bytes inner =
     (if max_completed_bytes < saturating_add (ci_completed_bytes inner) retained_bytes
      then case evict_oldest_completed inner of
             (True, inner') \<Rightarrow> make_room max_completed_bytes retained_bytes inner'
           | (False, inner') \<Rightarrow> inner'
      else inner)"
  by pat_completeness auto
termination
proof -
  have order: "ci_completed_order (remove_completed k i) = ci_completed_order i" for k i
    by (simp add: remove_completed_def latest_remove_def entries_remove_def Let_def
        split: option.split ReplayState.split)
  have "evict_oldest_completed i = (True, i') \<Longrightarrow>
      length (ci_completed_order i') < length (ci_completed_order i)" for i i'
  proof (induction i rule: evict_oldest_completed.induct)
    case (1 i)
    then show ?case
      by (auto simp: evict_oldest_completed.simps [of i] order pop_order_def
          split: list.splits if_splits)
  qed
  then show ?thesis
    by (relation "measure (\<lambda>(m, r, inner). length (ci_completed_order inner))") auto
qed

declare make_room.simps [simp del]

text \<open>The first critical section of \<open>complete\<close>: whether the reply may be retained, and its storage.\<close>

definition complete_prepare ::
  "(usize \<Rightarrow> usize) \<Rightarrow> ReplayConfig \<Rightarrow> ReplayEntryKey \<Rightarrow> EncodedReply \<Rightarrow> CacheInner \<Rightarrow>
   (EncodedReply \<times> usize) option" where
  "complete_prepare capacity c key reply inner =
     (let cacheable_wire_size = (reply_len reply \<le> rc_max_completed_bytes c);
          eligible_before_copy = (cacheable_wire_size \<and>
            (\<not> replay_storage_requires_copy reply \<or>
             is_latest inner key \<and>
             (case map_of (ci_entries inner) key of Some (InFlight _) \<Rightarrow> True | _ \<Rightarrow> False))) in
      if eligible_before_copy then Some (replay_storage capacity reply) else None)"

definition retain_completed ::
  "ReplayConfig \<Rightarrow> nat \<Rightarrow> ReplayEntryKey \<Rightarrow> EncodedReply \<Rightarrow> usize \<Rightarrow> CacheInner \<Rightarrow> bool \<times> CacheInner" where
  "retain_completed c now key encoded_reply retained_bytes inner =
     (if retained_bytes \<le> rc_max_completed_bytes c then
        let inner1 = make_room (rc_max_completed_bytes c) retained_bytes inner in
        if saturating_add (ci_completed_bytes inner1) retained_bytes \<le> rc_max_completed_bytes c then
          (True, compact_completion_order
             (inner1\<lparr>ci_completed_bytes := saturating_add (ci_completed_bytes inner1) retained_bytes,
                     ci_entries := AList.update key (Completed encoded_reply retained_bytes now)
                       (ci_entries inner1),
                     ci_completed_order := ci_completed_order inner1 @ [key]\<rparr>))
        else (False, inner1)
      else (False, inner))"

text \<open>The second critical section of \<open>complete\<close>.\<close>

definition complete_commit ::
  "ReplayConfig \<Rightarrow> nat \<Rightarrow> ReplayEntryKey \<Rightarrow> EncodedReply \<Rightarrow> (EncodedReply \<times> usize) option \<Rightarrow>
   CacheInner \<Rightarrow> delivery list \<times> CacheInner" where
  "complete_commit c now key reply storage inner0 =
     (case map_of (ci_entries inner0) key of
        Some (InFlight waiters) \<Rightarrow>
          let inner = entries_remove key inner0;
              latest = is_latest inner key;
              (retained, inner1) =
                (case storage of
                   Some (encoded_reply, retained_bytes) \<Rightarrow>
                     if latest then retain_completed c now key encoded_reply retained_bytes inner
                     else (False, inner)
                 | None \<Rightarrow> (False, inner));
              inner2 = (if latest \<and> \<not> retained then latest_remove (ek_request key) inner1 else inner1) in
          (map (\<lambda>w. (w, Inr reply)) waiters, inner2)
      | Some state \<Rightarrow>
          ([], (entries_remove key inner0)
             \<lparr>ci_entries := AList.update key state (AList.delete key (ci_entries inner0))\<rparr>)
      | None \<Rightarrow> ([], entries_remove key inner0))"

definition replay_complete ::
  "(usize \<Rightarrow> usize) \<Rightarrow> ReplayConfig \<Rightarrow> nat \<Rightarrow> ReplayEntryKey \<Rightarrow> EncodedReply \<Rightarrow> CacheInner \<Rightarrow>
   delivery list \<times> CacheInner" where
  "replay_complete capacity c now key reply inner =
     complete_commit c now key reply (complete_prepare capacity c key reply inner) inner"

definition replay_cancel :: "ReplayEntryKey \<Rightarrow> CacheInner \<Rightarrow> delivery list \<times> CacheInner" where
  "replay_cancel key inner0 =
     (let (waiters, inner) =
        (case map_of (ci_entries inner0) key of
           Some (InFlight waiters) \<Rightarrow> (waiters, entries_remove key inner0)
         | Some state \<Rightarrow>
             ([], (entries_remove key inner0)
                \<lparr>ci_entries := AList.update key state (AList.delete key (ci_entries inner0))\<rparr>)
         | None \<Rightarrow> ([], entries_remove key inner0)) in
      (map (\<lambda>w. (w, Inl ErrCancelled)) waiters,
       if is_latest inner key then latest_remove (ek_request key) inner else inner))"

definition cache_len :: "CacheInner \<Rightarrow> usize" where
  "cache_len inner = length (ci_entries inner)"

definition cache_is_empty :: "CacheInner \<Rightarrow> bool" where
  "cache_is_empty inner \<longleftrightarrow> ci_entries inner = []"

definition cache_retained_bytes :: "CacheInner \<Rightarrow> usize" where
  "cache_retained_bytes inner = ci_completed_bytes inner"

subsection \<open>Leases\<close>

definition lease_complete ::
  "(usize \<Rightarrow> usize) \<Rightarrow> ReplayConfig \<Rightarrow> nat \<Rightarrow> EncodedReply \<Rightarrow> ReplayLease \<Rightarrow> CacheInner \<Rightarrow>
   ReplayLease \<times> delivery list \<times> CacheInner" where
  "lease_complete capacity c now reply lease inner =
     (let (sent, inner') = replay_complete capacity c now (lease_key lease) reply inner in
      (lease\<lparr>lease_finished := True\<rparr>, sent, inner'))"

definition lease_cancel :: "ReplayLease \<Rightarrow> CacheInner \<Rightarrow> ReplayLease \<times> delivery list \<times> CacheInner" where
  "lease_cancel lease inner =
     (let (sent, inner') = replay_cancel (lease_key lease) inner in
      (lease\<lparr>lease_finished := True\<rparr>, sent, inner'))"

definition lease_drop :: "ReplayLease \<Rightarrow> CacheInner \<Rightarrow> delivery list \<times> CacheInner" where
  "lease_drop lease inner =
     (if \<not> lease_finished lease then replay_cancel (lease_key lease) inner else ([], inner))"

section \<open>Invariant\<close>

abbreviation entry :: "CacheInner \<Rightarrow> ReplayEntryKey \<Rightarrow> ReplayState option" where
  "entry inner \<equiv> map_of (ci_entries inner)"

abbreviation latest :: "CacheInner \<Rightarrow> ReplayKey \<Rightarrow> LatestGeneration option" where
  "latest inner \<equiv> map_of (ci_latest inner)"

definition latest_key :: "ReplayKey \<Rightarrow> LatestGeneration \<Rightarrow> ReplayEntryKey" where
  "latest_key request l =
     \<lparr>ek_request = request, ek_fingerprint = lg_fingerprint l, ek_generation = lg_generation l\<rparr>"

fun state_bytes :: "ReplayState \<Rightarrow> usize" where
  "state_bytes (InFlight _) = 0"
| "state_bytes (Completed _ n _) = n"

definition entries_bytes :: "(ReplayEntryKey \<times> ReplayState) list \<Rightarrow> usize" where
  "entries_bytes es = sum_list (map (\<lambda>e. state_bytes (snd e)) es)"

fun completed_time :: "ReplayState option \<Rightarrow> nat option" where
  "completed_time (Some (Completed _ _ t)) = Some t"
| "completed_time _ = None"

text \<open>Of two retained replies, the first was completed no later than the second.\<close>

definition older :: "CacheInner \<Rightarrow> ReplayEntryKey \<Rightarrow> ReplayEntryKey \<Rightarrow> bool" where
  "older inner k k' \<longleftrightarrow>
     (\<forall>t t'. completed_time (entry inner k) = Some t \<longrightarrow>
        completed_time (entry inner k') = Some t' \<longrightarrow> t \<le> t')"

text \<open>
  \<open>cache_inv c t X\<close>: the invariant of the cache at a time \<open>t\<close> at which every retained reply has been
  completed.  A latest generation has an entry, except for a key of \<open>X\<close> that \<open>complete\<close> has just
  taken out.
\<close>

definition cache_inv :: "ReplayConfig \<Rightarrow> nat \<Rightarrow> ReplayEntryKey set \<Rightarrow> CacheInner \<Rightarrow> bool" where
  "cache_inv c t X inner \<longleftrightarrow>
     distinct (map fst (ci_entries inner)) \<and> distinct (map fst (ci_latest inner)) \<and>
     distinct (ci_completed_order inner) \<and>
     ci_completed_bytes inner = entries_bytes (ci_entries inner) \<and>
     ci_completed_bytes inner \<le> rc_max_completed_bytes c \<and>
     length (ci_completed_order inner) \<le> max 64 (2 * rc_capacity c) \<and>
     (\<forall>k. is_completed (entry inner k) \<longrightarrow> k \<in> set (ci_completed_order inner) \<and> is_latest inner k) \<and>
     (\<forall>r l. latest inner r = Some l \<longrightarrow> entry inner (latest_key r l) \<noteq> None \<or> latest_key r l \<in> X) \<and>
     (\<forall>k. entry inner k \<noteq> None \<or> k \<in> set (ci_completed_order inner) \<or> k \<in> X \<longrightarrow>
        ek_generation k < ci_next_generation inner) \<and>
     (\<forall>k w. k \<in> set (ci_completed_order inner) \<longrightarrow> entry inner k \<noteq> Some (InFlight w) \<and> k \<notin> X) \<and>
     sorted_wrt (older inner) (ci_completed_order inner) \<and>
     (\<forall>k x. completed_time (entry inner k) = Some x \<longrightarrow> x \<le> t)"

definition cache_ok :: "ReplayConfig \<Rightarrow> nat \<Rightarrow> CacheInner \<Rightarrow> bool" where
  "cache_ok c t inner \<longleftrightarrow> cache_inv c t {} inner \<and> length (ci_entries inner) \<le> rc_capacity c"

text \<open>
  \<open>drops i i'\<close>: all that happened is that some retained replies were dropped, together with the
  record of their latest generation.
\<close>

definition drops :: "CacheInner \<Rightarrow> CacheInner \<Rightarrow> bool" where
  "drops i i' \<longleftrightarrow>
     (\<forall>k. entry i' k = entry i k \<or> is_completed (entry i k) \<and> entry i' k = None) \<and>
     (\<forall>r. latest i' r = latest i r \<or>
        latest i' r = None \<and> (\<exists>l. latest i r = Some l \<and> is_completed (entry i (latest_key r l)) \<and>
          entry i' (latest_key r l) = None)) \<and>
     set (ci_completed_order i') \<subseteq> set (ci_completed_order i) \<and>
     ci_next_generation i' = ci_next_generation i \<and>
     length (ci_entries i') \<le> length (ci_entries i)"

text \<open>Opening a generation in a state that holds no completed reply for the request.\<close>

definition open_generation :: "ReplayKey \<Rightarrow> RequestFingerprint \<Rightarrow> CacheInner \<Rightarrow> CacheInner" where
  "open_generation r fp i =
     (let l = \<lparr>lg_fingerprint = fp, lg_generation = ci_next_generation i\<rparr> in
      i\<lparr>ci_next_generation := ci_next_generation i + 1,
        ci_latest := AList.update r l (ci_latest i),
        ci_entries := AList.update (latest_key r l) (InFlight []) (ci_entries i)\<rparr>)"

text \<open>Replacing the waiters of an entry.\<close>

definition set_waiters :: "ReplayEntryKey \<Rightarrow> channel list \<Rightarrow> CacheInner \<Rightarrow> CacheInner" where
  "set_waiters k ws i = i\<lparr>ci_entries := AList.update k (InFlight ws) (ci_entries i)\<rparr>"

section \<open>Lemmas on dropping replies\<close>

declare map_of_eq_Some_iff [simp del] Some_eq_map_of_iff [simp del]

lemma is_completed_iff: "is_completed s \<longleftrightarrow> (\<exists>r n t. s = Some (Completed r n t))"
  by (cases s rule: is_completed.cases) auto

lemma is_latest_iff: "is_latest i k \<longleftrightarrow> (\<exists>l. latest i (ek_request k) = Some l \<and> k = latest_key (ek_request k) l)"
  by (cases k) (auto simp: is_latest_def latest_key_def split: option.splits)

lemma latest_key_inject [simp]: "latest_key r l = latest_key r' l' \<longleftrightarrow> r = r' \<and> l = l'"
  by (cases l, cases l') (auto simp: latest_key_def)

lemma ek_request_latest_key [simp]: "ek_request (latest_key r l) = r"
  by (simp add: latest_key_def)

lemma drops_refl: "drops i i"
  by (simp add: drops_def)

lemma drops_trans:
  assumes "drops i j" and "drops j k"
  shows "drops i k"
proof -
  have "entry k x = entry i x \<or> is_completed (entry i x) \<and> entry k x = None" for x
    using assms unfolding drops_def by (metis)
  moreover have "latest k r = latest i r \<or>
      latest k r = None \<and> (\<exists>l. latest i r = Some l \<and> is_completed (entry i (latest_key r l)) \<and>
        entry k (latest_key r l) = None)" for r
    using assms unfolding drops_def by (metis is_completed.simps(3))
  moreover have "set (ci_completed_order k) \<subseteq> set (ci_completed_order i) \<and>
      ci_next_generation k = ci_next_generation i \<and> length (ci_entries k) \<le> length (ci_entries i)"
    using assms unfolding drops_def by auto
  ultimately show ?thesis unfolding drops_def by blast
qed

lemma entries_bytes_remove:
  assumes "distinct (map fst es)" and "map_of es k = Some s"
  shows "entries_bytes es = state_bytes s + entries_bytes (AList.delete k es)"
    and "length es = Suc (length (AList.delete k es))"
proof -
  have "entries_bytes es = state_bytes s + entries_bytes (AList.delete k es) \<and>
      length es = Suc (length (AList.delete k es))"
    using assms
  proof (induction es)
    case (Cons e es)
    show ?case
    proof (cases "fst e = k")
      case True
      then have "AList.delete k es = es"
        using Cons.prems(1) by (auto intro!: AList.delete_id)
      then show ?thesis using True Cons.prems(2) by (cases e) (simp add: entries_bytes_def)
    next
      case False
      then show ?thesis using Cons by (cases e) (simp add: entries_bytes_def)
    qed
  qed simp
  then show "entries_bytes es = state_bytes s + entries_bytes (AList.delete k es)"
    and "length es = Suc (length (AList.delete k es))" by blast+
qed

lemma entries_update_fresh:
  assumes "map_of es k = None"
  shows "AList.update k s es = es @ [(k, s)]"
  using assms by (induction es) (auto split: if_splits)

lemmas alist_simps = AList.update_conv' AList.delete_conv' AList.distinct_update
  AList.distinct_delete

lemma drops_entry: "drops i i' \<Longrightarrow> entry i' k = Some s \<Longrightarrow> entry i k = Some s"
  unfolding drops_def by (metis option.distinct(1))

lemma completed_time_Some: "completed_time s = Some t \<longleftrightarrow> (\<exists>r n. s = Some (Completed r n t))"
  by (cases s rule: completed_time.cases) auto

lemma drops_times:
  "drops i i' \<Longrightarrow> completed_time (entry i' k) = Some x \<Longrightarrow> completed_time (entry i k) = Some x"
  by (auto simp: completed_time_Some dest: drops_entry)

lemma drops_older:
  assumes "drops i i'" and "sorted_wrt (older i) ks"
  shows "sorted_wrt (older i') ks"
proof (rule sorted_wrt_mono_rel [OF _ assms(2)])
  fix x y assume "older i x y"
  then show "older i' x y" using drops_times [OF assms(1)] by (simp add: older_def)
qed

lemma cache_inv_completed:
  "cache_inv c t X i \<Longrightarrow> is_completed (entry i k) \<Longrightarrow> k \<in> set (ci_completed_order i) \<and> is_latest i k"
  by (simp add: cache_inv_def)

lemma cache_inv_generation:
  "cache_inv c t X i \<Longrightarrow> entry i k \<noteq> None \<or> k \<in> set (ci_completed_order i) \<or> k \<in> X \<Longrightarrow>
     ek_generation k < ci_next_generation i"
  unfolding cache_inv_def by blast

lemma cache_inv_order:
  "cache_inv c t X i \<Longrightarrow> k \<in> set (ci_completed_order i) \<Longrightarrow> entry i k \<noteq> Some (InFlight w) \<and> k \<notin> X"
  by (simp add: cache_inv_def)

lemma remove_completed_unfold:
  assumes "entry i k = Some (Completed r n ct)" and "is_latest i k"
  shows "remove_completed k (i\<lparr>ci_completed_order := os\<rparr>) =
    i\<lparr>ci_completed_order := os, ci_entries := AList.delete k (ci_entries i),
      ci_completed_bytes := ci_completed_bytes i - n,
      ci_latest := AList.delete (ek_request k) (ci_latest i)\<rparr>"
proof -
  have "is_latest (i\<lparr>ci_completed_order := os, ci_entries := es, ci_completed_bytes := b\<rparr>) k" for es b
    using assms(2) by (simp add: is_latest_def)
  then show ?thesis
    using assms(1)
    by (simp add: remove_completed_def entries_remove_def latest_remove_def saturating_sub_def Let_def)
qed

lemma remove_completed_inv:
  assumes inv: "cache_inv c t X i" and e: "entry i k = Some (Completed r n ct)"
    and os: "os = ci_completed_order i \<or> ci_completed_order i = k # os"
  defines "i' \<equiv> remove_completed k (i\<lparr>ci_completed_order := os\<rparr>)"
  shows "cache_inv c t X i'" and "drops i i'" and "entry i' k = None"
    and "length (ci_entries i') < length (ci_entries i)" and "ci_completed_order i' = os"
proof -
  have completed: "is_completed (entry i k)" by (simp add: e)
  then obtain l where l: "latest i (ek_request k) = Some l" "k = latest_key (ek_request k) l"
    using inv by (auto simp: cache_inv_def is_latest_iff)
  then have "is_latest i k" by (auto simp: is_latest_iff)
  from remove_completed_unfold [OF e this, of os]
  have i': "ci_completed_order i' = os" "ci_entries i' = AList.delete k (ci_entries i)"
    "ci_completed_bytes i' = ci_completed_bytes i - n"
    "ci_latest i' = AList.delete (ek_request k) (ci_latest i)"
    "ci_next_generation i' = ci_next_generation i"
    by (simp_all add: i'_def)
  have dist: "distinct (map fst (ci_entries i))" using inv by (simp add: cache_inv_def)
  note bytes = entries_bytes_remove [OF dist e]
  show "entry i' k = None" by (simp add: i' alist_simps)
  show "length (ci_entries i') < length (ci_entries i)" using bytes by (simp add: i')
  show "ci_completed_order i' = os" by (rule i')
  show drops: "drops i i'"
    unfolding drops_def using l completed os bytes(2) by (auto simp: i' alist_simps)
  have sorted: "sorted_wrt (older i) os" and order: "distinct os" "set os \<subseteq> set (ci_completed_order i)"
    "set (ci_completed_order i) \<subseteq> insert k (set os)" "length os \<le> length (ci_completed_order i)"
    using inv os by (auto simp: cache_inv_def)
  show "cache_inv c t X i'"
    unfolding cache_inv_def
  proof (intro conjI)
    show "ci_completed_bytes i' = entries_bytes (ci_entries i')"
      using inv bytes by (simp add: cache_inv_def i')
    show "\<forall>ka. is_completed (entry i' ka) \<longrightarrow> ka \<in> set (ci_completed_order i') \<and> is_latest i' ka"
    proof (intro allI impI)
      fix ka assume ka: "is_completed (entry i' ka)"
      then have "ka \<noteq> k" "is_completed (entry i ka)" by (auto simp: i' alist_simps split: if_splits)
      moreover from this have "ka \<in> set (ci_completed_order i)" "is_latest i ka"
        using inv by (auto simp: cache_inv_def)
      ultimately show "ka \<in> set (ci_completed_order i') \<and> is_latest i' ka"
        using l order(3) by (auto simp: i' is_latest_iff alist_simps)
    qed
    show "\<forall>r l. latest i' r = Some l \<longrightarrow> entry i' (latest_key r l) \<noteq> None \<or> latest_key r l \<in> X"
      using inv l by (auto simp: cache_inv_def i' alist_simps)
    show "sorted_wrt (older i') (ci_completed_order i')"
      using drops_older [OF drops sorted] by (simp add: i')
    show "\<forall>k x. completed_time (entry i' k) = Some x \<longrightarrow> x \<le> t"
      using inv unfolding cache_inv_def by (blast dest: drops_times [OF drops])
  qed (use inv order in \<open>auto simp: cache_inv_def i' alist_simps\<close>)
qed

lemma pop_order_inv:
  assumes inv: "cache_inv c t X i" and "ci_completed_order i = k # ks"
    and "\<not> is_completed (entry i k)"
  shows "cache_inv c t X (pop_order i)" and "drops i (pop_order i)"
proof -
  show drops: "drops i (pop_order i)"
    using assms(2) by (auto simp: drops_def pop_order_def)
  have latest: "is_latest (pop_order i) = is_latest i"
    by (rule ext) (simp add: is_latest_def pop_order_def)
  have older: "older (pop_order i) = older i"
    by (intro ext) (simp add: older_def pop_order_def)
  show "cache_inv c t X (pop_order i)"
    using assms unfolding cache_inv_def latest older
    by (auto simp: pop_order_def)
qed

lemma pop_order_alt: "pop_order i = i\<lparr>ci_completed_order := tl (ci_completed_order i)\<rparr>"
  by (rule pop_order_def)

lemma remove_front_inv:
  assumes "cache_inv c t X i" and "ci_completed_order i = k # ks" and "is_completed (entry i k)"
  shows "cache_inv c t X (remove_completed k (pop_order i))"
    and "drops i (remove_completed k (pop_order i))"
    and "length (ci_entries (remove_completed k (pop_order i))) < length (ci_entries i)"
    and "ci_completed_order (remove_completed k (pop_order i)) = ks"
proof -
  obtain r n ct where "entry i k = Some (Completed r n ct)"
    using assms(3) by (auto simp: is_completed_iff)
  from remove_completed_inv [OF assms(1) this, of ks] assms(2)
  show "cache_inv c t X (remove_completed k (pop_order i))"
    and "drops i (remove_completed k (pop_order i))"
    and "length (ci_entries (remove_completed k (pop_order i))) < length (ci_entries i)"
    and "ci_completed_order (remove_completed k (pop_order i)) = ks"
    by (simp_all add: pop_order_alt)
qed

lemma expire_inv:
  assumes "cache_inv c t X i"
  shows "cache_inv c t X (expire now ttl i) \<and> drops i (expire now ttl i) \<and>
    (\<forall>k x. completed_time (entry (expire now ttl i) k) = Some x \<longrightarrow> now - x < ttl)"
  using assms
proof (induction now ttl i rule: expire.induct)
  case (1 now ttl i)
  note unfold = expire.simps [of now ttl i]
  show ?case
  proof (cases "ci_completed_order i")
    case Nil
    then have "\<not> is_completed (entry i k)" for k using 1(4) by (auto simp: cache_inv_def)
    then have "completed_time (entry i k) = None" for k
      by (metis completed_time_Some is_completed.simps(1) option.exhaust)
    then show ?thesis using 1(4) Nil by (simp add: unfold drops_refl)
  next
    case (Cons k ks)
    show ?thesis
    proof (cases "is_completed (entry i k)")
      case True
      then obtain r n ct where e: "entry i k = Some (Completed r n ct)" by (auto simp: is_completed_iff)
      show ?thesis
      proof (cases "now - ct < ttl")
        case fresh: True
        have "now - x < ttl" if x: "completed_time (entry i k') = Some x" for k' x
        proof -
          have "k' \<in> set (k # ks)"
            using cache_inv_completed [OF 1(4), of k'] x Cons by (auto simp: completed_time_Some)
          moreover have "sorted_wrt (older i) (k # ks)" using 1(4) Cons by (simp add: cache_inv_def)
          ultimately have "ct \<le> x" using x e by (auto simp: older_def)
          then show ?thesis using fresh by linarith
        qed
        then show ?thesis using fresh e Cons 1(4) by (simp add: unfold drops_refl)
      next
        case False
        note front = remove_front_inv [OF 1(4) Cons True]
        have "expire now ttl i = expire now ttl (remove_completed k (pop_order i))"
          using False e Cons by (simp add: unfold)
        then show ?thesis using 1(3) [OF Cons e refl False front(1)] front(2) by (auto intro: drops_trans)
      qed
    next
      case False
      note pop = pop_order_inv [OF 1(4) Cons False]
      have "expire now ttl i = expire now ttl (pop_order i)"
        using False Cons by (auto simp: unfold is_completed_iff split: option.splits ReplayState.splits)
      moreover have "cache_inv c t X (expire now ttl (pop_order i)) \<and>
          drops (pop_order i) (expire now ttl (pop_order i)) \<and>
          (\<forall>k x. completed_time (entry (expire now ttl (pop_order i)) k) = Some x \<longrightarrow> now - x < ttl)"
        using False Cons 1(1,2) pop(1) by (cases "entry i k" rule: is_completed.cases) auto
      ultimately show ?thesis using pop(2) by (auto intro: drops_trans)
    qed
  qed
qed

lemma evict_inv:
  assumes "cache_inv c t X i" and "evict_oldest_completed i = (b, i')"
  shows "cache_inv c t X i' \<and> drops i i' \<and>
    (if b then length (ci_entries i') < length (ci_entries i)
     else (\<forall>k. \<not> is_completed (entry i' k)) \<and> ci_entries i' = ci_entries i)"
  using assms
proof (induction i rule: evict_oldest_completed.induct)
  case (1 i)
  note unfold = evict_oldest_completed.simps [of i]
  show ?case
  proof (cases "ci_completed_order i")
    case Nil
    then have "\<not> is_completed (entry i k)" for k using 1(2) by (auto simp: cache_inv_def)
    then show ?thesis using 1(2,3) Nil by (auto simp: unfold drops_refl)
  next
    case (Cons k ks)
    show ?thesis
    proof (cases "is_completed (entry i k)")
      case True
      then show ?thesis
        using 1(3) Cons remove_front_inv [OF 1(2) Cons True] by (auto simp: unfold)
    next
      case False
      note pop = pop_order_inv [OF 1(2) Cons False]
      have "evict_oldest_completed (pop_order i) = (b, i')" using False 1(3) Cons by (simp add: unfold)
      from 1(1) [OF Cons False pop(1) this] pop(2)
      show ?thesis using drops_trans by (auto simp: pop_order_def)
    qed
  qed
qed

lemma make_room_inv:
  assumes "cache_inv c t X i" and "n \<le> rc_max_completed_bytes c"
    and "rc_max_completed_bytes c < usize_bound - 1"
  defines "i' \<equiv> make_room (rc_max_completed_bytes c) n i"
  shows "cache_inv c t X i' \<and> drops i i' \<and> ci_completed_bytes i' + n \<le> rc_max_completed_bytes c"
  using assms(1,2) unfolding i'_def
proof (induction "rc_max_completed_bytes c" n i rule: make_room.induct)
  case (1 n i)
  note unfold = make_room.simps [of "rc_max_completed_bytes c" n i]
  show ?case
  proof (cases "rc_max_completed_bytes c < saturating_add (ci_completed_bytes i) n")
    case False
    then have "make_room (rc_max_completed_bytes c) n i = i" by (simp add: unfold)
    moreover have "ci_completed_bytes i + n \<le> rc_max_completed_bytes c"
      using False assms(3) by (simp add: not_less)
    ultimately show ?thesis using 1(2) by (simp add: drops_refl)
  next
    case True
    obtain b i1 where ev: "evict_oldest_completed i = (b, i1)" by fastforce
    note evict = evict_inv [OF 1(2) ev]
    show ?thesis
    proof (cases b)
      case b: True
      then show ?thesis
        using 1(1) [OF True ev [symmetric, unfolded b]] 1(3) evict True ev
        by (auto simp: unfold intro: drops_trans)
    next
      case False
      have "entries_bytes (ci_entries i1) = 0"
      proof -
        have "state_bytes (snd e) = 0" if "e \<in> set (ci_entries i1)" for e
        proof -
          have "entry i1 (fst e) = Some (snd e)"
            using evict that by (auto simp: cache_inv_def intro: map_of_is_SomeI)
          then show ?thesis using evict False by (cases "snd e") (auto dest: spec [of _ "fst e"])
        qed
        then show ?thesis by (simp add: entries_bytes_def)
      qed
      then have "ci_completed_bytes i1 = 0" using evict by (simp add: cache_inv_def)
      moreover have "make_room (rc_max_completed_bytes c) n i = i1"
        using False True ev by (simp add: unfold)
      ultimately show ?thesis using evict 1(3) by simp
    qed
  qed
qed

section \<open>Lemmas on \<open>begin\<close>\<close>

lemma next_generation_less:
  fixes x y :: u64
  assumes "x \<noteq> - 1"
  shows "y < x + 1 \<longleftrightarrow> y \<le> x"
proof -
  have "unat x \<noteq> unat (- 1 :: u64)" using assms by (simp add: word_unat_eq_iff)
  moreover have "unat (- 1 :: u64) = 18446744073709551615"
    by (simp add: unsigned_minus_1_eq_mask mask_eq_exp_minus_1)
  ultimately have "unat x + 1 < 18446744073709551616" using unat_u64_less [of x] by simp
  then have "unat (x + 1) = unat x + 1" by (simp add: unat_word_ariths)
  then show ?thesis by (simp add: word_less_nat_alt word_le_nat_alt less_Suc_eq_le)
qed

lemma remove_for_request_inv:
  assumes "cache_inv c t X i"
  shows "cache_inv c t X (remove_completed_for_request r i) \<and>
    drops i (remove_completed_for_request r i) \<and>
    (\<forall>k. ek_request k = r \<longrightarrow> \<not> is_completed (entry (remove_completed_for_request r i) k))"
proof (cases "latest i r")
  case None
  then have "remove_completed_for_request r i = i" by (simp add: remove_completed_for_request_def)
  moreover have "\<not> is_completed (entry i k)" if "ek_request k = r" for k
    using cache_inv_completed [OF assms, of k] None that by (auto simp: is_latest_iff)
  ultimately show ?thesis using assms by (simp add: drops_refl)
next
  case (Some l)
  have only: "k = latest_key r l" if "is_completed (entry i k)" and "ek_request k = r" for k
    using cache_inv_completed [OF assms that(1)] Some that(2) by (auto simp: is_latest_iff)
  show ?thesis
  proof (cases "is_completed (entry i (latest_key r l))")
    case True
    then obtain e n ct where e: "entry i (latest_key r l) = Some (Completed e n ct)"
      by (auto simp: is_completed_iff)
    have "remove_completed_for_request r i = remove_completed (latest_key r l) i"
      using Some True by (simp add: remove_completed_for_request_def latest_key_def Let_def)
    moreover have "i\<lparr>ci_completed_order := ci_completed_order i\<rparr> = i" by simp
    ultimately have rm: "cache_inv c t X (remove_completed_for_request r i)"
      "drops i (remove_completed_for_request r i)"
      "entry (remove_completed_for_request r i) (latest_key r l) = None"
      using remove_completed_inv [OF assms e, of "ci_completed_order i"] by simp_all
    have gone: "\<not> is_completed (entry (remove_completed_for_request r i) k)"
      if "ek_request k = r" for k
    proof
      assume completed: "is_completed (entry (remove_completed_for_request r i) k)"
      then have "is_completed (entry i k)"
        using drops_entry [OF rm(2), of k] by (auto simp: is_completed_iff)
      then have "k = latest_key r l" using that by (rule only)
      then show False using completed rm(3) by simp
    qed
    show ?thesis using rm(1,2) gone by simp
  next
    case False
    then have "remove_completed_for_request r i = i"
      using Some by (simp add: remove_completed_for_request_def latest_key_def Let_def)
    then show ?thesis using assms only False by (auto simp: drops_refl)
  qed
qed

lemma open_generation_inv:
  assumes inv: "cache_inv c t {} i" and "length (ci_entries i) < rc_capacity c"
    and "\<And>k. ek_request k = r \<Longrightarrow> \<not> is_completed (entry i k)"
    and wrap: "ci_next_generation i \<noteq> - 1"
    and l_def: "l = \<lparr>lg_fingerprint = fp, lg_generation = ci_next_generation i\<rparr>"
  shows "entry i (latest_key r l) = None" and "cache_ok c t (open_generation r fp i)"
proof -
  let ?k = "latest_key r l" and ?i' = "open_generation r fp i"
  have gen: "ek_generation ?k = ci_next_generation i" by (simp add: latest_key_def l_def)
  show fresh: "entry i ?k = None"
    using cache_inv_generation [OF inv, of ?k] gen by (metis less_irrefl)
  have order: "?k \<notin> set (ci_completed_order i)"
    using cache_inv_generation [OF inv, of ?k] gen by (metis less_irrefl)
  have es: "ci_entries ?i' = ci_entries i @ [(?k, InFlight [])]"
    using entries_update_fresh [OF fresh] by (simp add: open_generation_def Let_def l_def)
  have i': "ci_completed_order ?i' = ci_completed_order i" "ci_completed_bytes ?i' = ci_completed_bytes i"
    "ci_next_generation ?i' = ci_next_generation i + 1" "ci_latest ?i' = AList.update r l (ci_latest i)"
    "entry ?i' = (entry i)(?k \<mapsto> InFlight [])"
    by (simp_all add: open_generation_def Let_def l_def alist_simps)
  have "completed_time (entry ?i' k) = completed_time (entry i k)" for k
    by (simp add: i' fresh)
  then have older: "older ?i' = older i" by (intro ext) (simp add: older_def)
  have "cache_inv c t {} ?i'"
    unfolding cache_inv_def older
  proof (intro conjI)
    show "\<forall>k. is_completed (entry ?i' k) \<longrightarrow> k \<in> set (ci_completed_order ?i') \<and> is_latest ?i' k"
    proof (intro allI impI)
      fix k assume "is_completed (entry ?i' k)"
      then have k: "is_completed (entry i k)" by (auto simp: i' split: if_splits)
      then have "ek_request k \<noteq> r" using assms(3) by blast
      then show "k \<in> set (ci_completed_order ?i') \<and> is_latest ?i' k"
        using cache_inv_completed [OF inv k] by (auto simp: i' is_latest_iff alist_simps)
    qed
    show "\<forall>r' l'. latest ?i' r' = Some l' \<longrightarrow>
        entry ?i' (latest_key r' l') \<noteq> None \<or> latest_key r' l' \<in> {}"
      using inv by (auto simp: i' alist_simps cache_inv_def split: if_splits)
    show "\<forall>k. entry ?i' k \<noteq> None \<or> k \<in> set (ci_completed_order ?i') \<or> k \<in> {} \<longrightarrow>
        ek_generation k < ci_next_generation ?i'"
    proof (intro allI impI)
      fix k assume "entry ?i' k \<noteq> None \<or> k \<in> set (ci_completed_order ?i') \<or> k \<in> {}"
      then have "k = ?k \<or> entry i k \<noteq> None \<or> k \<in> set (ci_completed_order i)"
        by (auto simp: i' split: if_splits)
      then have "ek_generation k \<le> ci_next_generation i"
      proof (elim disjE)
        assume "k = ?k"
        then show ?thesis by (simp only: gen order_refl)
      qed (rule less_imp_le [OF cache_inv_generation [OF inv]], blast)+
      then show "ek_generation k < ci_next_generation ?i'"
        by (simp add: i' next_generation_less [OF wrap])
    qed
    show "distinct (map fst (ci_entries ?i'))"
      using inv fresh by (auto simp: es cache_inv_def map_of_eq_None_iff)
    show "ci_completed_bytes ?i' = entries_bytes (ci_entries ?i')"
      using inv by (simp add: es i' cache_inv_def entries_bytes_def)
    show "\<forall>k x. completed_time (entry ?i' k) = Some x \<longrightarrow> x \<le> t"
      using inv by (auto simp: i' cache_inv_def)
    show "\<forall>k w. k \<in> set (ci_completed_order ?i') \<longrightarrow> entry ?i' k \<noteq> Some (InFlight w) \<and> k \<notin> {}"
      using inv order by (auto simp: i' cache_inv_def)
    show "distinct (map fst (ci_latest ?i'))"
      using inv by (simp add: i' cache_inv_def alist_simps)
  qed (use inv in \<open>simp_all add: i' cache_inv_def\<close>)
  then show "cache_ok c t ?i'" using assms(2) by (simp add: cache_ok_def es)
qed

lemma begin_fresh_cases:
  assumes ok: "cache_ok c t i" and wrap: "ci_next_generation i \<noteq> - 1"
  obtains
    (full) i' where "begin_fresh c r fp i = (Inl ErrCapacity, i')" "cache_ok c t i'" "drops i i'"
      "\<And>k. \<not> is_completed (entry i' k)" "rc_capacity c \<le> length (ci_entries i')"
  | (opened) i1 l where
      "begin_fresh c r fp i = (Inr (Execute (latest_key r l)), open_generation r fp i1)"
      "l = \<lparr>lg_fingerprint = fp, lg_generation = ci_next_generation i1\<rparr>"
      "drops i i1" "entry i1 (latest_key r l) = None" "cache_ok c t (open_generation r fp i1)"
proof -
  define i0 where "i0 = remove_completed_for_request r i"
  have i0: "cache_inv c t {} i0" "drops i i0" "\<And>k. ek_request k = r \<Longrightarrow> \<not> is_completed (entry i0 k)"
    using remove_for_request_inv [of c t "{}" i r] ok by (auto simp: i0_def cache_ok_def)
  have finish: thesis
    if "drops i i1" "cache_inv c t {} i1" "\<And>k. ek_request k = r \<Longrightarrow> \<not> is_completed (entry i1 k)"
      "length (ci_entries i1) < rc_capacity c"
      "begin_fresh c r fp i =
        (Inr (Execute (latest_key r \<lparr>lg_fingerprint = fp, lg_generation = ci_next_generation i1\<rparr>)),
         open_generation r fp i1)" for i1
  proof -
    have "ci_next_generation i1 \<noteq> - 1" using that(1) wrap by (simp add: drops_def)
    from open_generation_inv [OF that(2,4,3) this refl] that(1,5) show thesis by (auto intro: opened)
  qed
  show thesis
  proof (cases "rc_capacity c \<le> length (ci_entries i0)")
    case False
    then show thesis
      using finish [OF i0(2,1,3)]
      by (simp add: begin_fresh_def i0_def [symmetric] open_generation_def latest_key_def Let_def)
  next
    case True
    obtain b i1 where ev: "evict_oldest_completed i0 = (b, i1)" by fastforce
    note evict = evict_inv [OF i0(1) ev]
    have "\<not> is_completed (entry i1 k)" if "ek_request k = r" for k
      using i0(3) [OF that] evict drops_entry [of i0 i1 k] by (auto simp: is_completed_iff)
    then have i1: "drops i i1" "cache_inv c t {} i1"
      "\<And>k. ek_request k = r \<Longrightarrow> \<not> is_completed (entry i1 k)"
      using evict drops_trans [OF i0(2)] by simp_all
    have len: "length (ci_entries i0) \<le> rc_capacity c"
      using i0(2) ok by (simp add: drops_def cache_ok_def)
    show thesis
    proof (cases b)
      case False
      then have "begin_fresh c r fp i = (Inl ErrCapacity, i1)"
        using True ev by (simp add: begin_fresh_def i0_def [symmetric] Let_def)
      then show thesis
        using evict False i1(1) True len full by (auto simp: cache_ok_def)
    next
      case b: True
      then show thesis
        using finish [OF i1] evict len True ev
        by (simp add: begin_fresh_def i0_def [symmetric] open_generation_def latest_key_def Let_def)
    qed
  qed
qed

lemma entries_bytes_replace:
  assumes "map_of es k = Some s" and "state_bytes s' = state_bytes s"
  shows "entries_bytes (AList.update k s' es) = entries_bytes es \<and>
    map fst (AList.update k s' es) = map fst es"
  using assms by (induction es) (auto simp: entries_bytes_def split: if_splits)

lemma set_waiters_ok:
  assumes "cache_ok c t i" and "entry i k = Some (InFlight w)"
  shows "cache_ok c t (set_waiters k ws i)"
    and "entry (set_waiters k ws i) = (entry i)(k \<mapsto> InFlight ws)"
    and "latest (set_waiters k ws i) = latest i"
proof -
  let ?i = "set_waiters k ws i"
  have es: "entries_bytes (ci_entries ?i) = entries_bytes (ci_entries i)"
    "map fst (ci_entries ?i) = map fst (ci_entries i)"
    using entries_bytes_replace [OF assms(2), of "InFlight ws"] by (simp_all add: set_waiters_def)
  show e: "entry ?i = (entry i)(k \<mapsto> InFlight ws)" by (simp add: set_waiters_def alist_simps)
  show "latest ?i = latest i" by (simp add: set_waiters_def)
  have same: "is_completed (entry ?i k') = is_completed (entry i k')"
    "completed_time (entry ?i k') = completed_time (entry i k')"
    "(entry ?i k' = None) = (entry i k' = None)" for k'
    using assms(2) by (simp_all add: e)
  have rest: "is_latest ?i = is_latest i" "older ?i = older i" "latest ?i = latest i"
    "ci_completed_order ?i = ci_completed_order i" "ci_completed_bytes ?i = ci_completed_bytes i"
    "ci_next_generation ?i = ci_next_generation i" "ci_latest ?i = ci_latest i"
    by (auto simp: is_latest_def older_def same fun_eq_iff) (simp_all add: set_waiters_def)
  have "length (ci_entries ?i) = length (ci_entries i)" using es(2) by (metis length_map)
  moreover have "\<forall>k' w. k' \<in> set (ci_completed_order i) \<longrightarrow> entry ?i k' \<noteq> Some (InFlight w) \<and> k' \<notin> {}"
    using assms cache_inv_order [of c t "{}" i] by (auto simp: e cache_ok_def)
  then have "cache_inv c t {} ?i"
    using assms(1) unfolding cache_ok_def cache_inv_def same rest es by blast
  ultimately show "cache_ok c t ?i" using assms(1) by (simp add: cache_ok_def)
qed

lemma replay_begin_cases:
  assumes ok: "cache_ok c t i" and i0_def: "i0 = expire now (rc_ttl c) i"
  obtains
    (wait) l ws where "latest i0 r = Some l" "lg_fingerprint l = fp"
      "entry i0 (latest_key r l) = Some (InFlight ws)"
      "replay_begin c now closed ch r fp i =
        (Inr (Wait ch), set_waiters (latest_key r l) (filter (\<lambda>w. \<not> closed w) ws @ [ch]) i0)"
  | (replay) l reply n ct where "latest i0 r = Some l" "lg_fingerprint l = fp"
      "entry i0 (latest_key r l) = Some (Completed reply n ct)" "now - ct < rc_ttl c"
      "replay_begin c now closed ch r fp i = (Inr (Replay reply), i0)"
  | (fresh) "\<And>l. latest i0 r = Some l \<Longrightarrow> lg_fingerprint l \<noteq> fp"
      "replay_begin c now closed ch r fp i = begin_fresh c r fp i0"
proof -
  have i0: "cache_inv c t {} i0" "drops i i0"
    "\<And>k x. completed_time (entry i0 k) = Some x \<Longrightarrow> now - x < rc_ttl c"
    using expire_inv [of c t "{}" i now "rc_ttl c"] ok by (auto simp: i0_def cache_ok_def)
  show thesis
  proof (cases "\<exists>l. latest i0 r = Some l \<and> lg_fingerprint l = fp")
    case False
    then have "replay_begin c now closed ch r fp i = begin_fresh c r fp i0"
      by (auto simp: replay_begin_def i0_def [symmetric] Let_def split: option.splits)
    then show thesis using False by (auto intro: fresh)
  next
    case True
    then obtain l where l: "latest i0 r = Some l" "lg_fingerprint l = fp" by blast
    then have key: "latest_key r l = \<lparr>ek_request = r, ek_fingerprint = fp, ek_generation = lg_generation l\<rparr>"
      by (simp add: latest_key_def)
    have "entry i0 (latest_key r l) \<noteq> None" using i0(1) l by (auto simp: cache_inv_def)
    then consider (flight) ws where "entry i0 (latest_key r l) = Some (InFlight ws)"
      | (completed) reply n ct where "entry i0 (latest_key r l) = Some (Completed reply n ct)"
      by (metis ReplayState.exhaust option.exhaust)
    then show thesis
    proof cases
      case flight
      then show thesis
        using l wait key by (simp add: replay_begin_def i0_def [symmetric] Let_def set_waiters_def)
    next
      case completed
      then show thesis
        using l i0(3) [of "latest_key r l" ct] replay [OF l completed] key
        by (simp add: replay_begin_def i0_def [symmetric] Let_def)
    qed
  qed
qed

lemma expire_ok:
  assumes "cache_ok c t i"
  shows "cache_ok c t (expire now ttl i)" and "drops i (expire now ttl i)"
proof -
  have "cache_inv c t {} (expire now ttl i) \<and> drops i (expire now ttl i)"
    using expire_inv [of c t "{}" i now ttl] assms by (simp add: cache_ok_def)
  then show "cache_ok c t (expire now ttl i)" and "drops i (expire now ttl i)"
    using assms by (auto simp: cache_ok_def drops_def)
qed

end
