(* ===== verification/Replay_Machine.thy ===== *)
theory Replay_Machine
  imports Replay_Cache
begin

text \<open>
  The duplicate-request cache under concurrency: every interleaving of the critical sections of
  \<^verbatim>\<open>src/replay/cache.rs\<close> by any number of requests.  This theory finishes the per-operation
  lemmas (\<open>complete\<close>, \<open>cancel\<close>), defines the machine and its reachable states, and proves its
  invariant, from which the properties of the cache follow.
\<close>

section \<open>The machine\<close>

text \<open>
  Ghost fields: the leases that are held, the channels that were created, the receivers that were
  dropped, what was sent, the reply each generation was completed with, and the clock of the last
  completion.
\<close>

record machine =
  m_inner :: CacheInner
  m_leases :: "ReplayEntryKey set"
  m_issued :: "channel set"
  m_closed :: "channel set"
  m_sent :: "delivery list"
  m_log :: "(ReplayEntryKey \<times> EncodedReply) list"
  m_clock :: nat

definition machine_init :: machine where
  "machine_init =
     \<lparr>m_inner = snd (cache_new 0 0 0), m_leases = {}, m_issued = {}, m_closed = {}, m_sent = [],
      m_log = [], m_clock = 0\<rparr>"

fun leases_after :: "ReplayError + ReplayDecision \<Rightarrow> ReplayEntryKey set \<Rightarrow> ReplayEntryKey set" where
  "leases_after (Inr (Execute k)) leases = insert k leases"
| "leases_after _ leases = leases"

fun issued_after :: "ReplayError + ReplayDecision \<Rightarrow> channel set \<Rightarrow> channel set" where
  "issued_after (Inr (Wait ch)) issued = insert ch issued"
| "issued_after _ issued = issued"

text \<open>
  A request calls \<open>begin\<close>, with a channel that was never used; the generation counter has not yet
  wrapped around its 64 bits.  The holder of a lease completes it with a storage that an earlier
  state decided on, or cancels it (explicitly or by dropping it), and gives the lease up.  A client
  may drop a receiver at any time.
\<close>

inductive cache_step :: "(usize \<Rightarrow> usize) \<Rightarrow> ReplayConfig \<Rightarrow> machine \<Rightarrow> machine \<Rightarrow> bool"
  for capacity :: "usize \<Rightarrow> usize" and c :: ReplayConfig where
  step_begin:
    "ch \<notin> m_issued m \<Longrightarrow> ci_next_generation (m_inner m) \<noteq> - 1 \<Longrightarrow>
     replay_begin c now (\<lambda>w. w \<in> m_closed m) ch r fp (m_inner m) = (res, i') \<Longrightarrow>
     cache_step capacity c m
       (m\<lparr>m_inner := i', m_leases := leases_after res (m_leases m),
          m_issued := issued_after res (m_issued m)\<rparr>)"
| step_complete:
    "k \<in> m_leases m \<Longrightarrow> reply_ok reply \<Longrightarrow> storage = complete_prepare capacity c k reply earlier \<Longrightarrow>
     m_clock m \<le> now \<Longrightarrow> complete_commit c now k reply storage (m_inner m) = (sent, i') \<Longrightarrow>
     cache_step capacity c m
       (m\<lparr>m_inner := i', m_leases := m_leases m - {k}, m_sent := m_sent m @ sent,
          m_log := (k, reply) # m_log m, m_clock := now\<rparr>)"
| step_cancel:
    "k \<in> m_leases m \<Longrightarrow> replay_cancel k (m_inner m) = (sent, i') \<Longrightarrow>
     cache_step capacity c m
       (m\<lparr>m_inner := i', m_leases := m_leases m - {k}, m_sent := m_sent m @ sent\<rparr>)"
| step_close:
    "cache_step capacity c m (m\<lparr>m_closed := insert ch (m_closed m)\<rparr>)"

definition reachable :: "(usize \<Rightarrow> usize) \<Rightarrow> ReplayConfig \<Rightarrow> machine \<Rightarrow> bool" where
  "reachable capacity c = (cache_step capacity c)\<^sup>*\<^sup>* machine_init"

definition config_ok :: "ReplayConfig \<Rightarrow> bool" where
  "config_ok c \<longleftrightarrow> rc_max_completed_bytes c < usize_bound - 1"

text \<open>
  The invariant: that of the cache; the leases are the in-flight entries; every channel is closed,
  answered or waiting in an in-flight entry; every retained reply is one that its generation was
  completed with, in a storage of the same bytes.
\<close>

definition channel_waits :: "CacheInner \<Rightarrow> channel \<Rightarrow> bool" where
  "channel_waits i ch \<longleftrightarrow> (\<exists>k ws. entry i k = Some (InFlight ws) \<and> ch \<in> set ws)"

definition machine_inv :: "ReplayConfig \<Rightarrow> machine \<Rightarrow> bool" where
  "machine_inv c m \<longleftrightarrow>
     cache_ok c (m_clock m) (m_inner m) \<and>
     m_leases m = {k. \<exists>ws. entry (m_inner m) k = Some (InFlight ws)} \<and>
     (\<forall>ch \<in> m_issued m. ch \<in> m_closed m \<or> ch \<in> fst ` set (m_sent m) \<or>
        channel_waits (m_inner m) ch) \<and>
     (\<forall>k r n t. entry (m_inner m) k = Some (Completed r n t) \<longrightarrow>
        (\<exists>reply. (k, reply) \<in> set (m_log m) \<and> reply_into_bytes r = reply_into_bytes reply))"

text \<open>The state that forgets an in-flight generation.\<close>

definition forget :: "ReplayEntryKey \<Rightarrow> CacheInner \<Rightarrow> CacheInner" where
  "forget k i =
     (let i1 = entries_remove k i in
      if is_latest i1 k then latest_remove (ek_request k) i1 else i1)"

text \<open>Appending a completed reply to a state that has room for it.\<close>

definition append_completed :: "ReplayEntryKey \<Rightarrow> EncodedReply \<Rightarrow> usize \<Rightarrow> nat \<Rightarrow> CacheInner \<Rightarrow> CacheInner" where
  "append_completed k r n now i =
     i\<lparr>ci_completed_bytes := ci_completed_bytes i + n,
       ci_entries := AList.update k (Completed r n now) (ci_entries i),
       ci_completed_order := ci_completed_order i @ [k]\<rparr>"

text \<open>A sample run: a request is begun at time 0, a duplicate waits for it, and it is completed at time 5.\<close>

definition sample_config :: ReplayConfig where
  "sample_config = \<lparr>rc_capacity = 1, rc_max_completed_bytes = 100, rc_ttl = 10\<rparr>"

definition sample_request :: ReplayKey where
  "sample_request = \<lparr>rk_client_addr = \<lparr>sock_ip = V4 10 0 0 2, sock_port = 700\<rparr>, rk_export_id = 1, rk_xid = 7\<rparr>"

definition sample_key :: ReplayEntryKey where
  "sample_key = \<lparr>ek_request = sample_request, ek_fingerprint = RequestFingerprint [9], ek_generation = 0\<rparr>"

definition sample_begun :: machine where
  "sample_begun =
     \<lparr>m_inner = \<lparr>ci_entries = [(sample_key, InFlight [])],
        ci_latest = [(sample_request, \<lparr>lg_fingerprint = RequestFingerprint [9], lg_generation = 0\<rparr>)],
        ci_completed_order = [], ci_completed_bytes = 0, ci_next_generation = 1\<rparr>,
      m_leases = {sample_key}, m_issued = {}, m_closed = {}, m_sent = [], m_log = [], m_clock = 0\<rparr>"

definition sample_waiting :: machine where
  "sample_waiting = sample_begun
     \<lparr>m_inner := (m_inner sample_begun)\<lparr>ci_entries := [(sample_key, InFlight [4])]\<rparr>, m_issued := {4}\<rparr>"

definition sample_reply :: EncodedReply where
  "sample_reply = reply_from_bytes [1, 2, 3, 4]"

definition sample_completed :: machine where
  "sample_completed = sample_waiting
     \<lparr>m_inner := (m_inner sample_waiting)
        \<lparr>ci_entries := [(sample_key,
           Completed (fst (replay_storage (\<lambda>n. n) sample_reply)) (snd (replay_storage (\<lambda>n. n) sample_reply)) 5)],
         ci_completed_order := [sample_key],
         ci_completed_bytes := snd (replay_storage (\<lambda>n. n) sample_reply)\<rparr>,
      m_leases := {}, m_sent := [(4, Inr sample_reply)], m_log := [(sample_key, sample_reply)], m_clock := 5\<rparr>"

section \<open>Lemmas on \<open>complete\<close> and \<open>cancel\<close>\<close>

lemma cache_inv_latest:
  "cache_inv c t X i \<Longrightarrow> latest i r = Some l \<Longrightarrow> entry i (latest_key r l) \<noteq> None \<or> latest_key r l \<in> X"
  unfolding cache_inv_def by blast

lemma is_latest_entries_remove [simp]: "is_latest (entries_remove k i) = is_latest i"
  by (simp add: is_latest_def entries_remove_def fun_eq_iff)

lemma entry_entries_remove [simp]: "entry (entries_remove k i) = (entry i)(k := None)"
  by (simp add: entries_remove_def alist_simps)

lemma entries_remove_fields [simp]:
  "ci_latest (entries_remove k i) = ci_latest i"
  "ci_completed_order (entries_remove k i) = ci_completed_order i"
  "ci_completed_bytes (entries_remove k i) = ci_completed_bytes i"
  "ci_next_generation (entries_remove k i) = ci_next_generation i"
  by (simp_all add: entries_remove_def)

lemma entries_remove_inv:
  assumes ok: "cache_ok c t i" and e: "entry i k = Some (InFlight ws)"
  shows "cache_inv c t {k} (entries_remove k i)"
    and "length (ci_entries (entries_remove k i)) < rc_capacity c"
proof -
  let ?i = "entries_remove k i"
  have inv: "cache_inv c t {} i" using ok by (simp add: cache_ok_def)
  have "distinct (map fst (ci_entries i))" using inv by (simp add: cache_inv_def)
  note bytes = entries_bytes_remove [OF this e]
  show "length (ci_entries ?i) < rc_capacity c"
    using bytes(2) ok by (simp add: entries_remove_def cache_ok_def)
  have "is_completed (entry ?i k') = is_completed (entry i k')"
    "completed_time (entry ?i k') = completed_time (entry i k')" for k'
    using e by simp_all
  then have same: "older ?i = older i" "\<And>k'. is_completed (entry ?i k') = is_completed (entry i k')"
    "\<And>k'. completed_time (entry ?i k') = completed_time (entry i k')"
    by (simp_all add: older_def fun_eq_iff)
  show "cache_inv c t {k} ?i"
    unfolding cache_inv_def same
  proof (intro conjI)
    show "ci_completed_bytes ?i = entries_bytes (ci_entries ?i)"
      using inv bytes by (simp add: cache_inv_def entries_remove_def)
    show "distinct (map fst (ci_entries ?i))"
      using inv by (simp add: cache_inv_def entries_remove_def alist_simps)
    show "\<forall>k'. entry ?i k' \<noteq> None \<or> k' \<in> set (ci_completed_order ?i) \<or> k' \<in> {k} \<longrightarrow>
        ek_generation k' < ci_next_generation ?i"
      using cache_inv_generation [OF inv] e by auto
    show "\<forall>k' w. k' \<in> set (ci_completed_order ?i) \<longrightarrow> entry ?i k' \<noteq> Some (InFlight w) \<and> k' \<notin> {k}"
      using cache_inv_order [OF inv] e by auto
    show "\<forall>r l. latest ?i r = Some l \<longrightarrow> entry ?i (latest_key r l) \<noteq> None \<or> latest_key r l \<in> {k}"
      using inv by (auto simp: cache_inv_def)
  qed (use inv in \<open>simp_all add: cache_inv_def\<close>)
qed

lemma forget_ok:
  assumes ok: "cache_ok c t i" and e: "entry i k = Some (InFlight ws)"
  shows "cache_ok c t (forget k i)" and "entry (forget k i) = (entry i)(k := None)"
    and "\<not> is_latest (forget k i) k"
proof -
  let ?i1 = "entries_remove k i"
  note inv1 = entries_remove_inv [OF ok e]
  show "entry (forget k i) = (entry i)(k := None)"
    by (simp add: forget_def Let_def latest_remove_def)
  show "\<not> is_latest (forget k i) k"
    by (simp add: forget_def Let_def latest_remove_def is_latest_iff alist_simps)
  have "cache_inv c t {} (forget k i)"
  proof (cases "is_latest i k")
    case False
    then have "forget k i = ?i1" by (simp add: forget_def)
    moreover have "cache_inv c t {} ?i1"
      unfolding cache_inv_def
    proof (intro conjI)
      show "\<forall>r l. latest ?i1 r = Some l \<longrightarrow> entry ?i1 (latest_key r l) \<noteq> None \<or> latest_key r l \<in> {}"
      proof (intro allI impI)
        fix r l assume l: "latest ?i1 r = Some l"
        then have "latest_key r l \<noteq> k" using False by (auto simp: is_latest_iff)
        then show "entry ?i1 (latest_key r l) \<noteq> None \<or> latest_key r l \<in> {}"
          using cache_inv_latest [OF inv1(1) l] by simp
      qed
    qed (use inv1(1) in \<open>simp_all add: cache_inv_def del: entry_entries_remove\<close>)
    ultimately show ?thesis by simp
  next
    case True
    let ?i = "latest_remove (ek_request k) ?i1"
    have forget: "forget k i = ?i" using True by (simp add: forget_def)
    have fields: "ci_entries ?i = ci_entries ?i1" "ci_completed_order ?i = ci_completed_order ?i1"
      "ci_completed_bytes ?i = ci_completed_bytes ?i1" "ci_next_generation ?i = ci_next_generation ?i1"
      "ci_latest ?i = AList.delete (ek_request k) (ci_latest ?i1)" "older ?i = older ?i1"
      by (simp_all add: latest_remove_def older_def fun_eq_iff)
    have "cache_inv c t {} ?i"
      unfolding cache_inv_def fields
    proof (intro conjI)
      show "\<forall>k'. is_completed (entry ?i1 k') \<longrightarrow>
          k' \<in> set (ci_completed_order ?i1) \<and> is_latest ?i k'"
      proof (intro allI impI)
        fix k' assume "is_completed (entry ?i1 k')"
        then have k': "k' \<in> set (ci_completed_order ?i1)" "is_latest ?i1 k'" "k' \<noteq> k"
          using cache_inv_completed [OF inv1(1)] by (auto split: if_splits)
        moreover from this True have "ek_request k' \<noteq> ek_request k" by (auto simp: is_latest_iff)
        ultimately show "k' \<in> set (ci_completed_order ?i1) \<and> is_latest ?i k'"
          by (auto simp: is_latest_iff fields alist_simps)
      qed
      show "\<forall>r l. map_of (AList.delete (ek_request k) (ci_latest ?i1)) r = Some l \<longrightarrow>
          entry ?i1 (latest_key r l) \<noteq> None \<or> latest_key r l \<in> {}"
      proof (intro allI impI)
        fix r l assume "map_of (AList.delete (ek_request k) (ci_latest ?i1)) r = Some l"
        then have "r \<noteq> ek_request k" and l: "latest ?i1 r = Some l"
          by (auto simp: alist_simps split: if_splits)
        then have "latest_key r l \<noteq> k" by auto
        then show "entry ?i1 (latest_key r l) \<noteq> None \<or> latest_key r l \<in> {}"
          using cache_inv_latest [OF inv1(1) l] by simp
      qed
      show "distinct (map fst (AList.delete (ek_request k) (ci_latest ?i1)))"
        using inv1(1) by (simp add: cache_inv_def alist_simps)
    qed (use inv1(1) in \<open>simp_all add: cache_inv_def del: entry_entries_remove\<close>)
    then show ?thesis by (simp add: forget)
  qed
  moreover have "ci_entries (forget k i) = ci_entries ?i1"
    by (simp add: forget_def Let_def latest_remove_def)
  ultimately show "cache_ok c t (forget k i)" using inv1(2) by (simp add: cache_ok_def)
qed

lemma compact_fields:
  "ci_entries (compact_completion_order i) = ci_entries i"
  "ci_latest (compact_completion_order i) = ci_latest i"
  "ci_completed_bytes (compact_completion_order i) = ci_completed_bytes i"
  "ci_next_generation (compact_completion_order i) = ci_next_generation i"
  by (simp_all add: compact_completion_order_def Let_def)

lemma compact_order:
  assumes "distinct (map fst (ci_entries i))" and "distinct (ci_completed_order i)"
    and "length (ci_entries i) \<le> m"
  defines "order \<equiv> ci_completed_order (compact_completion_order i)"
  shows "distinct order" and "set order \<subseteq> set (ci_completed_order i)"
    and "\<And>k. k \<in> set (ci_completed_order i) \<Longrightarrow> is_completed (entry i k) \<Longrightarrow> k \<in> set order"
    and "sorted_wrt P (ci_completed_order i) \<Longrightarrow> sorted_wrt P order"
    and "length order \<le> max 64 (2 * m)"
proof -
  have order: "order = ci_completed_order i \<or>
      order = filter (\<lambda>key. is_completed (entry i key)) (ci_completed_order i)"
    by (simp add: order_def compact_completion_order_def Let_def)
  then show "distinct order" and "set order \<subseteq> set (ci_completed_order i)"
    and "\<And>k. k \<in> set (ci_completed_order i) \<Longrightarrow> is_completed (entry i k) \<Longrightarrow> k \<in> set order"
    and "sorted_wrt P (ci_completed_order i) \<Longrightarrow> sorted_wrt P order"
    using assms(2) by (auto simp: sorted_wrt_filter)
  show "length order \<le> max 64 (2 * m)"
  proof (cases "max (saturating_mul (length (ci_entries i)) 2) 64 < length (ci_completed_order i)")
    case False
    then have "length order \<le> max (length (ci_entries i) * 2) 64"
      by (auto simp: order_def compact_completion_order_def Let_def saturating_mul_def)
    then show ?thesis using assms(3) by linarith
  next
    case True
    then have "order = filter (\<lambda>key. is_completed (entry i key)) (ci_completed_order i)"
      by (simp add: order_def compact_completion_order_def Let_def)
    then have "set order \<subseteq> fst ` set (ci_entries i)" and "distinct order"
      using assms(2) by (auto simp: is_completed_iff dest: map_of_SomeD intro: rev_image_eqI)
    then have "length order \<le> card (fst ` set (ci_entries i))"
      by (metis List.finite_set card_mono distinct_card finite_imageI)
    also have "\<dots> \<le> length (ci_entries i)"
      by (metis card_length length_map list.set_map)
    finally show ?thesis using assms(3) by simp
  qed
qed

lemma append_completed_ok:
  assumes inv: "cache_inv c t {k} i" and fresh: "entry i k = None" and latest: "is_latest i k"
    and room: "ci_completed_bytes i + n \<le> rc_max_completed_bytes c"
    and len: "length (ci_entries i) < rc_capacity c" and "t \<le> now"
    and i'_def: "i' = compact_completion_order (append_completed k r n now i)"
  shows "cache_ok c now i'" and "entry i' = (entry i)(k \<mapsto> Completed r n now)" and "is_latest i' k"
proof -
  let ?a = "append_completed k r n now i"
  have es: "ci_entries ?a = ci_entries i @ [(k, Completed r n now)]"
    using entries_update_fresh [OF fresh] by (simp add: append_completed_def)
  have e: "entry ?a = (entry i)(k \<mapsto> Completed r n now)"
    by (simp add: append_completed_def alist_simps)
  have a: "ci_latest ?a = ci_latest i" "ci_next_generation ?a = ci_next_generation i"
    "ci_completed_bytes ?a = ci_completed_bytes i + n"
    "ci_completed_order ?a = ci_completed_order i @ [k]"
    by (simp_all add: append_completed_def)
  have order: "k \<notin> set (ci_completed_order i)" using cache_inv_order [OF inv] by auto
  have dist: "distinct (map fst (ci_entries ?a))" "distinct (ci_completed_order ?a)"
    using inv fresh order by (auto simp: es a cache_inv_def map_of_eq_None_iff)
  have len': "length (ci_entries ?a) \<le> rc_capacity c" using len by (simp add: es)
  note compact = compact_order [OF dist len', folded i'_def]
  have i': "entry i' = entry ?a" "latest i' = latest i" "is_latest i' = is_latest i" "older i' = older ?a"
    "ci_entries i' = ci_entries ?a" "ci_latest i' = ci_latest i"
    "ci_next_generation i' = ci_next_generation i" "ci_completed_bytes i' = ci_completed_bytes i + n"
    by (simp_all add: i'_def compact_fields a is_latest_def older_def fun_eq_iff)
  show "entry i' = (entry i)(k \<mapsto> Completed r n now)" and "is_latest i' k"
    using latest by (simp_all add: i' e)
  have times: "x \<le> t" if "completed_time (entry i k') = Some x" for k' x
    using inv that by (auto simp: cache_inv_def)
  have older: "sorted_wrt (older ?a) (ci_completed_order ?a)"
  proof -
    have "older ?a x y" if "older i x y" "x \<noteq> k" "y \<noteq> k" for x y
      using that by (simp add: older_def e)
    moreover have "sorted_wrt (older i) (ci_completed_order i)" using inv by (simp add: cache_inv_def)
    ultimately have "sorted_wrt (older ?a) (ci_completed_order i)"
      using order by (auto intro: sorted_wrt_mono_rel [rotated])
    moreover have "older ?a x k" if "x \<noteq> k" for x
      using that times assms(6) by (fastforce simp: older_def e)
    ultimately show ?thesis using order unfolding a sorted_wrt_append by fastforce
  qed
  have "cache_inv c now {} i'"
    unfolding cache_inv_def i'
  proof (intro conjI)
    show "\<forall>k'. is_completed (entry ?a k') \<longrightarrow> k' \<in> set (ci_completed_order i') \<and> is_latest i k'"
    proof (intro allI impI)
      fix k' assume k': "is_completed (entry ?a k')"
      then have "k' = k \<or> is_completed (entry i k')" by (auto simp: e split: if_splits)
      then show "k' \<in> set (ci_completed_order i') \<and> is_latest i k'"
        using latest cache_inv_completed [OF inv, of k'] compact(3) [OF _ k'] by (auto simp: a)
    qed
    show "\<forall>k'. entry ?a k' \<noteq> None \<or> k' \<in> set (ci_completed_order i') \<or> k' \<in> {} \<longrightarrow>
        ek_generation k' < ci_next_generation i"
    proof (intro allI impI)
      fix k' assume "entry ?a k' \<noteq> None \<or> k' \<in> set (ci_completed_order i') \<or> k' \<in> {}"
      then have "entry i k' \<noteq> None \<or> k' \<in> set (ci_completed_order i) \<or> k' \<in> {k}"
        using compact(2) by (auto simp: e a split: if_splits)
      then show "ek_generation k' < ci_next_generation i" by (rule cache_inv_generation [OF inv])
    qed
    show "\<forall>r l. latest i r = Some l \<longrightarrow> entry ?a (latest_key r l) \<noteq> None \<or> latest_key r l \<in> {}"
    proof (intro allI impI)
      fix r l assume "latest i r = Some l"
      from cache_inv_latest [OF inv this]
      show "entry ?a (latest_key r l) \<noteq> None \<or> latest_key r l \<in> {}" by (auto simp: e)
    qed
    show "\<forall>k' w. k' \<in> set (ci_completed_order i') \<longrightarrow> entry ?a k' \<noteq> Some (InFlight w) \<and> k' \<notin> {}"
      using compact(2) cache_inv_order [OF inv] by (auto simp: e a)
    show "\<forall>k' x. completed_time (entry ?a k') = Some x \<longrightarrow> x \<le> now"
      using times assms(6) by (fastforce simp: e split: if_splits)
    show "ci_completed_bytes i + n = entries_bytes (ci_entries ?a)"
      using inv by (simp add: es cache_inv_def entries_bytes_def)
  qed (use inv dist compact(1,5) compact(4) [OF older] room in \<open>simp_all add: cache_inv_def\<close>)
  then show "cache_ok c now i'" using len' by (simp add: cache_ok_def i')
qed

lemma retain_completed_ok:
  assumes ok: "cache_ok c t i" and e: "entry i k = Some (InFlight ws)" and latest: "is_latest i k"
    and n: "n \<le> rc_max_completed_bytes c" and conf: "config_ok c" and "t \<le> now"
  obtains i' where "retain_completed c now k r n (entries_remove k i) = (True, i')"
    "cache_ok c now i'" "entry i' k = Some (Completed r n now)" "is_latest i' k"
    "\<And>k'. k' \<noteq> k \<Longrightarrow> entry i' k' = entry i k' \<or> is_completed (entry i k') \<and> entry i' k' = None"
proof -
  let ?i1 = "entries_remove k i"
  define i2 where "i2 = make_room (rc_max_completed_bytes c) n ?i1"
  note inv1 = entries_remove_inv [OF ok e]
  have i2: "cache_inv c t {k} i2" "drops ?i1 i2" "ci_completed_bytes i2 + n \<le> rc_max_completed_bytes c"
    using make_room_inv [OF inv1(1) n] conf by (simp_all add: i2_def config_ok_def)
  have fresh: "entry i2 k = None" using drops_entry [OF i2(2), of k] by (cases "entry i2 k") auto
  have latest2: "is_latest i2 k"
  proof -
    obtain l where l: "latest ?i1 (ek_request k) = Some l" "k = latest_key (ek_request k) l"
      using latest by (auto simp: is_latest_iff)
    have "\<not> is_completed (entry ?i1 k)" by simp
    then have "latest i2 (ek_request k) = latest ?i1 (ek_request k)"
      using i2(2) l unfolding drops_def by (metis option.inject)
    then show ?thesis using l unfolding is_latest_iff by metis
  qed
  have len: "length (ci_entries i2) < rc_capacity c" using i2(2) inv1(2) by (simp add: drops_def)
  note append = append_completed_ok [OF i2(1) fresh latest2 i2(3) len \<open>t \<le> now\<close> refl, of r]
  show thesis
  proof (rule that)
    have "saturating_add (ci_completed_bytes i2) n = ci_completed_bytes i2 + n"
      using i2(3) conf by (simp add: saturating_add_def config_ok_def)
    then show "retain_completed c now k r n ?i1 =
        (True, compact_completion_order (append_completed k r n now i2))"
      using n i2(3)
      by (simp add: retain_completed_def Let_def i2_def [symmetric] append_completed_def)
    fix k' assume "k' \<noteq> k"
    then show "entry (compact_completion_order (append_completed k r n now i2)) k' = entry i k' \<or>
        is_completed (entry i k') \<and> entry (compact_completion_order (append_completed k r n now i2)) k' = None"
      using i2(2) by (auto simp: append(2) drops_def dest!: spec [of _ k'])
  qed (use append in simp_all)
qed

text \<open>
  What \<open>complete\<close> does to an in-flight generation: every waiter is sent the reply; the reply is retained
  exactly if the generation is still the latest and a storage within the byte limit was prepared.
\<close>

lemma complete_commit_cases:
  assumes ok: "cache_ok c t i" and e: "entry i k = Some (InFlight ws)" and conf: "config_ok c"
    and "t \<le> now"
  obtains
    (kept) r n i' where "storage = Some (r, n)" "n \<le> rc_max_completed_bytes c" "is_latest i k"
      "complete_commit c now k reply storage i = (map (\<lambda>w. (w, Inr reply)) ws, i')"
      "cache_ok c now i'" "entry i' k = Some (Completed r n now)" "is_latest i' k"
      "\<And>k'. k' \<noteq> k \<Longrightarrow> entry i' k' = entry i k' \<or> is_completed (entry i k') \<and> entry i' k' = None"
  | (dropped) "\<not> (is_latest i k \<and> (\<exists>r n. storage = Some (r, n) \<and> n \<le> rc_max_completed_bytes c))"
      "complete_commit c now k reply storage i = (map (\<lambda>w. (w, Inr reply)) ws, forget k i)"
      "cache_ok c now (forget k i)"
proof (cases "is_latest i k \<and> (\<exists>r n. storage = Some (r, n) \<and> n \<le> rc_max_completed_bytes c)")
  case True
  then obtain r n where rn: "storage = Some (r, n)" "n \<le> rc_max_completed_bytes c" "is_latest i k" by blast
  show thesis
    by (rule retain_completed_ok [OF ok e rn(3,2) conf \<open>t \<le> now\<close>, of r])
      (rule kept [OF rn], use e rn in \<open>simp_all add: complete_commit_def Let_def\<close>)
next
  case False
  have "retain_completed c now k r n j = (False, j)" if "\<not> n \<le> rc_max_completed_bytes c" for r n j
    using that by (simp add: retain_completed_def)
  then have "complete_commit c now k reply storage i = (map (\<lambda>w. (w, Inr reply)) ws, forget k i)"
    using False e
    by (cases storage) (auto simp: complete_commit_def forget_def Let_def)
  moreover have "cache_ok c now (forget k i)"
    using forget_ok(1) [OF ok e] \<open>t \<le> now\<close> unfolding cache_ok_def cache_inv_def
    by (meson order.trans)
  ultimately show thesis using dropped False by blast
qed

lemma replay_cancel_InFlight:
  assumes "entry i k = Some (InFlight ws)"
  shows "replay_cancel k i = (map (\<lambda>w. (w, Inl ErrCancelled)) ws, forget k i)"
  using assms by (simp add: replay_cancel_def forget_def Let_def)

lemma expire_keeps:
  assumes "cache_inv c t X i" and "entry i k = Some (Completed r n ct)" and "now - ct < ttl"
  shows "entry (expire now ttl i) k = Some (Completed r n ct)"
  using assms
proof (induction now ttl i rule: expire.induct)
  case (1 now ttl i)
  note unfold = expire.simps [of now ttl i]
  show ?case
  proof (cases "ci_completed_order i")
    case Nil
    then show ?thesis using 1(5) by (simp add: unfold)
  next
    case (Cons f fs)
    consider (live) r' n' ct' where "entry i f = Some (Completed r' n' ct')" | (dead) "\<not> is_completed (entry i f)"
      by (auto simp: is_completed_iff)
    then show ?thesis
    proof cases
      case live
      show ?thesis
      proof (cases "now - ct' < ttl")
        case True
        then show ?thesis using live Cons 1(5) by (simp add: unfold)
      next
        case False
        have "is_completed (entry i f)" by (simp add: live)
        note front = remove_front_inv [OF 1(4) Cons this]
        have "f \<noteq> k" using live 1(5,6) False by auto
        then have "entry (remove_completed f (pop_order i)) k = Some (Completed r n ct)"
          using remove_completed_unfold [OF live, of fs] cache_inv_completed [OF 1(4), of f] live Cons 1(5)
          by (simp add: pop_order_def alist_simps)
        then show ?thesis
          using 1(3) [OF Cons live refl False front(1) _ 1(6)] live False Cons by (simp add: unfold)
      qed
    next
      case dead
      note pop = pop_order_inv [OF 1(4) Cons dead]
      have "entry (pop_order i) k = Some (Completed r n ct)" using 1(5) by (simp add: pop_order_def)
      then show ?thesis
        using dead Cons 1(1,2,6) pop(1)
        by (cases "entry i f" rule: is_completed.cases) (auto simp: unfold)
    qed
  qed
qed

section \<open>The invariant of the machine\<close>

lemma drops_in_flight:
  assumes "drops i i'"
  shows "entry i' k = Some (InFlight ws) \<longleftrightarrow> entry i k = Some (InFlight ws)"
proof -
  have "entry i' k = entry i k \<or> is_completed (entry i k) \<and> entry i' k = None"
    using assms by (simp add: drops_def)
  then show ?thesis by auto
qed

lemma drops_latest:
  assumes "drops i i'"
  shows "latest i' r = latest i r \<or>
    latest i' r = None \<and> (\<exists>l. latest i r = Some l \<and> is_completed (entry i (latest_key r l)))"
  using assms unfolding drops_def by blast

lemma machine_invD:
  assumes "machine_inv c m"
  shows "cache_ok c (m_clock m) (m_inner m)"
    and "k \<in> m_leases m \<longleftrightarrow> (\<exists>ws. entry (m_inner m) k = Some (InFlight ws))"
    and "ch \<in> m_issued m \<Longrightarrow>
      ch \<in> m_closed m \<or> ch \<in> fst ` set (m_sent m) \<or> channel_waits (m_inner m) ch"
    and "entry (m_inner m) k = Some (Completed r n t) \<Longrightarrow>
      \<exists>reply. (k, reply) \<in> set (m_log m) \<and> reply_into_bytes r = reply_into_bytes reply"
  using assms unfolding machine_inv_def by blast+

lemma machine_invI:
  assumes "cache_ok c (m_clock m) (m_inner m)"
    and "\<And>k. k \<in> m_leases m \<longleftrightarrow> (\<exists>ws. entry (m_inner m) k = Some (InFlight ws))"
    and "\<And>ch. ch \<in> m_issued m \<Longrightarrow>
      ch \<in> m_closed m \<or> ch \<in> fst ` set (m_sent m) \<or> channel_waits (m_inner m) ch"
    and "\<And>k r n t. entry (m_inner m) k = Some (Completed r n t) \<Longrightarrow>
      \<exists>reply. (k, reply) \<in> set (m_log m) \<and> reply_into_bytes r = reply_into_bytes reply"
  shows "machine_inv c m"
  using assms unfolding machine_inv_def by blast

lemma drops_machine_inv:
  assumes inv: "machine_inv c m" and drops: "drops (m_inner m) i'" and "cache_ok c (m_clock m) i'"
  shows "machine_inv c (m\<lparr>m_inner := i'\<rparr>)"
  using machine_invD [OF inv] assms(3) drops_entry [OF drops]
  by (intro machine_invI) (simp_all add: drops_in_flight [OF drops] channel_waits_def)

lemma machine_inv_init: "machine_inv c machine_init"
  by (simp add: machine_inv_def machine_init_def cache_new_def cache_ok_def cache_inv_def
      entries_bytes_def)

lemma channel_waits_update:
  assumes "channel_waits i ch"
    and "\<And>k ws. entry i k = Some (InFlight ws) \<Longrightarrow> ch \<in> set ws \<Longrightarrow>
      Q \<or> (\<exists>ws'. entry i' k = Some (InFlight ws') \<and> ch \<in> set ws')"
  shows "Q \<or> channel_waits i' ch"
  using assms unfolding channel_waits_def by blast

lemma wait_machine_inv:
  assumes inv: "machine_inv c m" and e: "entry (m_inner m) k = Some (InFlight ws)"
  shows "machine_inv c (m\<lparr>m_inner := set_waiters k (filter (\<lambda>w. w \<notin> m_closed m) ws @ [ch]) (m_inner m),
    m_issued := insert ch (m_issued m)\<rparr>)"
proof -
  let ?i = "set_waiters k (filter (\<lambda>w. w \<notin> m_closed m) ws @ [ch]) (m_inner m)"
  note set = set_waiters_ok [OF machine_invD(1) [OF inv] e, of "filter (\<lambda>w. w \<notin> m_closed m) ws @ [ch]"]
  show ?thesis
  proof (rule machine_invI, goal_cases)
    case (3 x)
    have "x \<in> m_closed m \<or> channel_waits ?i x" if "channel_waits (m_inner m) x"
      by (rule channel_waits_update [OF that]) (use e in \<open>auto simp: set(2)\<close>)
    moreover have "channel_waits ?i ch" by (auto simp: channel_waits_def set(2))
    ultimately show ?case using 3 machine_invD(3) [OF inv, of x] by auto
  qed (use machine_invD(2,4) [OF inv] set(1) e in \<open>auto simp: set(2) split: if_splits\<close>)
qed

lemma expire_machine_inv:
  "machine_inv c m \<Longrightarrow> machine_inv c (m\<lparr>m_inner := expire now ttl (m_inner m)\<rparr>)"
  by (rule drops_machine_inv) (auto intro: expire_ok machine_invD(1))

lemma begin_fresh_machine_inv:
  assumes inv: "machine_inv c m" and wrap: "ci_next_generation (m_inner m) \<noteq> - 1"
    and res: "begin_fresh c r fp (m_inner m) = (res, i')"
  shows "machine_inv c (m\<lparr>m_inner := i', m_leases := leases_after res (m_leases m),
    m_issued := issued_after res (m_issued m)\<rparr>)"
proof (cases rule: begin_fresh_cases [OF machine_invD(1) [OF inv] wrap, of r fp, case_names full opened])
  case (full j)
  then show ?thesis using drops_machine_inv [OF inv, of j] res by simp
next
  case (opened i1 l)
  have e: "entry (open_generation r fp i1) = (entry i1)(latest_key r l \<mapsto> InFlight [])"
    by (simp add: open_generation_def Let_def opened(2) alist_simps)
  have same: "\<And>k ws. entry i1 k = Some (InFlight ws) \<longleftrightarrow> entry (m_inner m) k = Some (InFlight ws)"
    using drops_in_flight [OF opened(3)] .
  have i': "i' = open_generation r fp i1" "res = Inr (Execute (latest_key r l))"
    using opened(1) res by simp_all
  show ?thesis
  proof (rule machine_invI, goal_cases)
    case (3 x)
    have "False \<or> channel_waits i' x" if "channel_waits (m_inner m) x"
      by (rule channel_waits_update [OF that]) (use opened(4) in \<open>auto simp: i' e same [symmetric]\<close>)
    then show ?case using 3 machine_invD(3) [OF inv, of x] by (auto simp: i')
  next
    case (4 k r n t)
    then show ?case
      using machine_invD(4) [OF inv, of k] drops_entry [OF opened(3), of k] by (auto simp: i' e split: if_splits)
  qed (use machine_invD(2) [OF inv] opened in \<open>auto simp: i' e same\<close>)
qed

lemma step_begin_inv:
  assumes inv: "machine_inv c m" and wrap: "ci_next_generation (m_inner m) \<noteq> - 1"
    and res: "replay_begin c now (\<lambda>w. w \<in> m_closed m) ch r fp (m_inner m) = (res, i')"
  shows "machine_inv c (m\<lparr>m_inner := i', m_leases := leases_after res (m_leases m),
    m_issued := issued_after res (m_issued m)\<rparr>)"
proof -
  define i0 where "i0 = expire now (rc_ttl c) (m_inner m)"
  note inv0 = expire_machine_inv [OF inv, of now "rc_ttl c", folded i0_def]
  have wrap0: "ci_next_generation i0 \<noteq> - 1"
    using wrap expire_ok(2) [OF machine_invD(1) [OF inv], of now "rc_ttl c"]
    by (simp add: i0_def drops_def)
  show ?thesis
  proof (cases rule: replay_begin_cases [OF machine_invD(1) [OF inv] i0_def, of r fp "\<lambda>w. w \<in> m_closed m" ch,
        case_names wait replay fresh])
    case (wait l ws)
    then show ?thesis using wait_machine_inv [OF inv0, of "latest_key r l" ws ch] res by simp
  next
    case (replay l reply n ct)
    then show ?thesis using inv0 res by simp
  next
    case fresh
    then show ?thesis using begin_fresh_machine_inv [OF inv0, of r fp res i'] wrap0 res by simp
  qed
qed

text \<open>Closing an in-flight generation: its waiters have been sent an answer.\<close>

lemma close_generation_inv:
  assumes inv: "machine_inv c m" and e: "entry (m_inner m) k = Some (InFlight ws)"
    and ok: "cache_ok c now i'" and sent: "fst ` set sent = set ws"
    and no_flight: "\<And>w. entry i' k \<noteq> Some (InFlight w)"
    and rest: "\<And>k'. k' \<noteq> k \<Longrightarrow> entry i' k' = entry (m_inner m) k' \<or>
      is_completed (entry (m_inner m) k') \<and> entry i' k' = None"
    and log: "set (m_log m) \<subseteq> set log"
    and logged: "\<And>r n t. entry i' k = Some (Completed r n t) \<Longrightarrow>
      \<exists>reply. (k, reply) \<in> set log \<and> reply_into_bytes r = reply_into_bytes reply"
  shows "machine_inv c (m\<lparr>m_inner := i', m_leases := m_leases m - {k}, m_sent := m_sent m @ sent,
    m_log := log, m_clock := now\<rparr>)"
proof (rule machine_invI, goal_cases)
  case (2 k')
  show ?case
    using machine_invD(2) [OF inv, of k'] no_flight rest [of k']
    by (cases "k' = k") (auto, metis is_completed.simps(2))
next
  case (3 x)
  have "x \<in> fst ` set sent \<or> channel_waits i' x" if "channel_waits (m_inner m) x"
  proof (rule channel_waits_update [OF that])
    fix k' ws'
    assume a: "entry (m_inner m) k' = Some (InFlight ws')" "x \<in> set ws'"
    show "x \<in> fst ` set sent \<or> (\<exists>ws'. entry i' k' = Some (InFlight ws') \<and> x \<in> set ws')"
      using a e sent rest [of k'] by (cases "k' = k") auto
  qed
  then show ?case using 3 machine_invD(3) [OF inv, of x] by auto
next
  case (4 k' r n t)
  show ?case
    using 4 machine_invD(4) [OF inv, of k' r n t] logged [of r n t] rest [of k'] log
    by (cases "k' = k") auto
qed (use ok in simp)

lemma step_complete_inv:
  assumes inv: "machine_inv c m" and conf: "config_ok c" and "k \<in> m_leases m"
    and storage: "storage = complete_prepare capacity c k reply earlier"
    and now: "m_clock m \<le> now"
    and res: "complete_commit c now k reply storage (m_inner m) = (sent, i')"
  shows "machine_inv c (m\<lparr>m_inner := i', m_leases := m_leases m - {k}, m_sent := m_sent m @ sent,
    m_log := (k, reply) # m_log m, m_clock := now\<rparr>)"
proof -
  obtain ws where e: "entry (m_inner m) k = Some (InFlight ws)"
    using machine_invD(2) [OF inv] assms(3) by blast
  show ?thesis
  proof (cases rule: complete_commit_cases [OF machine_invD(1) [OF inv] e conf now, of storage reply,
        case_names kept dropped])
    case (kept r n j)
    have "reply_into_bytes r = reply_into_bytes reply"
      using storage kept(1) replay_storage_bytes [of capacity reply]
      by (simp add: complete_prepare_def Let_def split: if_splits) (metis fst_conv)+
    then show ?thesis
      using kept res by (intro close_generation_inv [OF inv e]) (auto simp: image_image)
  next
    case dropped
    then show ?thesis
      using res forget_ok(2) [OF machine_invD(1) [OF inv] e]
      by (intro close_generation_inv [OF inv e]) (auto simp: image_image)
  qed
qed

lemma step_cancel_inv:
  assumes inv: "machine_inv c m" and "k \<in> m_leases m"
    and res: "replay_cancel k (m_inner m) = (sent, i')"
  shows "machine_inv c (m\<lparr>m_inner := i', m_leases := m_leases m - {k}, m_sent := m_sent m @ sent\<rparr>)"
proof -
  obtain ws where e: "entry (m_inner m) k = Some (InFlight ws)"
    using machine_invD(2) [OF inv] assms(2) by blast
  note forget = forget_ok [OF machine_invD(1) [OF inv] e]
  have "machine_inv c (m\<lparr>m_inner := i', m_leases := m_leases m - {k}, m_sent := m_sent m @ sent,
      m_log := m_log m, m_clock := m_clock m\<rparr>)"
    using res replay_cancel_InFlight [OF e] forget
    by (intro close_generation_inv [OF inv e]) (auto simp: image_image)
  then show ?thesis by simp
qed

lemma step_inv: "cache_step capacity c m m' \<Longrightarrow> config_ok c \<Longrightarrow> machine_inv c m \<Longrightarrow> machine_inv c m'"
proof (induction rule: cache_step.induct)
  case (step_close m ch)
  then show ?case by (auto simp: machine_inv_def)
qed (simp_all add: step_begin_inv step_complete_inv step_cancel_inv)

lemma reachable_inv:
  assumes "reachable capacity c m" and "config_ok c"
  shows "machine_inv c m"
  using assms(1) unfolding reachable_def
  by (induction rule: rtranclp_induct) (auto intro: machine_inv_init step_inv assms(2))

section \<open>Lemmas for the properties\<close>

lemma expire_keeps_in_flight:
  assumes ok: "cache_ok c t i" and e: "entry i k = Some (InFlight ws)" and "is_latest i k"
  shows "is_latest (expire now ttl i) k" and "entry (expire now ttl i) k = Some (InFlight ws)"
proof -
  let ?i = "expire now ttl i"
  note d = expire_ok(2) [OF ok, of now ttl]
  obtain l where l: "latest i (ek_request k) = Some l" "k = latest_key (ek_request k) l"
    using assms(3) by (auto simp: is_latest_iff)
  have "\<not> is_completed (entry i (latest_key (ek_request k) l))" using e l(2) [symmetric] by simp
  then have "latest ?i (ek_request k) = Some l"
    using drops_latest [OF d, of "ek_request k"] l(1) by auto
  then show "is_latest ?i k" using l(2) by (auto simp: is_latest_iff)
  show "entry ?i k = Some (InFlight ws)" using drops_in_flight [OF d] e by simp
qed

lemma replay_begin_in_flight:
  assumes ok: "cache_ok c t i" and e: "entry i k = Some (InFlight ws)" and "is_latest i k"
  shows "replay_begin c now closed ch (ek_request k) (ek_fingerprint k) i =
    (Inr (Wait ch), set_waiters k (filter (\<lambda>w. \<not> closed w) ws @ [ch]) (expire now (rc_ttl c) i))"
proof -
  note keep = expire_keeps_in_flight [OF assms, of now "rc_ttl c"]
  then obtain l where "latest (expire now (rc_ttl c) i) (ek_request k) = Some l"
    "k = latest_key (ek_request k) l" by (auto simp: is_latest_iff)
  then show ?thesis
    using keep(2) by (cases k) (simp add: replay_begin_def Let_def set_waiters_def latest_key_def)
qed

lemma replay_begin_completed:
  assumes ok: "cache_ok c t i" and e: "entry i k = Some (Completed r n ct)" and ttl: "now - ct < rc_ttl c"
  shows "replay_begin c now closed ch (ek_request k) (ek_fingerprint k) i =
    (Inr (Replay r), expire now (rc_ttl c) i)"
proof -
  let ?i = "expire now (rc_ttl c) i"
  have inv: "cache_inv c t {} i" "cache_inv c t {} ?i"
    using ok expire_ok(1) [OF ok] by (simp_all add: cache_ok_def)
  note keep = expire_keeps [OF inv(1) e ttl]
  have "is_latest ?i k" using cache_inv_completed [OF inv(2), of k] by (simp add: keep)
  then obtain l where "latest ?i (ek_request k) = Some l" "k = latest_key (ek_request k) l"
    by (auto simp: is_latest_iff)
  then show ?thesis
    using keep by (cases k) (simp add: replay_begin_def Let_def latest_key_def)
qed

lemma reachable_step: "reachable capacity c m \<Longrightarrow> cache_step capacity c m m' \<Longrightarrow> reachable capacity c m'"
  by (simp add: reachable_def)

lemma reachable_init: "reachable capacity c machine_init"
  by (simp add: reachable_def)

lemma leases_eq: "machine_inv c m \<Longrightarrow> m_leases m = {k. \<exists>ws. entry (m_inner m) k = Some (InFlight ws)}"
  by (simp add: machine_inv_def)

lemma leases_finite: "machine_inv c m \<Longrightarrow> finite (m_leases m)"
  by (rule finite_subset [OF _ finite_dom_map_of [of "ci_entries (m_inner m)"]])
    (auto simp: leases_eq dom_def)

lemma drain:
  assumes "machine_inv c m" and "config_ok c"
  shows "\<exists>m'. (cache_step capacity c)\<^sup>*\<^sup>* m m' \<and> m_leases m' = {} \<and> m_issued m' = m_issued m"
  using assms
proof (induction "card (m_leases m)" arbitrary: m)
  case 0
  then show ?case using leases_finite [OF 0(2)] by auto
next
  case (Suc n)
  obtain k where k: "k \<in> m_leases m" using Suc(2) by fastforce
  obtain sent i' where res: "replay_cancel k (m_inner m) = (sent, i')" by fastforce
  let ?m = "m\<lparr>m_inner := i', m_leases := m_leases m - {k}, m_sent := m_sent m @ sent\<rparr>"
  note step = step_cancel [OF k res, of capacity c]
  have "n = card (m_leases ?m)" using Suc(2) k leases_finite [OF Suc(3)] by simp
  from Suc(1) [OF this step_cancel_inv [OF Suc(3) k res] Suc(4)]
  obtain m' where "(cache_step capacity c)\<^sup>*\<^sup>* ?m m'" "m_leases m' = {}" "m_issued m' = m_issued m" by auto
  then show ?case using step by (meson converse_rtranclp_into_rtranclp)
qed

lemma begin_after_forget:
  assumes ok: "cache_ok c t i" and e: "entry i k = Some (InFlight ws)" and latest: "is_latest i k"
    and wrap: "ci_next_generation i \<noteq> - 1"
  obtains l i' where "replay_begin c now closed ch (ek_request k) fp (forget k i) =
      (Inr (Execute (latest_key (ek_request k) l)), i')"
    "lg_fingerprint l = fp" "lg_generation l = ci_next_generation i"
proof -
  define i0 where "i0 = expire now (rc_ttl c) (forget k i)"
  have none: "latest (forget k i) (ek_request k) = None" "ci_next_generation (forget k i) = ci_next_generation i"
    "length (ci_entries (forget k i)) < rc_capacity c"
    using latest entries_remove_inv(2) [OF ok e]
    by (simp_all add: forget_def Let_def latest_remove_def alist_simps)
  note ok1 = forget_ok(1) [OF ok e]
  note ok0 = expire_ok [OF ok1, of now "rc_ttl c", folded i0_def]
  have i0: "latest i0 (ek_request k) = None" "ci_next_generation i0 = ci_next_generation i"
    "length (ci_entries i0) < rc_capacity c"
    using none ok0(2) drops_latest [OF ok0(2), of "ek_request k"] by (simp_all add: drops_def)
  have "replay_begin c now closed ch (ek_request k) fp (forget k i) = begin_fresh c (ek_request k) fp i0"
    using i0(1) by (simp add: replay_begin_def Let_def i0_def)
  then show thesis
    using i0 wrap that
    by (cases rule: begin_fresh_cases [OF ok0(1), of "ek_request k" fp, case_names wrap full opened])
      (auto simp: drops_def)
qed

subsection \<open>The sample run\<close>

lemmas sample_defs = sample_config_def sample_request_def sample_key_def sample_begun_def
  sample_waiting_def sample_completed_def

lemma sample_config_ok: "config_ok sample_config"
  by (simp add: config_ok_def sample_config_def)

lemma expire_nothing: "ci_completed_order i = [] \<Longrightarrow> expire now ttl i = i"
  by (simp add: expire.simps [of now ttl i])

lemma sample_begun_reachable: "reachable (\<lambda>n. n) sample_config sample_begun"
proof -
  have "cache_step (\<lambda>n. n) sample_config machine_init
    (machine_init\<lparr>m_inner := m_inner sample_begun,
      m_leases := leases_after (Inr (Execute sample_key)) (m_leases machine_init),
      m_issued := issued_after (Inr (Execute sample_key)) (m_issued machine_init)\<rparr>)"
    by (rule step_begin [where ch = 0 and now = 0 and r = sample_request and fp = "RequestFingerprint [9]"])
      (simp_all add: machine_init_def cache_new_def replay_begin_def expire_nothing begin_fresh_def
        remove_completed_for_request_def sample_defs Let_def)
  from reachable_step [OF reachable_init this] show ?thesis
    by (simp add: machine_init_def cache_new_def sample_defs)
qed

lemma sample_waiting_reachable: "reachable (\<lambda>n. n) sample_config sample_waiting"
proof -
  have "cache_step (\<lambda>n. n) sample_config sample_begun
    (sample_begun\<lparr>m_inner := m_inner sample_waiting,
      m_leases := leases_after (Inr (Wait 4)) (m_leases sample_begun),
      m_issued := issued_after (Inr (Wait 4)) (m_issued sample_begun)\<rparr>)"
    by (rule step_begin [where ch = 4 and now = 1 and r = sample_request and fp = "RequestFingerprint [9]"])
      (simp_all add: replay_begin_def expire_nothing sample_defs)
  from reachable_step [OF sample_begun_reachable this] show ?thesis
    by (simp add: sample_waiting_def sample_begun_def)
qed

lemma sample_storage:
  "replay_storage (\<lambda>n. n) sample_reply = (\<lparr>reply_storage = Contiguous [1, 2, 3, 4], reply_retained = Some 4\<rparr>, 4)"
  by (simp add: sample_reply_def reply_from_bytes_def replay_storage_def compact_bytes_def Let_def)

lemma sample_commit:
  "complete_commit sample_config 5 sample_key sample_reply (Some (replay_storage (\<lambda>n. n) sample_reply))
     (m_inner sample_waiting) = ([(4, Inr sample_reply)], m_inner sample_completed)"
  by (simp add: complete_commit_def sample_storage sample_defs entries_remove_def is_latest_def
      retain_completed_def make_room.simps compact_completion_order_def saturating_add_def)

lemma sample_prepare:
  "complete_prepare (\<lambda>n. n) sample_config sample_key sample_reply (m_inner sample_waiting) =
     Some (replay_storage (\<lambda>n. n) sample_reply)"
  by (simp add: complete_prepare_def sample_defs is_latest_def sample_reply_def reply_from_bytes_def reply_defs)

lemma sample_completed_reachable: "reachable (\<lambda>n. n) sample_config sample_completed"
proof -
  have "cache_step (\<lambda>n. n) sample_config sample_waiting
    (sample_waiting\<lparr>m_inner := m_inner sample_completed, m_leases := m_leases sample_waiting - {sample_key},
      m_sent := m_sent sample_waiting @ [(4, Inr sample_reply)],
      m_log := (sample_key, sample_reply) # m_log sample_waiting, m_clock := 5\<rparr>)"
    using sample_commit sample_prepare
    by (intro step_complete [where earlier = "m_inner sample_waiting"])
      (simp_all add: sample_waiting_def sample_begun_def sample_reply_def reply_from_bytes_ok)
  from reachable_step [OF sample_waiting_reachable this] show ?thesis
    by (simp add: sample_completed_def sample_waiting_def sample_begun_def)
qed

section \<open>Properties\<close>

text \<open>
  C7: the limits hold in every reachable state.  The cache holds at most \<open>capacity\<close> entries; its
  byte counter is the sum of what the retained replies are charged and stays within the configured
  number of bytes; and the completion queue stays within twice the capacity (or 64).
\<close>

theorem cache_bounds:
  assumes "reachable capacity c m" and "config_ok c"
  shows "cache_len (m_inner m) \<le> rc_capacity c \<and>
    cache_retained_bytes (m_inner m) = entries_bytes (ci_entries (m_inner m)) \<and>
    cache_retained_bytes (m_inner m) \<le> rc_max_completed_bytes c \<and>
    length (ci_completed_order (m_inner m)) \<le> max 64 (2 * rc_capacity c)"
  using machine_invD(1) [OF reachable_inv [OF assms]]
  by (simp add: cache_ok_def cache_inv_def cache_len_def cache_retained_bytes_def)

theorem cache_bounds_witness:
  "cache_len (m_inner sample_completed) \<le> 1 \<and> cache_retained_bytes (m_inner sample_completed) = 4 \<and>
   (4::nat) \<le> 100"
  using cache_bounds [OF sample_completed_reachable sample_config_ok]
  by (simp add: sample_completed_def entries_bytes_def sample_config_def sample_storage)

text \<open>
  C4: at most once.  While a lease is held for the latest generation of a request, the same request
  is never executed a second time: \<open>begin\<close> makes the duplicate a waiter of that generation.
\<close>

theorem duplicate_waits:
  assumes "reachable capacity c m" and "config_ok c"
    and "k \<in> m_leases m" and "is_latest (m_inner m) k"
  shows "\<exists>ws i'. replay_begin c now (\<lambda>w. w \<in> m_closed m) ch (ek_request k) (ek_fingerprint k) (m_inner m) =
      (Inr (Wait ch), i') \<and> entry i' k = Some (InFlight ws) \<and> ch \<in> set ws"
proof -
  note inv = reachable_inv [OF assms(1,2)]
  obtain ws where e: "entry (m_inner m) k = Some (InFlight ws)"
    using machine_invD(2) [OF inv] assms(3) by blast
  show ?thesis
    using replay_begin_in_flight [OF machine_invD(1) [OF inv] e assms(4)]
    by (simp add: set_waiters_def alist_simps)
qed

theorem duplicate_waits_witness:
  "\<exists>i'. replay_begin sample_config 3 (\<lambda>w. w \<in> m_closed sample_waiting) 5 sample_request
     (RequestFingerprint [9]) (m_inner sample_waiting) = (Inr (Wait 5), i')"
  using duplicate_waits [OF sample_waiting_reachable sample_config_ok, of sample_key 3 5]
  by (auto simp: sample_defs is_latest_def)

text \<open>
  C5: a replayed reply is the right one.  Whatever requests came before, and in whatever order, a
  reply that \<open>begin\<close> replays has the bytes of a reply that an execution of this very request (client,
  export, transaction identifier and fingerprint of the arguments) was completed with.
\<close>

theorem replay_is_own_reply:
  assumes "reachable capacity c m" and "config_ok c"
    and "replay_begin c now (\<lambda>w. w \<in> m_closed m) ch r fp (m_inner m) = (Inr (Replay reply), i')"
  shows "\<exists>k original. ek_request k = r \<and> ek_fingerprint k = fp \<and> (k, original) \<in> set (m_log m) \<and>
    concat (reply_segments reply) = concat (reply_segments original)"
proof -
  note inv = reachable_inv [OF assms(1,2)]
  define i0 where "i0 = expire now (rc_ttl c) (m_inner m)"
  note d = expire_ok(2) [OF machine_invD(1) [OF inv], of now "rc_ttl c", folded i0_def]
  have not_fresh: "begin_fresh c r fp i0 \<noteq> (Inr (Replay reply), i')"
    by (auto simp: begin_fresh_def Let_def split: prod.splits if_splits)
  show ?thesis
  proof (cases rule: replay_begin_cases [OF machine_invD(1) [OF inv] i0_def, of r fp "\<lambda>w. w \<in> m_closed m" ch,
        case_names wait replay fresh])
    case (replay l reply' n ct)
    then have "entry (m_inner m) (latest_key r l) = Some (Completed reply n ct)"
      using drops_entry [OF d, of "latest_key r l"] assms(3) by simp
    from machine_invD(4) [OF inv this] replay(2) show ?thesis
      unfolding concat_reply_segments by (intro exI [of _ "latest_key r l"]) (auto simp: latest_key_def)
  qed (use assms(3) not_fresh in simp_all)
qed

theorem replay_is_own_reply_witness:
  "\<exists>stored i' k original. replay_begin sample_config 9 (\<lambda>w. w \<in> m_closed sample_completed) 6 sample_request
     (RequestFingerprint [9]) (m_inner sample_completed) = (Inr (Replay stored), i') \<and>
     (k, original) \<in> set (m_log sample_completed) \<and>
     concat (reply_segments stored) = concat (reply_segments original)"
proof -
  have ok: "cache_ok sample_config 5 (m_inner sample_completed)"
    using machine_invD(1) [OF reachable_inv [OF sample_completed_reachable sample_config_ok]]
    by (simp add: sample_completed_def)
  have "replay_begin sample_config 9 (\<lambda>w. w \<in> m_closed sample_completed) 6 sample_request
      (RequestFingerprint [9]) (m_inner sample_completed) =
      (Inr (Replay (fst (replay_storage (\<lambda>n. n) sample_reply))), expire 9 10 (m_inner sample_completed))"
    using replay_begin_completed [OF ok, of sample_key _ _ 5 9 "\<lambda>w. w \<in> m_closed sample_completed" 6]
    by (simp add: sample_defs)
  from this replay_is_own_reply [OF sample_completed_reachable sample_config_ok this]
  show ?thesis by blast
qed



text \<open>
  C8: no waiter is lost.  Every channel that was handed out is closed, answered, or waits in a
  generation whose lease is held; and from every reachable state the cache can drain: when the leases
  are given up every channel that is still open has been answered.
\<close>

theorem waiters_drain:
  assumes "reachable capacity c m" and "config_ok c"
  shows "(\<forall>ch \<in> m_issued m. ch \<in> m_closed m \<or> ch \<in> fst ` set (m_sent m) \<or>
      (\<exists>k \<in> m_leases m. \<exists>ws. entry (m_inner m) k = Some (InFlight ws) \<and> ch \<in> set ws)) \<and>
    (\<exists>m'. (cache_step capacity c)\<^sup>*\<^sup>* m m' \<and> m_leases m' = {} \<and> m_issued m' = m_issued m \<and>
      (\<forall>ch \<in> m_issued m'. ch \<in> m_closed m' \<or> ch \<in> fst ` set (m_sent m')))"
proof
  note inv = reachable_inv [OF assms]
  show "\<forall>ch \<in> m_issued m. ch \<in> m_closed m \<or> ch \<in> fst ` set (m_sent m) \<or>
      (\<exists>k \<in> m_leases m. \<exists>ws. entry (m_inner m) k = Some (InFlight ws) \<and> ch \<in> set ws)"
    using machine_invD(2,3) [OF inv] unfolding channel_waits_def by blast
  obtain m' where m': "(cache_step capacity c)\<^sup>*\<^sup>* m m'" "m_leases m' = {}" "m_issued m' = m_issued m"
    using drain [OF inv assms(2)] by blast
  have "machine_inv c m'" using reachable_inv [OF _ assms(2)] m'(1) assms(1)
    by (auto simp: reachable_def intro: rtranclp_trans)
  from machine_invD(3) [OF this] machine_invD(2) [OF this] m'
  show "\<exists>m'. (cache_step capacity c)\<^sup>*\<^sup>* m m' \<and> m_leases m' = {} \<and> m_issued m' = m_issued m \<and>
      (\<forall>ch \<in> m_issued m'. ch \<in> m_closed m' \<or> ch \<in> fst ` set (m_sent m'))"
    unfolding channel_waits_def by blast
qed

theorem waiters_drain_witness:
  "\<exists>m'. (cache_step (\<lambda>n. n) sample_config)\<^sup>*\<^sup>* sample_waiting m' \<and> m_leases m' = {} \<and>
     4 \<in> m_closed m' \<union> fst ` set (m_sent m')"
  using waiters_drain [OF sample_waiting_reachable sample_config_ok]
  by (auto simp: sample_waiting_def)

text \<open>
  \<open>begin\<close> fails only when the cache is full of requests that are being executed; a retained reply
  never makes a new request fail.
\<close>

theorem capacity_error_only_when_busy:
  assumes "reachable capacity c m" and "config_ok c" and "ci_next_generation (m_inner m) \<noteq> - 1"
    and "replay_begin c now closed ch r fp (m_inner m) = (Inl e, i')"
  shows "e = ErrCapacity \<and> cache_len i' = rc_capacity c \<and> (\<forall>k. \<not> is_completed (entry i' k))"
proof -
  note ok = machine_invD(1) [OF reachable_inv [OF assms(1,2)]]
  define i0 where "i0 = expire now (rc_ttl c) (m_inner m)"
  note ok0 = expire_ok [OF ok, of now "rc_ttl c", folded i0_def]
  have wrap: "ci_next_generation i0 \<noteq> - 1" using assms(3) ok0(2) by (simp add: drops_def)
  show ?thesis
  proof (cases rule: replay_begin_cases [OF ok i0_def, of r fp closed ch, case_names wait replay fresh])
    case fresh
    show ?thesis
      using assms(4) fresh(2)
      by (cases rule: begin_fresh_cases [OF ok0(1) wrap, of r fp, case_names full opened])
        (auto simp: cache_ok_def cache_len_def)
  qed (use assms(4) in simp_all)
qed

theorem capacity_error_only_when_busy_witness:
  "\<exists>i'. replay_begin sample_config 3 (\<lambda>_. False) 5 sample_request (RequestFingerprint [8])
     (m_inner sample_begun) = (Inl ErrCapacity, i') \<and> cache_len i' = 1"
proof -
  have "replay_begin sample_config 3 (\<lambda>_. False) 5 sample_request (RequestFingerprint [8])
     (m_inner sample_begun) = (Inl ErrCapacity, m_inner sample_begun)"
    by (simp add: replay_begin_def sample_defs expire_nothing begin_fresh_def Let_def
        remove_completed_for_request_def evict_oldest_completed.simps)
  from this capacity_error_only_when_busy [OF sample_begun_reachable sample_config_ok _ this]
  show ?thesis by (simp add: sample_begun_def sample_config_def)
qed

text \<open>
  A lease that is dropped without a reply gives the request back.  All its waiters are told that
  it was cancelled, and the next transmission of the request is executed, under a new generation.
\<close>

theorem dropped_lease_reexecutes:
  assumes "reachable capacity c m" and "config_ok c" and "ci_next_generation (m_inner m) \<noteq> - 1"
    and "entry (m_inner m) k = Some (InFlight ws)" and "is_latest (m_inner m) k"
    and "lease_drop \<lparr>lease_key = k, lease_finished = False\<rparr> (m_inner m) = (sent, i')"
  shows "sent = map (\<lambda>w. (w, Inl ErrCancelled)) ws \<and>
    (\<exists>k' i''. replay_begin c now closed ch (ek_request k) (ek_fingerprint k) i' = (Inr (Execute k'), i'') \<and>
      ek_request k' = ek_request k \<and> ek_fingerprint k' = ek_fingerprint k \<and> k' \<noteq> k)"
proof
  note ok = machine_invD(1) [OF reachable_inv [OF assms(1,2)]]
  have res: "sent = map (\<lambda>w. (w, Inl ErrCancelled)) ws" "i' = forget k (m_inner m)"
    using assms(6) replay_cancel_InFlight [OF assms(4)] by (auto simp: lease_drop_def)
  then show "sent = map (\<lambda>w. (w, Inl ErrCancelled)) ws" by simp
  have gen: "ek_generation k < ci_next_generation (m_inner m)"
    using cache_inv_generation [of c _ "{}" "m_inner m" k] ok assms(4) by (auto simp: cache_ok_def)
  obtain l i'' where l: "replay_begin c now closed ch (ek_request k) (ek_fingerprint k) i' =
      (Inr (Execute (latest_key (ek_request k) l)), i'')"
    "lg_fingerprint l = ek_fingerprint k" "lg_generation l = ci_next_generation (m_inner m)"
    unfolding res(2) by (rule begin_after_forget [OF ok assms(4,5,3), of now closed ch "ek_fingerprint k"])
  have "ek_generation (latest_key (ek_request k) l) \<noteq> ek_generation k" using l(3) gen by (simp add: latest_key_def)
  then have "latest_key (ek_request k) l \<noteq> k" by metis
  then show "\<exists>k' i''. replay_begin c now closed ch (ek_request k) (ek_fingerprint k) i' = (Inr (Execute k'), i'') \<and>
      ek_request k' = ek_request k \<and> ek_fingerprint k' = ek_fingerprint k \<and> k' \<noteq> k"
    using l by (intro exI [of _ "latest_key (ek_request k) l"] exI [of _ i'']) (simp, simp add: latest_key_def)
qed

theorem dropped_lease_reexecutes_witness:
  "\<exists>sent i' k' i''. lease_drop \<lparr>lease_key = sample_key, lease_finished = False\<rparr> (m_inner sample_waiting) =
     (sent, i') \<and> sent = [(4, Inl ErrCancelled)] \<and>
     replay_begin sample_config 3 (\<lambda>_. False) 5 sample_request (RequestFingerprint [9]) i' =
       (Inr (Execute k'), i'') \<and> k' \<noteq> sample_key"
proof -
  obtain sent i' where res:
    "lease_drop \<lparr>lease_key = sample_key, lease_finished = False\<rparr> (m_inner sample_waiting) = (sent, i')" by fastforce
  have "ci_next_generation (m_inner sample_waiting) \<noteq> - 1"
    "entry (m_inner sample_waiting) sample_key = Some (InFlight [4])"
    "is_latest (m_inner sample_waiting) sample_key"
    by (simp_all add: sample_defs is_latest_def)
  from dropped_lease_reexecutes [OF sample_waiting_reachable sample_config_ok this res, of 3 "\<lambda>_. False" 5] res
  show ?thesis by (auto simp: sample_key_def)
qed

end
