(* ===== verification/Record_Marking.thy ===== *)
theory Record_Marking
  imports Encoded_Reply "HOL-Library.Sublist"
begin

text \<open>
  RPC record marking over a byte stream, \<^verbatim>\<open>src/rpc/record.rs\<close>: reading a record from its fragments
  under three limits, with and without a byte budget, and writing a record held in one buffer or
  in three.

  A reader is the bytes that the peer will still deliver and the error with which the stream
  then ends.  A writer is the bytes accepted so far and an arbitrary schedule: each call of
  \<open>poll_write\<close> takes some prefix of what it is offered, possibly nothing, or fails.  Every result
  is proved for all schedules.  The \<open>tokio\<close> helpers \<open>read_u32\<close>, \<open>read_exact\<close>, \<open>write_all\<close> and the
  standard \<open>IoSlice::advance_slices\<close> are modelled as documented.  The allocator is the argument
  \<open>try_alloc\<close>: the capacity it grants for a requested size, or a failure.  A panic of the source is
  the value \<open>RecPanic\<close>.
\<close>

unbundle bit_operations_syntax

section \<open>Limits and errors\<close>

record RecordLimits =
  max_record_size :: usize
  max_fragment_size :: usize
  max_fragments :: usize

datatype IoErrorKind =
    UnexpectedEof
  | WriteZero
  | ConnectionReset
  | ConnectionRefused
  | InvalidData
  | WouldBlock
  | AddrNotAvailable
  | OtherIo nat

datatype RecordError =
    RecIo IoErrorKind
  | FragmentTooLarge usize usize
  | RecordTooLarge usize
  | TooManyFragments usize
  | EmptyFragment
  | BudgetClosed
  | RecPanic

section \<open>Reading\<close>

record reader =
  rd_bytes :: bytes
  rd_end :: IoErrorKind

definition io_read_exact :: "usize \<Rightarrow> reader \<Rightarrow> RecordError + (bytes \<times> reader)" where
  "io_read_exact n rd =
     (if n \<le> length (rd_bytes rd)
      then Inr (take n (rd_bytes rd), rd\<lparr>rd_bytes := drop n (rd_bytes rd)\<rparr>)
      else Inl (RecIo (rd_end rd)))"

definition io_read_u32 :: "reader \<Rightarrow> RecordError + (u32 \<times> reader)" where
  "io_read_u32 rd = r_bind (io_read_exact 4 rd) (\<lambda>(bs, rd'). Inr (u32_of_be bs, rd'))"

type_synonym allocator = "usize \<Rightarrow> usize option"

text \<open>The capacity after \<open>try_reserve_exact\<close> on a vector of the given length and capacity.\<close>

definition try_reserve_exact :: "allocator \<Rightarrow> usize \<Rightarrow> usize \<Rightarrow> usize \<Rightarrow> usize option" where
  "try_reserve_exact try_alloc capacity len additional =
     (if additional \<le> capacity - len then Some capacity else try_alloc (len + additional))"

definition reserve_target :: "usize \<Rightarrow> usize \<Rightarrow> usize \<Rightarrow> usize" where
  "reserve_target capacity required limit = min (max (saturating_mul capacity 2) required) limit"

definition reserve_record ::
  "allocator \<Rightarrow> usize \<Rightarrow> usize \<Rightarrow> usize \<Rightarrow> usize \<Rightarrow> RecordError + usize" where
  "reserve_record try_alloc capacity len required limit =
     (if required \<le> capacity then Inr capacity
      else ok_or (RecordTooLarge limit)
             (try_reserve_exact try_alloc capacity len
                (saturating_sub (reserve_target capacity required limit) len)))"

definition header_last :: "u32 \<Rightarrow> bool" where
  "header_last header \<longleftrightarrow> header AND 0x80000000 \<noteq> 0"

definition header_length :: "u32 \<Rightarrow> usize" where
  "header_length header = unat (header AND 0x7fffffff)"

text \<open>One turn of the loop after the header is read: the grown record and its capacity.\<close>

definition read_fragment ::
  "allocator \<Rightarrow> RecordLimits \<Rightarrow> u32 \<Rightarrow> bytes \<Rightarrow> usize \<Rightarrow> reader \<Rightarrow>
   RecordError + (bytes \<times> usize \<times> reader)" where
  "read_fragment try_alloc limits header record_bytes capacity rd =
     (let is_last = header_last header; len = header_length header in
      if len = 0 \<and> \<not> is_last then Inl EmptyFragment
      else if max_fragment_size limits < len
      then Inl (FragmentTooLarge len (max_fragment_size limits))
      else
        r_bind (ok_or (RecordTooLarge (max_record_size limits))
                  (checked_add (length record_bytes) len)) (\<lambda>new_length.
        if max_record_size limits < new_length then Inl (RecordTooLarge (max_record_size limits))
        else
          r_bind (reserve_record try_alloc capacity (length record_bytes) new_length
                    (max_record_size limits)) (\<lambda>capacity'.
          r_bind (io_read_exact len rd) (\<lambda>(body, rd').
          Inr (record_bytes @ body, capacity', rd')))))"

text \<open>The loop; its first argument is the number of turns left, \<open>max_fragments - fragment_index\<close>.\<close>

fun read_fragments ::
  "nat \<Rightarrow> allocator \<Rightarrow> RecordLimits \<Rightarrow> bytes \<Rightarrow> usize \<Rightarrow> reader \<Rightarrow> RecordError + (bytes \<times> reader)" where
  "read_fragments 0 try_alloc limits record_bytes capacity rd =
     Inl (TooManyFragments (max_fragments limits))"
| "read_fragments (Suc turns) try_alloc limits record_bytes capacity rd =
     r_bind (io_read_u32 rd) (\<lambda>(header, rd1).
     r_bind (read_fragment try_alloc limits header record_bytes capacity rd1)
       (\<lambda>(record', capacity', rd2).
     if header_last header then Inr (record', rd2)
     else if turns = 0 then Inl (TooManyFragments (max_fragments limits))
     else read_fragments turns try_alloc limits record' capacity' rd2))"

definition read_record ::
  "allocator \<Rightarrow> RecordLimits \<Rightarrow> reader \<Rightarrow> RecordError + (bytes \<times> reader)" where
  "read_record try_alloc limits rd = read_fragments (max_fragments limits) try_alloc limits [] 0 rd"

subsection \<open>Reading under a byte budget\<close>

text \<open>
  The semaphore: permits left, and whether it has been closed.  \<open>acquire_many_owned\<close> has no result
  (\<open>None\<close>) while it waits for permits.  A permit is given back when it is dropped, here when the
  read fails.
\<close>

record Semaphore =
  sem_permits :: usize
  sem_closed :: bool

definition acquire_many :: "usize \<Rightarrow> Semaphore \<Rightarrow> (RecordError + Semaphore) option" where
  "acquire_many n sem =
     (if sem_closed sem then Some (Inl BudgetClosed)
      else if n \<le> sem_permits sem then Some (Inr (sem\<lparr>sem_permits := sem_permits sem - n\<rparr>))
      else None)"

fun read_fragments_budgeted ::
  "nat \<Rightarrow> allocator \<Rightarrow> RecordLimits \<Rightarrow> u32 \<Rightarrow> bytes \<Rightarrow> usize \<Rightarrow> reader \<Rightarrow>
   RecordError + (bytes \<times> reader)" where
  "read_fragments_budgeted 0 try_alloc limits header record_bytes capacity rd =
     Inl (TooManyFragments (max_fragments limits))"
| "read_fragments_budgeted (Suc turns) try_alloc limits header record_bytes capacity rd =
     r_bind (read_fragment try_alloc limits header record_bytes capacity rd)
       (\<lambda>(record', capacity', rd1).
     if header_last header then Inr (record', rd1)
     else if turns = 0 then Inl (TooManyFragments (max_fragments limits))
     else r_bind (io_read_u32 rd1) (\<lambda>(header', rd2).
            read_fragments_budgeted turns try_alloc limits header' record' capacity' rd2))"

definition read_record_budgeted ::
  "allocator \<Rightarrow> RecordLimits \<Rightarrow> Semaphore \<Rightarrow> reader \<Rightarrow>
   ((RecordError + (bytes \<times> reader)) \<times> Semaphore) option" where
  "read_record_budgeted try_alloc limits budget rd =
     (case io_read_u32 rd of
        Inl e \<Rightarrow> Some (Inl e, budget)
      | Inr (header, rd1) \<Rightarrow>
          let first_length = header_length header in
          if first_length = 0 \<and> \<not> header_last header then Some (Inl EmptyFragment, budget)
          else if max_fragment_size limits < first_length
          then Some (Inl (FragmentTooLarge first_length (max_fragment_size limits)), budget)
          else if max_record_size limits < first_length
          then Some (Inl (RecordTooLarge (max_record_size limits)), budget)
          else if u32_max < max_record_size limits
          then Some (Inl (RecordTooLarge u32_max), budget)
          else
            case acquire_many (max_record_size limits) budget of
              None \<Rightarrow> None
            | Some (Inl e) \<Rightarrow> Some (Inl e, budget)
            | Some (Inr reserved) \<Rightarrow>
                (case read_fragments_budgeted (max_fragments limits) try_alloc limits header [] 0 rd1 of
                   Inl e \<Rightarrow> Some (Inl e, budget)
                 | Inr r \<Rightarrow> Some (Inr r, reserved)))"

section \<open>Writing\<close>

datatype write_step = Accepts nat | Fails IoErrorKind

record writer =
  wr_out :: bytes
  wr_vectored :: bool
  wr_schedule :: "nat \<Rightarrow> write_step"
  wr_clock :: nat

text \<open>One call of \<open>poll_write\<close> or \<open>poll_write_vectored\<close>: how many of the offered bytes it takes.\<close>

definition io_poll_write :: "bytes \<Rightarrow> writer \<Rightarrow> (RecordError + usize) \<times> writer" where
  "io_poll_write offered w =
     (case wr_schedule w (wr_clock w) of
        Fails k \<Rightarrow> (Inl (RecIo k), w\<lparr>wr_clock := Suc (wr_clock w)\<rparr>)
      | Accepts n \<Rightarrow>
          (let written = min n (length offered) in
           (Inr written,
            w\<lparr>wr_clock := Suc (wr_clock w), wr_out := wr_out w @ take written offered\<rparr>)))"

definition io_flush :: "writer \<Rightarrow> (RecordError + unit) \<times> writer" where
  "io_flush w =
     (case wr_schedule w (wr_clock w) of
        Fails k \<Rightarrow> (Inl (RecIo k), w\<lparr>wr_clock := Suc (wr_clock w)\<rparr>)
      | Accepts n \<Rightarrow> (Inr (), w\<lparr>wr_clock := Suc (wr_clock w)\<rparr>))"

function io_write_all :: "bytes \<Rightarrow> writer \<Rightarrow> (RecordError + unit) \<times> writer" where
  "io_write_all buf w =
     (if buf = [] then (Inr (), w)
      else case io_poll_write buf w of
             (Inl e, w') \<Rightarrow> (Inl e, w')
           | (Inr written, w') \<Rightarrow>
               if written = 0 then (Inl (RecIo WriteZero), w')
               else io_write_all (drop written buf) w')"
  by pat_completeness auto
termination by (relation "measure (\<lambda>(buf, w). length buf)") auto

declare io_write_all.simps [simp del]

text \<open>\<open>IoSlice::advance_slices\<close>: buffers that are used up are dropped, the next one is advanced.\<close>

fun advance_slices :: "bytes list \<Rightarrow> usize \<Rightarrow> bytes list" where
  "advance_slices [] n = []"
| "advance_slices (b # bs) n =
     (if length b \<le> n then advance_slices bs (n - length b) else drop n b # bs)"

function write_vectored_all :: "bytes list \<Rightarrow> writer \<Rightarrow> (RecordError + unit) \<times> writer" where
  "write_vectored_all slices w =
     (if slices = [] then (Inr (), w)
      else case io_poll_write (concat slices) w of
             (Inl e, w') \<Rightarrow> (Inl e, w')
           | (Inr written, w') \<Rightarrow>
               if written = 0 then (Inl (RecIo WriteZero), w')
               else write_vectored_all (advance_slices slices written) w')"
  by pat_completeness auto
termination
proof -
  have "n \<le> length (concat bs) \<Longrightarrow> length (concat (advance_slices bs n)) = length (concat bs) - n"
    for bs n by (induction bs n rule: advance_slices.induct) auto
  then show ?thesis
    by (relation "measure (\<lambda>(slices, w). length (concat slices))")
      (auto simp: io_poll_write_def Let_def split: write_step.splits)
qed

declare write_vectored_all.simps [simp del]

fun write_each :: "bytes list \<Rightarrow> writer \<Rightarrow> (RecordError + unit) \<times> writer" where
  "write_each [] w = (Inr (), w)"
| "write_each (b # bs) w =
     (case io_write_all b w of
        (Inl e, w') \<Rightarrow> (Inl e, w')
      | (Inr _, w') \<Rightarrow> write_each bs w')"

definition write_all_slices :: "bytes list \<Rightarrow> writer \<Rightarrow> (RecordError + unit) \<times> writer" where
  "write_all_slices slices w =
     (if wr_vectored w then write_vectored_all slices w else write_each slices w)"

definition fragment_header :: "bool \<Rightarrow> usize \<Rightarrow> bytes" where
  "fragment_header is_last len = be32 (of_nat len OR (if is_last then 0x80000000 else 0))"

text \<open>\<open>record.chunks(max_fragment_size)\<close> with the look-ahead of \<open>peekable\<close>.\<close>

function write_chunks :: "usize \<Rightarrow> bytes \<Rightarrow> writer \<Rightarrow> (RecordError + unit) \<times> writer" where
  "write_chunks chunk rest w =
     (if rest = [] \<or> chunk = 0 then (Inr (), w)
      else
        let fragment = take chunk rest; is_end = (drop chunk rest = []) in
        if 0x7fffffff < length fragment
        then (Inl (FragmentTooLarge (length fragment) 0x7fffffff), w)
        else
          case write_all_slices [fragment_header is_end (length fragment), fragment] w of
            (Inl e, w') \<Rightarrow> (Inl e, w')
          | (Inr _, w') \<Rightarrow> write_chunks chunk (drop chunk rest) w')"
  by pat_completeness auto
termination by (relation "measure (\<lambda>(chunk, rest, w). length rest)") auto

declare write_chunks.simps [simp del]

definition write_fragments :: "bytes \<Rightarrow> usize \<Rightarrow> writer \<Rightarrow> (RecordError + unit) \<times> writer" where
  "write_fragments record_bytes max_fragment w =
     (if max_fragment = 0 then (Inl (FragmentTooLarge (length record_bytes) 0), w)
      else if record_bytes = [] then io_write_all (be32 0x80000000) w
      else
        case write_chunks max_fragment record_bytes w of
          (Inl e, w') \<Rightarrow> (Inl e, w')
        | (Inr _, w') \<Rightarrow> io_flush w')"

definition validate_record_length :: "usize \<Rightarrow> RecordLimits \<Rightarrow> RecordError + unit" where
  "validate_record_length len limits =
     (if max_record_size limits < len then Inl (RecordTooLarge (max_record_size limits))
      else
        let fragment_count =
          (if len = 0 then 1
           else if max_fragment_size limits = 0 then usize_bound - 1
           else div_ceil len (max_fragment_size limits)) in
        if max_fragments limits < fragment_count then Inl (TooManyFragments (max_fragments limits))
        else if max_fragment_size limits = 0 then Inl (FragmentTooLarge len 0)
        else Inr ())"

definition validate_record :: "bytes \<Rightarrow> RecordLimits \<Rightarrow> RecordError + unit" where
  "validate_record record_bytes limits = validate_record_length (length record_bytes) limits"

definition write_record_limited :: "bytes \<Rightarrow> RecordLimits \<Rightarrow> writer \<Rightarrow> (RecordError + unit) \<times> writer" where
  "write_record_limited record_bytes limits w =
     (case validate_record record_bytes limits of
        Inl e \<Rightarrow> (Inl e, w)
      | Inr _ \<Rightarrow> write_fragments record_bytes (max_fragment_size limits) w)"

definition write_record :: "bytes \<Rightarrow> usize \<Rightarrow> writer \<Rightarrow> (RecordError + unit) \<times> writer" where
  "write_record record_bytes max_fragment w =
     write_record_limited record_bytes
       \<lparr>max_record_size = usize_bound - 1, max_fragment_size = max_fragment,
        max_fragments = usize_bound - 1\<rparr> w"

subsection \<open>Writing three segments without joining them\<close>

text \<open>The inner \<open>while\<close> that steps over segments that are used up.\<close>

function skip_segments :: "bytes list \<Rightarrow> usize \<Rightarrow> usize \<Rightarrow> usize \<times> usize" where
  "skip_segments segments index offset =
     (if index < length segments \<and> offset = length (segments ! index)
      then skip_segments segments (index + 1) 0
      else (index, offset))"
  by pat_completeness auto
termination by (relation "measure (\<lambda>(segments, index, offset). length segments - index)") auto

declare skip_segments.simps [simp del]

function gather_slices ::
  "bytes list \<Rightarrow> usize \<Rightarrow> usize \<Rightarrow> usize \<Rightarrow> usize \<Rightarrow> bytes list \<Rightarrow> RecordError + bytes list" where
  "gather_slices segments total_length index offset remaining slices =
     (if remaining = 0 then Inr slices
      else
        let (current_index, current_offset) = skip_segments segments index offset in
        if length segments \<le> current_index then Inl (RecordTooLarge total_length)
        else
          let segment = segments ! current_index in
          if length segment < current_offset then Inl RecPanic
          else
            let count = min remaining (length segment - current_offset) in
            if 4 \<le> length slices then Inl RecPanic
            else
              gather_slices segments total_length current_index (current_offset + count)
                (remaining - count)
                (slices @ [take count (drop current_offset segment)]))"
  by pat_completeness auto
termination
proof -
  have skip: "skip_segments segments index offset = (i, j) \<Longrightarrow> i < length segments \<Longrightarrow>
      j \<noteq> length (segments ! i)" for segments :: "bytes list" and index offset i j
  proof (induction segments index offset rule: skip_segments.induct)
    case (1 segments index offset)
    then show ?case by (auto simp: skip_segments.simps [of segments index offset] split: if_splits)
  qed
  show ?thesis
    by (relation "measure (\<lambda>(segments, total_length, index, offset, remaining, slices). remaining)")
      (auto dest!: skip [OF sym] simp: not_le not_less)
qed

declare gather_slices.simps [simp del]

function advance_segments :: "bytes list \<Rightarrow> usize \<Rightarrow> usize \<Rightarrow> usize \<Rightarrow> RecordError + (usize \<times> usize)" where
  "advance_segments segments index offset count =
     (if count = 0 then Inr (index, offset)
      else
        let (index', offset') = skip_segments segments index offset in
        if length segments \<le> index' then Inl RecPanic
        else if length (segments ! index') < offset' then Inl RecPanic
        else
          let taken = min (length (segments ! index') - offset') count in
          advance_segments segments index' (offset' + taken) (count - taken))"
  by pat_completeness auto
termination
proof -
  have skip: "skip_segments segments index offset = (i, j) \<Longrightarrow> i < length segments \<Longrightarrow>
      j \<noteq> length (segments ! i)" for segments :: "bytes list" and index offset i j
  proof (induction segments index offset rule: skip_segments.induct)
    case (1 segments index offset)
    then show ?case by (auto simp: skip_segments.simps [of segments index offset] split: if_splits)
  qed
  show ?thesis
    by (relation "measure (\<lambda>(segments, index, offset, count). count)")
      (auto dest!: skip [OF sym] simp: not_le not_less)
qed

declare advance_segments.simps [simp del]

function write_segments_loop ::
  "bytes list \<Rightarrow> usize \<Rightarrow> usize \<Rightarrow> usize \<Rightarrow> usize \<Rightarrow> usize \<Rightarrow> writer \<Rightarrow> (RecordError + unit) \<times> writer" where
  "write_segments_loop segments total_length max_fragment index offset remaining w =
     (if remaining = 0 \<or> max_fragment = 0 then (Inr (), w)
      else
        let fragment_length = min remaining max_fragment in
        if 0x7fffffff < fragment_length
        then (Inl (FragmentTooLarge fragment_length 0x7fffffff), w)
        else
          let is_last = (fragment_length = remaining);
              header = fragment_header is_last fragment_length in
          case gather_slices segments total_length index offset fragment_length [header] of
            Inl e \<Rightarrow> (Inl e, w)
          | Inr slices \<Rightarrow>
              (case write_all_slices slices w of
                 (Inl e, w') \<Rightarrow> (Inl e, w')
               | (Inr _, w') \<Rightarrow>
                   (case advance_segments segments index offset fragment_length of
                      Inl e \<Rightarrow> (Inl e, w')
                    | Inr (index', offset') \<Rightarrow>
                        write_segments_loop segments total_length max_fragment index' offset'
                          (remaining - fragment_length) w')))"
  by pat_completeness auto
termination
  by (relation "measure (\<lambda>(segments, total_length, max_fragment, index, offset, remaining, w). remaining)")
    auto

declare write_segments_loop.simps [simp del]

definition write_segmented_fragments ::
  "bytes list \<Rightarrow> usize \<Rightarrow> usize \<Rightarrow> writer \<Rightarrow> (RecordError + unit) \<times> writer" where
  "write_segmented_fragments segments total_length max_fragment w =
     (if total_length = 0 then io_write_all (be32 0x80000000) w
      else
        case write_segments_loop segments total_length max_fragment 0 0 total_length w of
          (Inl e, w') \<Rightarrow> (Inl e, w')
        | (Inr _, w') \<Rightarrow> io_flush w')"

fun segments_length :: "usize \<Rightarrow> usize \<Rightarrow> bytes list \<Rightarrow> RecordError + usize" where
  "segments_length limit len [] = Inr len"
| "segments_length limit len (segment # segments) =
     r_bind (ok_or (RecordTooLarge limit) (checked_add len (length segment)))
       (\<lambda>len'. segments_length limit len' segments)"

definition write_record_segments_limited ::
  "bytes list \<Rightarrow> RecordLimits \<Rightarrow> writer \<Rightarrow> (RecordError + unit) \<times> writer" where
  "write_record_segments_limited segments limits w =
     (case r_bind (segments_length (max_record_size limits) 0 segments)
             (\<lambda>len. r_bind (validate_record_length len limits) (\<lambda>_. Inr len)) of
        Inl e \<Rightarrow> (Inl e, w)
      | Inr len \<Rightarrow> write_segmented_fragments segments len (max_fragment_size limits) w)"

section \<open>Specification\<close>

text \<open>
  The record-marking standard: a record is a non-empty sequence of fragments, each preceded by its
  length and a flag that is set on the last one only.
\<close>

fun fragments_bytes :: "bytes list \<Rightarrow> bytes" where
  "fragments_bytes [] = []"
| "fragments_bytes (f # fs) = fragment_header (fs = []) (length f) @ f @ fragments_bytes fs"

definition fragments_ok :: "RecordLimits \<Rightarrow> bytes list \<Rightarrow> bool" where
  "fragments_ok limits fs \<longleftrightarrow>
     fs \<noteq> [] \<and> length fs \<le> max_fragments limits \<and>
     length (concat fs) \<le> max_record_size limits \<and>
     (\<forall>f \<in> set fs. length f \<le> max_fragment_size limits \<and> length f \<le> 0x7fffffff) \<and>
     (\<forall>f \<in> set (butlast fs). f \<noteq> [])"

text \<open>The fragments by which a record that is \<open>r\<close> so far is completed to \<open>r'\<close>.\<close>

definition fragments_from :: "RecordLimits \<Rightarrow> nat \<Rightarrow> bytes \<Rightarrow> bytes \<Rightarrow> bytes list \<Rightarrow> bool" where
  "fragments_from limits k r r' fs \<longleftrightarrow>
     fs \<noteq> [] \<and> length fs \<le> k \<and> r' = r @ concat fs \<and>
     length r' \<le> max_record_size limits \<and> length r' < usize_bound \<and>
     (\<forall>f \<in> set fs. length f \<le> max_fragment_size limits \<and> length f \<le> 0x7fffffff) \<and>
     (\<forall>f \<in> set (butlast fs). f \<noteq> [])"

text \<open>An allocator that never refuses a request within the record limit.\<close>

definition alloc_ok :: "allocator \<Rightarrow> RecordLimits \<Rightarrow> bool" where
  "alloc_ok try_alloc limits \<longleftrightarrow> (\<forall>n \<le> max_record_size limits. try_alloc n \<noteq> None)"

text \<open>The fragments that the writer chooses.\<close>

function chunks :: "usize \<Rightarrow> bytes \<Rightarrow> bytes list" where
  "chunks n xs = (if length xs \<le> n \<or> n = 0 then [xs] else take n xs # chunks n (drop n xs))"
  by pat_completeness auto
termination by (relation "measure (\<lambda>(n, xs). length xs)") auto

declare chunks.simps [simp del]

text \<open>
  What a write of \<open>bs\<close> may do under any schedule: some prefix of \<open>bs\<close> reaches the peer, all of it
  on success; only the transport can make it fail, and a transport that always takes something
  makes it succeed.
\<close>

definition progressive :: "writer \<Rightarrow> bool" where
  "progressive w \<longleftrightarrow> (\<forall>t. \<exists>n. wr_schedule w t = Accepts (Suc n))"

definition wrote :: "writer \<Rightarrow> bytes \<Rightarrow> (RecordError + unit) \<times> writer \<Rightarrow> bool" where
  "wrote w bs res \<longleftrightarrow>
     (\<exists>p. prefix p bs \<and> wr_out (snd res) = wr_out w @ p) \<and>
     (fst res = Inr () \<longrightarrow> wr_out (snd res) = wr_out w @ bs) \<and>
     (\<forall>e. fst res = Inl e \<longrightarrow> (\<exists>k. e = RecIo k)) \<and>
     (progressive w \<longrightarrow> fst res = Inr ()) \<and>
     wr_vectored (snd res) = wr_vectored w \<and> wr_schedule (snd res) = wr_schedule w"

text \<open>The bytes that remain behind a cursor into the segments.\<close>

definition segments_rest :: "bytes list \<Rightarrow> usize \<Rightarrow> usize \<Rightarrow> bytes" where
  "segments_rest segments index offset =
     (if index < length segments
      then drop offset (segments ! index) @ concat (drop (Suc index) segments) else [])"

definition cursor_ok :: "bytes list \<Rightarrow> usize \<Rightarrow> usize \<Rightarrow> bool" where
  "cursor_ok segments index offset \<longleftrightarrow>
     (index < length segments \<longrightarrow> offset \<le> length (segments ! index))"

text \<open>A transport that takes one, two and three bytes in turn.\<close>

definition sample_writer :: "bool \<Rightarrow> writer" where
  "sample_writer vectored =
     \<lparr>wr_out = [], wr_vectored = vectored, wr_schedule = (\<lambda>t. Accepts (Suc (t mod 3))), wr_clock = 0\<rparr>"

section \<open>Fragment headers\<close>

lemma header_last_bit: "header_last h \<longleftrightarrow> bit h 31"
proof -
  have "(0x80000000 :: u32) = 2 ^ 31" by simp
  then show ?thesis unfolding header_last_def by (simp only: and_exp_eq_0_iff_not_bit not_not)
qed

lemma header_length_take_bit: "header_length h = unat (take_bit 31 h)"
proof -
  have "(0x7fffffff :: u32) = mask 31" by (simp add: mask_eq_exp_minus_1)
  then show ?thesis by (simp only: header_length_def take_bit_eq_mask)
qed

lemma bit_top: "bit (0x80000000 :: int) k \<longleftrightarrow> k = 31"
proof -
  have "(0x80000000 :: int) = 2 ^ 31" by simp
  then show ?thesis by (simp only: bit_exp_iff) auto
qed

lemma header_eta:
  "of_nat (header_length h) OR (if header_last h then 0x80000000 else 0) = h" (is "?l = h")
proof (rule bit_word_eqI)
  fix k :: nat
  assume "k < LENGTH(32)"
  then have "k < 31 \<or> k = 31" by auto
  then show "bit ?l k = bit h k"
    by (auto simp: header_length_take_bit header_last_bit bit_or_iff bit_take_bit_iff bit_top)
qed

lemma header_length_le: "header_length h \<le> 0x7fffffff"
proof -
  have "header_length h < 2 ^ 31"
    unfolding header_length_take_bit unsigned_take_bit_eq by (rule take_bit_nat_less_exp)
  then show ?thesis by simp
qed

lemma header_of_length:
  assumes "n \<le> 0x7fffffff"
  shows "header_last (of_nat n OR (if b then 0x80000000 else 0)) = b"
    and "header_length (of_nat n OR (if b then 0x80000000 else 0)) = n"
proof -
  have n: "take_bit 31 n = n" using assms by (simp add: take_bit_nat_eq_self)
  have word: "take_bit 31 (of_nat n :: u32) = of_nat n" unfolding take_bit_of_nat n ..
  then have "\<not> bit (of_nat n :: u32) 31" by (metis bit_take_bit_iff less_irrefl)
  then show "header_last (of_nat n OR (if b then 0x80000000 else 0)) = b"
    by (simp add: header_last_bit bit_or_iff bit_top)
  have "take_bit 31 (0x80000000 :: u32) = 0"
    by (rule bit_word_eqI) (simp add: bit_take_bit_iff bit_top)
  with word show "header_length (of_nat n OR (if b then 0x80000000 else 0)) = n"
    using assms by (simp add: header_length_take_bit take_bit_or unat_of_nat)
qed

lemma length_fragment_header [simp]: "length (fragment_header b n) = 4"
  by (simp add: fragment_header_def)

lemma fragment_header_not_Nil [simp]: "fragment_header b n \<noteq> []"
  using length_fragment_header [of b n] by fastforce

section \<open>Reading accepts exactly the marked records\<close>

lemma io_read_exact_Inr:
  "io_read_exact n rd = Inr (bs, rd') \<longleftrightarrow>
     length bs = n \<and> rd_bytes rd = bs @ rd_bytes rd' \<and> rd_end rd' = rd_end rd"
  by (cases rd, cases rd') (auto simp: io_read_exact_def)

lemma io_read_u32_Inr:
  "io_read_u32 rd = Inr (h, rd') \<longleftrightarrow>
     rd_bytes rd = be32 h @ rd_bytes rd' \<and> rd_end rd' = rd_end rd"
proof -
  have "io_read_u32 rd = Inr (h, rd') \<longleftrightarrow>
      (\<exists>bs. io_read_exact 4 rd = Inr (bs, rd') \<and> h = u32_of_be bs)"
    by (cases "io_read_exact 4 rd") (auto simp: io_read_u32_def)
  then show ?thesis
    unfolding io_read_exact_Inr by (metis be32_u32_of_be length_be32 u32_of_be_be32)
qed

lemma reserve_record_ok:
  assumes "alloc_ok try_alloc limits" and "len \<le> required" and "required \<le> max_record_size limits"
  shows "\<exists>c. reserve_record try_alloc capacity len required (max_record_size limits) = Inr c"
proof -
  let ?t = "reserve_target capacity required (max_record_size limits)"
  have "len \<le> ?t" and "?t \<le> max_record_size limits"
    using assms by (auto simp: reserve_target_def)
  then obtain c where "try_alloc ?t = Some c" and "len + (?t - len) = ?t"
    using assms(1) by (auto simp: alloc_ok_def)
  then show ?thesis
    by (auto simp: reserve_record_def try_reserve_exact_def saturating_sub_def)
qed

lemma read_fragment_Inr:
  assumes "alloc_ok try_alloc limits"
  shows "(\<exists>c. read_fragment try_alloc limits h r capacity rd = Inr (r', c, rd')) \<longleftrightarrow>
    (\<exists>body. (body = [] \<longrightarrow> header_last h) \<and> length body = header_length h \<and>
      length body \<le> max_fragment_size limits \<and> length r' < usize_bound \<and>
      length r' \<le> max_record_size limits \<and> r' = r @ body \<and>
      rd_bytes rd = body @ rd_bytes rd' \<and> rd_end rd' = rd_end rd)"
  (is "?l \<longleftrightarrow> ?r")
proof
  assume ?l
  then show ?r
    by (auto simp: read_fragment_def Let_def io_read_exact_Inr checked_add_def
        split: if_splits prod.splits elim!: r_bind.elims)
next
  assume ?r
  then obtain body where "body = [] \<longrightarrow> header_last h" and len: "length body = header_length h"
    and "length body \<le> max_fragment_size limits" and "length r' < usize_bound"
    and "length r' \<le> max_record_size limits" and "r' = r @ body"
    and "rd_bytes rd = body @ rd_bytes rd'" and "rd_end rd' = rd_end rd" by blast
  then have body: "body = [] \<longrightarrow> header_last h" "header_length h = length body"
    "length body \<le> max_fragment_size limits" "length r + length body < usize_bound"
    "length r + length body \<le> max_record_size limits" "r' = r @ body"
    "io_read_exact (length body) rd = Inr (body, rd')"
    by (auto simp: io_read_exact_Inr)
  moreover obtain c where "reserve_record try_alloc capacity (length r) (length r + length body)
      (max_record_size limits) = Inr c"
    using reserve_record_ok [OF assms] body(5) by (meson le_add1)
  ultimately show ?l by (simp add: read_fragment_def Let_def checked_add_def)
qed

lemma read_fragments_Suc_Inr:
  "read_fragments (Suc k) try_alloc limits r capacity rd = Inr (r', rd') \<longleftrightarrow>
     (\<exists>h rd1 r1 c rd2. io_read_u32 rd = Inr (h, rd1) \<and>
        read_fragment try_alloc limits h r capacity rd1 = Inr (r1, c, rd2) \<and>
        (if header_last h then r' = r1 \<and> rd' = rd2
         else k \<noteq> 0 \<and> read_fragments k try_alloc limits r1 c rd2 = Inr (r', rd')))"
proof (cases "io_read_u32 rd")
  case (Inr a)
  then obtain h rd1 where "io_read_u32 rd = Inr (h, rd1)" by (cases a) auto
  then show ?thesis
    by (cases "read_fragment try_alloc limits h r capacity rd1"; cases "header_last h"; cases "k = 0")
      auto
qed simp

lemma fragments_from_Cons:
  "fragments_from limits (Suc k) r r' (f # fs) \<longleftrightarrow>
     (fs \<noteq> [] \<longrightarrow> f \<noteq> []) \<and> length f \<le> max_fragment_size limits \<and> length f \<le> 0x7fffffff \<and>
     (if fs = [] then r' = r @ f \<and> length r' \<le> max_record_size limits \<and> length r' < usize_bound
      else fragments_from limits k (r @ f) r' fs)"
  by (auto simp: fragments_from_def)

lemma fragments_from_le:
  "fragments_from limits k (r @ f) r' fs \<Longrightarrow>
     length (r @ f) \<le> max_record_size limits \<and> length (r @ f) < usize_bound"
  by (auto simp: fragments_from_def)

lemma read_fragments_Inr:
  assumes "alloc_ok try_alloc limits"
  shows "read_fragments k try_alloc limits r capacity rd = Inr (r', rd') \<longleftrightarrow>
    (\<exists>fs. fragments_from limits k r r' fs \<and>
      rd_bytes rd = fragments_bytes fs @ rd_bytes rd' \<and> rd_end rd' = rd_end rd)"
proof (induction k arbitrary: r capacity rd)
  case 0
  then show ?case by (auto simp: fragments_from_def)
next
  case (Suc k)
  show ?case (is "?l \<longleftrightarrow> ?r")
  proof
    assume ?l
    then obtain h rd1 r1 c rd2 where h: "io_read_u32 rd = Inr (h, rd1)"
      and "read_fragment try_alloc limits h r capacity rd1 = Inr (r1, c, rd2)"
      and k: "if header_last h then r' = r1 \<and> rd' = rd2
        else k \<noteq> 0 \<and> read_fragments k try_alloc limits r1 c rd2 = Inr (r', rd')"
      unfolding read_fragments_Suc_Inr by blast
    then obtain body where body: "body = [] \<longrightarrow> header_last h" "length body = header_length h"
      "length body \<le> max_fragment_size limits" "length r1 < usize_bound"
      "length r1 \<le> max_record_size limits" "r1 = r @ body" "rd_bytes rd1 = body @ rd_bytes rd2"
      "rd_end rd2 = rd_end rd1"
      using read_fragment_Inr [OF assms, of h r capacity rd1 r1 rd2] by blast
    have header: "fragment_header (header_last h) (length body) = be32 h"
      by (simp add: fragment_header_def body(2) header_eta)
    note facts = h [unfolded io_read_u32_Inr] body header header_length_le [of h]
    show ?r
    proof (cases "header_last h")
      case True
      with k facts show ?thesis
        by (intro exI [of _ "[body]"]) (auto simp: fragments_from_def)
    next
      case False
      with k obtain fs where "fragments_from limits k r1 r' fs"
        "rd_bytes rd2 = fragments_bytes fs @ rd_bytes rd'" "rd_end rd' = rd_end rd2"
        unfolding Suc by auto
      moreover from this have "fs \<noteq> []" by (simp add: fragments_from_def)
      ultimately show ?thesis
        using False facts
        by (intro exI [of _ "body # fs"]) (auto simp: fragments_from_Cons)
    qed
  next
    assume ?r
    then obtain f fs where fs: "fragments_from limits (Suc k) r r' (f # fs)"
      "rd_bytes rd = fragments_bytes (f # fs) @ rd_bytes rd'" "rd_end rd' = rd_end rd"
      by (metis fragments_from_def neq_Nil_conv)
    define h :: u32 where "h = of_nat (length f) OR (if fs = [] then 0x80000000 else 0)"
    define rd2 where "rd2 = rd\<lparr>rd_bytes := fragments_bytes fs @ rd_bytes rd'\<rparr>"
    have h: "header_last h \<longleftrightarrow> fs = []" "header_length h = length f"
      using fs(1) header_of_length [of "length f" "fs = []"]
      by (simp_all add: h_def fragments_from_Cons)
    have "io_read_u32 rd = Inr (h, rd\<lparr>rd_bytes := f @ rd_bytes rd2\<rparr>)"
      using fs(2) by (simp add: io_read_u32_Inr fragment_header_def h_def rd2_def)
    moreover obtain c where "read_fragment try_alloc limits h r capacity
        (rd\<lparr>rd_bytes := f @ rd_bytes rd2\<rparr>) = Inr (r @ f, c, rd2)"
      using fs(1) h fragments_from_le [of limits k r f r' fs]
        read_fragment_Inr [OF assms, of h r capacity "rd\<lparr>rd_bytes := f @ rd_bytes rd2\<rparr>" "r @ f" rd2]
      by (auto simp: fragments_from_Cons rd2_def split: if_splits)
    moreover have "if header_last h then r' = r @ f \<and> rd' = rd2
        else k \<noteq> 0 \<and> read_fragments k try_alloc limits (r @ f) c rd2 = Inr (r', rd')"
    proof (cases "fs = []")
      case True
      with fs h show ?thesis by (simp add: fragments_from_Cons rd2_def)
    next
      case False
      then have "fragments_from limits k (r @ f) r' fs" using fs(1) by (simp add: fragments_from_Cons)
      moreover from this False have "k \<noteq> 0" by (cases fs) (auto simp: fragments_from_def)
      ultimately show ?thesis
        using False h fs(3) unfolding Suc by (auto simp: rd2_def)
    qed
    ultimately show ?l unfolding read_fragments_Suc_Inr by blast
  qed
qed

lemma read_record_Inr:
  assumes "alloc_ok try_alloc limits" and "max_record_size limits < usize_bound"
  shows "read_record try_alloc limits rd = Inr (r, rd') \<longleftrightarrow>
    (\<exists>fs. fragments_ok limits fs \<and> r = concat fs \<and>
      rd_bytes rd = fragments_bytes fs @ rd_bytes rd' \<and> rd_end rd' = rd_end rd)"
proof -
  have "fragments_from limits (max_fragments limits) [] r fs \<longleftrightarrow>
      fragments_ok limits fs \<and> r = concat fs" for fs
    using assms(2) by (auto simp: fragments_from_def fragments_ok_def)
  then show ?thesis unfolding read_record_def read_fragments_Inr [OF assms(1)] by auto
qed

text \<open>No request to the allocator exceeds the record limit.\<close>

lemma reserve_request_bounded:
  assumes "len \<le> required" and "required \<le> limit"
  shows "reserve_record try_alloc capacity len required limit =
    reserve_record (\<lambda>n. if n \<le> limit then try_alloc n else None) capacity len required limit"
proof -
  have "len \<le> reserve_target capacity required limit" "reserve_target capacity required limit \<le> limit"
    using assms by (auto simp: reserve_target_def)
  then show ?thesis by (simp add: reserve_record_def try_reserve_exact_def saturating_sub_def)
qed

lemma read_fragments_header:
  "read_fragments (Suc k) try_alloc limits r capacity rd =
     r_bind (io_read_u32 rd) (\<lambda>(h, rd1).
       read_fragments_budgeted (Suc k) try_alloc limits h r capacity rd1)"
proof (induction k arbitrary: r capacity rd)
  case 0
  then show ?case by (simp cong: if_cong)
next
  case (Suc k)
  note steps = read_fragments.simps(2) [of "Suc k" try_alloc limits r capacity rd]
    read_fragments_budgeted.simps(2) [of "Suc k" try_alloc limits _ r capacity]
  show ?case
    unfolding steps Suc.IH
    by (simp cong: if_cong del: read_fragments.simps read_fragments_budgeted.simps)
qed

lemma read_fragment_first:
  "header_length h = 0 \<and> \<not> header_last h \<Longrightarrow>
     read_fragment try_alloc limits h [] 0 rd = Inl EmptyFragment"
  "\<not> (header_length h = 0 \<and> \<not> header_last h) \<Longrightarrow> max_fragment_size limits < header_length h \<Longrightarrow>
     read_fragment try_alloc limits h [] 0 rd =
       Inl (FragmentTooLarge (header_length h) (max_fragment_size limits))"
  "\<not> (header_length h = 0 \<and> \<not> header_last h) \<Longrightarrow> \<not> max_fragment_size limits < header_length h \<Longrightarrow>
     max_record_size limits < header_length h \<Longrightarrow>
     read_fragment try_alloc limits h [] 0 rd = Inl (RecordTooLarge (max_record_size limits))"
  using header_length_le [of h]
  by (simp_all add: read_fragment_def Let_def checked_add_def)

lemma read_record_budgeted_eq:
  assumes "0 < max_fragments limits" and "max_record_size limits \<le> u32_max"
    and "\<not> sem_closed budget" and "max_record_size limits \<le> sem_permits budget"
  shows "read_record_budgeted try_alloc limits budget rd =
    Some (read_record try_alloc limits rd,
      case read_record try_alloc limits rd of
        Inl _ \<Rightarrow> budget
      | Inr _ \<Rightarrow> budget\<lparr>sem_permits := sem_permits budget - max_record_size limits\<rparr>)"
proof -
  obtain k where k: "max_fragments limits = Suc k" using assms(1) gr0_implies_Suc by blast
  have acquire: "acquire_many (max_record_size limits) budget =
      Some (Inr (budget\<lparr>sem_permits := sem_permits budget - max_record_size limits\<rparr>))"
    using assms by (simp add: acquire_many_def)
  show ?thesis
  proof (cases "io_read_u32 rd")
    case (Inl e)
    then show ?thesis
      by (simp add: read_record_budgeted_def read_record_def k read_fragments_header)
  next
    case (Inr a)
    then obtain h rd1 where h: "io_read_u32 rd = Inr (h, rd1)" by (cases a) auto
    have read: "read_record try_alloc limits rd =
        read_fragments_budgeted (Suc k) try_alloc limits h [] 0 rd1"
      unfolding read_record_def k read_fragments_header h by simp
    note first = read_fragment_first
      [where h = h and rd = rd1 and limits = limits and try_alloc = try_alloc]
    have "read_fragments_budgeted (Suc k) try_alloc limits h [] 0 rd1 = Inl e"
      if "read_fragment try_alloc limits h [] 0 rd1 = Inl e" for e using that by simp
    note errors = first [THEN this]
    show ?thesis
      unfolding read read_record_budgeted_def h k
      using assms(2)
      by (simp del: read_fragments_budgeted.simps
          add: Let_def acquire errors split: sum.split)
  qed
qed

section \<open>Writing delivers the marked record\<close>

lemma wrote_nil: "wrote w [] (Inr (), w)"
  by (simp add: wrote_def)

lemma progressive_schedule: "wr_schedule w' = wr_schedule w \<Longrightarrow> progressive w' \<longleftrightarrow> progressive w"
  by (simp add: progressive_def)

lemma wrote_then:
  assumes "wrote w bs (Inr (), w1)" and "wrote w1 cs res"
  shows "wrote w (bs @ cs) res"
proof -
  have w1: "wr_out w1 = wr_out w @ bs" "wr_vectored w1 = wr_vectored w"
    "wr_schedule w1 = wr_schedule w" using assms(1) by (simp_all add: wrote_def)
  moreover obtain p where "prefix p cs" "wr_out (snd res) = wr_out w1 @ p"
    using assms(2) by (auto simp: wrote_def)
  ultimately show ?thesis
    using assms(2) progressive_schedule [OF w1(3)]
    by (auto simp: wrote_def intro: exI [of _ "bs @ p"])
qed

lemma wrote_failed: "wrote w bs (Inl e, w1) \<Longrightarrow> wrote w (bs @ cs) (Inl e, w1)"
  by (auto simp: wrote_def)

lemma io_poll_write_Inr:
  assumes "io_poll_write buf w = (Inr n, w')"
  shows "wrote w (take n buf) (Inr (), w')" and "n \<le> length buf"
    and "progressive w \<Longrightarrow> buf \<noteq> [] \<Longrightarrow> n \<noteq> 0"
proof -
  obtain m where m: "wr_schedule w (wr_clock w) = Accepts m" "n = min m (length buf)"
    "w' = w\<lparr>wr_clock := Suc (wr_clock w), wr_out := wr_out w @ take n buf\<rparr>"
    using assms by (auto simp: io_poll_write_def Let_def split: write_step.splits)
  then show "wrote w (take n buf) (Inr (), w')" and "n \<le> length buf"
    by (auto simp: wrote_def)
  assume "progressive w" and "buf \<noteq> []"
  then obtain k where "m = Suc k" using m(1) by (metis progressive_def write_step.inject(1))
  then show "n \<noteq> 0" using m(2) \<open>buf \<noteq> []\<close> by simp
qed

lemma io_poll_write_Inl:
  assumes "io_poll_write buf w = (Inl e, w')"
  shows "wrote w bs (Inl e, w')"
proof -
  obtain k where k: "wr_schedule w (wr_clock w) = Fails k" "e = RecIo k"
    "w' = w\<lparr>wr_clock := Suc (wr_clock w)\<rparr>"
    using assms by (auto simp: io_poll_write_def Let_def split: write_step.splits)
  moreover from k(1) have "\<not> progressive w"
    by (metis progressive_def write_step.distinct(1))
  ultimately show ?thesis by (simp add: wrote_def)
qed

lemma wrote_io_write_all: "wrote w buf (io_write_all buf w)"
proof (induction buf w rule: io_write_all.induct)
  case (1 buf w)
  consider (empty) "buf = []" | (fails) e w' where "buf \<noteq> []" "io_poll_write buf w = (Inl e, w')"
    | (takes) n w' where "buf \<noteq> []" "io_poll_write buf w = (Inr n, w')"
    by (metis obj_sumE surj_pair)
  then show ?case
  proof cases
    case empty
    then show ?thesis by (simp add: io_write_all.simps wrote_nil)
  next
    case fails
    then show ?thesis by (simp add: io_write_all.simps [of buf w] io_poll_write_Inl)
  next
    case takes
    note poll = io_poll_write_Inr [OF takes(2)]
    show ?thesis
    proof (cases "n = 0")
      case True
      then show ?thesis
        using takes poll by (auto simp: io_write_all.simps [of buf w] wrote_def)
    next
      case False
      have "wrote w' (drop n buf) (io_write_all (drop n buf) w')"
        using 1 takes False by auto
      from wrote_then [OF poll(1) this]
      show ?thesis using takes False by (simp add: io_write_all.simps [of buf w])
    qed
  qed
qed

lemma wrote_io_flush: "wrote w [] (io_flush w)"
proof (cases "wr_schedule w (wr_clock w)")
  case (Accepts n)
  then show ?thesis by (simp add: io_flush_def wrote_def)
next
  case (Fails k)
  then have "\<not> progressive w" by (metis progressive_def write_step.distinct(1))
  then show ?thesis using Fails by (simp add: io_flush_def wrote_def)
qed

lemma advance_slices_concat:
  "n \<le> length (concat bs) \<Longrightarrow> concat (advance_slices bs n) = drop n (concat bs)"
  by (induction bs n rule: advance_slices.induct) auto

lemma advance_slices_front: "advance_slices bs n = [] \<or> concat (advance_slices bs n) \<noteq> []"
  by (induction bs n rule: advance_slices.induct) auto

lemma write_vectored_all_eq:
  "slices = [] \<or> concat slices \<noteq> [] \<Longrightarrow> write_vectored_all slices w = io_write_all (concat slices) w"
proof (induction slices w rule: write_vectored_all.induct)
  case (1 slices w)
  show ?case
  proof (cases "slices = []")
    case True
    then show ?thesis by (simp add: write_vectored_all.simps io_write_all.simps)
  next
    case False
    have "write_vectored_all (advance_slices slices n) w' = io_write_all (drop n (concat slices)) w'"
      if "io_poll_write (concat slices) w = (Inr n, w')" "n \<noteq> 0" for n w'
      using that 1 False io_poll_write_Inr(2) [OF that(1)] advance_slices_front [of slices n]
      by (simp add: advance_slices_concat)
    then show ?thesis
      using 1(2) False
      by (auto simp: write_vectored_all.simps [of slices w] io_write_all.simps [of "concat slices" w]
          split: prod.splits sum.splits)
  qed
qed

lemma wrote_write_each: "wrote w (concat slices) (write_each slices w)"
proof (induction slices w rule: write_each.induct)
  case (2 b bs w)
  obtain r w' where w': "io_write_all b w = (r, w')" by fastforce
  with wrote_io_write_all [of w b] have "wrote w b (r, w')" by simp
  then show ?case using 2 w' by (cases r) (auto intro: wrote_failed wrote_then)
qed (simp add: wrote_nil)

lemma wrote_write_all_slices:
  "concat slices \<noteq> [] \<Longrightarrow> wrote w (concat slices) (write_all_slices slices w)"
  by (simp add: write_all_slices_def write_vectored_all_eq wrote_io_write_all wrote_write_each)

subsection \<open>One buffer\<close>

lemma chunks_not_Nil: "chunks n xs \<noteq> []"
  by (simp add: chunks.simps)

lemma concat_chunks: "concat (chunks n xs) = xs"
proof (induction n xs rule: chunks.induct)
  case (1 n xs)
  then show ?case by (auto simp: chunks.simps [of n xs])
qed

lemma chunks_size:
  assumes "0 < n"
  shows "f \<in> set (chunks n xs) \<Longrightarrow> length f \<le> min n (length xs)"
    and "xs \<noteq> [] \<Longrightarrow> f \<in> set (chunks n xs) \<Longrightarrow> f \<noteq> []"
  using assms
proof (induction n xs rule: chunks.induct)
  case (1 n xs)
  { case 1
    then show ?case using "1.IH"(1) by (fastforce simp: chunks.simps [of n xs] split: if_splits) }
  { case 2
    then show ?case
      using "1.IH"(2) by (fastforce simp: chunks.simps [of n xs] split: if_splits) }
qed

lemma chunks_count:
  assumes "0 < n"
  shows "length (chunks n xs) \<le> k \<longleftrightarrow> (if xs = [] then 1 else div_ceil (length xs) n) \<le> k"
proof -
  have "length (chunks n xs) = (if xs = [] then 1 else div_ceil (length xs) n)"
    using assms
  proof (induction n xs rule: chunks.induct)
    case (1 n xs)
    show ?case
    proof (cases "length xs \<le> n")
      case True
      have "div_ceil (length xs) n = 1" if "xs \<noteq> []"
      proof (cases "length xs = n")
        case False
        with True that show ?thesis by (simp add: div_ceil_def)
      qed (use \<open>0 < n\<close> in \<open>simp add: div_ceil_def\<close>)
      then show ?thesis using True by (auto simp: chunks.simps [of n xs])
    next
      case False
      then have "length (chunks n xs) = Suc (div_ceil (length xs - n) n)"
        using 1 by (auto simp: chunks.simps [of n xs])
      moreover have "div_ceil (length xs) n = Suc (div_ceil (length xs - n) n)"
        using False \<open>0 < n\<close> by (simp add: div_ceil_def le_div_geq le_mod_geq)
      ultimately show ?thesis using False by auto
    qed
  qed
  then show ?thesis by simp
qed

lemma validate_record_length_Inr:
  "validate_record_length len limits = Inr () \<longleftrightarrow>
     len \<le> max_record_size limits \<and> 0 < max_fragment_size limits \<and>
     (if len = 0 then 1 else div_ceil len (max_fragment_size limits)) \<le> max_fragments limits"
  by (auto simp: validate_record_length_def Let_def)

lemma chunks_ok:
  assumes "validate_record_length (length r) limits = Inr ()"
    and "min (max_fragment_size limits) (length r) \<le> 0x7fffffff"
  shows "fragments_ok limits (chunks (max_fragment_size limits) r)"
proof -
  let ?n = "max_fragment_size limits"
  have n: "0 < ?n" and count: "length (chunks ?n r) \<le> max_fragments limits"
    using assms(1) chunks_count [of ?n r "max_fragments limits"]
    by (auto simp: validate_record_length_Inr split: if_splits)
  have "length f \<le> ?n \<and> length f \<le> 0x7fffffff" if "f \<in> set (chunks ?n r)" for f
    using chunks_size(1) [OF n that] assms(2) by (auto simp: min_def split: if_splits)
  moreover have "f \<noteq> []" if "f \<in> set (butlast (chunks ?n r))" for f
    using chunks_size(2) [OF n] in_set_butlastD [OF that] that
    by (cases "r = []") (auto simp: chunks.simps [of ?n "[]"])
  ultimately show ?thesis
    using assms(1) count
    by (auto simp: fragments_ok_def chunks_not_Nil concat_chunks validate_record_length_Inr)
qed

lemma wrote_write_chunks:
  assumes "0 < chunk" and "rest \<noteq> []" and "min chunk (length rest) \<le> 0x7fffffff"
  shows "wrote w (fragments_bytes (chunks chunk rest)) (write_chunks chunk rest w)"
  using assms
proof (induction chunk rest w rule: write_chunks.induct)
  case (1 chunk rest w)
  let ?f = "take chunk rest"
  let ?slices = "[fragment_header (drop chunk rest = []) (length ?f), ?f]"
  obtain r w' where res: "write_all_slices ?slices w = (r, w')" by fastforce
  have "concat ?slices \<noteq> []" using 1 by auto
  from wrote_write_all_slices [OF this, of w]
  have first: "wrote w (concat ?slices) (r, w')" by (simp only: res)
  have step: "write_chunks chunk rest w =
      (case r of Inl e \<Rightarrow> (Inl e, w') | Inr _ \<Rightarrow> write_chunks chunk (drop chunk rest) w')"
    using "1.prems" res by (cases r) (auto simp: write_chunks.simps [of chunk rest w] Let_def)
  show ?case
  proof (cases "drop chunk rest = []")
    case True
    then show ?thesis
      using first step by (cases r) (auto simp: chunks.simps write_chunks.simps [of chunk "[]"])
  next
    case False
    have rest: "fragments_bytes (chunks chunk rest) =
        concat ?slices @ fragments_bytes (chunks chunk (drop chunk rest))"
      using False "1.prems" by (auto simp: chunks.simps [of chunk rest] chunks_not_Nil)
    show ?thesis
    proof (cases r)
      case (Inl e)
      then show ?thesis unfolding rest step using first by (simp add: wrote_failed del: concat.simps)
    next
      case (Inr u)
      have "wrote w' (fragments_bytes (chunks chunk (drop chunk rest)))
          (write_chunks chunk (drop chunk rest) w')"
        using 1 False Inr res by auto
      then show ?thesis
        unfolding rest step using first Inr by (auto intro: wrote_then simp del: concat.simps)
    qed
  qed
qed

lemma empty_record_bytes: "fragments_bytes (chunks n []) = be32 0x80000000"
  by (simp add: chunks.simps fragment_header_def)

lemma wrote_then_flush:
  assumes "wrote w bs (r, w')"
  shows "wrote w bs (case r of Inl e \<Rightarrow> (Inl e, w') | Inr _ \<Rightarrow> io_flush w')"
  using assms wrote_then [of w bs w' "[]" "io_flush w'"] wrote_io_flush by (cases r) auto

lemma wrote_write_fragments:
  assumes "0 < n" and "min n (length r) \<le> 0x7fffffff"
  shows "wrote w (fragments_bytes (chunks n r)) (write_fragments r n w)"
proof (cases "r = []")
  case True
  then show ?thesis
    using assms by (simp add: write_fragments_def empty_record_bytes wrote_io_write_all)
next
  case False
  obtain res w' where res: "write_chunks n r w = (res, w')" by fastforce
  from wrote_then_flush [of w _ res w'] wrote_write_chunks [OF assms(1) False assms(2), of w]
  show ?thesis using assms False by (simp add: write_fragments_def res)
qed

subsection \<open>Three segments\<close>

lemma skip_segments_rest:
  assumes "cursor_ok segments index offset" and "skip_segments segments index offset = (i, j)"
  shows "segments_rest segments i j = segments_rest segments index offset \<and>
    cursor_ok segments i j \<and> index \<le> i \<and> (i < length segments \<longrightarrow> j < length (segments ! i)) \<and>
    (index < length segments \<longrightarrow> offset = length (segments ! index) \<longrightarrow> index < i)"
  using assms
proof (induction segments index offset rule: skip_segments.induct)
  case (1 segments index offset)
  note unfold = skip_segments.simps [of segments index offset]
  show ?case
  proof (cases "index < length segments \<and> offset = length (segments ! index)")
    case True
    then have "segments_rest segments (index + 1) 0 = segments_rest segments index offset"
      by (cases "Suc index < length segments")
        (auto simp: segments_rest_def simp flip: Cons_nth_drop_Suc)
    moreover have "skip_segments segments (index + 1) 0 = (i, j)"
      using "1.prems"(2) True unfold by simp
    moreover have "cursor_ok segments (index + 1) 0" by (simp add: cursor_ok_def)
    ultimately show ?thesis using "1.IH" [OF True] by auto
  next
    case False
    then show ?thesis using "1.prems" unfold by (auto simp: cursor_ok_def)
  qed
qed

lemma segments_rest_take:
  assumes "i < length segments" and "j \<le> length (segments ! i)"
    and "k \<le> length (segments ! i) - j"
  shows "take k (segments_rest segments i j) = take k (drop j (segments ! i))"
    and "drop k (segments_rest segments i j) = segments_rest segments i (j + k)"
    and "cursor_ok segments i (j + k)"
  using assms by (auto simp: segments_rest_def cursor_ok_def add.commute)

lemma gather_slices_rest:
  assumes "cursor_ok segments index offset"
    and "remaining \<le> length (segments_rest segments index offset)"
    and "length slices + (length segments - fst (skip_segments segments index offset)) \<le> 4"
  shows "\<exists>gs. gather_slices segments t index offset remaining slices = Inr (slices @ gs) \<and>
    concat gs = take remaining (segments_rest segments index offset)"
  using assms
proof (induction segments t index offset remaining slices rule: gather_slices.induct)
  case (1 segments t index offset remaining slices)
  note unfold = gather_slices.simps [of segments t index offset remaining slices]
  show ?case
  proof (cases "remaining = 0")
    case True
    then show ?thesis unfolding unfold by simp
  next
    case False
    obtain i j where ij: "skip_segments segments index offset = (i, j)" by fastforce
    note skip = skip_segments_rest [OF "1.prems"(1) ij]
    have i: "i < length segments"
    proof (rule ccontr)
      assume "\<not> i < length segments"
      then have "segments_rest segments i j = []" by (simp add: segments_rest_def)
      with "1.prems"(2) False skip show False by simp
    qed
    let ?k = "min remaining (length (segments ! i) - j)"
    let ?s = "take ?k (drop j (segments ! i))"
    have j: "j < length (segments ! i)" using skip i by blast
    note rest = segments_rest_take [OF i, of j ?k]
    have slots: "\<not> 4 \<le> length slices" using "1.prems"(3) i by (simp add: ij)
    have step: "gather_slices segments t index offset remaining slices =
        gather_slices segments t i (j + ?k) (remaining - ?k) (slices @ [?s])"
      using False i j slots unfolding unfold by (simp add: ij not_le not_less Let_def)
    have "\<exists>gs. gather_slices segments t i (j + ?k) (remaining - ?k) (slices @ [?s]) =
        Inr ((slices @ [?s]) @ gs) \<and>
        concat gs = take (remaining - ?k) (segments_rest segments i (j + ?k))"
    proof (cases "remaining = ?k")
      case True
      then show ?thesis by (simp add: gather_slices.simps [of segments t i _ 0])
    next
      case k: False
      obtain i' j' where ij': "skip_segments segments i (j + ?k) = (i', j')" by fastforce
      have "cursor_ok segments i (j + ?k)" using rest j by simp
      note skip' = skip_segments_rest [OF this ij']
      have "i < i'" using skip' i j k by (auto simp: min_def split: if_splits)
      then have "length (slices @ [?s]) + (length segments - fst (skip_segments segments i (j + ?k))) \<le> 4"
        using "1.prems"(3) i by (simp add: ij ij')
      moreover have "remaining - ?k \<le> length (segments_rest segments i (j + ?k))"
        using rest(2) "1.prems"(2) skip j by (simp flip: rest(2))
      moreover have "\<not> length segments \<le> i" "\<not> length (segments ! i) < j" using i j by auto
      ultimately show ?thesis
        using "1.IH" [OF False refl ij [symmetric] _ refl _ refl slots] rest(3) j by simp
    qed
    then obtain gs where "gather_slices segments t index offset remaining slices =
        Inr (slices @ (?s # gs))" and "concat gs = take (remaining - ?k) (segments_rest segments i (j + ?k))"
      unfolding step by auto
    moreover have "take remaining (segments_rest segments i j) =
        ?s @ take (remaining - ?k) (segments_rest segments i (j + ?k))"
      using rest j take_add [of ?k "remaining - ?k" "segments_rest segments i j"] by simp
    ultimately show ?thesis using skip by (intro exI [of _ "?s # gs"]) simp
  qed
qed

lemma advance_segments_rest:
  assumes "cursor_ok segments index offset"
    and "count \<le> length (segments_rest segments index offset)"
  shows "\<exists>i j. advance_segments segments index offset count = Inr (i, j) \<and> cursor_ok segments i j \<and>
    segments_rest segments i j = drop count (segments_rest segments index offset)"
  using assms
proof (induction segments index offset count rule: advance_segments.induct)
  case (1 segments index offset count)
  note unfold = advance_segments.simps [of segments index offset count]
  show ?case
  proof (cases "count = 0")
    case True
    then show ?thesis using 1 unfolding unfold by simp
  next
    case False
    obtain i j where ij: "skip_segments segments index offset = (i, j)" by fastforce
    note skip = skip_segments_rest [OF "1.prems"(1) ij]
    have i: "i < length segments"
    proof (rule ccontr)
      assume "\<not> i < length segments"
      then have "segments_rest segments i j = []" by (simp add: segments_rest_def)
      with "1.prems"(2) False skip show False by simp
    qed
    let ?k = "min (length (segments ! i) - j) count"
    have j: "j < length (segments ! i)" using skip i by blast
    note rest = segments_rest_take [OF i, of j ?k]
    have "advance_segments segments index offset count =
        advance_segments segments i (j + ?k) (count - ?k)"
      using False i j unfolding unfold by (simp add: ij not_le not_less Let_def)
    moreover have "count - ?k \<le> length (segments_rest segments i (j + ?k))"
      using rest(2) "1.prems"(2) skip j by (simp flip: rest(2))
    moreover have "drop (count - ?k) (segments_rest segments i (j + ?k)) =
        drop count (segments_rest segments index offset)"
      using rest(2) skip j by (simp flip: rest(2))
    moreover have "\<not> length segments \<le> i" "\<not> length (segments ! i) < j" using i j by auto
    ultimately show ?thesis
      using "1.IH" [OF False refl ij [symmetric] _ _ refl] rest(3) j by simp
  qed
qed

text \<open>One turn of the outer loop: the slices are the header and the next bytes of the payload.\<close>

lemma segments_step:
  assumes "cursor_ok segments index offset" and "length segments \<le> 3"
    and "n \<le> length (segments_rest segments index offset)"
  obtains gs i j where
    "gather_slices segments t index offset n [header] = Inr (header # gs)"
    "concat gs = take n (segments_rest segments index offset)"
    "advance_segments segments index offset n = Inr (i, j)" "cursor_ok segments i j"
    "segments_rest segments i j = drop n (segments_rest segments index offset)"
proof -
  have "length [header] + (length segments - fst (skip_segments segments index offset)) \<le> 4"
    using assms(2) by simp
  from gather_slices_rest [OF assms(1,3) this, of t] advance_segments_rest [OF assms(1,3)] that
  show thesis by auto
qed

lemma segments_loop_step:
  assumes "cursor_ok segments index offset" and "length segments \<le> 3"
    and "rest = segments_rest segments index offset" and "rest \<noteq> []"
    and "0 < n" and "min n (length rest) \<le> 0x7fffffff"
  obtains gs i j where
    "write_segments_loop segments t n index offset (length rest) w =
       (case write_all_slices (fragment_header (drop n rest = []) (length (take n rest)) # gs) w of
          (Inl e, w') \<Rightarrow> (Inl e, w')
        | (Inr _, w') \<Rightarrow> write_segments_loop segments t n i j (length (drop n rest)) w')"
    "concat gs = take n rest" "cursor_ok segments i j" "segments_rest segments i j = drop n rest"
proof -
  define k where "k = min (length rest) n"
  define h where "h = fragment_header (k = length rest) k"
  have "k \<le> length (segments_rest segments index offset)" using assms(3) by (simp add: k_def)
  from segments_step [OF assms(1,2) this, of t h]
  obtain gs i j where step:
    "gather_slices segments t index offset k [h] = Inr (h # gs)"
    "concat gs = take k rest" "advance_segments segments index offset k = Inr (i, j)"
    "cursor_ok segments i j" "segments_rest segments i j = drop k rest"
    unfolding assms(3) by metis
  have eqs: "drop k rest = drop n rest" "take k rest = take n rest"
    "length rest - k = length (drop n rest)" "(k = length rest) = (drop n rest = [])"
    "length (take n rest) = k"
    by (auto simp: k_def min_def)
  have loop: "write_segments_loop segments t n index offset (length rest) w =
      (case write_all_slices (h # gs) w of
         (Inl e, w') \<Rightarrow> (Inl e, w')
       | (Inr _, w') \<Rightarrow> write_segments_loop segments t n i j (length rest - k) w')"
    using assms(4-6) step(1,3) unfolding h_def
    by (subst write_segments_loop.simps)
      (simp add: Let_def min.commute [of n] flip: k_def split: prod.split sum.split)
  show thesis
    by (rule that [OF loop [unfolded h_def eqs(3,4), folded eqs(5)] step(2) [unfolded eqs] step(4)
        step(5) [unfolded eqs]])
qed

lemma wrote_write_segments_loop:
  assumes "0 < n" and "cursor_ok segments index offset" and "length segments \<le> 3"
    and "rest = segments_rest segments index offset" and "rest \<noteq> []"
    and "min n (length rest) \<le> 0x7fffffff"
  shows "wrote w (fragments_bytes (chunks n rest))
    (write_segments_loop segments t n index offset (length rest) w)"
  using assms
proof (induction "length rest" arbitrary: rest index offset w rule: less_induct)
  case less
  obtain gs i j where step:
    "write_segments_loop segments t n index offset (length rest) w =
       (case write_all_slices (fragment_header (drop n rest = []) (length (take n rest)) # gs) w of
          (Inl e, w') \<Rightarrow> (Inl e, w')
        | (Inr _, w') \<Rightarrow> write_segments_loop segments t n i j (length (drop n rest)) w')"
    "concat gs = take n rest" "cursor_ok segments i j" "segments_rest segments i j = drop n rest"
    by (rule segments_loop_step [OF less.prems(2-5,1,6)])
  let ?slices = "fragment_header (drop n rest = []) (length (take n rest)) # gs"
  obtain r w' where res: "write_all_slices ?slices w = (r, w')" by fastforce
  have "concat ?slices \<noteq> []" using less step by auto
  from wrote_write_all_slices [OF this, of w]
  have first: "wrote w (concat ?slices) (r, w')" by (simp only: res)
  show ?case
  proof (cases "drop n rest = []")
    case True
    then show ?thesis
      using first step(1,2) res
      by (cases r) (auto simp: chunks.simps write_segments_loop.simps [of segments t n i j 0])
  next
    case False
    have rest: "fragments_bytes (chunks n rest) =
        concat ?slices @ fragments_bytes (chunks n (drop n rest))"
      using False less.prems(1) step(2) by (auto simp: chunks.simps [of n rest] chunks_not_Nil)
    show ?thesis
    proof (cases r)
      case (Inl e)
      then show ?thesis
        unfolding rest step(1) res using first by (simp add: wrote_failed del: concat.simps)
    next
      case (Inr u)
      have "wrote w' (fragments_bytes (chunks n (drop n rest)))
          (write_segments_loop segments t n i j (length (drop n rest)) w')"
        using less.hyps [of "drop n rest" i j w'] less.prems step(3,4) False by auto
      then show ?thesis
        unfolding rest step(1) res using first Inr by (auto intro: wrote_then simp del: concat.simps)
    qed
  qed
qed

text \<open>On a vectored transport the two writers issue the very same sequence of transport calls.\<close>

lemma write_segments_loop_eq:
  assumes "0 < n" and "cursor_ok segments index offset" and "length segments \<le> 3"
    and "rest = segments_rest segments index offset"
    and "min n (length rest) \<le> 0x7fffffff" and "wr_vectored w"
  shows "write_segments_loop segments t n index offset (length rest) w = write_chunks n rest w"
  using assms
proof (induction "length rest" arbitrary: rest index offset w rule: less_induct)
  case less
  show ?case
  proof (cases "rest = []")
    case True
    then show ?thesis
      by (simp add: write_segments_loop.simps [of segments t n index offset 0]
          write_chunks.simps [of n "[]"])
  next
    case False
    let ?h = "fragment_header (drop n rest = []) (length (take n rest))"
    obtain gs i j where step:
      "write_segments_loop segments t n index offset (length rest) w =
         (case write_all_slices (?h # gs) w of
            (Inl e, w') \<Rightarrow> (Inl e, w')
          | (Inr _, w') \<Rightarrow> write_segments_loop segments t n i j (length (drop n rest)) w')"
      "concat gs = take n rest" "cursor_ok segments i j" "segments_rest segments i j = drop n rest"
      by (rule segments_loop_step [OF less.prems(2-4) False less.prems(1,5)])
    have ne: "concat (?h # gs) \<noteq> []" "concat [?h, take n rest] \<noteq> []"
      using False less.prems(1) by auto
    have same: "write_all_slices (?h # gs) w = write_all_slices [?h, take n rest] w"
      using less.prems(6) ne step(2) by (simp add: write_all_slices_def write_vectored_all_eq)
    have "write_segments_loop segments t n i j (length (drop n rest)) w' = write_chunks n (drop n rest) w'"
      if "write_all_slices [?h, take n rest] w = (Inr (), w')" for w'
    proof -
      have "wr_vectored w'"
        using wrote_write_all_slices [OF ne(2), of w] less.prems(6) that by (simp add: wrote_def)
      then show ?thesis using less.hyps [of "drop n rest" i j w'] less.prems step(3,4) False by auto
    qed
    then show ?thesis
      unfolding step(1) same
      using False less.prems(1,5)
      by (auto simp: write_chunks.simps [of n rest w] Let_def min.commute [of n]
          split: prod.splits sum.splits)
  qed
qed

lemma segments_length_Inr:
  "len + length (concat segments) < usize_bound \<Longrightarrow>
     segments_length limit len segments = Inr (len + length (concat segments))"
  by (induction limit len segments rule: segments_length.induct)
    (auto simp: checked_add_def add.assoc)

lemma segments_rest_all: "segments_rest segments 0 0 = concat segments"
  by (cases segments) (auto simp: segments_rest_def)

lemma cursor_ok_start: "cursor_ok segments 0 0"
  by (simp add: cursor_ok_def)

lemma write_segments_start:
  assumes "0 < n" and "length segments \<le> 3" and "wr_vectored w"
  shows "write_segments_loop segments t n 0 0 (length (concat segments)) w =
    write_chunks n (concat segments) w"
proof (cases "min n (length (concat segments)) \<le> 0x7fffffff")
  case True
  show ?thesis
    by (rule write_segments_loop_eq [OF assms(1) cursor_ok_start assms(2)])
      (use True assms(3) in \<open>simp_all add: segments_rest_all\<close>)
next
  case False
  then have "concat segments \<noteq> []" by (metis list.size(3) min_0R zero_le)
  moreover have "0x7fffffff < n" "0x7fffffff < length (concat segments)" using False by auto
  ultimately show ?thesis
    using assms(1)
    by (simp del: concat_eq_Nil_conv add: write_segments_loop.simps [of segments t n] write_chunks.simps [of n] Let_def
        min.commute [of n])
qed

lemma write_segmented_fragments_eq:
  assumes "0 < n" and "length segments \<le> 3" and "wr_vectored w"
  shows "write_segmented_fragments segments (length (concat segments)) n w =
    write_fragments (concat segments) n w"
  using assms by (simp add: write_segmented_fragments_def write_fragments_def write_segments_start)

lemma wrote_write_segmented_fragments:
  assumes "0 < n" and "length segments \<le> 3" and "min n (length (concat segments)) \<le> 0x7fffffff"
  shows "wrote w (fragments_bytes (chunks n (concat segments)))
    (write_segmented_fragments segments (length (concat segments)) n w)"
proof (cases "concat segments = []")
  case True
  then show ?thesis
    by (simp add: write_segmented_fragments_def empty_record_bytes wrote_io_write_all del: concat_eq_Nil_conv)
next
  case False
  obtain res w' where res:
    "write_segments_loop segments (length (concat segments)) n 0 0 (length (concat segments)) w = (res, w')"
    by fastforce
  have "wrote w (fragments_bytes (chunks n (concat segments)))
      (write_segments_loop segments (length (concat segments)) n 0 0 (length (concat segments)) w)"
    by (rule wrote_write_segments_loop [OF assms(1) cursor_ok_start assms(2)])
      (use False assms(3) in \<open>simp_all add: segments_rest_all del: concat_eq_Nil_conv\<close>)
  then show ?thesis
    using False wrote_then_flush [of w _ res w']
    by (simp add: write_segmented_fragments_def res del: concat_eq_Nil_conv)
qed

lemma write_record_segments_limited_eq:
  assumes "length (concat segments) < usize_bound"
  shows "write_record_segments_limited segments limits w =
    (case validate_record_length (length (concat segments)) limits of
       Inl e \<Rightarrow> (Inl e, w)
     | Inr _ \<Rightarrow> write_segmented_fragments segments (length (concat segments))
                  (max_fragment_size limits) w)"
  using segments_length_Inr [of 0 segments "max_record_size limits"] assms
  by (cases "validate_record_length (length (concat segments)) limits")
    (simp_all add: write_record_segments_limited_def)

section \<open>Properties\<close>

text \<open>
  C36: \<open>read_record\<close> accepts exactly the records of the record-marking standard that are within the
  limits.  It returns a record and leaves the rest of the stream precisely when the stream starts
  with a sequence of fragments, the last and only the last flagged, none but the last empty,
  whose number, sizes and total are within the limits; the record is their concatenation.
\<close>

theorem read_record_exact:
  assumes "alloc_ok try_alloc limits" and "max_record_size limits < usize_bound"
  shows "read_record try_alloc limits rd = Inr (r, rd') \<longleftrightarrow>
    (\<exists>fs. fragments_ok limits fs \<and> r = concat fs \<and>
      rd_bytes rd = fragments_bytes fs @ rd_bytes rd' \<and> rd_end rd' = rd_end rd)"
  by (rule read_record_Inr [OF assms])

theorem read_record_exact_witness:
  "read_record Some \<lparr>max_record_size = 8, max_fragment_size = 4, max_fragments = 3\<rparr>
     \<lparr>rd_bytes = [0, 0, 0, 2, 7, 8, 128, 0, 0, 1, 9, 55], rd_end = UnexpectedEof\<rparr> =
   Inr ([7, 8, 9], \<lparr>rd_bytes = [55], rd_end = UnexpectedEof\<rparr>)"
proof -
  let ?l = "\<lparr>max_record_size = 8, max_fragment_size = 4, max_fragments = 3\<rparr>"
  have "alloc_ok Some ?l" by (simp add: alloc_ok_def)
  moreover have "fragments_ok ?l [[7, 8], [9]]" by (simp add: fragments_ok_def)
  moreover have "fragments_bytes [[7, 8], [9]] = [0, 0, 0, 2, 7, 8, 128, 0, 0, 1, 9]" by code_simp
  ultimately show ?thesis
    by (subst read_record_exact) (auto intro: exI [of _ "[[7, 8], [9]]"])
qed

text \<open>
  C35: Writing and reading are inverse.  A record that passes \<open>validate_record\<close> is written, over any
  transport that keeps accepting bytes in whatever portions, without error; and reading what
  reached the peer, under the same limits, yields the record and leaves what follows it.
\<close>

theorem record_round_trip:
  assumes "alloc_ok try_alloc limits" and "max_record_size limits < usize_bound"
    and "max_fragment_size limits \<le> 0x7fffffff"
    and "validate_record r limits = Inr ()" and "progressive w"
  shows "\<exists>stream. fst (write_record_limited r limits w) = Inr () \<and>
    wr_out (snd (write_record_limited r limits w)) = wr_out w @ stream \<and>
    read_record try_alloc limits \<lparr>rd_bytes = stream @ rest, rd_end = e\<rparr> =
      Inr (r, \<lparr>rd_bytes = rest, rd_end = e\<rparr>)"
proof -
  let ?n = "max_fragment_size limits"
  have valid: "validate_record_length (length r) limits = Inr ()"
    using assms(4) by (simp add: validate_record_def)
  have n: "0 < ?n" using valid by (simp add: validate_record_length_Inr)
  have small: "min ?n (length r) \<le> 0x7fffffff" using assms(3) by simp
  have "wrote w (fragments_bytes (chunks ?n r)) (write_record_limited r limits w)"
    using wrote_write_fragments [OF n small] assms(4) by (simp add: write_record_limited_def)
  moreover have "read_record try_alloc limits \<lparr>rd_bytes = fragments_bytes (chunks ?n r) @ rest, rd_end = e\<rparr>
      = Inr (r, \<lparr>rd_bytes = rest, rd_end = e\<rparr>)"
    unfolding read_record_Inr [OF assms(1,2)]
    using chunks_ok [OF valid small] by (auto simp: concat_chunks intro!: exI [of _ "chunks ?n r"])
  ultimately show ?thesis
    using assms(5) by (auto simp: wrote_def)
qed

theorem record_round_trip_witness:
  "\<exists>stream. fst (write_record_limited [1, 2, 3, 4, 5]
       \<lparr>max_record_size = 8, max_fragment_size = 2, max_fragments = 3\<rparr> (sample_writer True)) = Inr () \<and>
     read_record Some \<lparr>max_record_size = 8, max_fragment_size = 2, max_fragments = 3\<rparr>
       \<lparr>rd_bytes = stream @ [], rd_end = UnexpectedEof\<rparr> =
     Inr ([1, 2, 3, 4, 5], \<lparr>rd_bytes = [], rd_end = UnexpectedEof\<rparr>)"
proof -
  let ?l = "\<lparr>max_record_size = 8, max_fragment_size = 2, max_fragments = 3\<rparr>"
  have "alloc_ok Some ?l" and "validate_record [1, 2, 3, 4, 5] ?l = Inr ()"
    and "progressive (sample_writer True)"
    by (simp_all add: alloc_ok_def validate_record_def validate_record_length_def div_ceil_def
        progressive_def sample_writer_def)
  then show ?thesis
    using record_round_trip [of Some ?l "[1, 2, 3, 4, 5]" "sample_writer True" "[]" UnexpectedEof]
    by auto
qed

text \<open>
  The segmented writer is the contiguous one.  On a transport with vectored writes,
  \<open>write_record_segments_limited\<close> on three segments has the same result, leaves the same bytes and
  makes the same sequence of transport calls as \<open>write_record_limited\<close> on their concatenation,
  whatever the schedule and the limits: errors, partial writes and fragment boundaries included.
\<close>

theorem segmented_write_equiv:
  assumes "length segments = 3" and "length (concat segments) < usize_bound" and "wr_vectored w"
  shows "write_record_segments_limited segments limits w = write_record_limited (concat segments) limits w"
proof (cases "validate_record_length (length (concat segments)) limits")
  case (Inl e)
  then show ?thesis
    using assms(2) by (simp add: write_record_segments_limited_eq write_record_limited_def validate_record_def)
next
  case (Inr u)
  then have "0 < max_fragment_size limits" by (simp add: validate_record_length_Inr)
  then show ?thesis
    using Inr assms
    by (simp add: write_record_segments_limited_eq write_record_limited_def validate_record_def
        write_segmented_fragments_eq)
qed

theorem segmented_write_equiv_witness:
  "write_record_segments_limited [[1, 2, 3], [], [4]]
     \<lparr>max_record_size = 8, max_fragment_size = 3, max_fragments = 3\<rparr> (sample_writer True) =
   write_record_limited [1, 2, 3, 4]
     \<lparr>max_record_size = 8, max_fragment_size = 3, max_fragments = 3\<rparr> (sample_writer True)"
  using segmented_write_equiv [of "[[1, 2, 3], [], [4]]" "sample_writer True"
      "\<lparr>max_record_size = 8, max_fragment_size = 3, max_fragments = 3\<rparr>"]
  by (simp add: sample_writer_def)

text \<open>
  C37: No schedule corrupts the stream.  Whatever portions the transport takes and whenever it fails,
  vectored or not, the bytes that reached the peer are a prefix of the marked record, all of it
  on success; the segment cursors never run out of range, so the only errors are those of the
  transport; and a transport that always takes something lets the write finish.
\<close>

theorem segmented_write_safe:
  assumes "length segments = 3" and "length (concat segments) < usize_bound"
    and "validate_record_length (length (concat segments)) limits = Inr ()"
    and "max_fragment_size limits \<le> 0x7fffffff"
  shows "\<exists>stream. fragments_ok limits stream \<and> concat stream = concat segments \<and>
    wrote w (fragments_bytes stream) (write_record_segments_limited segments limits w)"
proof -
  let ?n = "max_fragment_size limits" and ?r = "concat segments"
  have "0 < ?n" using assms(3) by (simp add: validate_record_length_Inr)
  moreover have small: "min ?n (length ?r) \<le> 0x7fffffff" using assms(4) by simp
  ultimately have "wrote w (fragments_bytes (chunks ?n ?r)) (write_record_segments_limited segments limits w)"
    using assms by (simp add: write_record_segments_limited_eq wrote_write_segmented_fragments)
  then show ?thesis
    using chunks_ok [OF assms(3) small] concat_chunks [of ?n ?r] by blast
qed

theorem segmented_write_safe_witness:
  "\<exists>stream. concat stream = [1, 2, 3, 4] \<and>
     wrote (sample_writer False) (fragments_bytes stream)
       (write_record_segments_limited [[1, 2, 3], [], [4]]
          \<lparr>max_record_size = 8, max_fragment_size = 3, max_fragments = 3\<rparr> (sample_writer False))"
proof -
  let ?l = "\<lparr>max_record_size = 8, max_fragment_size = 3, max_fragments = 3\<rparr>"
  have "validate_record_length (length (concat [[1, 2, 3 :: u8], [], [4]])) ?l = Inr ()"
    by (simp add: validate_record_length_def div_ceil_def)
  then show ?thesis
    using segmented_write_safe [of "[[1, 2, 3], [], [4]]" ?l "sample_writer False"] by auto
qed

text \<open>
  The byte budget.  With at least one fragment allowed and a record limit that fits the
  semaphore, reading under an open budget that has the permits returns exactly what \<open>read_record\<close>
  returns, error by error.  A failed read gives its permits back; a successful one keeps the whole
  record limit charged, which covers the record.  Too few permits make the reader wait before any
  fragment body is read.
\<close>

theorem read_record_budgeted_equiv:
  assumes "0 < max_fragments limits" and "max_record_size limits \<le> u32_max"
    and "\<not> sem_closed budget" and "max_record_size limits \<le> sem_permits budget"
  shows "read_record_budgeted try_alloc limits budget rd =
    Some (read_record try_alloc limits rd,
      case read_record try_alloc limits rd of
        Inl _ \<Rightarrow> budget
      | Inr _ \<Rightarrow> budget\<lparr>sem_permits := sem_permits budget - max_record_size limits\<rparr>)"
  by (rule read_record_budgeted_eq [OF assms])

theorem read_record_budgeted_equiv_witness:
  "read_record_budgeted Some \<lparr>max_record_size = 8, max_fragment_size = 4, max_fragments = 3\<rparr>
     \<lparr>sem_permits = 20, sem_closed = False\<rparr>
     \<lparr>rd_bytes = [128, 0, 0, 2, 7, 8], rd_end = UnexpectedEof\<rparr> =
   Some (Inr ([7, 8], \<lparr>rd_bytes = [], rd_end = UnexpectedEof\<rparr>), \<lparr>sem_permits = 12, sem_closed = False\<rparr>)"
proof -
  have "read_record Some \<lparr>max_record_size = 8, max_fragment_size = 4, max_fragments = 3\<rparr>
      \<lparr>rd_bytes = [128, 0, 0, 2, 7, 8], rd_end = UnexpectedEof\<rparr> =
    Inr ([7, 8], \<lparr>rd_bytes = [], rd_end = UnexpectedEof\<rparr>)" by code_simp
  then show ?thesis by (subst read_record_budgeted_equiv) simp_all
qed

end
