(* ===== verification/Server_Limits.thy ===== *)
theory Server_Limits
  imports Record_Marking
begin

text \<open>
  The limits of a server, \<^verbatim>\<open>src/server/limits.rs\<close>, and their validation.  A \<open>Duration\<close> is a number of
  milliseconds.  \<open>tokio::sync::Semaphore::MAX_PERMITS\<close> belongs to the runtime and is the argument
  \<open>max_permits\<close>.

  The lemmas show what validation is for: a server that starts can carry every mutation reply, every
  READ reply, every directory listing and every WRITE request of the advertised sizes.
\<close>

definition MAXIMUM_MUTATION_REPLY_SIZE :: usize where "MAXIMUM_MUTATION_REPLY_SIZE = 304"
definition MAX_VALID_RPC_CALL_PREFIX_SIZE :: usize where "MAX_VALID_RPC_CALL_PREFIX_SIZE = 440"
definition MAX_FILE_HANDLE_XDR_SIZE :: usize where "MAX_FILE_HANDLE_XDR_SIZE = 68"
definition WRITE_ARGUMENT_FIXED_SIZE :: usize where
  "WRITE_ARGUMENT_FIXED_SIZE = MAX_FILE_HANDLE_XDR_SIZE + 8 + 4 + 4 + 4"
definition WRITE_PADDING_ALLOWANCE :: usize where "WRITE_PADDING_ALLOWANCE = 3"
definition MAXIMUM_WRITE_RECORD_OVERHEAD :: usize where
  "MAXIMUM_WRITE_RECORD_OVERHEAD =
     MAX_VALID_RPC_CALL_PREFIX_SIZE + WRITE_ARGUMENT_FIXED_SIZE + WRITE_PADDING_ALLOWANCE"
definition MAXIMUM_READ_REPLY_OVERHEAD :: usize where
  "MAXIMUM_READ_REPLY_OVERHEAD = 24 + 4 + 88 + 4 + 4 + 4 + 3"
definition READDIR_REPLY_OVERHEAD :: usize where "READDIR_REPLY_OVERHEAD = 24 + 4"

record ServerLimits =
  sl_max_connections :: usize
  sl_max_requests_per_connection :: usize
  sl_max_inflight_requests :: usize
  sl_max_rpc_record_size :: usize
  sl_max_rpc_fragment_size :: usize
  sl_max_fragments_per_record :: usize
  sl_max_buffered_request_bytes :: usize
  sl_max_buffered_reply_bytes :: usize
  sl_max_read_size :: u32
  sl_max_write_size :: u32
  sl_max_readdir_response_size :: u32
  sl_request_timeout :: nat
  sl_idle_connection_timeout :: nat
  sl_replay_cache_capacity :: usize
  sl_replay_cache_max_bytes :: usize
  sl_replay_cache_ttl :: nat
  sl_graceful_shutdown_timeout :: nat
  sl_max_mounts :: usize

definition production_defaults :: ServerLimits where
  "production_defaults =
     \<lparr>sl_max_connections = 1024,
      sl_max_requests_per_connection = 32,
      sl_max_inflight_requests = 2048,
      sl_max_rpc_record_size = 2 * 1024 * 1024,
      sl_max_rpc_fragment_size = 1024 * 1024,
      sl_max_fragments_per_record = 16,
      sl_max_buffered_request_bytes = 64 * 1024 * 1024,
      sl_max_buffered_reply_bytes = 64 * 1024 * 1024,
      sl_max_read_size = 1024 * 1024,
      sl_max_write_size = 1024 * 1024,
      sl_max_readdir_response_size = 1024 * 1024,
      sl_request_timeout = 30000,
      sl_idle_connection_timeout = 120000,
      sl_replay_cache_capacity = 4096,
      sl_replay_cache_max_bytes = 64 * 1024 * 1024,
      sl_replay_cache_ttl = 120000,
      sl_graceful_shutdown_timeout = 10000,
      sl_max_mounts = 4096\<rparr>"

definition transport_record_capacity :: "ServerLimits \<Rightarrow> usize" where
  "transport_record_capacity l =
     min (sl_max_rpc_record_size l)
       (saturating_mul (sl_max_rpc_fragment_size l) (sl_max_fragments_per_record l))"

definition limits_validate :: "usize \<Rightarrow> ServerLimits \<Rightarrow> string + unit" where
  "limits_validate max_permits l =
     (if sl_max_connections l = 0 then Inl ''max_connections must be greater than zero''
      else if sl_max_requests_per_connection l = 0 \<or> sl_max_inflight_requests l = 0
      then Inl ''request concurrency limits must be greater than zero''
      else if max_permits < sl_max_connections l
        \<or> max_permits < sl_max_requests_per_connection l
        \<or> max_permits < sl_max_inflight_requests l
      then Inl ''connection and request limits exceed the runtime maximum''
      else if sl_max_rpc_fragment_size l = 0 \<or> sl_max_rpc_record_size l < sl_max_rpc_fragment_size l
      then Inl ''RPC record limit must be at least the non-zero fragment limit''
      else if 2147483647 < sl_max_rpc_fragment_size l \<or> u32_max < sl_max_rpc_record_size l
      then Inl ''RPC record and fragment limits exceed wire or budgeting capacity''
      else if sl_max_fragments_per_record l = 0
        \<or> sl_replay_cache_capacity l = 0
        \<or> sl_replay_cache_max_bytes l = 0
        \<or> sl_max_mounts l = 0
      then Inl ''fragment, replay, and mount limits must be greater than zero''
      else if sl_max_buffered_request_bytes l < sl_max_rpc_record_size l
        \<or> sl_max_buffered_reply_bytes l < sl_max_rpc_record_size l
        \<or> max_permits < sl_max_buffered_request_bytes l
        \<or> max_permits < sl_max_buffered_reply_bytes l
      then Inl ''buffer byte budgets must each hold one record and fit the runtime semaphore''
      else if sl_max_rpc_record_size l < MAXIMUM_MUTATION_REPLY_SIZE
        \<or> sl_max_fragments_per_record l < div_ceil MAXIMUM_MUTATION_REPLY_SIZE (sl_max_rpc_fragment_size l)
      then Inl ''RPC limits must be able to carry every mutation reply''
      else
        let transport_capacity = transport_record_capacity l;
            read_capacity = saturating_sub transport_capacity MAXIMUM_READ_REPLY_OVERHEAD;
            write_capacity = saturating_sub transport_capacity MAXIMUM_WRITE_RECORD_OVERHEAD;
            readdir_capacity = saturating_sub transport_capacity READDIR_REPLY_OVERHEAD in
        if sl_max_read_size l = 0
          \<or> sl_max_write_size l = 0
          \<or> sl_max_readdir_response_size l = 0
          \<or> read_capacity < unat (sl_max_read_size l)
          \<or> write_capacity < unat (sl_max_write_size l)
          \<or> readdir_capacity < unat (sl_max_readdir_response_size l)
        then Inl ''transfer limits exceed the effective RPC transport capacity''
        else Inr ())"

text \<open>The record limits that every connection derives from the server limits.\<close>

definition record_limits :: "ServerLimits \<Rightarrow> RecordLimits" where
  "record_limits l =
     \<lparr>max_record_size = sl_max_rpc_record_size l,
      max_fragment_size = sl_max_rpc_fragment_size l,
      max_fragments = sl_max_fragments_per_record l\<rparr>"

section \<open>Lemmas\<close>

lemmas limit_sizes = MAXIMUM_MUTATION_REPLY_SIZE_def MAX_VALID_RPC_CALL_PREFIX_SIZE_def
  MAX_FILE_HANDLE_XDR_SIZE_def WRITE_ARGUMENT_FIXED_SIZE_def WRITE_PADDING_ALLOWANCE_def
  MAXIMUM_WRITE_RECORD_OVERHEAD_def MAXIMUM_READ_REPLY_OVERHEAD_def READDIR_REPLY_OVERHEAD_def

lemma limits_validate_Inr:
  assumes "limits_validate p l = Inr ()"
  shows "0 < sl_max_rpc_fragment_size l" and "0 < sl_max_fragments_per_record l"
    and "MAXIMUM_MUTATION_REPLY_SIZE \<le> sl_max_rpc_record_size l"
    and "div_ceil MAXIMUM_MUTATION_REPLY_SIZE (sl_max_rpc_fragment_size l) \<le> sl_max_fragments_per_record l"
    and "sl_max_rpc_record_size l \<le> u32_max" and "sl_replay_cache_max_bytes l \<noteq> 0"
    and "sl_max_read_size l \<noteq> 0" and "sl_max_write_size l \<noteq> 0" and "sl_max_readdir_response_size l \<noteq> 0"
    and "unat (sl_max_read_size l) \<le> transport_record_capacity l - MAXIMUM_READ_REPLY_OVERHEAD"
    and "unat (sl_max_write_size l) \<le> transport_record_capacity l - MAXIMUM_WRITE_RECORD_OVERHEAD"
    and "unat (sl_max_readdir_response_size l) \<le> transport_record_capacity l - READDIR_REPLY_OVERHEAD"
  using assms by (simp_all add: limits_validate_def Let_def saturating_sub_def not_less split: if_splits)

lemma transport_capacity_iff:
  assumes "limits_validate p l = Inr ()"
  shows "n \<le> transport_record_capacity l \<longleftrightarrow>
    n \<le> sl_max_rpc_record_size l \<and> div_ceil n (sl_max_rpc_fragment_size l) \<le> sl_max_fragments_per_record l"
proof -
  note v = limits_validate_Inr [OF assms]
  have "n \<le> usize_bound - 1" if "n \<le> sl_max_rpc_record_size l" using that v(5) by simp
  then show ?thesis
    using div_ceil_le_iff [OF v(1), of n "sl_max_fragments_per_record l"]
    by (auto simp: transport_record_capacity_def saturating_mul_def mult.commute)
qed

lemma fits_transport:
  assumes "limits_validate p l = Inr ()" and "n \<le> transport_record_capacity l"
  shows "validate_record_length n (record_limits l) = Inr ()"
  using limits_validate_Inr(1,2) [OF assms(1)] transport_capacity_iff [OF assms(1), of n] assms(2)
  by (auto simp: validate_record_length_def record_limits_def Let_def)

lemma transport_carries:
  assumes "limits_validate p l = Inr ()"
  shows "MAXIMUM_MUTATION_REPLY_SIZE \<le> transport_record_capacity l"
    and "unat (sl_max_read_size l) + MAXIMUM_READ_REPLY_OVERHEAD \<le> transport_record_capacity l"
    and "unat (sl_max_write_size l) + MAXIMUM_WRITE_RECORD_OVERHEAD \<le> transport_record_capacity l"
    and "unat (sl_max_readdir_response_size l) + READDIR_REPLY_OVERHEAD \<le> transport_record_capacity l"
proof -
  note v = limits_validate_Inr [OF assms]
  have "0 < unat (sl_max_read_size l)" "0 < unat (sl_max_write_size l)" "0 < unat (sl_max_readdir_response_size l)"
    using v(7-9) by (simp_all add: unat_gt_0)
  with v(10-12)
  show "unat (sl_max_read_size l) + MAXIMUM_READ_REPLY_OVERHEAD \<le> transport_record_capacity l"
    and "unat (sl_max_write_size l) + MAXIMUM_WRITE_RECORD_OVERHEAD \<le> transport_record_capacity l"
    and "unat (sl_max_readdir_response_size l) + READDIR_REPLY_OVERHEAD \<le> transport_record_capacity l"
    by linarith+
  show "MAXIMUM_MUTATION_REPLY_SIZE \<le> transport_record_capacity l"
    using v(3,4) transport_capacity_iff [OF assms] by simp
qed

lemma production_defaults_valid: "limits_validate 2305843009213693951 production_defaults = Inr ()"
  by (simp add: limits_validate_def production_defaults_def transport_record_capacity_def saturating_mul_def
      saturating_sub_def div_ceil_def limit_sizes Let_def)

end
