(* ===== verification/Handle_Codec.thy ===== *)
theory Handle_Codec
  imports Vfs_Types
begin

text \<open>
  File handles, \<^verbatim>\<open>src/handles/codec.rs\<close>: 45 bytes holding a format version, the server instance,
  the export, the object key and a truncated HMAC-SHA256 tag over all of them.

  HMAC-SHA256 is the crate \<open>hmac\<close>, outside the repository.  The keyed state of the codec is the
  function from a message to its 32-byte code, a field of the codec; the operating system's random
  source is a state-passing argument of \<open>try_random\<close>.  \<open>verify_truncated_left\<close> accepts a non-empty
  tag that is a prefix of the code, as documented by the crate.
\<close>

definition FORMAT_VERSION :: u8 where "FORMAT_VERSION = 1"
definition INSTANCE_SIZE :: usize where "INSTANCE_SIZE = 8"
definition TAG_SIZE :: usize where "TAG_SIZE = 16"
definition PAYLOAD_SIZE :: usize where "PAYLOAD_SIZE = 1 + INSTANCE_SIZE + 4 + 8 + 8"
definition HANDLE_SIZE :: usize where "HANDLE_SIZE = PAYLOAD_SIZE + TAG_SIZE"

record HandleCodec =
  hc_instance_id :: bytes
  hc_mac :: "bytes \<Rightarrow> bytes"

datatype HandleError = InvalidLength | InvalidFormat | StaleInstance | WrongExport | InvalidTag

definition handle_codec_try_random ::
  "(bytes \<Rightarrow> bytes \<Rightarrow> bytes) \<Rightarrow> (usize \<Rightarrow> 'r \<Rightarrow> ('e + bytes) \<times> 'r) \<Rightarrow> 'r \<Rightarrow> ('e + HandleCodec) \<times> 'r" where
  "handle_codec_try_random hmac try_fill_bytes rng =
     (case try_fill_bytes INSTANCE_SIZE rng of
        (Inl e, rng1) \<Rightarrow> (Inl e, rng1)
      | (Inr instance_id, rng1) \<Rightarrow>
          (case try_fill_bytes 32 rng1 of
             (Inl e, rng2) \<Rightarrow> (Inl e, rng2)
           | (Inr secret, rng2) \<Rightarrow>
               (Inr \<lparr>hc_instance_id = instance_id, hc_mac = hmac secret\<rparr>, rng2)))"

definition handle_tag :: "HandleCodec \<Rightarrow> bytes \<Rightarrow> bytes" where
  "handle_tag c payload = take TAG_SIZE (hc_mac c payload)"

definition handle_encode :: "HandleCodec \<Rightarrow> ExportId \<Rightarrow> ObjectKey \<Rightarrow> bytes" where
  "handle_encode c export_id object =
     (let payload = [FORMAT_VERSION] @ hc_instance_id c @ be32 export_id @
            be64 (obj_file_id object) @ be64 (obj_generation object)
      in payload @ handle_tag c payload)"

definition verify_truncated_left :: "bytes \<Rightarrow> bytes \<Rightarrow> bool" where
  "verify_truncated_left code tag \<longleftrightarrow>
     tag \<noteq> [] \<and> length tag \<le> length code \<and> take (length tag) code = tag"

definition subslice :: "usize \<Rightarrow> usize \<Rightarrow> bytes \<Rightarrow> bytes" where
  "subslice i j xs = take (j - i) (drop i xs)"

definition handle_decode_any :: "HandleCodec \<Rightarrow> bytes \<Rightarrow> HandleError + (ExportId \<times> ObjectKey)" where
  "handle_decode_any c handle =
     (if length handle \<noteq> HANDLE_SIZE then Inl InvalidLength
      else if hd handle \<noteq> FORMAT_VERSION then Inl InvalidFormat
      else if subslice 1 9 handle \<noteq> hc_instance_id c then Inl StaleInstance
      else
        let encoded_export = u32_of_be (subslice 9 13 handle) in
        if \<not> verify_truncated_left (hc_mac c (take PAYLOAD_SIZE handle)) (drop PAYLOAD_SIZE handle)
        then Inl InvalidTag
        else Inr (encoded_export,
                  \<lparr>obj_file_id = u64_of_be (subslice 13 21 handle),
                   obj_generation = u64_of_be (subslice 21 29 handle)\<rparr>))"

definition handle_decode :: "HandleCodec \<Rightarrow> ExportId \<Rightarrow> bytes \<Rightarrow> HandleError + ObjectKey" where
  "handle_decode c export_id handle =
     r_bind (handle_decode_any c handle) (\<lambda>(encoded_export, object).
       if encoded_export \<noteq> export_id then Inl WrongExport else Inr object)"

text \<open>
  A codec as \<open>try_random\<close> builds it: an 8-byte instance and a code of 32 bytes (the output size of
  HMAC-SHA256).
\<close>

definition codec_ok :: "HandleCodec \<Rightarrow> bool" where
  "codec_ok c \<longleftrightarrow> length (hc_instance_id c) = 8 \<and> (\<forall>m. length (hc_mac c m) = 32)"

text \<open>The signed part of a handle.\<close>

definition handle_payload :: "HandleCodec \<Rightarrow> ExportId \<Rightarrow> ObjectKey \<Rightarrow> bytes" where
  "handle_payload c export_id object =
     [FORMAT_VERSION] @ hc_instance_id c @ be32 export_id @
     be64 (obj_file_id object) @ be64 (obj_generation object)"

text \<open>A concrete codec, used to exhibit that the hypotheses can be met.\<close>

definition sample_codec :: HandleCodec where
  "sample_codec =
     \<lparr>hc_instance_id = [1, 2, 3, 4, 5, 6, 7, 8],
      hc_mac = (\<lambda>m. replicate 32 (sum_list m))\<rparr>"

section \<open>Lemmas\<close>

lemmas handle_sizes = FORMAT_VERSION_def INSTANCE_SIZE_def TAG_SIZE_def PAYLOAD_SIZE_def
  HANDLE_SIZE_def

lemma handle_encode_payload:
  "handle_encode c e ob = handle_payload c e ob @ handle_tag c (handle_payload c e ob)"
  by (simp add: handle_encode_def handle_payload_def Let_def)

lemma length_handle_payload: "codec_ok c \<Longrightarrow> length (handle_payload c e ob) = PAYLOAD_SIZE"
  by (simp add: handle_payload_def codec_ok_def handle_sizes)

lemma length_handle_encode: "codec_ok c \<Longrightarrow> length (handle_encode c e ob) = HANDLE_SIZE"
  by (simp add: handle_encode_payload length_handle_payload handle_tag_def HANDLE_SIZE_def
      TAG_SIZE_def) (simp add: codec_ok_def)

lemma length_subslice: "length (subslice i j xs) = min (length xs - i) (j - i)"
  by (simp add: subslice_def)

lemma subslice_append:
  assumes "i \<le> k" and "k \<le> j"
  shows "subslice i j xs = subslice i k xs @ subslice k j xs"
proof -
  have "subslice i j xs = take ((k - i) + (j - k)) (drop i xs)" using assms by (simp add: subslice_def)
  also have "\<dots> = subslice i k xs @ subslice k j xs" 
    unfolding take_add using assms by (simp add: subslice_def)
  finally show ?thesis .
qed

lemma payload_split:
  assumes "length handle = HANDLE_SIZE"
  shows "take PAYLOAD_SIZE handle =
    [hd handle] @ subslice 1 9 handle @ subslice 9 13 handle @ subslice 13 21 handle @ subslice 21 29 handle"
proof -
  have "take PAYLOAD_SIZE handle = subslice 0 29 handle" by (simp add: subslice_def handle_sizes)
  also have "\<dots> = subslice 0 1 handle @ subslice 1 29 handle" by (rule subslice_append) simp_all
  also have "subslice 1 29 handle = subslice 1 9 handle @ subslice 9 29 handle"
    by (rule subslice_append) simp_all
  also have "subslice 9 29 handle = subslice 9 13 handle @ subslice 13 29 handle"
    by (rule subslice_append) simp_all
  also have "subslice 13 29 handle = subslice 13 21 handle @ subslice 21 29 handle"
    by (rule subslice_append) simp_all
  also have "subslice 0 1 handle = [hd handle]"
    using assms by (cases handle) (simp_all add: subslice_def handle_sizes)
  finally show ?thesis .
qed

lemma handle_tag_iff:
  assumes "codec_ok c" and "length tag = TAG_SIZE"
  shows "verify_truncated_left (hc_mac c payload) tag \<longleftrightarrow> tag = handle_tag c payload"
  using assms by (auto simp: verify_truncated_left_def handle_tag_def codec_ok_def handle_sizes)

lemma payload_fields:
  assumes "codec_ok c" and "length handle = HANDLE_SIZE"
  shows "take PAYLOAD_SIZE handle = handle_payload c e ob \<longleftrightarrow>
    hd handle = FORMAT_VERSION \<and> subslice 1 9 handle = hc_instance_id c \<and>
    subslice 9 13 handle = be32 e \<and> subslice 13 21 handle = be64 (obj_file_id ob) \<and>
    subslice 21 29 handle = be64 (obj_generation ob)"
proof -
  have len: "length (subslice 1 9 handle) = length (hc_instance_id c)"
    "length (subslice 9 13 handle) = 4" "length (subslice 13 21 handle) = 8"
    using assms by (simp_all add: length_subslice codec_ok_def handle_sizes)
  show ?thesis
    unfolding payload_split [OF assms(2)] handle_payload_def
    by (simp del: One_nat_def add: append_eq_append_conv len)
qed

lemma be32_of_slice: "length xs = 4 \<Longrightarrow> xs = be32 e \<longleftrightarrow> u32_of_be xs = e"
  by (metis be32_u32_of_be u32_of_be_be32)

lemma be64_of_slice: "length xs = 8 \<Longrightarrow> xs = be64 e \<longleftrightarrow> u64_of_be xs = e"
  by (metis be64_u64_of_be u64_of_be_be64)

lemma handle_split:
  assumes "codec_ok c"
  shows "handle = handle_encode c e ob \<longleftrightarrow>
    length handle = HANDLE_SIZE \<and> take PAYLOAD_SIZE handle = handle_payload c e ob \<and>
    drop PAYLOAD_SIZE handle = handle_tag c (take PAYLOAD_SIZE handle)"
  (is "?l \<longleftrightarrow> ?r")
proof
  assume ?l
  then show ?r
    using length_handle_encode [OF assms, of e ob] length_handle_payload [OF assms, of e ob]
    by (simp add: handle_encode_payload)
next
  assume ?r
  then show ?l by (metis append_take_drop_id handle_encode_payload)
qed

lemma handle_decode_any_Inr:
  assumes "codec_ok c"
  shows "handle_decode_any c handle = Inr (e, ob) \<longleftrightarrow> handle = handle_encode c e ob"
proof (cases "length handle = HANDLE_SIZE")
  case True
  have "length (drop PAYLOAD_SIZE handle) = TAG_SIZE" using True by (simp add: handle_sizes)
  note tag = handle_tag_iff [OF assms this]
  have "length (subslice 9 13 handle) = 4" "length (subslice 13 21 handle) = 8"
    "length (subslice 21 29 handle) = 8"
    using True by (simp_all add: length_subslice handle_sizes)
  note fields = payload_fields [OF assms True, of e ob] this(1) [THEN be32_of_slice]
    this(2) [THEN be64_of_slice] this(3) [THEN be64_of_slice]
  show ?thesis
    unfolding handle_split [OF assms] fields
    by (cases ob) (auto simp: handle_decode_any_def True tag Let_def)
next
  case False
  then show ?thesis
    using length_handle_encode [OF assms] by (auto simp: handle_decode_any_def)
qed

lemma handle_decode_Inr:
  assumes "codec_ok c"
  shows "handle_decode c e handle = Inr ob \<longleftrightarrow> handle = handle_encode c e ob"
proof -
  have "handle_decode c e handle = Inr ob \<longleftrightarrow> handle_decode_any c handle = Inr (e, ob)"
    by (cases "handle_decode_any c handle") (auto simp: handle_decode_def split: if_splits)
  then show ?thesis by (simp add: handle_decode_any_Inr [OF assms])
qed

lemma sample_codec_ok: "codec_ok sample_codec"
  by (simp add: codec_ok_def sample_codec_def)

section \<open>Properties\<close>

text \<open>
  C38: A handle is accepted exactly when this server issued it.  For a codec with an 8-byte instance
  and a 32-byte code, \<open>decode\<close> returns an object for an export precisely on the one byte string
  that \<open>encode\<close> produces for that export and object: a handle of another length, version, instance
  or export, or with any bit of the payload or tag changed, is rejected.
\<close>

theorem handle_decode_exact:
  assumes "codec_ok c"
  shows "handle_decode c e handle = Inr ob \<longleftrightarrow> handle = handle_encode c e ob"
  by (rule handle_decode_Inr [OF assms])

theorem handle_decode_exact_witness:
  "handle_decode sample_codec 7 (handle_encode sample_codec 7 \<lparr>obj_file_id = 11, obj_generation = 3\<rparr>)
     = Inr \<lparr>obj_file_id = 11, obj_generation = 3\<rparr>"
  using handle_decode_exact [OF sample_codec_ok] by blast

text \<open>
  The reason a handle is refused.  A handle issued for another export is reported as belonging
  to a different export and nothing else is; a handle issued by a codec of another instance (a
  previous run of the server) is reported as stale, whatever its tag.
\<close>

theorem handle_rejections:
  assumes "codec_ok c" and "codec_ok c'"
  shows "(handle_decode c e handle = Inl WrongExport \<longleftrightarrow>
            (\<exists>e' ob. e' \<noteq> e \<and> handle = handle_encode c e' ob)) \<and>
         (hc_instance_id c' \<noteq> hc_instance_id c \<longrightarrow>
            handle_decode c e (handle_encode c' e' ob) = Inl StaleInstance)"
proof -
  have "handle_decode c e handle = Inl WrongExport \<longleftrightarrow>
      (\<exists>e' ob. e' \<noteq> e \<and> handle_decode_any c handle = Inr (e', ob))"
    by (auto simp: handle_decode_def handle_decode_any_def Let_def split: if_splits)
  then have export: "handle_decode c e handle = Inl WrongExport \<longleftrightarrow>
      (\<exists>e' ob. e' \<noteq> e \<and> handle = handle_encode c e' ob)"
    by (simp add: handle_decode_any_Inr [OF assms(1)])
  let ?h = "handle_encode c' e' ob"
  have "length ?h = HANDLE_SIZE" by (rule length_handle_encode [OF assms(2)])
  moreover have "hd ?h = FORMAT_VERSION" and "subslice 1 9 ?h = hc_instance_id c'"
    using assms(2) by (simp_all add: handle_encode_def Let_def subslice_def codec_ok_def)
  ultimately have "hc_instance_id c' \<noteq> hc_instance_id c \<longrightarrow> handle_decode c e ?h = Inl StaleInstance"
    by (simp add: handle_decode_def handle_decode_any_def del: One_nat_def)
  with export show ?thesis by blast
qed

theorem handle_rejections_witness:
  "handle_decode sample_codec 7 (handle_encode sample_codec 8 \<lparr>obj_file_id = 11, obj_generation = 3\<rparr>)
     = Inl WrongExport \<and>
   handle_decode (sample_codec\<lparr>hc_instance_id := replicate 8 0\<rparr>) 7
     (handle_encode sample_codec 7 \<lparr>obj_file_id = 11, obj_generation = 3\<rparr>) = Inl StaleInstance"
proof -
  let ?c = "sample_codec\<lparr>hc_instance_id := replicate 8 0\<rparr>"
  have ok: "codec_ok ?c" by (simp add: codec_ok_def sample_codec_def)
  have "hc_instance_id sample_codec \<noteq> hc_instance_id ?c"
    by (simp add: sample_codec_def eval_nat_numeral)
  moreover have "(8 :: ExportId) \<noteq> 7" by simp
  ultimately show ?thesis
    using handle_rejections [OF sample_codec_ok sample_codec_ok]
      handle_rejections [OF ok sample_codec_ok] by blast
qed

end
