(* ===== verification/Rpc_Auth.thy ===== *)
theory Rpc_Auth
  imports Vfs_Types
begin

text \<open>
  Credential decoding, \<^verbatim>\<open>src/rpc/auth.rs\<close>.  The wire form of an \<open>AUTH_SYS\<close> body and the
  precise set of accepted bodies are stated with the format interface of \<^verbatim>\<open>Xdr_Codec\<close>.
\<close>

definition AUTH_NONE :: u32 where "AUTH_NONE = 0"
definition AUTH_SYS :: u32 where "AUTH_SYS = 1"
definition MAX_MACHINE_NAME :: usize where "MAX_MACHINE_NAME = 255"
definition MAX_GROUPS :: usize where "MAX_GROUPS = 16"

definition read_auth_sys :: "Principal dec" where
  "read_auth_sys =
     d_bind read_u32 (\<lambda>stamp.
     d_bind (read_string ''AUTH_SYS machine name'' MAX_MACHINE_NAME) (\<lambda>machine_name.
     d_bind read_u32 (\<lambda>uid.
     d_bind read_u32 (\<lambda>gid.
     d_bind (read_array ''AUTH_SYS groups'' MAX_GROUPS read_u32) (\<lambda>supplementary_gids.
     d_return (AuthSys uid gid supplementary_gids machine_name))))))"

definition decode_principal :: "u32 \<Rightarrow> bytes \<Rightarrow> DecodeError + Principal" where
  "decode_principal flavor body =
     (if flavor = AUTH_NONE then
        (if body = [] then Inr Anonymous else Inl TrailingBytes)
      else if flavor = AUTH_SYS then decode_all read_auth_sys body
      else Inl (InvalidDiscriminant ''authentication flavor'' flavor))"

definition auth_sys_bytes :: "u32 \<Rightarrow> Principal \<Rightarrow> bytes" where
  "auth_sys_bytes stamp p =
     be32 stamp @ opaque_bytes (auth_machine p) @ be32 (auth_uid p) @ be32 (auth_gid p) @
     array_bytes be32 (auth_gids p)"

definition wf_principal :: "Principal \<Rightarrow> bool" where
  "wf_principal p \<longleftrightarrow>
     p \<noteq> Anonymous \<longrightarrow> length (auth_machine p) \<le> MAX_MACHINE_NAME \<and> length (auth_gids p) \<le> MAX_GROUPS"

section \<open>Lemmas\<close>

lemma read_auth_sys_Inr:
  "read_auth_sys d = Inr (p, d') \<longleftrightarrow>
     p \<noteq> Anonymous \<and> wf_principal p \<and> (\<exists>stamp. consumes d (auth_sys_bytes stamp p) d')"
  by (cases p)
    (simp_all add: read_auth_sys_def auth_sys_bytes_def wf_principal_def MAX_MACHINE_NAME_def
      MAX_GROUPS_def codec_simps u32.array_iff consumes_append, blast)

lemma decode_auth_sys_Inr:
  "decode_all read_auth_sys body = Inr p \<longleftrightarrow>
     p \<noteq> Anonymous \<and> wf_principal p \<and> length body < usize_bound \<and>
     (\<exists>stamp. body = auth_sys_bytes stamp p)"
  unfolding decode_all_Inr read_auth_sys_Inr using consumes_new_full [of body] by metis

lemma decode_principal_Inr:
  "decode_principal flavor body = Inr p \<longleftrightarrow>
     (flavor = AUTH_NONE \<and> body = [] \<and> p = Anonymous) \<or>
     (flavor = AUTH_SYS \<and> p \<noteq> Anonymous \<and> wf_principal p \<and> length body < usize_bound \<and>
      (\<exists>stamp. body = auth_sys_bytes stamp p))"
  by (auto simp: decode_principal_def decode_auth_sys_Inr AUTH_NONE_def AUTH_SYS_def)

end
