(* ===== verification/Server_State.thy ===== *)
theory Server_State
  imports Server_Limits Handle_Codec Rpc_Auth Replay_Cache
begin

text \<open>
  What the parts of the server share: its errors, exports and configuration
  (\<^verbatim>\<open>src/server/mod.rs\<close>, \<^verbatim>\<open>src/server/config.rs\<close>), the state that every connection is given
  (\<open>ConnectionState\<close> of \<^verbatim>\<open>src/server/connection.rs\<close>) and the RPC reply envelopes of the same file,
  with the message vocabulary of \<^verbatim>\<open>src/rpc/message.rs\<close>.

  The exports of one server may have different backends; the states of all of them are one value of
  type \<open>'s\<close>, and an export holds its methods on that value.  Of \<open>ConnectionState\<close>, the record here has
  the fields that do not change; the replay cache, the mount table and the semaphores are passed
  explicitly where they are used.  A path is its bytes.
\<close>

section \<open>Messages\<close>

record CallHeader =
  call_xid :: u32
  call_rpc_version :: u32
  call_program :: u32
  call_version :: u32
  call_procedure :: u32

datatype AcceptStatus =
    Accept_Success
  | Accept_ProgramUnavailable
  | Accept_ProgramMismatch
  | Accept_ProcedureUnavailable
  | Accept_GarbageArguments
  | Accept_SystemError

fun accept_status_code :: "AcceptStatus \<Rightarrow> u32" where
  "accept_status_code Accept_Success = 0"
| "accept_status_code Accept_ProgramUnavailable = 1"
| "accept_status_code Accept_ProgramMismatch = 2"
| "accept_status_code Accept_ProcedureUnavailable = 3"
| "accept_status_code Accept_GarbageArguments = 4"
| "accept_status_code Accept_SystemError = 5"

record VersionRange =
  version_low :: u32
  version_high :: u32

definition version_range_exact :: "u32 \<Rightarrow> VersionRange" where
  "version_range_exact version = \<lparr>version_low = version, version_high = version\<rparr>"

definition RPC_CALL :: u32 where "RPC_CALL = 0"
definition RPC_REPLY :: u32 where "RPC_REPLY = 1"
definition MSG_ACCEPTED :: u32 where "MSG_ACCEPTED = 0"
definition SUCCESS :: u32 where "SUCCESS = 0"
definition PROG_UNAVAIL :: u32 where "PROG_UNAVAIL = 1"
definition PROG_MISMATCH :: u32 where "PROG_MISMATCH = 2"
definition PROC_UNAVAIL :: u32 where "PROC_UNAVAIL = 3"
definition GARBAGE_ARGS :: u32 where "GARBAGE_ARGS = 4"
definition SYSTEM_ERR :: u32 where "SYSTEM_ERR = 5"

definition NFS_PROGRAM :: u32 where "NFS_PROGRAM = 100003"
definition NFS_VERSION :: u32 where "NFS_VERSION = 3"
definition MOUNT_PROGRAM :: u32 where "MOUNT_PROGRAM = 100005"
definition MOUNT_VERSION :: u32 where "MOUNT_VERSION = 3"
definition PORTMAP_PROGRAM :: u32 where "PORTMAP_PROGRAM = 100000"
definition PORTMAP_VERSION :: u32 where "PORTMAP_VERSION = 2"

section \<open>Errors, exports and configuration\<close>

datatype ServerError =
    SE_InvalidConfiguration string
  | SE_Io IoErrorKind
  | SE_Record RecordError
  | SE_Decode DecodeError
  | SE_Encode EncodeError
  | SE_Replay ReplayError
  | SE_ReplayWaiterClosed
  | SE_Task
  | SE_ShuttingDown
  | SE_Protocol string
  | SE_RequestTimeout
  | SE_Entropy

datatype AuthPolicy = Policy_AuthSys | Policy_Anonymous | Policy_AuthSysOrAnonymous

datatype PortmapperMode = Portmapper_Disabled | Portmapper_Enabled

record 's ExportState =
  ex_vfs :: "'s Vfs"
  ex_id :: ExportId
  ex_path :: bytes

record 's ConnectionState =
  cs_exports :: "'s ExportState list"
  cs_limits :: ServerLimits
  cs_auth_policy :: AuthPolicy
  cs_portmapper :: PortmapperMode
  cs_handles :: HandleCodec
  cs_local_port :: u16

section \<open>Reply envelopes\<close>

definition accepted_reply_encoder :: "u32 \<Rightarrow> u32 \<Rightarrow> encoder" where
  "accepted_reply_encoder xid status =
     (let reply = [];
          reply = write_u32 xid reply;
          reply = write_u32 RPC_REPLY reply;
          reply = write_u32 MSG_ACCEPTED reply;
          reply = write_u32 AUTH_NONE reply;
          reply = write_u32 0 reply in
      write_u32 status reply)"

definition accepted_reply :: "u32 \<Rightarrow> u32 \<Rightarrow> bytes \<Rightarrow> bytes" where
  "accepted_reply xid status body = write_fixed body (accepted_reply_encoder xid status)"

definition program_mismatch :: "u32 \<Rightarrow> u32 \<Rightarrow> u32 \<Rightarrow> bytes" where
  "program_mismatch xid low high =
     write_u32 high (write_u32 low (accepted_reply_encoder xid PROG_MISMATCH))"

definition rpc_mismatch :: "u32 \<Rightarrow> u32 \<Rightarrow> u32 \<Rightarrow> bytes" where
  "rpc_mismatch xid low high =
     (let reply = [];
          reply = write_u32 xid reply;
          reply = write_u32 RPC_REPLY reply;
          reply = write_u32 1 reply;
          reply = write_u32 0 reply;
          reply = write_u32 low reply in
      write_u32 high reply)"

definition auth_error :: "u32 \<Rightarrow> u32 \<Rightarrow> bytes" where
  "auth_error xid status =
     (let reply = [];
          reply = write_u32 xid reply;
          reply = write_u32 RPC_REPLY reply;
          reply = write_u32 1 reply;
          reply = write_u32 1 reply in
      write_u32 status reply)"

text \<open>
  \<open>EncodedReply::from\<close> of a vector that an encoder built.  The capacity of that vector is the
  allocator's choice, the argument \<open>vec_capacity\<close>; the standard library promises that it is at least
  the length.
\<close>

definition into_reply :: "(bytes \<Rightarrow> usize) \<Rightarrow> bytes \<Rightarrow> EncodedReply" where
  "into_reply vec_capacity bs = reply_from_vec bs (vec_capacity bs)"

definition error_reply :: "(bytes \<Rightarrow> usize) \<Rightarrow> u32 option \<Rightarrow> u32 \<Rightarrow> EncodedReply" where
  "error_reply vec_capacity xid status =
     into_reply vec_capacity (accepted_reply (case xid of None \<Rightarrow> 0 | Some xid \<Rightarrow> xid) status [])"

definition principal_allowed :: "AuthPolicy \<Rightarrow> Principal \<Rightarrow> bool" where
  "principal_allowed policy who =
     (case (policy, who) of
        (Policy_AuthSys, AuthSys _ _ _ _) \<Rightarrow> True
      | (Policy_Anonymous, Anonymous) \<Rightarrow> True
      | (Policy_AuthSysOrAnonymous, _) \<Rightarrow> True
      | _ \<Rightarrow> False)"

section \<open>Lemmas\<close>

lemmas rpc_constants = RPC_CALL_def RPC_REPLY_def MSG_ACCEPTED_def SUCCESS_def PROG_UNAVAIL_def
  PROG_MISMATCH_def PROC_UNAVAIL_def GARBAGE_ARGS_def SYSTEM_ERR_def NFS_PROGRAM_def NFS_VERSION_def
  MOUNT_PROGRAM_def MOUNT_VERSION_def PORTMAP_PROGRAM_def PORTMAP_VERSION_def

lemma length_accepted_reply_encoder [size_simps]: "length (accepted_reply_encoder xid status) = 24"
  by (simp add: accepted_reply_encoder_def write_u32_def Let_def)

lemma length_accepted_reply [size_simps]: "length (accepted_reply xid status body) = 24 + length body"
  by (simp add: accepted_reply_def write_fixed_def size_simps)

lemma length_program_mismatch [size_simps]: "length (program_mismatch xid low high) = 32"
  by (simp add: program_mismatch_def write_u32_def size_simps)

lemma into_reply_ok: "length bs \<le> vec_capacity bs \<Longrightarrow> reply_ok (into_reply vec_capacity bs)"
  by (simp add: into_reply_def reply_from_vec_ok)

lemma reply_len_into_reply [size_simps]: "reply_len (into_reply vec_capacity bs) = length bs"
  by (simp add: into_reply_def reply_from_vec_def reply_len_def)

lemma into_reply_bytes: "reply_into_bytes (into_reply vec_capacity bs) = bs"
  by (simp add: into_reply_def reply_from_vec_def reply_into_bytes_def)

end
