(* ===== verification/Nfs3_Args.thy ===== *)
theory Nfs3_Args
  imports Rpc_Auth
begin

text \<open>
  NFSv3 procedure arguments, \<^verbatim>\<open>src/nfs3/procedures/mod.rs\<close> (the argument half): the typed
  argument structures, their decoders and the borrowed-slice variant used for WRITE.

  The wire form of every argument (RFC 1813) is a definition \<open>\<dots>_bytes\<close> and its range of values
  a predicate \<open>wf_\<dots>\<close>.  Each decoder is shown to succeed exactly on the wire form of a
  well-formed value, so that the accepted requests and the typed arguments are in bijection.
\<close>

section \<open>Argument structures\<close>

type_synonym FileHandle = bytes

record ObjectArgs =
  oa_object :: FileHandle

record DirectoryOperationArgs =
  doa_directory :: FileHandle
  doa_name :: bytes

record SetAttrArgs =
  sta_object :: FileHandle
  sta_attributes :: SetAttributes
  sta_guard :: "NfsTime option"

record AccessArgs =
  aca_object :: FileHandle
  aca_requested :: u32

record ReadArgs =
  rda_object :: FileHandle
  rda_offset :: u64
  rda_count :: u32

record WriteArgs =
  wra_object :: FileHandle
  wra_offset :: u64
  wra_count :: u32
  wra_requested :: WriteStability
  wra_data :: bytes

record WriteRequest =
  wrq_object :: FileHandle
  wrq_offset :: u64
  wrq_count :: u32
  wrq_requested :: WriteStability
  wrq_data :: bytes

record CreateArgs =
  cra_target :: DirectoryOperationArgs
  cra_mode :: CreateMode
  cra_attributes :: SetAttributes

record MkdirArgs =
  mka_target :: DirectoryOperationArgs
  mka_attributes :: SetAttributes

record SymlinkArgs =
  sla_target :: DirectoryOperationArgs
  sla_attributes :: SetAttributes
  sla_path :: bytes

record MknodArgs =
  mna_target :: DirectoryOperationArgs
  mna_node_type :: NodeType
  mna_attributes :: SetAttributes

record RenameArgs =
  rna_from :: DirectoryOperationArgs
  rna_to :: DirectoryOperationArgs

record LinkArgs =
  lka_object :: FileHandle
  lka_target :: DirectoryOperationArgs

record ReadDirArgs =
  rdd_directory :: FileHandle
  rdd_cookie :: u64
  rdd_verifier :: bytes
  rdd_count :: u32

record ReadDirPlusArgs =
  rdp_directory :: FileHandle
  rdp_cookie :: u64
  rdp_verifier :: bytes
  rdp_directory_count :: u32
  rdp_max_count :: u32

record CommitArgs =
  cma_object :: FileHandle
  cma_offset :: u64
  cma_count :: u32

datatype NfsArguments =
    Arg_Null
  | Arg_GetAttr ObjectArgs
  | Arg_SetAttr SetAttrArgs
  | Arg_Lookup DirectoryOperationArgs
  | Arg_Access AccessArgs
  | Arg_ReadLink ObjectArgs
  | Arg_Read ReadArgs
  | Arg_Write WriteArgs
  | Arg_Create CreateArgs
  | Arg_Mkdir MkdirArgs
  | Arg_Symlink SymlinkArgs
  | Arg_Mknod MknodArgs
  | Arg_Remove DirectoryOperationArgs
  | Arg_Rmdir DirectoryOperationArgs
  | Arg_Rename RenameArgs
  | Arg_Link LinkArgs
  | Arg_ReadDir ReadDirArgs
  | Arg_ReadDirPlus ReadDirPlusArgs
  | Arg_FsStat ObjectArgs
  | Arg_FsInfo ObjectArgs
  | Arg_PathConf ObjectArgs
  | Arg_Commit CommitArgs

section \<open>Decoders of the fields\<close>

definition decode_handle :: "FileHandle dec" where
  "decode_handle = read_opaque ''NFS file handle'' 64"

definition decode_object_args :: "ObjectArgs dec" where
  "decode_object_args = d_bind decode_handle (\<lambda>object. d_return \<lparr>oa_object = object\<rparr>)"

definition decode_diropargs :: "DirectoryOperationArgs dec" where
  "decode_diropargs =
     d_bind decode_handle (\<lambda>directory.
     d_bind (read_string ''NFS filename'' 1024) (\<lambda>name.
     d_return \<lparr>doa_directory = directory, doa_name = name\<rparr>))"

definition decode_time :: "NfsTime dec" where
  "decode_time =
     d_bind read_u32 (\<lambda>seconds.
     d_bind read_u32 (\<lambda>nanoseconds.
     if 999999999 < nanoseconds
     then d_fail (InvalidDiscriminant ''nanoseconds'' nanoseconds)
     else d_return \<lparr>time_seconds = ucast seconds, time_nanoseconds = nanoseconds\<rparr>))"

definition decode_set_time :: "SetTime option dec" where
  "decode_set_time =
     d_bind read_u32 (\<lambda>value.
     if value = 0 then d_return None
     else if value = 1 then d_return (Some ServerTime)
     else if value = 2 then d_bind decode_time (\<lambda>time. d_return (Some (ClientTime time)))
     else d_fail (InvalidDiscriminant ''set time'' value))"

text \<open>The idiom \<open>decoder.read_bool()?.then(|| \<dots>).transpose()?\<close>.\<close>

definition decode_optional :: "'a dec \<Rightarrow> 'a option dec" where
  "decode_optional m =
     d_bind read_bool (\<lambda>present.
     if present then d_bind m (\<lambda>x. d_return (Some x)) else d_return None)"

definition decode_set_attributes :: "SetAttributes dec" where
  "decode_set_attributes =
     d_bind (decode_optional read_u32) (\<lambda>mode.
     d_bind (decode_optional read_u32) (\<lambda>uid.
     d_bind (decode_optional read_u32) (\<lambda>gid.
     d_bind (decode_optional read_u64) (\<lambda>size.
     d_bind decode_set_time (\<lambda>access_time.
     d_bind decode_set_time (\<lambda>modify_time.
     d_return \<lparr>sa_mode = mode, sa_uid = uid, sa_gid = gid, sa_size = size,
               sa_access_time = access_time, sa_modify_time = modify_time\<rparr>))))))"

definition decode_stability :: "WriteStability dec" where
  "decode_stability =
     d_bind read_u32 (\<lambda>value.
     if value = 0 then d_return Unstable
     else if value = 1 then d_return DataSync
     else if value = 2 then d_return FileSync
     else d_fail (InvalidDiscriminant ''write stability'' value))"

section \<open>Decoders of the procedures\<close>

definition decode_setattr_args :: "SetAttrArgs dec" where
  "decode_setattr_args =
     d_bind decode_handle (\<lambda>object.
     d_bind decode_set_attributes (\<lambda>attributes.
     d_bind (decode_optional decode_time) (\<lambda>guard.
     d_return \<lparr>sta_object = object, sta_attributes = attributes, sta_guard = guard\<rparr>)))"

definition decode_access_args :: "AccessArgs dec" where
  "decode_access_args =
     d_bind decode_handle (\<lambda>object.
     d_bind read_u32 (\<lambda>requested.
     d_return \<lparr>aca_object = object, aca_requested = requested\<rparr>))"

definition decode_read_args :: "ReadArgs dec" where
  "decode_read_args =
     d_bind decode_handle (\<lambda>object.
     d_bind read_u64 (\<lambda>offset.
     d_bind read_u32 (\<lambda>count.
     d_return \<lparr>rda_object = object, rda_offset = offset, rda_count = count\<rparr>)))"

definition decode_write_args :: "usize \<Rightarrow> WriteArgs dec" where
  "decode_write_args max_variable_size =
     d_bind decode_handle (\<lambda>object.
     d_bind read_u64 (\<lambda>offset.
     d_bind read_u32 (\<lambda>count.
     d_bind decode_stability (\<lambda>requested.
     d_bind (read_opaque ''WRITE data'' max_variable_size) (\<lambda>data.
     d_return \<lparr>wra_object = object, wra_offset = offset, wra_count = count,
               wra_requested = requested, wra_data = data\<rparr>)))))"

definition decode_create_mode :: "CreateMode dec" where
  "decode_create_mode =
     d_bind read_u32 (\<lambda>value.
     if value = 0 then d_return Unchecked
     else if value = 1 then d_return Guarded
     else if value = 2 then d_bind (read_fixed 8) (\<lambda>verifier. d_return (Exclusive verifier))
     else d_fail (InvalidDiscriminant ''CREATE mode'' value))"

definition decode_create_args :: "CreateArgs dec" where
  "decode_create_args =
     d_bind decode_diropargs (\<lambda>target.
     d_bind decode_create_mode (\<lambda>mode.
     case mode of
       Exclusive _ \<Rightarrow>
         d_return \<lparr>cra_target = target, cra_mode = mode, cra_attributes = set_attributes_default\<rparr>
     | _ \<Rightarrow>
         d_bind decode_set_attributes (\<lambda>attributes.
         d_return \<lparr>cra_target = target, cra_mode = mode, cra_attributes = attributes\<rparr>)))"

definition decode_mkdir_args :: "MkdirArgs dec" where
  "decode_mkdir_args =
     d_bind decode_diropargs (\<lambda>target.
     d_bind decode_set_attributes (\<lambda>attributes.
     d_return \<lparr>mka_target = target, mka_attributes = attributes\<rparr>))"

definition decode_symlink_args :: "usize \<Rightarrow> SymlinkArgs dec" where
  "decode_symlink_args max_variable_size =
     d_bind decode_diropargs (\<lambda>target.
     d_bind decode_set_attributes (\<lambda>attributes.
     d_bind (read_string ''symlink target'' max_variable_size) (\<lambda>path.
     d_return \<lparr>sla_target = target, sla_attributes = attributes, sla_path = path\<rparr>)))"

definition decode_node_type :: "u32 \<Rightarrow> NodeType dec" where
  "decode_node_type kind =
     (if kind = 3 then
        d_bind read_u32 (\<lambda>major. d_bind read_u32 (\<lambda>minor. d_return (Node_BlockDevice major minor)))
      else if kind = 4 then
        d_bind read_u32 (\<lambda>major. d_bind read_u32 (\<lambda>minor. d_return (Node_CharacterDevice major minor)))
      else if kind = 6 then d_return Node_Socket
      else if kind = 7 then d_return Node_Fifo
      else d_fail (InvalidDiscriminant ''MKNOD type'' kind))"

definition decode_mknod_args :: "MknodArgs dec" where
  "decode_mknod_args =
     d_bind decode_diropargs (\<lambda>target.
     d_bind read_u32 (\<lambda>kind.
     d_bind decode_set_attributes (\<lambda>attributes.
     d_bind (decode_node_type kind) (\<lambda>node_type.
     d_return \<lparr>mna_target = target, mna_node_type = node_type, mna_attributes = attributes\<rparr>))))"

definition decode_rename_args :: "RenameArgs dec" where
  "decode_rename_args =
     d_bind decode_diropargs (\<lambda>from.
     d_bind decode_diropargs (\<lambda>to.
     d_return \<lparr>rna_from = from, rna_to = to\<rparr>))"

definition decode_link_args :: "LinkArgs dec" where
  "decode_link_args =
     d_bind decode_handle (\<lambda>object.
     d_bind decode_diropargs (\<lambda>target.
     d_return \<lparr>lka_object = object, lka_target = target\<rparr>))"

definition decode_readdir_args :: "ReadDirArgs dec" where
  "decode_readdir_args =
     d_bind decode_handle (\<lambda>directory.
     d_bind read_u64 (\<lambda>cookie.
     d_bind (read_fixed 8) (\<lambda>verifier.
     d_bind read_u32 (\<lambda>count.
     d_return \<lparr>rdd_directory = directory, rdd_cookie = cookie, rdd_verifier = verifier,
               rdd_count = count\<rparr>))))"

definition decode_readdirplus_args :: "ReadDirPlusArgs dec" where
  "decode_readdirplus_args =
     d_bind decode_handle (\<lambda>directory.
     d_bind read_u64 (\<lambda>cookie.
     d_bind (read_fixed 8) (\<lambda>verifier.
     d_bind read_u32 (\<lambda>directory_count.
     d_bind read_u32 (\<lambda>max_count.
     d_return \<lparr>rdp_directory = directory, rdp_cookie = cookie, rdp_verifier = verifier,
               rdp_directory_count = directory_count, rdp_max_count = max_count\<rparr>)))))"

definition decode_commit_args :: "CommitArgs dec" where
  "decode_commit_args =
     d_bind decode_handle (\<lambda>object.
     d_bind read_u64 (\<lambda>offset.
     d_bind read_u32 (\<lambda>count.
     d_return \<lparr>cma_object = object, cma_offset = offset, cma_count = count\<rparr>)))"

definition d_map :: "('a \<Rightarrow> 'b) \<Rightarrow> 'a dec \<Rightarrow> 'b dec" where
  "d_map f m = d_bind m (\<lambda>x. d_return (f x))"

definition read_nfs_arguments :: "u32 \<Rightarrow> usize \<Rightarrow> NfsArguments dec" where
  "read_nfs_arguments procedure max_variable_size =
     (if procedure = 0 then d_return Arg_Null
      else if procedure = 1 then d_map Arg_GetAttr decode_object_args
      else if procedure = 2 then d_map Arg_SetAttr decode_setattr_args
      else if procedure = 3 then d_map Arg_Lookup decode_diropargs
      else if procedure = 4 then d_map Arg_Access decode_access_args
      else if procedure = 5 then d_map Arg_ReadLink decode_object_args
      else if procedure = 6 then d_map Arg_Read decode_read_args
      else if procedure = 7 then d_map Arg_Write (decode_write_args max_variable_size)
      else if procedure = 8 then d_map Arg_Create decode_create_args
      else if procedure = 9 then d_map Arg_Mkdir decode_mkdir_args
      else if procedure = 10 then d_map Arg_Symlink (decode_symlink_args max_variable_size)
      else if procedure = 11 then d_map Arg_Mknod decode_mknod_args
      else if procedure = 12 then d_map Arg_Remove decode_diropargs
      else if procedure = 13 then d_map Arg_Rmdir decode_diropargs
      else if procedure = 14 then d_map Arg_Rename decode_rename_args
      else if procedure = 15 then d_map Arg_Link decode_link_args
      else if procedure = 16 then d_map Arg_ReadDir decode_readdir_args
      else if procedure = 17 then d_map Arg_ReadDirPlus decode_readdirplus_args
      else if procedure = 18 then d_map Arg_FsStat decode_object_args
      else if procedure = 19 then d_map Arg_FsInfo decode_object_args
      else if procedure = 20 then d_map Arg_PathConf decode_object_args
      else if procedure = 21 then d_map Arg_Commit decode_commit_args
      else d_fail (InvalidDiscriminant ''NFS procedure'' procedure))"

definition nfs_arguments_decode :: "u32 \<Rightarrow> bytes \<Rightarrow> usize \<Rightarrow> DecodeError + NfsArguments" where
  "nfs_arguments_decode procedure inp max_variable_size =
     decode_all (read_nfs_arguments procedure max_variable_size) inp"

section \<open>WRITE without copying the payload\<close>

definition write_request_of_args :: "WriteArgs \<Rightarrow> WriteRequest" where
  "write_request_of_args a =
     \<lparr>wrq_object = wra_object a, wrq_offset = wra_offset a, wrq_count = wra_count a,
      wrq_requested = wra_requested a, wrq_data = wra_data a\<rparr>"

definition write_request_decode :: "bytes \<Rightarrow> usize \<Rightarrow> DecodeError + WriteRequest" where
  "write_request_decode inp max_variable_size =
     (case d_bind decode_handle (\<lambda>object.
           d_bind read_u64 (\<lambda>offset.
           d_bind read_u32 (\<lambda>count.
           d_bind decode_stability (\<lambda>requested.
           (\<lambda>d. d_bind (read_opaque_slice ''WRITE data'' max_variable_size) (\<lambda>data.
              d_return (object, offset, count, requested, dec_position d, length data)) d)))))
           (decoder_new inp) of
        Inl e \<Rightarrow> Inl e
      | Inr ((object, offset, count, requested, data_prefix, data_len), d) \<Rightarrow>
          r_bind (dec_finish d) (\<lambda>_.
          r_bind (ok_or DecodeOverflow (checked_add data_prefix 4)) (\<lambda>data_start.
          r_bind (ok_or DecodeOverflow (checked_add data_start data_len)) (\<lambda>data_end.
          Inr \<lparr>wrq_object = object, wrq_offset = offset, wrq_count = count,
               wrq_requested = requested,
               wrq_data = take (data_end - data_start) (drop data_start inp)\<rparr>))))"

definition validate_write_count :: "u32 \<Rightarrow> usize \<Rightarrow> NfsStatus + unit" where
  "validate_write_count count data_len =
     (if unat count \<noteq> data_len then Inl Nfs_Invalid else Inr ())"

definition write_request_validate :: "WriteRequest \<Rightarrow> NfsStatus + unit" where
  "write_request_validate w = validate_write_count (wrq_count w) (length (wrq_data w))"

section \<open>Wire forms and well-formed values\<close>

definition wf_handle :: "FileHandle \<Rightarrow> bool" where
  "wf_handle h \<longleftrightarrow> length h \<le> 64"

definition diropargs_bytes :: "DirectoryOperationArgs \<Rightarrow> bytes" where
  "diropargs_bytes a = opaque_bytes (doa_directory a) @ opaque_bytes (doa_name a)"

definition wf_diropargs :: "DirectoryOperationArgs \<Rightarrow> bool" where
  "wf_diropargs a \<longleftrightarrow> wf_handle (doa_directory a) \<and> length (doa_name a) \<le> 1024"

definition time_bytes :: "NfsTime \<Rightarrow> bytes" where
  "time_bytes t = be32 (ucast (time_seconds t)) @ be32 (time_nanoseconds t)"

definition wf_time :: "NfsTime \<Rightarrow> bool" where
  "wf_time t \<longleftrightarrow> unat (time_seconds t) \<le> u32_max \<and> time_nanoseconds t \<le> 999999999"

definition option_bytes :: "('a \<Rightarrow> bytes) \<Rightarrow> 'a option \<Rightarrow> bytes" where
  "option_bytes enc x = (case x of None \<Rightarrow> bool_bytes False | Some a \<Rightarrow> bool_bytes True @ enc a)"

fun set_time_bytes :: "SetTime option \<Rightarrow> bytes" where
  "set_time_bytes None = be32 0"
| "set_time_bytes (Some ServerTime) = be32 1"
| "set_time_bytes (Some (ClientTime t)) = be32 2 @ time_bytes t"

fun wf_set_time :: "SetTime option \<Rightarrow> bool" where
  "wf_set_time (Some (ClientTime t)) = wf_time t"
| "wf_set_time _ = True"

definition set_attributes_bytes :: "SetAttributes \<Rightarrow> bytes" where
  "set_attributes_bytes a =
     option_bytes be32 (sa_mode a) @ option_bytes be32 (sa_uid a) @ option_bytes be32 (sa_gid a) @
     option_bytes be64 (sa_size a) @ set_time_bytes (sa_access_time a) @
     set_time_bytes (sa_modify_time a)"

definition wf_set_attributes :: "SetAttributes \<Rightarrow> bool" where
  "wf_set_attributes a \<longleftrightarrow> wf_set_time (sa_access_time a) \<and> wf_set_time (sa_modify_time a)"

fun stability_code :: "WriteStability \<Rightarrow> u32" where
  "stability_code Unstable = 0"
| "stability_code DataSync = 1"
| "stability_code FileSync = 2"

fun create_how_bytes :: "CreateMode \<Rightarrow> SetAttributes \<Rightarrow> bytes" where
  "create_how_bytes Unchecked a = be32 0 @ set_attributes_bytes a"
| "create_how_bytes Guarded a = be32 1 @ set_attributes_bytes a"
| "create_how_bytes (Exclusive v) a = be32 2 @ v"

fun wf_create_how :: "CreateMode \<Rightarrow> SetAttributes \<Rightarrow> bool" where
  "wf_create_how (Exclusive v) a \<longleftrightarrow> length v = 8 \<and> a = set_attributes_default"
| "wf_create_how _ a \<longleftrightarrow> wf_set_attributes a"

fun node_bytes :: "NodeType \<Rightarrow> SetAttributes \<Rightarrow> bytes" where
  "node_bytes (Node_BlockDevice major minor) a =
     be32 3 @ set_attributes_bytes a @ be32 major @ be32 minor"
| "node_bytes (Node_CharacterDevice major minor) a =
     be32 4 @ set_attributes_bytes a @ be32 major @ be32 minor"
| "node_bytes Node_Socket a = be32 6 @ set_attributes_bytes a"
| "node_bytes Node_Fifo a = be32 7 @ set_attributes_bytes a"

definition write_args_bytes :: "WriteArgs \<Rightarrow> bytes" where
  "write_args_bytes a =
     opaque_bytes (wra_object a) @ be64 (wra_offset a) @ be32 (wra_count a) @
     be32 (stability_code (wra_requested a)) @ opaque_bytes (wra_data a)"

definition wf_write_args :: "usize \<Rightarrow> WriteArgs \<Rightarrow> bool" where
  "wf_write_args limit a \<longleftrightarrow> wf_handle (wra_object a) \<and> length (wra_data a) \<le> min limit u32_max"

text \<open>The procedure number, the wire form and the admissible range of each argument.\<close>

fun args_procedure :: "NfsArguments \<Rightarrow> u32" where
  "args_procedure Arg_Null = 0"
| "args_procedure (Arg_GetAttr _) = 1"
| "args_procedure (Arg_SetAttr _) = 2"
| "args_procedure (Arg_Lookup _) = 3"
| "args_procedure (Arg_Access _) = 4"
| "args_procedure (Arg_ReadLink _) = 5"
| "args_procedure (Arg_Read _) = 6"
| "args_procedure (Arg_Write _) = 7"
| "args_procedure (Arg_Create _) = 8"
| "args_procedure (Arg_Mkdir _) = 9"
| "args_procedure (Arg_Symlink _) = 10"
| "args_procedure (Arg_Mknod _) = 11"
| "args_procedure (Arg_Remove _) = 12"
| "args_procedure (Arg_Rmdir _) = 13"
| "args_procedure (Arg_Rename _) = 14"
| "args_procedure (Arg_Link _) = 15"
| "args_procedure (Arg_ReadDir _) = 16"
| "args_procedure (Arg_ReadDirPlus _) = 17"
| "args_procedure (Arg_FsStat _) = 18"
| "args_procedure (Arg_FsInfo _) = 19"
| "args_procedure (Arg_PathConf _) = 20"
| "args_procedure (Arg_Commit _) = 21"

fun args_bytes :: "NfsArguments \<Rightarrow> bytes" where
  "args_bytes Arg_Null = []"
| "args_bytes (Arg_GetAttr a) = opaque_bytes (oa_object a)"
| "args_bytes (Arg_SetAttr a) =
     opaque_bytes (sta_object a) @ set_attributes_bytes (sta_attributes a) @
     option_bytes time_bytes (sta_guard a)"
| "args_bytes (Arg_Lookup a) = diropargs_bytes a"
| "args_bytes (Arg_Access a) = opaque_bytes (aca_object a) @ be32 (aca_requested a)"
| "args_bytes (Arg_ReadLink a) = opaque_bytes (oa_object a)"
| "args_bytes (Arg_Read a) =
     opaque_bytes (rda_object a) @ be64 (rda_offset a) @ be32 (rda_count a)"
| "args_bytes (Arg_Write a) = write_args_bytes a"
| "args_bytes (Arg_Create a) =
     diropargs_bytes (cra_target a) @ create_how_bytes (cra_mode a) (cra_attributes a)"
| "args_bytes (Arg_Mkdir a) =
     diropargs_bytes (mka_target a) @ set_attributes_bytes (mka_attributes a)"
| "args_bytes (Arg_Symlink a) =
     diropargs_bytes (sla_target a) @ set_attributes_bytes (sla_attributes a) @
     opaque_bytes (sla_path a)"
| "args_bytes (Arg_Mknod a) =
     diropargs_bytes (mna_target a) @ node_bytes (mna_node_type a) (mna_attributes a)"
| "args_bytes (Arg_Remove a) = diropargs_bytes a"
| "args_bytes (Arg_Rmdir a) = diropargs_bytes a"
| "args_bytes (Arg_Rename a) = diropargs_bytes (rna_from a) @ diropargs_bytes (rna_to a)"
| "args_bytes (Arg_Link a) = opaque_bytes (lka_object a) @ diropargs_bytes (lka_target a)"
| "args_bytes (Arg_ReadDir a) =
     opaque_bytes (rdd_directory a) @ be64 (rdd_cookie a) @ rdd_verifier a @ be32 (rdd_count a)"
| "args_bytes (Arg_ReadDirPlus a) =
     opaque_bytes (rdp_directory a) @ be64 (rdp_cookie a) @ rdp_verifier a @
     be32 (rdp_directory_count a) @ be32 (rdp_max_count a)"
| "args_bytes (Arg_FsStat a) = opaque_bytes (oa_object a)"
| "args_bytes (Arg_FsInfo a) = opaque_bytes (oa_object a)"
| "args_bytes (Arg_PathConf a) = opaque_bytes (oa_object a)"
| "args_bytes (Arg_Commit a) =
     opaque_bytes (cma_object a) @ be64 (cma_offset a) @ be32 (cma_count a)"

fun wf_args :: "usize \<Rightarrow> NfsArguments \<Rightarrow> bool" where
  "wf_args limit Arg_Null = True"
| "wf_args limit (Arg_GetAttr a) = wf_handle (oa_object a)"
| "wf_args limit (Arg_SetAttr a) =
     (wf_handle (sta_object a) \<and> wf_set_attributes (sta_attributes a) \<and>
      pred_option wf_time (sta_guard a))"
| "wf_args limit (Arg_Lookup a) = wf_diropargs a"
| "wf_args limit (Arg_Access a) = wf_handle (aca_object a)"
| "wf_args limit (Arg_ReadLink a) = wf_handle (oa_object a)"
| "wf_args limit (Arg_Read a) = wf_handle (rda_object a)"
| "wf_args limit (Arg_Write a) = wf_write_args limit a"
| "wf_args limit (Arg_Create a) =
     (wf_diropargs (cra_target a) \<and> wf_create_how (cra_mode a) (cra_attributes a))"
| "wf_args limit (Arg_Mkdir a) =
     (wf_diropargs (mka_target a) \<and> wf_set_attributes (mka_attributes a))"
| "wf_args limit (Arg_Symlink a) =
     (wf_diropargs (sla_target a) \<and> wf_set_attributes (sla_attributes a) \<and>
      length (sla_path a) \<le> min limit u32_max)"
| "wf_args limit (Arg_Mknod a) =
     (wf_diropargs (mna_target a) \<and> wf_set_attributes (mna_attributes a))"
| "wf_args limit (Arg_Remove a) = wf_diropargs a"
| "wf_args limit (Arg_Rmdir a) = wf_diropargs a"
| "wf_args limit (Arg_Rename a) = (wf_diropargs (rna_from a) \<and> wf_diropargs (rna_to a))"
| "wf_args limit (Arg_Link a) = (wf_handle (lka_object a) \<and> wf_diropargs (lka_target a))"
| "wf_args limit (Arg_ReadDir a) = (wf_handle (rdd_directory a) \<and> length (rdd_verifier a) = 8)"
| "wf_args limit (Arg_ReadDirPlus a) = (wf_handle (rdp_directory a) \<and> length (rdp_verifier a) = 8)"
| "wf_args limit (Arg_FsStat a) = wf_handle (oa_object a)"
| "wf_args limit (Arg_FsInfo a) = wf_handle (oa_object a)"
| "wf_args limit (Arg_PathConf a) = wf_handle (oa_object a)"
| "wf_args limit (Arg_Commit a) = wf_handle (cma_object a)"

text \<open>The fields in front of the WRITE payload.\<close>

definition write_prefix :: "(bytes \<times> u64 \<times> u32 \<times> WriteStability) dec" where
  "write_prefix =
     d_bind decode_handle (\<lambda>object.
     d_bind read_u64 (\<lambda>offset.
     d_bind read_u32 (\<lambda>count.
     d_bind decode_stability (\<lambda>requested.
     d_return (object, offset, count, requested)))))"

section \<open>Formats of the fields\<close>

lemma decode_handle_Inr [codec_simps]:
  "decode_handle d = Inr (h, d') \<longleftrightarrow> wf_handle h \<and> consumes d (opaque_bytes h) d'"
  by (simp add: decode_handle_def wf_handle_def codec_simps)

lemma decode_object_args_Inr [codec_simps]:
  "decode_object_args d = Inr (a, d') \<longleftrightarrow>
     wf_handle (oa_object a) \<and> consumes d (opaque_bytes (oa_object a)) d'"
  by (cases a) (auto simp add: decode_object_args_def codec_simps)

lemma decode_diropargs_Inr [codec_simps]:
  "decode_diropargs d = Inr (a, d') \<longleftrightarrow> wf_diropargs a \<and> consumes d (diropargs_bytes a) d'"
  by (cases a)
    (auto simp add: decode_diropargs_def wf_diropargs_def diropargs_bytes_def codec_simps
      consumes_append)

lemma ucast_u32_seconds:
  "(\<exists>v :: u32. P v \<and> s = ucast v) \<longleftrightarrow> unat (s :: u64) \<le> u32_max \<and> P (ucast s)"
proof -
  have "ucast (ucast s :: u32) = s" if "unat s \<le> u32_max"
    using that by (simp add: word_unat_eq_iff unsigned_ucast_eq unsigned_take_bit_eq
        take_bit_nat_eq_self)
  moreover have "ucast (ucast v :: u64) = v" for v :: u32
    using unat_u32_less [of v]
    by (simp add: word_unat_eq_iff unsigned_ucast_eq unsigned_take_bit_eq take_bit_nat_eq_self)
  moreover have "unat (ucast v :: u64) \<le> u32_max" for v :: u32
    using unat_u32_less [of v] by (simp add: unsigned_ucast_eq take_bit_nat_eq_self)
  ultimately show ?thesis by metis
qed

lemma decode_time_Inr [codec_simps]:
  "decode_time d = Inr (t, d') \<longleftrightarrow> wf_time t \<and> consumes d (time_bytes t) d'"
proof -
  obtain s ns where t: "t = \<lparr>time_seconds = s, time_nanoseconds = ns\<rparr>" by (cases t)
  have "decode_time d = Inr (t, d') \<longleftrightarrow>
      (\<exists>v. (\<exists>dm. consumes d (be32 v) dm \<and> consumes dm (be32 ns) d' \<and> ns \<le> 999999999) \<and>
        s = ucast v)"
    by (auto simp: t decode_time_def codec_simps not_less)
  then show ?thesis
    unfolding ucast_u32_seconds by (auto simp: t wf_time_def time_bytes_def consumes_append)
qed

lemma decode_set_time_Inr [codec_simps]:
  "decode_set_time d = Inr (t, d') \<longleftrightarrow> wf_set_time t \<and> consumes d (set_time_bytes t) d'"
  by (cases t rule: set_time_bytes.cases)
    (auto simp: decode_set_time_def codec_simps consumes_append)

text \<open>An optional field is a format when its content is one.\<close>

locale xdr_optional = xdr_format
begin

lemma optional_iff:
  "decode_optional dec d = Inr (x, d') \<longleftrightarrow> pred_option wf x \<and> consumes d (option_bytes enc x) d'"
  by (cases x)
    (auto simp: decode_optional_def option_bytes_def codec_simps consumes_append dec_iff)

end

sublocale xdr_optional \<subseteq> optional: xdr_format "option_bytes enc" "decode_optional dec" "pred_option wf"
  by unfold_locales (rule optional_iff)

interpretation opt_u32: xdr_optional be32 read_u32 "\<lambda>_. True"
  by unfold_locales

interpretation opt_u64: xdr_optional be64 read_u64 "\<lambda>_. True"
  by unfold_locales

interpretation nfs_time: xdr_optional time_bytes decode_time wf_time
  by unfold_locales (rule decode_time_Inr)

lemmas optional_simps [codec_simps] =
  opt_u32.optional_iff opt_u64.optional_iff nfs_time.optional_iff

lemma decode_set_attributes_Inr [codec_simps]:
  "decode_set_attributes d = Inr (a, d') \<longleftrightarrow>
     wf_set_attributes a \<and> consumes d (set_attributes_bytes a) d'"
  by (cases a)
    (simp_all add: decode_set_attributes_def wf_set_attributes_def set_attributes_bytes_def
      codec_simps consumes_append, blast)

lemma decode_stability_Inr [codec_simps]:
  "decode_stability d = Inr (s, d') \<longleftrightarrow> consumes d (be32 (stability_code s)) d'"
  by (cases s) (auto simp: decode_stability_def codec_simps)

section \<open>Formats of the procedures\<close>

lemma decode_setattr_args_Inr:
  "decode_setattr_args d = Inr (a, d') \<longleftrightarrow>
     wf_args limit (Arg_SetAttr a) \<and> consumes d (args_bytes (Arg_SetAttr a)) d'"
  by (cases a) (simp_all add: decode_setattr_args_def codec_simps consumes_append, blast)

lemma decode_access_args_Inr:
  "decode_access_args d = Inr (a, d') \<longleftrightarrow>
     wf_args limit (Arg_Access a) \<and> consumes d (args_bytes (Arg_Access a)) d'"
  by (cases a) (auto simp add: decode_access_args_def codec_simps consumes_append)

lemma decode_read_args_Inr:
  "decode_read_args d = Inr (a, d') \<longleftrightarrow>
     wf_args limit (Arg_Read a) \<and> consumes d (args_bytes (Arg_Read a)) d'"
  by (cases a) (simp_all add: decode_read_args_def codec_simps consumes_append, blast)

lemma decode_write_args_Inr [codec_simps]:
  "decode_write_args limit d = Inr (a, d') \<longleftrightarrow>
     wf_write_args limit a \<and> consumes d (write_args_bytes a) d'"
  by (cases a)
    (simp_all add: decode_write_args_def wf_write_args_def write_args_bytes_def codec_simps
      consumes_append, blast)

lemma decode_create_mode_Inr:
  "decode_create_mode d = Inr (m, d') \<longleftrightarrow>
     (case m of Unchecked \<Rightarrow> consumes d (be32 0) d' | Guarded \<Rightarrow> consumes d (be32 1) d'
      | Exclusive v \<Rightarrow> length v = 8 \<and> consumes d (be32 2 @ v) d')"
  by (cases m) (auto simp: decode_create_mode_def codec_simps consumes_append)

lemma create_mode_case_Inr:
  "(case m of Exclusive v \<Rightarrow> q v | _ \<Rightarrow> p) d = Inr r \<longleftrightarrow>
     (\<exists>v. m = Exclusive v \<and> q v d = Inr r) \<or> (m = Unchecked \<or> m = Guarded) \<and> p d = Inr r"
  by (cases m) auto

lemma decode_create_args_Inr:
  "decode_create_args d = Inr (a, d') \<longleftrightarrow>
     wf_args limit (Arg_Create a) \<and> consumes d (args_bytes (Arg_Create a)) d'"
proof (cases a)
  case (fields target mode attributes)
  have "decode_create_args d = Inr (a, d') \<longleftrightarrow>
      (\<exists>d1 d2. wf_diropargs target \<and> consumes d (diropargs_bytes target) d1 \<and>
        decode_create_mode d1 = Inr (mode, d2) \<and>
        (case mode of Exclusive _ \<Rightarrow> attributes = set_attributes_default \<and> d' = d2
         | _ \<Rightarrow> wf_set_attributes attributes \<and> consumes d2 (set_attributes_bytes attributes) d'))"
    unfolding fields decode_create_args_def
    by (cases mode) (simp_all add: codec_simps create_mode_case_Inr, blast+)
  then show ?thesis
    by (cases mode) (auto simp: fields decode_create_mode_Inr consumes_append)
qed

lemma decode_mkdir_args_Inr:
  "decode_mkdir_args d = Inr (a, d') \<longleftrightarrow>
     wf_args limit (Arg_Mkdir a) \<and> consumes d (args_bytes (Arg_Mkdir a)) d'"
  by (cases a) (auto simp add: decode_mkdir_args_def codec_simps consumes_append)

lemma decode_symlink_args_Inr [codec_simps]:
  "decode_symlink_args limit d = Inr (a, d') \<longleftrightarrow>
     wf_args limit (Arg_Symlink a) \<and> consumes d (args_bytes (Arg_Symlink a)) d'"
  by (cases a) (simp_all add: decode_symlink_args_def codec_simps consumes_append, blast)

lemma decode_node_type_Inr:
  "decode_node_type kind d = Inr (n, d') \<longleftrightarrow>
     (case n of
        Node_BlockDevice major minor \<Rightarrow> kind = 3 \<and> consumes d (be32 major @ be32 minor) d'
      | Node_CharacterDevice major minor \<Rightarrow> kind = 4 \<and> consumes d (be32 major @ be32 minor) d'
      | Node_Socket \<Rightarrow> kind = 6 \<and> d' = d
      | Node_Fifo \<Rightarrow> kind = 7 \<and> d' = d)"
  by (cases n) (auto simp: decode_node_type_def codec_simps consumes_append)

lemma decode_mknod_args_Inr:
  "decode_mknod_args d = Inr (a, d') \<longleftrightarrow>
     wf_args limit (Arg_Mknod a) \<and> consumes d (args_bytes (Arg_Mknod a)) d'"
proof (cases a)
  case (fields target node_type attributes)
  have "decode_mknod_args d = Inr (a, d') \<longleftrightarrow>
      (\<exists>d1 d2 d3 kind. wf_diropargs target \<and> consumes d (diropargs_bytes target) d1 \<and>
        consumes d1 (be32 kind) d2 \<and>
        wf_set_attributes attributes \<and> consumes d2 (set_attributes_bytes attributes) d3 \<and>
        decode_node_type kind d3 = Inr (node_type, d'))"
    unfolding fields decode_mknod_args_def by (simp add: codec_simps, blast)
  then show ?thesis
    by (cases node_type) (simp_all add: fields decode_node_type_Inr consumes_append, blast+)
qed

lemma decode_rename_args_Inr:
  "decode_rename_args d = Inr (a, d') \<longleftrightarrow>
     wf_args limit (Arg_Rename a) \<and> consumes d (args_bytes (Arg_Rename a)) d'"
  by (cases a) (auto simp add: decode_rename_args_def codec_simps consumes_append)

lemma decode_link_args_Inr:
  "decode_link_args d = Inr (a, d') \<longleftrightarrow>
     wf_args limit (Arg_Link a) \<and> consumes d (args_bytes (Arg_Link a)) d'"
  by (cases a) (auto simp add: decode_link_args_def codec_simps consumes_append)

lemma decode_readdir_args_Inr:
  "decode_readdir_args d = Inr (a, d') \<longleftrightarrow>
     wf_args limit (Arg_ReadDir a) \<and> consumes d (args_bytes (Arg_ReadDir a)) d'"
  by (cases a) (simp_all add: decode_readdir_args_def codec_simps consumes_append, blast)

lemma decode_readdirplus_args_Inr:
  "decode_readdirplus_args d = Inr (a, d') \<longleftrightarrow>
     wf_args limit (Arg_ReadDirPlus a) \<and> consumes d (args_bytes (Arg_ReadDirPlus a)) d'"
  by (cases a) (simp_all add: decode_readdirplus_args_def codec_simps consumes_append, blast)

lemma decode_commit_args_Inr:
  "decode_commit_args d = Inr (a, d') \<longleftrightarrow>
     wf_args limit (Arg_Commit a) \<and> consumes d (args_bytes (Arg_Commit a)) d'"
  by (cases a) (simp_all add: decode_commit_args_def codec_simps consumes_append, blast)

lemma d_map_Inr [codec_simps]:
  "d_map f m d = Inr (b, d') \<longleftrightarrow> (\<exists>a. m d = Inr (a, d') \<and> b = f a)"
  by (auto simp: d_map_def codec_simps)

lemmas args_formats =
  decode_setattr_args_Inr decode_access_args_Inr decode_read_args_Inr decode_create_args_Inr
  decode_mkdir_args_Inr decode_mknod_args_Inr decode_rename_args_Inr decode_link_args_Inr
  decode_readdir_args_Inr decode_readdirplus_args_Inr decode_commit_args_Inr

lemma read_nfs_arguments_Inr:
  assumes "procedure \<noteq> 0"
  shows "read_nfs_arguments procedure limit d = Inr (a, d') \<longleftrightarrow>
     args_procedure a = procedure \<and> wf_args limit a \<and> consumes d (args_bytes a) d'"
  using assms
  by (cases a)
    (auto simp: read_nfs_arguments_def codec_simps args_formats [where limit = limit])

lemma args_procedure_0: "args_procedure a = 0 \<longleftrightarrow> a = Arg_Null"
  by (cases a) simp_all

lemma args_procedure_le: "args_procedure a \<le> 21"
  by (cases a) simp_all

lemma nfs_arguments_decode_Inr:
  "nfs_arguments_decode procedure inp limit = Inr a \<longleftrightarrow>
     args_procedure a = procedure \<and> wf_args limit a \<and> inp = args_bytes a \<and>
     length inp < usize_bound"
proof (cases "procedure = 0")
  case True
  then show ?thesis
    by (auto simp: nfs_arguments_decode_def decode_all_Inr read_nfs_arguments_def d_return_def
        decoder_new_def args_procedure_0)
next
  case False
  then show ?thesis
    unfolding nfs_arguments_decode_def decode_all_Inr read_nfs_arguments_Inr [OF False]
    using consumes_new_full [of inp "args_bytes a"] by metis
qed

section \<open>The borrowed WRITE payload\<close>

lemma consumes_opaque_slice:
  assumes "consumes d (opaque_bytes v) d'"
  shows "take (length v) (drop (dec_position d + 4) (dec_input d)) = v"
    and "dec_position d + 4 + length v < usize_bound"
proof -
  obtain d1 d2 where "consumes d (be32 (of_nat (length v))) d1" and "consumes d1 v d2"
    using assms by (auto simp: opaque_bytes_def consumes_append)
  then show "take (length v) (drop (dec_position d + 4) (dec_input d)) = v"
    and "dec_position d + 4 + length v < usize_bound"
    by (auto simp: consumes_def)
qed

lemma consumes_input: "consumes d bs d' \<Longrightarrow> dec_input d' = dec_input d"
  by (simp add: consumes_def)

lemma write_prefix_bind:
  "d_bind decode_handle (\<lambda>object.
     d_bind read_u64 (\<lambda>offset.
     d_bind read_u32 (\<lambda>count.
     d_bind decode_stability (\<lambda>requested. k object offset count requested)))) =
   d_bind write_prefix (\<lambda>(object, offset, count, requested). k object offset count requested)"
  by (rule ext) (simp add: write_prefix_def d_bind_def d_return_def split: sum.splits)

lemma write_prefix_input:
  "write_prefix d = Inr (r, d') \<Longrightarrow> dec_input d' = dec_input d"
  by (auto simp: write_prefix_def codec_simps dest!: consumes_input)

lemma write_request_decode_eq:
  "write_request_decode inp limit =
     (case decode_all (decode_write_args limit) inp of
        Inl e \<Rightarrow> Inl e | Inr a \<Rightarrow> Inr (write_request_of_args a))"
proof (cases "write_prefix (decoder_new inp)")
  case (Inl e)
  then show ?thesis
    unfolding write_request_decode_def decode_write_args_def decode_all_def write_prefix_bind
    by (simp add: d_bind_def)
next
  case (Inr r)
  then obtain object offset count requested d
    where prefix: "write_prefix (decoder_new inp) = Inr ((object, offset, count, requested), d)"
    by (cases r) auto
  have inp: "dec_input d = inp"
    using write_prefix_input [OF prefix] by (simp add: decoder_new_def)
  show ?thesis
  proof (cases "read_opaque_slice ''WRITE data'' limit d")
    case (Inl e)
    then show ?thesis
      unfolding write_request_decode_def decode_write_args_def decode_all_def write_prefix_bind
      by (simp add: d_bind_def prefix read_opaque_def)
  next
    case (Inr r)
    then obtain data d' where data: "read_opaque_slice ''WRITE data'' limit d = Inr (data, d')"
      by (cases r) auto
    then have "consumes d (opaque_bytes data) d'" by (simp add: codec_simps)
    from consumes_opaque_slice [OF this]
    have "take (length data) (drop (dec_position d + 4) inp) = data"
      and "dec_position d + 4 + length data < usize_bound" by (simp_all add: inp)
    then show ?thesis
      unfolding write_request_decode_def decode_write_args_def decode_all_def write_prefix_bind
      by (simp add: d_bind_def d_return_def prefix data read_opaque_def checked_add_def
          write_request_of_args_def dec_finish_def split: sum.splits)
  qed
qed

section \<open>Properties\<close>


text \<open>
  Two different well-formed arguments of one procedure never share a wire form, so a request
  denotes at most one operation.
\<close>

theorem args_bytes_inject:
  assumes "wf_args limit a" and "wf_args limit b" and "args_procedure a = args_procedure b"
    and "args_bytes a = args_bytes b" and "length (args_bytes a) < usize_bound"
  shows "a = b"
proof -
  have "nfs_arguments_decode (args_procedure a) (args_bytes a) limit = Inr a"
    using assms by (simp add: nfs_arguments_decode_Inr)
  moreover have "nfs_arguments_decode (args_procedure a) (args_bytes a) limit = Inr b"
    using assms by (simp add: nfs_arguments_decode_Inr)
  ultimately show ?thesis by simp
qed

theorem args_bytes_inject_witness:
  "args_bytes (Arg_ReadLink \<lparr>oa_object = [1, 2, 3]\<rparr>) \<noteq> args_bytes (Arg_ReadLink \<lparr>oa_object = [1, 2, 0]\<rparr>)"
proof
  let ?a = "Arg_ReadLink \<lparr>oa_object = [1, 2, 3]\<rparr>" and ?b = "Arg_ReadLink \<lparr>oa_object = [1, 2, 0]\<rparr>"
  assume "args_bytes ?a = args_bytes ?b"
  then have "?a = ?b"
    by (intro args_bytes_inject [of 0]) (simp_all add: wf_handle_def length_opaque_bytes xdr_padding_def)
  then show False by simp
qed

text \<open>
  The zero-copy WRITE decoder is the owning one.  \<open>WriteRequest::decode\<close>, which rebuilds the
  payload as a sub-slice of the record from the cursor positions, fails with exactly the error of
  \<open>NfsArguments::decode\<close> for procedure 7, and otherwise yields the converted \<open>WriteArgs\<close>.
\<close>

theorem write_request_decode_equiv:
  "(\<forall>e. write_request_decode inp limit = Inl e \<longleftrightarrow> nfs_arguments_decode 7 inp limit = Inl e) \<and>
   (\<forall>w. write_request_decode inp limit = Inr w \<longleftrightarrow>
      (\<exists>a. nfs_arguments_decode 7 inp limit = Inr (Arg_Write a) \<and> w = write_request_of_args a))"
  unfolding write_request_decode_eq nfs_arguments_decode_def
  by (auto simp: decode_all_def read_nfs_arguments_def d_map_def d_bind_def d_return_def
      dec_finish_def split: sum.splits)

end
