(* ===== verification/Nfs3_Results.thy ===== *)
theory Nfs3_Results
  imports Nfs3_Args
begin

text \<open>
  NFSv3 procedure results: the typed results of \<^verbatim>\<open>src/nfs3/procedures/mod.rs\<close> and their encoders,
  \<^verbatim>\<open>src/nfs3/codec.rs\<close>, with the policy that cuts a directory listing to the size the client asked
  for.

  An encoding function takes \<open>&mut Encoder\<close> and may stop in the middle; here it returns the error or
  the longer output, and every caller in the source drops the encoder after an error.  The wire
  form of a part is a definition \<open>\<dots>_wire\<close> and the values that have one are those of the predicate
  \<open>\<dots>_encodable\<close>; the encoders are instances of \<open>xdr_encoder\<close>.
\<close>

section \<open>Results\<close>

datatype GetAttrResult =
    GetAttr_Ok FileAttributes
  | GetAttr_Err NfsStatus

datatype SetAttrResult =
    SetAttr_Ok WccData
  | SetAttr_Err NfsStatus WccData

datatype RenameResult =
    Rename_Ok WccData WccData
  | Rename_Err NfsStatus WccData WccData

datatype ReadLinkResult =
    ReadLink_Ok "FileAttributes option" bytes
  | ReadLink_Err NfsStatus "FileAttributes option"

datatype LookupResult =
    Lookup_Ok bytes "FileAttributes option" "FileAttributes option"
  | Lookup_Err NfsStatus "FileAttributes option"

datatype AccessResult =
    Access_Ok "FileAttributes option" u32
  | Access_Err NfsStatus "FileAttributes option"

datatype ReadResult =
    Read_Ok "FileAttributes option" bytes bool
  | Read_Err NfsStatus "FileAttributes option"

datatype WriteResult =
    Write_Ok WccData u32 WriteStability bytes
  | Write_Err NfsStatus WccData

datatype CreateResult =
    Create_Ok "bytes option" "FileAttributes option" WccData
  | Create_Err NfsStatus WccData

datatype WccResult =
    Wcc_Ok WccData
  | Wcc_Err NfsStatus WccData

datatype LinkResult =
    Link_Ok "FileAttributes option" WccData
  | Link_Err NfsStatus "FileAttributes option" WccData

datatype ReadDirEntryExtension =
    Basic
  | Plus "FileAttributes option" "bytes option"

record ReadDirEntry =
  rde_file_id :: u64
  rde_name :: bytes
  rde_cookie :: u64
  rde_extension :: ReadDirEntryExtension

datatype ReadDirResult =
    ReadDir_Ok "FileAttributes option" bytes "ReadDirEntry list" bool
  | ReadDir_Err NfsStatus "FileAttributes option"

datatype FsStatResult =
    FsStat_Ok "FileAttributes option" FsStat
  | FsStat_Err NfsStatus "FileAttributes option"

datatype FsInfoResult =
    FsInfo_Ok "FileAttributes option" FsInfo u32
  | FsInfo_Err NfsStatus "FileAttributes option"

datatype PathConfResult =
    PathConf_Ok "FileAttributes option" PathConf
  | PathConf_Err NfsStatus "FileAttributes option"

datatype CommitResult =
    Commit_Ok WccData bytes
  | Commit_Err NfsStatus WccData

section \<open>Encoders of the shared parts\<close>

fun encode_stability :: "WriteStability \<Rightarrow> u32" where
  "encode_stability Unstable = 0"
| "encode_stability DataSync = 1"
| "encode_stability FileSync = 2"

fun file_type_code :: "FileType \<Rightarrow> u32" where
  "file_type_code FT_Regular = 1"
| "file_type_code FT_Directory = 2"
| "file_type_code FT_BlockDevice = 3"
| "file_type_code FT_CharacterDevice = 4"
| "file_type_code FT_Symlink = 5"
| "file_type_code FT_Socket = 6"
| "file_type_code FT_Fifo = 7"

definition encode_time :: "NfsTime put" where
  "encode_time time e =
     (if u32_max < unat (time_seconds time)
      then Inl (InvalidTime (time_seconds time) (time_nanoseconds time))
      else if 999999999 < time_nanoseconds time
      then Inl (InvalidTime (time_seconds time) (time_nanoseconds time))
      else
        let e = write_u32 (ucast (time_seconds time)) e;
            e = write_u32 (time_nanoseconds time) e in
        Inr e)"

definition wire_device :: "FileAttributes \<Rightarrow> DeviceNumber" where
  "wire_device attributes =
     (if fa_file_type attributes = FT_BlockDevice \<or> fa_file_type attributes = FT_CharacterDevice
      then case fa_device attributes of None \<Rightarrow> device_number_default | Some device \<Rightarrow> device
      else device_number_default)"

definition encode_attributes :: "FileAttributes put" where
  "encode_attributes attributes e =
     (let e = write_u32 (file_type_code (fa_file_type attributes)) e;
          e = write_u32 (fa_mode attributes) e;
          e = write_u32 (fa_links attributes) e;
          e = write_u32 (fa_uid attributes) e;
          e = write_u32 (fa_gid attributes) e;
          e = write_u64 (fa_size attributes) e;
          e = write_u64 (fa_used attributes) e;
          device = wire_device attributes;
          e = write_u32 (dev_major device) e;
          e = write_u32 (dev_minor device) e;
          e = write_u64 (fa_fs_id attributes) e;
          e = write_u64 (fa_file_id attributes) e in
      r_bind (encode_time (fa_access_time attributes) e) (\<lambda>e.
      r_bind (encode_time (fa_modify_time attributes) e) (\<lambda>e.
      encode_time (fa_change_time attributes) e)))"

definition encode_post_attributes :: "FileAttributes option put" where
  "encode_post_attributes attributes e =
     (let e = write_bool (attributes \<noteq> None) e in
      case attributes of
        None \<Rightarrow> Inr e
      | Some attributes \<Rightarrow> encode_attributes attributes e)"

definition encode_wcc :: "WccData put" where
  "encode_wcc wcc e =
     (let e = write_bool (wcc_before wcc \<noteq> None) e in
      r_bind
        (case wcc_before wcc of
           None \<Rightarrow> Inr e
         | Some attributes \<Rightarrow>
             let e = write_u64 (wcc_size attributes) e in
             r_bind (encode_time (wcc_modify_time attributes) e) (\<lambda>e.
             encode_time (wcc_change_time attributes) e))
        (encode_post_attributes (wcc_after wcc)))"

definition encode_readdir_entry :: "ReadDirEntry put" where
  "encode_readdir_entry entry e =
     (let e = write_bool True e;
          e = write_u64 (rde_file_id entry) e in
      r_bind (write_opaque (rde_name entry) e) (\<lambda>e.
      let e = write_u64 (rde_cookie entry) e in
      case rde_extension entry of
        Basic \<Rightarrow> Inr e
      | Plus attributes handle \<Rightarrow>
          r_bind (encode_post_attributes attributes e) (\<lambda>e.
          let e = write_bool (handle \<noteq> None) e in
          case handle of
            None \<Rightarrow> Inr e
          | Some handle \<Rightarrow> write_opaque handle e)))"

fun encode_readdir_entries :: "ReadDirEntry list put" where
  "encode_readdir_entries [] e = Inr e"
| "encode_readdir_entries (entry # entries) e =
     r_bind (encode_readdir_entry entry e) (encode_readdir_entries entries)"

section \<open>Encoders of the results\<close>

fun encode_getattr_result :: "GetAttrResult put" where
  "encode_getattr_result (GetAttr_Ok attributes) e =
     encode_attributes attributes (write_u32 (nfs_status_code Nfs_Ok) e)"
| "encode_getattr_result (GetAttr_Err status) e = Inr (write_u32 (nfs_status_code status) e)"

fun encode_lookup_result :: "LookupResult put" where
  "encode_lookup_result (Lookup_Ok object_handle object_attributes directory_attributes) e =
     (let e = write_u32 (nfs_status_code Nfs_Ok) e in
      r_bind (write_opaque object_handle e) (\<lambda>e.
      r_bind (encode_post_attributes object_attributes e) (\<lambda>e.
      encode_post_attributes directory_attributes e)))"
| "encode_lookup_result (Lookup_Err status directory_attributes) e =
     encode_post_attributes directory_attributes (write_u32 (nfs_status_code status) e)"

fun encode_access_result :: "AccessResult put" where
  "encode_access_result (Access_Ok attributes access) e =
     (let e = write_u32 (nfs_status_code Nfs_Ok) e in
      r_bind (encode_post_attributes attributes e) (\<lambda>e. Inr (write_u32 access e)))"
| "encode_access_result (Access_Err status attributes) e =
     encode_post_attributes attributes (write_u32 (nfs_status_code status) e)"

fun encode_read_result :: "ReadResult put" where
  "encode_read_result (Read_Ok attributes data eof) e =
     (let e = write_u32 (nfs_status_code Nfs_Ok) e in
      r_bind (encode_post_attributes attributes e) (\<lambda>e.
      if u32_max < length data then Inl (TooLarge (length data))
      else
        let e = write_u32 (of_nat (length data)) e;
            e = write_bool eof e in
        write_opaque data e))"
| "encode_read_result (Read_Err status attributes) e =
     encode_post_attributes attributes (write_u32 (nfs_status_code status) e)"

fun encode_write_result :: "WriteResult put" where
  "encode_write_result (Write_Ok file_wcc count committed verifier) e =
     (let e = write_u32 (nfs_status_code Nfs_Ok) e in
      r_bind (encode_wcc file_wcc e) (\<lambda>e.
      let e = write_u32 count e;
          e = write_u32 (encode_stability committed) e in
      Inr (write_fixed verifier e)))"
| "encode_write_result (Write_Err status file_wcc) e =
     encode_wcc file_wcc (write_u32 (nfs_status_code status) e)"

fun encode_create_result :: "CreateResult put" where
  "encode_create_result (Create_Ok object_handle object_attributes directory_wcc) e =
     (let e = write_u32 (nfs_status_code Nfs_Ok) e;
          e = write_bool (object_handle \<noteq> None) e in
      r_bind (case object_handle of None \<Rightarrow> Inr e | Some handle \<Rightarrow> write_opaque handle e) (\<lambda>e.
      r_bind (encode_post_attributes object_attributes e) (\<lambda>e.
      encode_wcc directory_wcc e)))"
| "encode_create_result (Create_Err status directory_wcc) e =
     encode_wcc directory_wcc (write_u32 (nfs_status_code status) e)"

fun encode_wcc_result :: "WccResult put" where
  "encode_wcc_result (Wcc_Ok object_wcc) e = encode_wcc object_wcc (write_u32 (nfs_status_code Nfs_Ok) e)"
| "encode_wcc_result (Wcc_Err status object_wcc) e =
     encode_wcc object_wcc (write_u32 (nfs_status_code status) e)"

fun encode_link_result :: "LinkResult put" where
  "encode_link_result (Link_Ok object_attributes directory_wcc) e =
     (let e = write_u32 (nfs_status_code Nfs_Ok) e in
      r_bind (encode_post_attributes object_attributes e) (encode_wcc directory_wcc))"
| "encode_link_result (Link_Err status object_attributes directory_wcc) e =
     (let e = write_u32 (nfs_status_code status) e in
      r_bind (encode_post_attributes object_attributes e) (encode_wcc directory_wcc))"

fun encode_readdir_result :: "ReadDirResult put" where
  "encode_readdir_result (ReadDir_Ok directory_attributes verifier entries eof) e =
     (let e = write_u32 (nfs_status_code Nfs_Ok) e in
      r_bind (encode_post_attributes directory_attributes e) (\<lambda>e.
      let e = write_fixed verifier e in
      r_bind (encode_readdir_entries entries e) (\<lambda>e.
      let e = write_bool False e in
      Inr (write_bool eof e))))"
| "encode_readdir_result (ReadDir_Err status directory_attributes) e =
     encode_post_attributes directory_attributes (write_u32 (nfs_status_code status) e)"

fun encode_fsstat_result :: "FsStatResult put" where
  "encode_fsstat_result (FsStat_Ok attributes info) e =
     (let e = write_u32 (nfs_status_code Nfs_Ok) e in
      r_bind (encode_post_attributes attributes e) (\<lambda>e.
      let e = write_u64 (fs_total_bytes info) e;
          e = write_u64 (fs_free_bytes info) e;
          e = write_u64 (fs_available_bytes info) e;
          e = write_u64 (fs_total_files info) e;
          e = write_u64 (fs_free_files info) e;
          e = write_u64 (fs_available_files info) e in
      Inr (write_u32 (fs_invariant_seconds info) e)))"
| "encode_fsstat_result (FsStat_Err status attributes) e =
     encode_post_attributes attributes (write_u32 (nfs_status_code status) e)"

fun encode_pathconf_result :: "PathConfResult put" where
  "encode_pathconf_result (PathConf_Ok attributes info) e =
     (let e = write_u32 (nfs_status_code Nfs_Ok) e in
      r_bind (encode_post_attributes attributes e) (\<lambda>e.
      let e = write_u32 (pc_max_links info) e;
          e = write_u32 (pc_max_name_length info) e;
          e = write_bool (pc_no_truncation info) e;
          e = write_bool (pc_chown_restricted info) e;
          e = write_bool (pc_case_insensitive info) e in
      Inr (write_bool (pc_case_preserving info) e)))"
| "encode_pathconf_result (PathConf_Err status attributes) e =
     encode_post_attributes attributes (write_u32 (nfs_status_code status) e)"

fun encode_commit_result :: "CommitResult put" where
  "encode_commit_result (Commit_Ok file_wcc verifier) e =
     (let e = write_u32 (nfs_status_code Nfs_Ok) e in
      r_bind (encode_wcc file_wcc e) (\<lambda>e. Inr (write_fixed verifier e)))"
| "encode_commit_result (Commit_Err status file_wcc) e =
     encode_wcc file_wcc (write_u32 (nfs_status_code status) e)"

fun encode_setattr_result :: "SetAttrResult put" where
  "encode_setattr_result (SetAttr_Ok object_wcc) e =
     encode_wcc object_wcc (write_u32 (nfs_status_code Nfs_Ok) e)"
| "encode_setattr_result (SetAttr_Err status object_wcc) e =
     encode_wcc object_wcc (write_u32 (nfs_status_code status) e)"

fun encode_rename_result :: "RenameResult put" where
  "encode_rename_result (Rename_Ok from_directory_wcc to_directory_wcc) e =
     (let e = write_u32 (nfs_status_code Nfs_Ok) e in
      r_bind (encode_wcc from_directory_wcc e) (encode_wcc to_directory_wcc))"
| "encode_rename_result (Rename_Err status from_directory_wcc to_directory_wcc) e =
     (let e = write_u32 (nfs_status_code status) e in
      r_bind (encode_wcc from_directory_wcc e) (encode_wcc to_directory_wcc))"

fun encode_readlink_result :: "ReadLinkResult put" where
  "encode_readlink_result (ReadLink_Ok attributes path) e =
     (let e = write_u32 (nfs_status_code Nfs_Ok) e in
      r_bind (encode_post_attributes attributes e) (write_opaque path))"
| "encode_readlink_result (ReadLink_Err status attributes) e =
     encode_post_attributes attributes (write_u32 (nfs_status_code status) e)"

fun encode_fsinfo_result :: "FsInfoResult put" where
  "encode_fsinfo_result (FsInfo_Ok attributes info properties) e =
     (let e = write_u32 (nfs_status_code Nfs_Ok) e in
      r_bind (encode_post_attributes attributes e) (\<lambda>e.
      let e = write_u32 (fi_max_read info) e;
          e = write_u32 (fi_preferred_read info) e;
          e = write_u32 (fi_read_multiple info) e;
          e = write_u32 (fi_max_write info) e;
          e = write_u32 (fi_preferred_write info) e;
          e = write_u32 (fi_write_multiple info) e;
          e = write_u32 (fi_preferred_readdir info) e;
          e = write_u64 (fi_max_file_size info) e in
      r_bind (encode_time (fi_time_granularity info) e) (\<lambda>e.
      Inr (write_u32 properties e))))"
| "encode_fsinfo_result (FsInfo_Err status attributes) e =
     encode_post_attributes attributes (write_u32 (nfs_status_code status) e)"

section \<open>Cutting a directory listing\<close>

definition encoded_len :: "'a put \<Rightarrow> 'a \<Rightarrow> EncodeError + usize" where
  "encoded_len put a = r_bind (put a []) (\<lambda>e. Inr (length e))"

text \<open>
  The loop of \<open>truncate_readdir_result\<close>, with the size of the remaining listing as its
  accumulator.  It returns what the function returns and the entries and the end-of-listing mark
  that it leaves in the result.
\<close>

function drop_entries ::
  "usize \<Rightarrow> usize \<Rightarrow> ReadDirEntry list \<Rightarrow> bool \<Rightarrow> (EncodeError + bool) \<times> ReadDirEntry list \<times> bool" where
  "drop_entries max_size encoded_size entries eof =
     (if max_size < encoded_size then
        if entries = [] then (Inr False, entries, eof)
        else
          let removed = last entries;
              entries = butlast entries in
          case encoded_len encode_readdir_entry removed of
            Inl e \<Rightarrow> (Inl e, entries, eof)
          | Inr removed_len \<Rightarrow>
              drop_entries max_size (saturating_sub encoded_size removed_len) entries False
      else (Inr True, entries, eof))"
  by pat_completeness auto
termination
  by (relation "measure (\<lambda>(max_size, encoded_size, entries, eof). length entries)") auto

declare drop_entries.simps [simp del]

definition truncate_readdir_result ::
  "ReadDirResult \<Rightarrow> usize \<Rightarrow> (EncodeError + bool) \<times> ReadDirResult" where
  "truncate_readdir_result result max_size =
     (case encoded_len encode_readdir_result result of
        Inl e \<Rightarrow> (Inl e, result)
      | Inr len \<Rightarrow>
          let encoded_size = saturating_sub len 4 in
          if encoded_size \<le> max_size then (Inr True, result)
          else
            case result of
              ReadDir_Err _ _ \<Rightarrow> (Inr False, result)
            | ReadDir_Ok directory_attributes verifier entries eof \<Rightarrow>
                let (r, entries', eof') = drop_entries max_size encoded_size entries eof in
                (r, ReadDir_Ok directory_attributes verifier entries' eof'))"

text \<open>The reference policy of the source: encode the whole listing again after every removal.\<close>

function truncate_readdir_result_reference ::
  "ReadDirResult \<Rightarrow> usize \<Rightarrow> (EncodeError + bool) \<times> ReadDirResult" where
  "truncate_readdir_result_reference result max_size =
     (case encoded_len encode_readdir_result result of
        Inl e \<Rightarrow> (Inl e, result)
      | Inr len \<Rightarrow>
          if saturating_sub len 4 \<le> max_size then (Inr True, result)
          else
            case result of
              ReadDir_Err _ _ \<Rightarrow> (Inr False, result)
            | ReadDir_Ok directory_attributes verifier entries eof \<Rightarrow>
                if entries = [] then (Inr False, result)
                else truncate_readdir_result_reference
                       (ReadDir_Ok directory_attributes verifier (butlast entries) False) max_size)"
  by pat_completeness auto
termination
  by (relation "measure (\<lambda>(result, max_size).
        case result of ReadDir_Ok _ _ entries _ \<Rightarrow> length entries | ReadDir_Err _ _ \<Rightarrow> 0)") auto

declare truncate_readdir_result_reference.simps [simp del]

section \<open>Wire forms\<close>

definition attributes_wire :: "FileAttributes \<Rightarrow> bytes" where
  "attributes_wire a =
     be32 (file_type_code (fa_file_type a)) @ be32 (fa_mode a) @ be32 (fa_links a) @ be32 (fa_uid a) @
     be32 (fa_gid a) @ be64 (fa_size a) @ be64 (fa_used a) @
     be32 (dev_major (wire_device a)) @ be32 (dev_minor (wire_device a)) @
     be64 (fa_fs_id a) @ be64 (fa_file_id a) @
     time_bytes (fa_access_time a) @ time_bytes (fa_modify_time a) @ time_bytes (fa_change_time a)"

definition attributes_encodable :: "FileAttributes \<Rightarrow> bool" where
  "attributes_encodable a \<longleftrightarrow> wf_time (fa_access_time a) \<and> wf_time (fa_modify_time a) \<and>
     wf_time (fa_change_time a)"

definition post_encodable :: "FileAttributes option \<Rightarrow> bool" where
  "post_encodable a \<longleftrightarrow> pred_option attributes_encodable a"

abbreviation post_wire :: "FileAttributes option \<Rightarrow> bytes" where
  "post_wire \<equiv> option_bytes attributes_wire"

definition wcc_attributes_wire :: "WccAttributes \<Rightarrow> bytes" where
  "wcc_attributes_wire a = be64 (wcc_size a) @ time_bytes (wcc_modify_time a) @ time_bytes (wcc_change_time a)"

definition wcc_wire :: "WccData \<Rightarrow> bytes" where
  "wcc_wire w = option_bytes wcc_attributes_wire (wcc_before w) @ post_wire (wcc_after w)"

definition wcc_encodable :: "WccData \<Rightarrow> bool" where
  "wcc_encodable w \<longleftrightarrow>
     pred_option (\<lambda>a. wf_time (wcc_modify_time a) \<and> wf_time (wcc_change_time a)) (wcc_before w) \<and>
     post_encodable (wcc_after w)"

fun extension_wire :: "ReadDirEntryExtension \<Rightarrow> bytes" where
  "extension_wire Basic = []"
| "extension_wire (Plus attributes handle) = post_wire attributes @ option_bytes opaque_bytes handle"

fun extension_encodable :: "ReadDirEntryExtension \<Rightarrow> bool" where
  "extension_encodable Basic = True"
| "extension_encodable (Plus attributes handle) \<longleftrightarrow>
     post_encodable attributes \<and> pred_option (\<lambda>h. length h \<le> u32_max) handle"

definition entry_wire :: "ReadDirEntry \<Rightarrow> bytes" where
  "entry_wire entry =
     bool_bytes True @ be64 (rde_file_id entry) @ opaque_bytes (rde_name entry) @ be64 (rde_cookie entry) @
     extension_wire (rde_extension entry)"

definition entry_encodable :: "ReadDirEntry \<Rightarrow> bool" where
  "entry_encodable entry \<longleftrightarrow> length (rde_name entry) \<le> u32_max \<and> extension_encodable (rde_extension entry)"

fun readdir_wire :: "ReadDirResult \<Rightarrow> bytes" where
  "readdir_wire (ReadDir_Ok attributes verifier entries eof) =
     be32 0 @ post_wire attributes @ verifier @ concat (map entry_wire entries) @ bool_bytes False @ bool_bytes eof"
| "readdir_wire (ReadDir_Err status attributes) = be32 (nfs_status_code status) @ post_wire attributes"

fun readdir_encodable :: "ReadDirResult \<Rightarrow> bool" where
  "readdir_encodable (ReadDir_Ok attributes verifier entries eof) \<longleftrightarrow>
     post_encodable attributes \<and> list_all entry_encodable entries"
| "readdir_encodable (ReadDir_Err status attributes) \<longleftrightarrow> post_encodable attributes"

text \<open>Upper bounds on the size of a result.\<close>

fun lookup_bound :: "LookupResult \<Rightarrow> nat" where
  "lookup_bound (Lookup_Ok handle _ _) = 180 + length (opaque_bytes handle)"
| "lookup_bound (Lookup_Err _ _) = 92"

fun readlink_bound :: "ReadLinkResult \<Rightarrow> nat" where
  "readlink_bound (ReadLink_Ok _ path) = 92 + length (opaque_bytes path)"
| "readlink_bound (ReadLink_Err _ _) = 92"

fun read_bound :: "ReadResult \<Rightarrow> nat" where
  "read_bound (Read_Ok _ data _) = 100 + length (opaque_bytes data)"
| "read_bound (Read_Err _ _) = 92"

fun write_bound :: "WriteResult \<Rightarrow> nat" where
  "write_bound (Write_Ok _ _ _ verifier) = 128 + length verifier"
| "write_bound (Write_Err _ _) = 120"

fun create_bound :: "CreateResult \<Rightarrow> nat" where
  "create_bound (Create_Ok handle _ _) =
     212 + (case handle of None \<Rightarrow> 0 | Some handle \<Rightarrow> length (opaque_bytes handle))"
| "create_bound (Create_Err _ _) = 120"

fun commit_bound :: "CommitResult \<Rightarrow> nat" where
  "commit_bound (Commit_Ok _ verifier) = 120 + length verifier"
| "commit_bound (Commit_Err _ _) = 120"

definition sample_entry :: ReadDirEntry where
  "sample_entry = \<lparr>rde_file_id = 1, rde_name = [97], rde_cookie = 1, rde_extension = Basic\<rparr>"

section \<open>Encoders append the wire form\<close>

lemmas write_simps = write_u32_def write_u64_def write_bool_def write_fixed_def

lemma encode_time_Inr [codec_simps]:
  "encode_time t e = Inr e' \<longleftrightarrow> wf_time t \<and> e' = e @ time_bytes t"
  by (auto simp: encode_time_def wf_time_def time_bytes_def write_simps Let_def not_less)

lemma encode_attributes_Inr [codec_simps]:
  "encode_attributes a e = Inr e' \<longleftrightarrow> attributes_encodable a \<and> e' = e @ attributes_wire a"
  by (auto simp: encode_attributes_def attributes_encodable_def attributes_wire_def write_simps Let_def
      encode_time_Inr)

lemma encode_post_attributes_Inr [codec_simps]:
  "encode_post_attributes a e = Inr e' \<longleftrightarrow> post_encodable a \<and> e' = e @ post_wire a"
  by (cases a) (auto simp: encode_post_attributes_def post_encodable_def bool_bytes_def option_bytes_def
      write_simps Let_def encode_attributes_Inr)

lemma encode_wcc_Inr [codec_simps]:
  "encode_wcc w e = Inr e' \<longleftrightarrow> wcc_encodable w \<and> e' = e @ wcc_wire w"
  by (cases "wcc_before w")
    (auto simp: encode_wcc_def wcc_encodable_def wcc_wire_def wcc_attributes_wire_def bool_bytes_def
      option_bytes_def [of wcc_attributes_wire] write_simps Let_def codec_simps)

lemma encode_readdir_entry_sound:
  "encode_readdir_entry x e = Inr e' \<Longrightarrow> entry_encodable x \<and> e' = e @ entry_wire x"
  by (cases "rde_extension x")
    (auto simp: encode_readdir_entry_def entry_encodable_def entry_wire_def bool_bytes_def option_bytes_def
      write_simps Let_def codec_simps split: option.splits)

lemma encode_readdir_entry_complete:
  "entry_encodable x \<Longrightarrow> length e + length (entry_wire x) < usize_bound \<Longrightarrow>
   encode_readdir_entry x e = Inr (e @ entry_wire x)"
  by (cases "rde_extension x")
    (auto simp: encode_readdir_entry_def entry_encodable_def entry_wire_def bool_bytes_def option_bytes_def
      write_simps Let_def codec_simps split: option.splits)

interpretation put_entry: xdr_encoder encode_readdir_entry entry_wire entry_encodable
  by unfold_locales (simp_all add: encode_readdir_entry_sound encode_readdir_entry_complete)

lemma encode_readdir_entries_sound:
  "encode_readdir_entries xs e = Inr e' \<Longrightarrow>
   list_all entry_encodable xs \<and> e' = e @ concat (map entry_wire xs)"
proof (induction xs arbitrary: e)
  case (Cons x xs)
  then obtain m where "encode_readdir_entry x e = Inr m" "encode_readdir_entries xs m = Inr e'" by auto
  then show ?case using Cons.IH [of m] put_entry.put_sound [of x e m] by simp
qed simp

lemma encode_readdir_entries_complete:
  "list_all entry_encodable xs \<Longrightarrow> length e + length (concat (map entry_wire xs)) < usize_bound \<Longrightarrow>
   encode_readdir_entries xs e = Inr (e @ concat (map entry_wire xs))"
  by (induction xs arbitrary: e) (simp_all add: put_entry.put_complete)

interpretation put_entries: xdr_encoder encode_readdir_entries "\<lambda>xs. concat (map entry_wire xs)"
  "list_all entry_encodable"
  by unfold_locales (simp_all add: encode_readdir_entries_sound encode_readdir_entries_complete)

lemma encode_readdir_result_sound:
  "encode_readdir_result r e = Inr e' \<Longrightarrow> readdir_encodable r \<and> e' = e @ readdir_wire r"
  by (cases r) (auto simp: codec_simps write_simps bool_bytes_def Let_def dest!: put_entries.put_sound)

lemma encode_readdir_result_complete:
  "readdir_encodable r \<Longrightarrow> length e + length (readdir_wire r) < usize_bound \<Longrightarrow>
   encode_readdir_result r e = Inr (e @ readdir_wire r)"
  by (cases r)
    (auto simp: codec_simps write_simps bool_bytes_def Let_def put_entries.put_complete)

interpretation put_readdir: xdr_encoder encode_readdir_result readdir_wire readdir_encodable
  by unfold_locales (simp_all add: encode_readdir_result_sound encode_readdir_result_complete)

section \<open>Sizes\<close>

lemma length_time_bytes [size_simps]: "length (time_bytes t) = 8"
  by (simp add: time_bytes_def)

lemma length_attributes_wire [size_simps]: "length (attributes_wire a) = 84"
  by (simp add: attributes_wire_def size_simps)

lemma length_post_wire: "length (post_wire a) \<le> 88"
  by (simp add: option_bytes_def size_simps split: option.split)

lemma length_wcc_wire: "length (wcc_wire w) \<le> 116"
  using length_post_wire [of "wcc_after w"]
  by (simp add: wcc_wire_def wcc_attributes_wire_def option_bytes_def [of wcc_attributes_wire] size_simps
      split: option.split)

lemma length_opaque_handle: "length h \<le> 64 \<Longrightarrow> length (opaque_bytes h) \<le> 68"
proof -
  assume "length h \<le> 64"
  then have "length h + xdr_padding (length h) \<le> 64"
    using xdr_padding_less [of "length h"] xdr_padding_aligned [of "length h"] by presburger
  then show ?thesis by (simp add: size_simps)
qed

text \<open>
  What the dispatcher relies on: an encoder of results only appends, and not more than a bound that
  depends on the result.
\<close>

locale nfs_result =
  fixes put :: "'a put" and bound :: "'a \<Rightarrow> nat"
  assumes appends: "put a e = Inr e' \<Longrightarrow> \<exists>bs. e' = e @ bs \<and> length bs \<le> bound a"
begin

lemma put_bound: "put a e = Inr e' \<Longrightarrow> length e' \<le> length e + bound a"
  by (auto dest: appends)

end

lemmas wire_bounds = length_post_wire length_wcc_wire order_trans [OF length_post_wire]
  order_trans [OF length_wcc_wire] order_trans [OF add_mono [OF length_post_wire length_post_wire]]
  order_trans [OF add_mono [OF length_post_wire length_wcc_wire]]
  order_trans [OF add_mono [OF length_wcc_wire length_wcc_wire]]

interpretation res_readdir: nfs_result encode_readdir_result "\<lambda>r. length (readdir_wire r)"
  by unfold_locales (auto dest: put_readdir.put_sound)

interpretation res_getattr: nfs_result encode_getattr_result "\<lambda>_. 88"
proof (unfold_locales, goal_cases)
  case (1 a e e')
  then show ?case
    by (cases a) (auto simp: codec_simps write_simps size_simps Let_def intro!: wire_bounds
        split: option.splits if_splits)
qed

interpretation res_setattr: nfs_result encode_setattr_result "\<lambda>_. 120"
proof (unfold_locales, goal_cases)
  case (1 a e e')
  then show ?case
    by (cases a) (auto simp: codec_simps write_simps size_simps Let_def intro!: wire_bounds
        split: option.splits if_splits)
qed

interpretation res_lookup: nfs_result encode_lookup_result lookup_bound
proof (unfold_locales, goal_cases)
  case (1 a e e')
  then show ?case
    by (cases a) (auto simp: codec_simps write_simps size_simps Let_def intro!: wire_bounds
        split: option.splits if_splits)
qed

interpretation res_access: nfs_result encode_access_result "\<lambda>_. 96"
proof (unfold_locales, goal_cases)
  case (1 a e e')
  then show ?case
    by (cases a) (auto simp: codec_simps write_simps size_simps Let_def intro!: wire_bounds
        split: option.splits if_splits)
qed

interpretation res_readlink: nfs_result encode_readlink_result readlink_bound
proof (unfold_locales, goal_cases)
  case (1 a e e')
  then show ?case
    by (cases a) (auto simp: codec_simps write_simps size_simps Let_def intro!: wire_bounds
        split: option.splits if_splits)
qed

interpretation res_read: nfs_result encode_read_result read_bound
proof (unfold_locales, goal_cases)
  case (1 a e e')
  then show ?case
    by (cases a) (auto simp: codec_simps write_simps size_simps Let_def intro!: wire_bounds
        split: option.splits if_splits)
qed

interpretation res_write: nfs_result encode_write_result write_bound
proof (unfold_locales, goal_cases)
  case (1 a e e')
  then show ?case
    by (cases a) (auto simp: codec_simps write_simps size_simps Let_def intro!: wire_bounds
        split: option.splits if_splits)
qed

interpretation res_create: nfs_result encode_create_result create_bound
proof (unfold_locales, goal_cases)
  case (1 a e e')
  then show ?case
    by (cases a) (auto simp: codec_simps write_simps size_simps Let_def intro!: wire_bounds
        split: option.splits if_splits)
qed

interpretation res_wcc: nfs_result encode_wcc_result "\<lambda>_. 120"
proof (unfold_locales, goal_cases)
  case (1 a e e')
  then show ?case
    by (cases a) (auto simp: codec_simps write_simps size_simps Let_def intro!: wire_bounds
        split: option.splits if_splits)
qed

interpretation res_link: nfs_result encode_link_result "\<lambda>_. 208"
proof (unfold_locales, goal_cases)
  case (1 a e e')
  then show ?case
    by (cases a) (auto simp: codec_simps write_simps size_simps Let_def intro!: wire_bounds
        split: option.splits if_splits)
qed

interpretation res_rename: nfs_result encode_rename_result "\<lambda>_. 236"
proof (unfold_locales, goal_cases)
  case (1 a e e')
  then show ?case
    by (cases a) (auto simp: codec_simps write_simps size_simps Let_def intro!: wire_bounds
        split: option.splits if_splits)
qed

interpretation res_fsstat: nfs_result encode_fsstat_result "\<lambda>_. 144"
proof (unfold_locales, goal_cases)
  case (1 a e e')
  then show ?case
    by (cases a) (auto simp: codec_simps write_simps size_simps Let_def intro!: wire_bounds
        split: option.splits if_splits)
qed

interpretation res_fsinfo: nfs_result encode_fsinfo_result "\<lambda>_. 140"
proof (unfold_locales, goal_cases)
  case (1 a e e')
  then show ?case
    by (cases a) (auto simp: codec_simps write_simps size_simps Let_def intro!: wire_bounds
        split: option.splits if_splits)
qed

interpretation res_pathconf: nfs_result encode_pathconf_result "\<lambda>_. 116"
proof (unfold_locales, goal_cases)
  case (1 a e e')
  then show ?case
    by (cases a) (auto simp: codec_simps write_simps size_simps Let_def intro!: wire_bounds
        split: option.splits if_splits)
qed

interpretation res_commit: nfs_result encode_commit_result commit_bound
proof (unfold_locales, goal_cases)
  case (1 a e e')
  then show ?case
    by (cases a) (auto simp: codec_simps write_simps size_simps Let_def intro!: wire_bounds
        split: option.splits if_splits)
qed

section \<open>Cutting a directory listing\<close>

lemma encoded_len_readdir:
  "encoded_len encode_readdir_result r = Inr n \<Longrightarrow> readdir_encodable r \<and> n = length (readdir_wire r)"
  by (auto simp: encoded_len_def dest: put_readdir.put_sound)

lemma encode_readdir_entry_alone:
  "encode_readdir_entry x e = Inr e' \<Longrightarrow> encode_readdir_entry x [] = Inr (entry_wire x)"
  by (cases "rde_extension x")
    (auto simp: encode_readdir_entry_def entry_wire_def bool_bytes_def option_bytes_def
      write_simps Let_def codec_simps split: option.splits)

lemma encode_readdir_entries_snoc:
  "encode_readdir_entries (xs @ [x]) e = r_bind (encode_readdir_entries xs e) (encode_readdir_entry x)"
proof (induction xs arbitrary: e)
  case Nil
  show ?case by (cases "encode_readdir_entry x e") simp_all
next
  case (Cons y xs)
  then show ?case by (cases "encode_readdir_entry y e") simp_all
qed

lemma encoded_len_snoc:
  assumes "encoded_len encode_readdir_result (ReadDir_Ok a v (xs @ [x]) eof) = Inr n"
  shows "\<exists>m. encoded_len encode_readdir_entry x = Inr m \<and> m + 4 \<le> n \<and>
    encoded_len encode_readdir_result (ReadDir_Ok a v xs eof') = Inr (n - m)"
proof -
  let ?h = "write_u32 (nfs_status_code Nfs_Ok) []"
  obtain h es e where h: "encode_post_attributes a ?h = Inr h"
    and es: "encode_readdir_entries xs (write_fixed v h) = Inr es" and e: "encode_readdir_entry x es = Inr e"
    using assms by (auto simp: encoded_len_def encode_readdir_entries_snoc Let_def)
  have "n = length e + 8" "4 \<le> length es"
    using assms h es e by (auto simp: encoded_len_def encode_readdir_entries_snoc Let_def write_simps codec_simps
        dest: put_entries.put_sound)
  moreover have "encoded_len encode_readdir_result (ReadDir_Ok a v xs eof') = Inr (length es + 8)"
    using h es by (simp add: encoded_len_def Let_def write_simps)
  moreover have "encoded_len encode_readdir_entry x = Inr (length (entry_wire x))"
    using encode_readdir_entry_alone [OF e] by (simp add: encoded_len_def)
  ultimately show ?thesis using put_entry.put_length [OF e] by simp
qed

lemma drop_entries_reference:
  assumes "encoded_len encode_readdir_result (ReadDir_Ok a v entries eof) = Inr n"
  shows "truncate_readdir_result_reference (ReadDir_Ok a v entries eof) max_size =
    (case drop_entries max_size (n - 4) entries eof of
       (r, entries', eof') \<Rightarrow> (r, ReadDir_Ok a v entries' eof'))"
  using assms
proof (induction entries arbitrary: n eof rule: rev_induct)
  case Nil
  then show ?case
    by (simp add: truncate_readdir_result_reference.simps [of "ReadDir_Ok a v [] eof"]
        drop_entries.simps [of max_size "n - 4" "[]"] saturating_sub_def)
next
  case (snoc x xs)
  obtain m where m: "encoded_len encode_readdir_entry x = Inr m" "m + 4 \<le> n"
    "encoded_len encode_readdir_result (ReadDir_Ok a v xs False) = Inr (n - m)"
    using encoded_len_snoc [OF snoc.prems, of False] by blast
  have "n - 4 - m = n - m - 4" by simp
  then show ?case
    using snoc.IH [OF m(3)] m snoc.prems
    by (simp add: truncate_readdir_result_reference.simps [of "ReadDir_Ok a v (xs @ [x]) eof"]
        drop_entries.simps [of max_size "n - 4" "xs @ [x]"] saturating_sub_def)
qed

lemma drop_entries_longest:
  assumes "encoded_len encode_readdir_result (ReadDir_Ok a v entries eof) = Inr n"
    and "drop_entries max_size (n - 4) entries eof = (Inr fits, entries', eof')"
  shows "\<exists>k \<le> length entries. entries' = take k entries \<and> eof' = (eof \<and> k = length entries) \<and>
    (fits \<longleftrightarrow> length (readdir_wire (ReadDir_Ok a v entries' eof')) \<le> max_size + 4) \<and> (fits \<or> k = 0) \<and>
    (\<forall>j. k < j \<and> j \<le> length entries \<longrightarrow>
       max_size + 4 < length (readdir_wire (ReadDir_Ok a v (take j entries) b)))"
  using assms
proof (induction entries arbitrary: n eof b rule: rev_induct)
  case Nil
  have n: "n = length (readdir_wire (ReadDir_Ok a v [] eof))" "4 \<le> n"
    using Nil.prems(1) by (auto dest: encoded_len_readdir)
  have "entries' = []" "eof' = eof" "fits \<longleftrightarrow> n - 4 \<le> max_size"
    using Nil.prems(2) by (auto simp: drop_entries.simps [of max_size "n - 4" "[]"] split: if_splits)
  then show ?case using n by auto
next
  case (snoc x xs)
  have n: "n = length (readdir_wire (ReadDir_Ok a v (xs @ [x]) c))" "4 \<le> n" for c
    using snoc.prems(1) by (auto simp: size_simps dest!: encoded_len_readdir)
  show ?case
  proof (cases "n - 4 \<le> max_size")
    case True
    then have "entries' = xs @ [x]" "eof' = eof" "fits"
      using snoc.prems(2) by (simp_all add: drop_entries.simps [of max_size "n - 4"])
    then show ?thesis using True n by (intro exI [of _ "length (xs @ [x])"]) auto
  next
    case False
    obtain m where m: "encoded_len encode_readdir_entry x = Inr m" "m + 4 \<le> n"
      "encoded_len encode_readdir_result (ReadDir_Ok a v xs False) = Inr (n - m)"
      using encoded_len_snoc [OF snoc.prems(1), of False] by blast
    have "n - 4 - m = n - m - 4" by simp
    then have "drop_entries max_size (n - m - 4) xs False = (Inr fits, entries', eof')"
      using False m snoc.prems(2) by (simp add: drop_entries.simps [of max_size "n - 4"] saturating_sub_def)
    from snoc.IH [OF m(3) this, of b] obtain k where k: "k \<le> length xs" "entries' = take k xs" "eof' = (False \<and> k = length xs)"
      "fits \<longleftrightarrow> length (readdir_wire (ReadDir_Ok a v entries' eof')) \<le> max_size + 4" "fits \<or> k = 0"
      "\<forall>j. k < j \<and> j \<le> length xs \<longrightarrow>
        max_size + 4 < length (readdir_wire (ReadDir_Ok a v (take j xs) b))" by blast
    have "max_size + 4 < length (readdir_wire (ReadDir_Ok a v (take j (xs @ [x])) b))"
      if "k < j" "j \<le> Suc (length xs)" for j
      using k(6) that False n(1) [of b] by (cases "j \<le> length xs") (auto simp: le_Suc_eq)
    then show ?thesis using k by (intro exI [of _ k]) auto
  qed
qed

section \<open>Properties\<close>

text \<open>
  C34: cutting a listing by subtracting the size of each removed entry is the reference policy that
  encodes the listing again after every removal: same answer or error, same listing left behind, for
  every result and every size.
\<close>

theorem truncate_readdir_equiv:
  "truncate_readdir_result result max_size = truncate_readdir_result_reference result max_size"
proof (cases "encoded_len encode_readdir_result result")
  case (Inl e)
  then show ?thesis
    by (simp add: truncate_readdir_result_def truncate_readdir_result_reference.simps [of result])
next
  case (Inr n)
  show ?thesis
  proof (cases result)
    case (ReadDir_Ok a v entries eof)
    then show ?thesis
      using Inr
      by (auto simp: truncate_readdir_result_def drop_entries_reference saturating_sub_def
          drop_entries.simps [of max_size "n - 4"] Let_def)
  next
    case (ReadDir_Err status a)
    then show ?thesis
      using Inr
      by (simp add: truncate_readdir_result_def truncate_readdir_result_reference.simps [of "ReadDir_Err status a"])
  qed
qed

text \<open>
  What is left of a listing is its longest prefix that fits.  When the success arm of a listing
  can be encoded, cutting it keeps the attributes and the verifier, keeps the longest prefix of the
  entries whose encoding (without the status word) fits the size, reports the end of the directory
  only if nothing was cut, and answers \<open>false\<close> exactly when not even the empty listing fits.
\<close>

theorem truncate_readdir_longest:
  assumes "truncate_readdir_result (ReadDir_Ok a v entries eof) max_size = (Inr fits, result')"
  shows "\<exists>k \<le> length entries. result' = ReadDir_Ok a v (take k entries) (eof \<and> k = length entries) \<and>
    (fits \<longleftrightarrow> length (readdir_wire result') \<le> max_size + 4) \<and> (fits \<or> k = 0) \<and>
    (\<forall>j. k < j \<and> j \<le> length entries \<longrightarrow>
       max_size + 4 < length (readdir_wire (ReadDir_Ok a v (take j entries) eof)))"
proof -
  obtain n where n: "encoded_len encode_readdir_result (ReadDir_Ok a v entries eof) = Inr n"
    using assms by (auto simp: truncate_readdir_result_def split: sum.splits)
  obtain entries' eof' where d: "drop_entries max_size (n - 4) entries eof = (Inr fits, entries', eof')"
    and r: "result' = ReadDir_Ok a v entries' eof'"
    using assms n
    by (auto simp: truncate_readdir_result_def saturating_sub_def drop_entries.simps [of max_size "n - 4"] Let_def
        split: if_splits prod.splits)
  from drop_entries_longest [OF n d] show ?thesis unfolding r by blast
qed

theorem truncate_readdir_longest_witness:
  "truncate_readdir_result (ReadDir_Ok None (replicate 8 7) (replicate 3 sample_entry) True) 60 =
     (Inr True, ReadDir_Ok None (replicate 8 7) [sample_entry] False) \<and>
   length (readdir_wire (ReadDir_Ok None (replicate 8 7) [sample_entry] False)) \<le> 64"
proof -
  have run: "truncate_readdir_result (ReadDir_Ok None (replicate 8 7) (replicate 3 sample_entry) True) 60 =
     (Inr True, ReadDir_Ok None (replicate 8 7) [sample_entry] False)"
    by code_simp
  show ?thesis using truncate_readdir_longest [OF run] run by auto
qed

end
