(* ===== verification/Nfs_Procedures.thy ===== *)
theory Nfs_Procedures
  imports Server_State Nfs3_Results
begin

text \<open>
  The NFSv3 procedures, the functions around \<open>dispatch_nfs\<close> in \<^verbatim>\<open>src/server/connection.rs\<close>: every
  procedure decodes its handles and names, calls the backend and answers with a typed result.

  Each arm of \<open>dispatch_nfs\<close> is a definition of its own.  It takes the state \<open>s\<close> of the backends and
  returns the reply, or the error that ends the request, with the new state; the calls to the
  backend are made in the order of the source.  \<open>?\<close> on an \<open>EncodeError\<close> or a \<open>DecodeError\<close> is the injection
  into \<open>ServerError\<close>.
\<close>

section \<open>Procedure numbers\<close>

datatype Procedure =
    Proc_Null
  | Proc_GetAttr
  | Proc_SetAttr
  | Proc_Lookup
  | Proc_Access
  | Proc_ReadLink
  | Proc_Read
  | Proc_Write
  | Proc_Create
  | Proc_Mkdir
  | Proc_Symlink
  | Proc_Mknod
  | Proc_Remove
  | Proc_Rmdir
  | Proc_Rename
  | Proc_Link
  | Proc_ReadDir
  | Proc_ReadDirPlus
  | Proc_FsStat
  | Proc_FsInfo
  | Proc_PathConf
  | Proc_Commit

definition procedure_from_wire :: "u32 \<Rightarrow> Procedure option" where
  "procedure_from_wire value =
     (if value = 0 then Some Proc_Null
      else if value = 1 then Some Proc_GetAttr
      else if value = 2 then Some Proc_SetAttr
      else if value = 3 then Some Proc_Lookup
      else if value = 4 then Some Proc_Access
      else if value = 5 then Some Proc_ReadLink
      else if value = 6 then Some Proc_Read
      else if value = 7 then Some Proc_Write
      else if value = 8 then Some Proc_Create
      else if value = 9 then Some Proc_Mkdir
      else if value = 10 then Some Proc_Symlink
      else if value = 11 then Some Proc_Mknod
      else if value = 12 then Some Proc_Remove
      else if value = 13 then Some Proc_Rmdir
      else if value = 14 then Some Proc_Rename
      else if value = 15 then Some Proc_Link
      else if value = 16 then Some Proc_ReadDir
      else if value = 17 then Some Proc_ReadDirPlus
      else if value = 18 then Some Proc_FsStat
      else if value = 19 then Some Proc_FsInfo
      else if value = 20 then Some Proc_PathConf
      else if value = 21 then Some Proc_Commit
      else None)"

section \<open>Replies\<close>

definition typed_nfs_reply :: "u32 \<Rightarrow> 'a put \<Rightarrow> 'a \<Rightarrow> EncodeError + bytes" where
  "typed_nfs_reply xid encode_result result = encode_result result (accepted_reply_encoder xid SUCCESS)"

definition nfs_reply :: "u32 \<Rightarrow> 'a put \<Rightarrow> 'a \<Rightarrow> ServerError + bytes" where
  "nfs_reply xid encode_result result = r_map_err SE_Encode (typed_nfs_reply xid encode_result result)"

definition wire_nfs_status :: "u32 \<Rightarrow> DecodeError + NfsStatus" where
  "wire_nfs_status status =
     Inr (case nfs_status_from_code status of None \<Rightarrow> Nfs_ServerFault | Some s \<Rightarrow> s)"

text \<open>The early return of every procedure whose handle or name does not decode.\<close>

definition status_reply :: "u32 \<Rightarrow> 'a put \<Rightarrow> (NfsStatus \<Rightarrow> 'a) \<Rightarrow> u32 \<Rightarrow> ServerError + bytes" where
  "status_reply xid encode_result failure status =
     r_bind (r_map_err SE_Decode (wire_nfs_status status)) (\<lambda>status.
       nfs_reply xid encode_result (failure status))"

definition wcc_of :: "'v MutationResult \<Rightarrow> WccData" where
  "wcc_of result = \<lparr>wcc_before = mr_before result, wcc_after = mr_after result\<rparr>"

fun nfs_status :: "NfsError \<Rightarrow> u32" where
  "nfs_status Err_Permission = 1"
| "nfs_status Err_NotFound = 2"
| "nfs_status Err_Io = 5"
| "nfs_status Err_NoDeviceOrAddress = 6"
| "nfs_status Err_Access = 13"
| "nfs_status Err_Exists = 17"
| "nfs_status Err_CrossDevice = 18"
| "nfs_status Err_NoDevice = 19"
| "nfs_status Err_NotDirectory = 20"
| "nfs_status Err_IsDirectory = 21"
| "nfs_status Err_Invalid = 22"
| "nfs_status Err_FileTooLarge = 27"
| "nfs_status Err_NoSpace = 28"
| "nfs_status Err_ReadOnly = 30"
| "nfs_status Err_TooManyLinks = 31"
| "nfs_status Err_NameTooLong = 63"
| "nfs_status Err_NotEmpty = 66"
| "nfs_status Err_Quota = 69"
| "nfs_status Err_Stale = 70"
| "nfs_status Err_Remote = 71"
| "nfs_status Err_NotSynchronized = 10002"
| "nfs_status Err_BadCookie = 10003"
| "nfs_status Err_NotSupported = 10004"
| "nfs_status Err_TooSmall = 10005"
| "nfs_status Err_ServerFault = 10006"
| "nfs_status Err_BadType = 10007"
| "nfs_status Err_Jukebox = 10008"

definition decode_object :: "bytes \<Rightarrow> 's ConnectionState \<Rightarrow> ExportId \<Rightarrow> u32 + ObjectKey" where
  "decode_object handle state export_id =
     r_map_err (\<lambda>error. if error = StaleInstance then 70 else 10001)
       (handle_decode (cs_handles state) export_id handle)"

definition decode_directory_operation ::
  "DirectoryOperationArgs \<Rightarrow> 's ConnectionState \<Rightarrow> ExportId \<Rightarrow> u32 + (ObjectKey \<times> NfsName)" where
  "decode_directory_operation arguments state export_id =
     r_bind (decode_object (doa_directory arguments) state export_id) (\<lambda>parent.
       if NFS_NAME_MAX_LEN < length (doa_name arguments) then Inl (nfs_status_code Nfs_NameTooLong)
       else r_bind (r_map_err nfs_status (nfs_name_new (doa_name arguments))) (\<lambda>name.
         Inr (parent, name)))"

definition nfs_failure_reply_for_procedure :: "u32 \<Rightarrow> u32 \<Rightarrow> NfsStatus \<Rightarrow> EncodeError + bytes" where
  "nfs_failure_reply_for_procedure xid procedure status =
     (let wcc = wcc_data_default in
      if procedure = 1 then typed_nfs_reply xid encode_getattr_result (GetAttr_Err status)
      else if procedure = 2 then typed_nfs_reply xid encode_setattr_result (SetAttr_Err status wcc)
      else if procedure = 3 then typed_nfs_reply xid encode_lookup_result (Lookup_Err status None)
      else if procedure = 4 then typed_nfs_reply xid encode_access_result (Access_Err status None)
      else if procedure = 5 then typed_nfs_reply xid encode_readlink_result (ReadLink_Err status None)
      else if procedure = 6 then typed_nfs_reply xid encode_read_result (Read_Err status None)
      else if procedure = 7 then typed_nfs_reply xid encode_write_result (Write_Err status wcc)
      else if 8 \<le> procedure \<and> procedure \<le> 11
      then typed_nfs_reply xid encode_create_result (Create_Err status wcc)
      else if procedure = 12 \<or> procedure = 13
      then typed_nfs_reply xid encode_wcc_result (Wcc_Err status wcc)
      else if procedure = 14
      then typed_nfs_reply xid encode_rename_result (Rename_Err status wcc_data_default wcc_data_default)
      else if procedure = 15 then typed_nfs_reply xid encode_link_result (Link_Err status None wcc)
      else if procedure = 16 \<or> procedure = 17
      then typed_nfs_reply xid encode_readdir_result (ReadDir_Err status None)
      else if procedure = 18 then typed_nfs_reply xid encode_fsstat_result (FsStat_Err status None)
      else if procedure = 19 then typed_nfs_reply xid encode_fsinfo_result (FsInfo_Err status None)
      else if procedure = 20 then typed_nfs_reply xid encode_pathconf_result (PathConf_Err status None)
      else if procedure = 21 then typed_nfs_reply xid encode_commit_result (Commit_Err status wcc)
      else Inr (accepted_reply xid PROC_UNAVAIL []))"

definition mutation_void_reply :: "u32 \<Rightarrow> NfsError + unit MutationResult \<Rightarrow> EncodeError + bytes" where
  "mutation_void_reply xid result =
     typed_nfs_reply xid encode_wcc_result
       (case result of
          Inr result \<Rightarrow> Wcc_Ok (wcc_of result)
        | Inl error \<Rightarrow> Wcc_Err (nfs_status_of_error error) wcc_data_default)"

definition create_failure_reply :: "u32 \<Rightarrow> u32 \<Rightarrow> ServerError + bytes" where
  "create_failure_reply xid status =
     status_reply xid encode_create_result (\<lambda>status. Create_Err status wcc_data_default) status"

definition create_reply ::
  "u32 \<Rightarrow> 's ConnectionState \<Rightarrow> ExportId \<Rightarrow> NfsError + CreatedObject MutationResult \<Rightarrow> EncodeError + bytes" where
  "create_reply xid state export_id result =
     typed_nfs_reply xid encode_create_result
       (case result of
          Inr result \<Rightarrow>
            Create_Ok (Some (handle_encode (cs_handles state) export_id (co_object (mr_value result))))
              (co_attributes (mr_value result)) (wcc_of result)
        | Inl error \<Rightarrow> Create_Err (nfs_status_of_error error) wcc_data_default)"

definition rename_failure_reply :: "u32 \<Rightarrow> u32 \<Rightarrow> ServerError + bytes" where
  "rename_failure_reply xid status =
     status_reply xid encode_rename_result
       (\<lambda>status. Rename_Err status wcc_data_default wcc_data_default) status"

definition link_failure_reply :: "u32 \<Rightarrow> u32 \<Rightarrow> ServerError + bytes" where
  "link_failure_reply xid status =
     status_reply xid encode_link_result (\<lambda>status. Link_Err status None wcc_data_default) status"

section \<open>Procedures on objects\<close>

type_synonym 's nfs_handler =
  "RequestContext \<Rightarrow> 's ConnectionState \<Rightarrow> 's Vfs \<Rightarrow> 's \<Rightarrow> (ServerError + bytes) \<times> 's"

text \<open>\<open>vfs.getattr(\<dots>).await.ok()\<close>.\<close>

definition getattr_ok :: "'s Vfs \<Rightarrow> RequestContext \<Rightarrow> ObjectKey \<Rightarrow> 's \<Rightarrow> FileAttributes option \<times> 's" where
  "getattr_ok vfs context object s = (case vfs_getattr vfs context object s of (r, s) \<Rightarrow> (r_ok r, s))"

definition nfs_getattr :: "u32 \<Rightarrow> ObjectArgs \<Rightarrow> 's nfs_handler" where
  "nfs_getattr xid arguments context state vfs s =
     (case decode_object (oa_object arguments) state (ctx_export_id context) of
        Inl status \<Rightarrow> (status_reply xid encode_getattr_result GetAttr_Err status, s)
      | Inr object \<Rightarrow>
          (case vfs_getattr vfs context object s of
             (Inr attributes, s) \<Rightarrow> (nfs_reply xid encode_getattr_result (GetAttr_Ok attributes), s)
           | (Inl error, s) \<Rightarrow>
               (nfs_reply xid encode_getattr_result (GetAttr_Err (nfs_status_of_error error)), s)))"

definition nfs_setattr :: "u32 \<Rightarrow> SetAttrArgs \<Rightarrow> 's nfs_handler" where
  "nfs_setattr xid arguments context state vfs s =
     (case decode_object (sta_object arguments) state (ctx_export_id context) of
        Inl status \<Rightarrow>
          (status_reply xid encode_setattr_result (\<lambda>status. SetAttr_Err status wcc_data_default) status, s)
      | Inr object \<Rightarrow>
          (case vfs_setattr vfs context object (sta_attributes arguments) (sta_guard arguments) s of
             (Inr result, s) \<Rightarrow> (nfs_reply xid encode_setattr_result (SetAttr_Ok (wcc_of result)), s)
           | (Inl error, s) \<Rightarrow>
               (nfs_reply xid encode_setattr_result
                  (SetAttr_Err (nfs_status_of_error error) wcc_data_default), s)))"

definition nfs_lookup :: "u32 \<Rightarrow> DirectoryOperationArgs \<Rightarrow> 's nfs_handler" where
  "nfs_lookup xid arguments context state vfs s =
     (case decode_directory_operation arguments state (ctx_export_id context) of
        Inl status \<Rightarrow>
          (status_reply xid encode_lookup_result (\<lambda>status. Lookup_Err status None) status, s)
      | Inr (parent, name) \<Rightarrow>
          (case vfs_lookup vfs context parent name s of
             (Inr found, s) \<Rightarrow>
               (case getattr_ok vfs context parent s of
                  (parent_attributes, s) \<Rightarrow>
                    (nfs_reply xid encode_lookup_result
                       (Lookup_Ok (handle_encode (cs_handles state) (ctx_export_id context) (co_object found))
                          (co_attributes found) parent_attributes), s))
           | (Inl error, s) \<Rightarrow>
               (case getattr_ok vfs context parent s of
                  (parent_attributes, s) \<Rightarrow>
                    (nfs_reply xid encode_lookup_result
                       (Lookup_Err (nfs_status_of_error error) parent_attributes), s))))"

definition ACCESS_MASK :: u32 where
  "ACCESS_MASK = 0x3f"

definition nfs_access :: "u32 \<Rightarrow> AccessArgs \<Rightarrow> 's nfs_handler" where
  "nfs_access xid arguments context state vfs s =
     (case decode_object (aca_object arguments) state (ctx_export_id context) of
        Inl status \<Rightarrow>
          (status_reply xid encode_access_result (\<lambda>status. Access_Err status None) status, s)
      | Inr object \<Rightarrow>
          let requested = and (aca_requested arguments) ACCESS_MASK in
          (case vfs_access vfs context object requested s of
             (Inr allowed, s) \<Rightarrow>
               (case getattr_ok vfs context object s of
                  (attributes, s) \<Rightarrow>
                    (nfs_reply xid encode_access_result
                       (Access_Ok attributes (and (and allowed requested) ACCESS_MASK)), s))
           | (Inl error, s) \<Rightarrow>
               (case getattr_ok vfs context object s of
                  (attributes, s) \<Rightarrow>
                    (nfs_reply xid encode_access_result
                       (Access_Err (nfs_status_of_error error) attributes), s))))"

definition nfs_readlink :: "u32 \<Rightarrow> ObjectArgs \<Rightarrow> 's nfs_handler" where
  "nfs_readlink xid arguments context state vfs s =
     (case decode_object (oa_object arguments) state (ctx_export_id context) of
        Inl status \<Rightarrow>
          (status_reply xid encode_readlink_result (\<lambda>status. ReadLink_Err status None) status, s)
      | Inr object \<Rightarrow>
          (case vfs_readlink vfs context object s of
             (Inr path, s) \<Rightarrow>
               (case getattr_ok vfs context object s of
                  (attributes, s) \<Rightarrow>
                    (nfs_reply xid encode_readlink_result (ReadLink_Ok attributes path), s))
           | (Inl error, s) \<Rightarrow>
               (case getattr_ok vfs context object s of
                  (attributes, s) \<Rightarrow>
                    (nfs_reply xid encode_readlink_result
                       (ReadLink_Err (nfs_status_of_error error) attributes), s))))"

section \<open>READ and WRITE\<close>

text \<open>
  A successful READ is answered in segments: the envelope and the fixed fields, then the data of the
  backend without a copy, then the padding.  \<open>EncodedReply::segmented\<close> panics if the lengths overflow,
  the result \<open>None\<close>.
\<close>

definition read_success_reply ::
  "u32 \<Rightarrow> FileAttributes option \<Rightarrow> bytes \<Rightarrow> bool \<Rightarrow> EncodeError + EncodedReply option" where
  "read_success_reply xid attributes data eof =
     (if u32_max < length data then Inl (TooLarge (length data))
      else
        let data_length = of_nat (length data);
            prefix = accepted_reply_encoder xid SUCCESS;
            prefix = write_u32 (nfs_status_code Nfs_Ok) prefix in
        r_bind (encode_post_attributes attributes prefix) (\<lambda>prefix.
        let prefix = write_u32 data_length prefix;
            prefix = write_bool eof prefix;
            prefix = write_u32 data_length prefix;
            padding = (4 - length data mod 4) mod 4 in
        Inr (reply_segmented prefix data padding)))"

definition dispatch_read ::
  "(bytes \<Rightarrow> usize) \<Rightarrow> u32 \<Rightarrow> ReadArgs \<Rightarrow> RequestContext \<Rightarrow> 's ConnectionState \<Rightarrow> 's Vfs \<Rightarrow> 's \<Rightarrow>
   (ServerError + EncodedReply) \<times> 's" where
  "dispatch_read vec_capacity xid arguments context state vfs s =
     (case decode_object (rda_object arguments) state (ctx_export_id context) of
        Inl status \<Rightarrow>
          (r_bind (status_reply xid encode_read_result (\<lambda>status. Read_Err status None) status)
             (\<lambda>bs. Inr (into_reply vec_capacity bs)), s)
      | Inr object \<Rightarrow>
          let count = min (rda_count arguments) (sl_max_read_size (cs_limits state)) in
          (case vfs_read_bytes vfs context object (rda_offset arguments) count s of
             (Inr result, s) \<Rightarrow>
               let data = (if unat count < length (vr_data result)
                           then take (unat count) (vr_data result) else vr_data result) in
               (case read_success_reply xid (vr_attributes result) data (vr_eof result) of
                  Inl error \<Rightarrow> (Inl (SE_Encode error), s)
                | Inr None \<Rightarrow> (Inl SE_Task, s)
                | Inr (Some reply) \<Rightarrow> (Inr reply, s))
           | (Inl error, s) \<Rightarrow>
               (r_bind (nfs_reply xid encode_read_result (Read_Err (nfs_status_of_error error) None))
                  (\<lambda>bs. Inr (into_reply vec_capacity bs)), s)))"

fun durability_satisfies :: "WriteStability \<Rightarrow> WriteStability \<Rightarrow> bool" where
  "durability_satisfies FileSync _ = True"
| "durability_satisfies DataSync DataSync = True"
| "durability_satisfies DataSync Unstable = True"
| "durability_satisfies Unstable Unstable = True"
| "durability_satisfies _ _ = False"

definition write_result ::
  "'s ConnectionState \<Rightarrow> bytes \<Rightarrow> WriteStability \<Rightarrow> NfsError + VfsWriteResult MutationResult \<Rightarrow> WriteResult" where
  "write_result state data requested result =
     (case result of
        Inr result \<Rightarrow>
          if unat (vw_count (mr_value result)) \<le> length data
            \<and> (data = [] \<or> vw_count (mr_value result) \<noteq> 0)
            \<and> durability_satisfies (vw_committed (mr_value result)) requested
          then Write_Ok (wcc_of result) (vw_count (mr_value result)) (vw_committed (mr_value result))
                 (hc_instance_id (cs_handles state))
          else Write_Err Nfs_ServerFault (wcc_of result)
      | Inl error \<Rightarrow> Write_Err (nfs_status_of_error error) wcc_data_default)"

definition dispatch_write :: "u32 \<Rightarrow> WriteRequest \<Rightarrow> 's nfs_handler" where
  "dispatch_write xid arguments context state vfs s =
     (case write_request_validate arguments of
        Inl status \<Rightarrow> (nfs_reply xid encode_write_result (Write_Err status wcc_data_default), s)
      | Inr _ \<Rightarrow>
          (case decode_object (wrq_object arguments) state (ctx_export_id context) of
             Inl status \<Rightarrow>
               (status_reply xid encode_write_result (\<lambda>status. Write_Err status wcc_data_default) status, s)
           | Inr object \<Rightarrow>
               let requested = wrq_requested arguments;
                   permitted_count = min (length (wrq_data arguments)) (unat (sl_max_write_size (cs_limits state)));
                   data = take permitted_count (wrq_data arguments) in
               (case vfs_write vfs context object (wrq_offset arguments) data requested s of
                  (result, s) \<Rightarrow> (nfs_reply xid encode_write_result (write_result state data requested result), s))))"

section \<open>Procedures on directories\<close>

definition nfs_create :: "u32 \<Rightarrow> CreateArgs \<Rightarrow> 's nfs_handler" where
  "nfs_create xid arguments context state vfs s =
     (case decode_directory_operation (cra_target arguments) state (ctx_export_id context) of
        Inl status \<Rightarrow> (create_failure_reply xid status, s)
      | Inr (parent, name) \<Rightarrow>
          (case vfs_create vfs context parent name (cra_attributes arguments) (cra_mode arguments) s of
             (result, s) \<Rightarrow>
               (r_map_err SE_Encode (create_reply xid state (ctx_export_id context) result), s)))"

definition nfs_mkdir :: "u32 \<Rightarrow> MkdirArgs \<Rightarrow> 's nfs_handler" where
  "nfs_mkdir xid arguments context state vfs s =
     (case decode_directory_operation (mka_target arguments) state (ctx_export_id context) of
        Inl status \<Rightarrow> (create_failure_reply xid status, s)
      | Inr (parent, name) \<Rightarrow>
          (case vfs_mkdir vfs context parent name (mka_attributes arguments) s of
             (result, s) \<Rightarrow>
               (r_map_err SE_Encode (create_reply xid state (ctx_export_id context) result), s)))"

definition nfs_symlink :: "u32 \<Rightarrow> SymlinkArgs \<Rightarrow> 's nfs_handler" where
  "nfs_symlink xid arguments context state vfs s =
     (case decode_directory_operation (sla_target arguments) state (ctx_export_id context) of
        Inl status \<Rightarrow> (create_failure_reply xid status, s)
      | Inr (parent, name) \<Rightarrow>
          (case vfs_symlink vfs context parent name (sla_path arguments) (sla_attributes arguments) s of
             (result, s) \<Rightarrow>
               (r_map_err SE_Encode (create_reply xid state (ctx_export_id context) result), s)))"

definition nfs_mknod :: "u32 \<Rightarrow> MknodArgs \<Rightarrow> 's nfs_handler" where
  "nfs_mknod xid arguments context state vfs s =
     (case decode_directory_operation (mna_target arguments) state (ctx_export_id context) of
        Inl status \<Rightarrow> (create_failure_reply xid status, s)
      | Inr (parent, name) \<Rightarrow>
          (case vfs_mknod vfs context parent name (mna_node_type arguments) (mna_attributes arguments) s of
             (result, s) \<Rightarrow>
               (r_map_err SE_Encode (create_reply xid state (ctx_export_id context) result), s)))"

definition nfs_remove :: "u32 \<Rightarrow> DirectoryOperationArgs \<Rightarrow> 's nfs_handler" where
  "nfs_remove xid arguments context state vfs s =
     (case decode_directory_operation arguments state (ctx_export_id context) of
        Inl status \<Rightarrow>
          (status_reply xid encode_wcc_result (\<lambda>status. Wcc_Err status wcc_data_default) status, s)
      | Inr (parent, name) \<Rightarrow>
          (case vfs_remove vfs context parent name s of
             (result, s) \<Rightarrow> (r_map_err SE_Encode (mutation_void_reply xid result), s)))"

definition nfs_rmdir :: "u32 \<Rightarrow> DirectoryOperationArgs \<Rightarrow> 's nfs_handler" where
  "nfs_rmdir xid arguments context state vfs s =
     (case decode_directory_operation arguments state (ctx_export_id context) of
        Inl status \<Rightarrow>
          (status_reply xid encode_wcc_result (\<lambda>status. Wcc_Err status wcc_data_default) status, s)
      | Inr (parent, name) \<Rightarrow>
          (case vfs_rmdir vfs context parent name s of
             (result, s) \<Rightarrow> (r_map_err SE_Encode (mutation_void_reply xid result), s)))"

definition nfs_rename :: "u32 \<Rightarrow> RenameArgs \<Rightarrow> 's nfs_handler" where
  "nfs_rename xid arguments context state vfs s =
     (case decode_directory_operation (rna_from arguments) state (ctx_export_id context) of
        Inl status \<Rightarrow> (rename_failure_reply xid status, s)
      | Inr (from_parent, from_name) \<Rightarrow>
          (case decode_directory_operation (rna_to arguments) state (ctx_export_id context) of
             Inl status \<Rightarrow> (rename_failure_reply xid status, s)
           | Inr (to_parent, to_name) \<Rightarrow>
               (case vfs_rename vfs context from_parent from_name to_parent to_name s of
                  (Inr (from_result, to_result), s) \<Rightarrow>
                    (nfs_reply xid encode_rename_result (Rename_Ok (wcc_of from_result) (wcc_of to_result)), s)
                | (Inl error, s) \<Rightarrow>
                    (nfs_reply xid encode_rename_result
                       (Rename_Err (nfs_status_of_error error) wcc_data_default wcc_data_default), s))))"

definition nfs_link :: "u32 \<Rightarrow> LinkArgs \<Rightarrow> 's nfs_handler" where
  "nfs_link xid arguments context state vfs s =
     (case decode_object (lka_object arguments) state (ctx_export_id context) of
        Inl status \<Rightarrow> (link_failure_reply xid status, s)
      | Inr object \<Rightarrow>
          (case decode_directory_operation (lka_target arguments) state (ctx_export_id context) of
             Inl status \<Rightarrow> (link_failure_reply xid status, s)
           | Inr (parent, name) \<Rightarrow>
               (case vfs_link vfs context object parent name s of
                  (Inr result, s) \<Rightarrow>
                    (case getattr_ok vfs context object s of
                       (object_attributes, s) \<Rightarrow>
                         (nfs_reply xid encode_link_result (Link_Ok object_attributes (wcc_of result)), s))
                | (Inl error, s) \<Rightarrow>
                    (nfs_reply xid encode_link_result
                       (Link_Err (nfs_status_of_error error) None wcc_data_default), s))))"

section \<open>Directory listings\<close>

definition basic_entry :: "DirectoryEntry \<Rightarrow> ReadDirEntry" where
  "basic_entry item =
     \<lparr>rde_file_id = de_file_id item, rde_name = name_bytes (de_name item),
      rde_cookie = de_cookie item, rde_extension = Basic\<rparr>"

definition typed_entry :: "'s ConnectionState \<Rightarrow> ExportId \<Rightarrow> bool \<Rightarrow> DirectoryEntry \<Rightarrow> ReadDirEntry" where
  "typed_entry state export_id plus_form item =
     (if plus_form
      then (basic_entry item)\<lparr>rde_extension :=
             Plus (de_attributes item) (Some (handle_encode (cs_handles state) export_id (de_object item)))\<rparr>
      else basic_entry item)"

text \<open>
  The loop over the page: it stops at the first entry that exceeds the limit on directory bytes or
  the limit on the reply, and returns the entries that fit and whether it stopped early.
\<close>

fun select_entries ::
  "'s ConnectionState \<Rightarrow> ExportId \<Rightarrow> bool \<Rightarrow> usize option \<Rightarrow> usize \<Rightarrow> usize \<Rightarrow> DirectoryEntry list \<Rightarrow>
   ReadDirEntry list \<Rightarrow> usize \<Rightarrow> usize \<Rightarrow> EncodeError + (ReadDirEntry list \<times> bool)" where
  "select_entries state export_id plus_form directory_limit wire_limit empty_len []
     entries encoded_entries directory_bytes = Inr (entries, False)"
| "select_entries state export_id plus_form directory_limit wire_limit empty_len (item # items)
     entries encoded_entries directory_bytes =
     r_bind (encoded_len encode_readdir_entry (basic_entry item)) (\<lambda>directory_part_len.
     if (case directory_limit of
           None \<Rightarrow> False
         | Some limit \<Rightarrow>
             limit < saturating_add (saturating_add directory_bytes directory_part_len) 4)
     then Inr (entries, True)
     else
       let directory_bytes = saturating_add directory_bytes directory_part_len;
           item' = typed_entry state export_id plus_form item in
       r_bind (encoded_len encode_readdir_entry item') (\<lambda>len.
       if wire_limit < saturating_add (saturating_add (saturating_sub empty_len 4) encoded_entries) len
       then Inr (entries, True)
       else select_entries state export_id plus_form directory_limit wire_limit empty_len items
              (entries @ [item']) (saturating_add encoded_entries len) directory_bytes))"

definition readdir_reply ::
  "u32 \<Rightarrow> 's ConnectionState \<Rightarrow> ExportId \<Rightarrow> bool \<Rightarrow> FileAttributes option \<Rightarrow> ReadDirectoryPage \<Rightarrow>
   usize option \<times> usize \<Rightarrow> EncodeError + bytes" where
  "readdir_reply xid state export_id plus_form directory_attributes page limits =
     (let (directory_limit, wire_limit) = limits;
          empty_len_of = (\<lambda>attributes.
            encoded_len encode_readdir_result (ReadDir_Ok attributes (page_verifier page) [] False)) in
      r_bind (empty_len_of directory_attributes) (\<lambda>empty_len.
      r_bind (if wire_limit < saturating_sub empty_len 4
              then r_bind (empty_len_of None) (\<lambda>empty_len. Inr (None, empty_len))
              else Inr (directory_attributes, empty_len)) (\<lambda>(selected_attributes, empty_len).
      if wire_limit < saturating_sub empty_len 4
      then typed_nfs_reply xid encode_readdir_result (ReadDir_Err Nfs_TooSmall directory_attributes)
      else
        let had_entries = (page_entries page \<noteq> []) in
        r_bind (select_entries state export_id plus_form directory_limit wire_limit empty_len
                  (page_entries page) [] 0 0) (\<lambda>(entries, truncated).
        if had_entries \<and> truncated \<and> entries = []
        then typed_nfs_reply xid encode_readdir_result (ReadDir_Err Nfs_TooSmall directory_attributes)
        else typed_nfs_reply xid encode_readdir_result
               (ReadDir_Ok selected_attributes (page_verifier page) entries (page_eof page \<and> \<not> truncated))))))"

definition readdir_hint :: "usize option \<Rightarrow> usize \<Rightarrow> usize" where
  "readdir_hint directory_limit wire_limit =
     (let hint_limit = (case directory_limit of None \<Rightarrow> wire_limit | Some limit \<Rightarrow> min limit wire_limit) in
      max 1 (min 4096 (hint_limit div 32)))"

definition nfs_readdir :: "u32 \<Rightarrow> ReadDirArgs \<Rightarrow> 's nfs_handler" where
  "nfs_readdir xid arguments context state vfs s =
     (case decode_object (rdd_directory arguments) state (ctx_export_id context) of
        Inl status \<Rightarrow>
          (status_reply xid encode_readdir_result (\<lambda>status. ReadDir_Err status None) status, s)
      | Inr directory \<Rightarrow>
          let wire_limit = unat (min (rdd_count arguments) (sl_max_readdir_response_size (cs_limits state))) in
          if wire_limit < 20
          then (nfs_reply xid encode_readdir_result (ReadDir_Err Nfs_TooSmall None), s)
          else
            let directory_limit = None;
                hint = readdir_hint directory_limit wire_limit in
            (case vfs_readdir vfs context directory (rdd_cookie arguments) (rdd_verifier arguments) hint s of
               (Inr page, s) \<Rightarrow>
                 (case getattr_ok vfs context directory s of
                    (attributes, s) \<Rightarrow>
                      (r_map_err SE_Encode
                         (readdir_reply xid state (ctx_export_id context) False attributes page
                            (directory_limit, wire_limit)), s))
             | (Inl error, s) \<Rightarrow>
                 (nfs_reply xid encode_readdir_result (ReadDir_Err (nfs_status_of_error error) None), s)))"

definition nfs_readdirplus :: "u32 \<Rightarrow> ReadDirPlusArgs \<Rightarrow> 's nfs_handler" where
  "nfs_readdirplus xid arguments context state vfs s =
     (case decode_object (rdp_directory arguments) state (ctx_export_id context) of
        Inl status \<Rightarrow>
          (status_reply xid encode_readdir_result (\<lambda>status. ReadDir_Err status None) status, s)
      | Inr directory \<Rightarrow>
          let wire_limit = unat (min (rdp_max_count arguments) (sl_max_readdir_response_size (cs_limits state))) in
          if wire_limit < 20
          then (nfs_reply xid encode_readdir_result (ReadDir_Err Nfs_TooSmall None), s)
          else
            let directory_limit = Some (unat (rdp_directory_count arguments));
                hint = readdir_hint directory_limit wire_limit in
            (case vfs_readdir vfs context directory (rdp_cookie arguments) (rdp_verifier arguments) hint s of
               (Inr page, s) \<Rightarrow>
                 (case getattr_ok vfs context directory s of
                    (attributes, s) \<Rightarrow>
                      (r_map_err SE_Encode
                         (readdir_reply xid state (ctx_export_id context) True attributes page
                            (directory_limit, wire_limit)), s))
             | (Inl error, s) \<Rightarrow>
                 (nfs_reply xid encode_readdir_result (ReadDir_Err (nfs_status_of_error error) None), s)))"

section \<open>Procedures on the filesystem\<close>

definition nfs_fsstat :: "u32 \<Rightarrow> ObjectArgs \<Rightarrow> 's nfs_handler" where
  "nfs_fsstat xid arguments context state vfs s =
     (case decode_object (oa_object arguments) state (ctx_export_id context) of
        Inl status \<Rightarrow>
          (status_reply xid encode_fsstat_result (\<lambda>status. FsStat_Err status None) status, s)
      | Inr object \<Rightarrow>
          (case vfs_fsstat vfs context object s of
             (Inr info, s) \<Rightarrow>
               (case getattr_ok vfs context object s of
                  (attributes, s) \<Rightarrow> (nfs_reply xid encode_fsstat_result (FsStat_Ok attributes info), s))
           | (Inl error, s) \<Rightarrow>
               (nfs_reply xid encode_fsstat_result (FsStat_Err (nfs_status_of_error error) None), s)))"

definition fsinfo_properties :: "VfsCapabilities \<Rightarrow> u32" where
  "fsinfo_properties capabilities =
     or (or (or (of_bool (cap_hard_links capabilities))
               (push_bit 1 (of_bool (cap_symbolic_links capabilities))))
           (push_bit 3 (of_bool (cap_homogeneous capabilities))))
        (push_bit 4 (of_bool (cap_can_set_time capabilities)))"

definition clamp_fsinfo :: "ServerLimits \<Rightarrow> FsInfo \<Rightarrow> FsInfo" where
  "clamp_fsinfo limits info =
     (let max_read = min (fi_max_read info) (sl_max_read_size limits);
          max_write = min (fi_max_write info) (sl_max_write_size limits) in
      info\<lparr>fi_max_read := max_read,
           fi_preferred_read := min (fi_preferred_read info) max_read,
           fi_read_multiple := min (fi_read_multiple info) max_read,
           fi_max_write := max_write,
           fi_preferred_write := min (fi_preferred_write info) max_write,
           fi_write_multiple := min (fi_write_multiple info) max_write,
           fi_preferred_readdir := min (fi_preferred_readdir info) (sl_max_readdir_response_size limits)\<rparr>)"

definition nfs_fsinfo :: "u32 \<Rightarrow> ObjectArgs \<Rightarrow> 's nfs_handler" where
  "nfs_fsinfo xid arguments context state vfs s =
     (case decode_object (oa_object arguments) state (ctx_export_id context) of
        Inl status \<Rightarrow>
          (status_reply xid encode_fsinfo_result (\<lambda>status. FsInfo_Err status None) status, s)
      | Inr object \<Rightarrow>
          (case vfs_fsinfo vfs context object s of
             (Inr info, s) \<Rightarrow>
               (case getattr_ok vfs context object s of
                  (attributes, s) \<Rightarrow>
                    (nfs_reply xid encode_fsinfo_result
                       (FsInfo_Ok attributes (clamp_fsinfo (cs_limits state) info)
                          (fsinfo_properties (vfs_capabilities vfs s))), s))
           | (Inl error, s) \<Rightarrow>
               (nfs_reply xid encode_fsinfo_result (FsInfo_Err (nfs_status_of_error error) None), s)))"

definition nfs_pathconf :: "u32 \<Rightarrow> ObjectArgs \<Rightarrow> 's nfs_handler" where
  "nfs_pathconf xid arguments context state vfs s =
     (case decode_object (oa_object arguments) state (ctx_export_id context) of
        Inl status \<Rightarrow>
          (status_reply xid encode_pathconf_result (\<lambda>status. PathConf_Err status None) status, s)
      | Inr object \<Rightarrow>
          (case vfs_pathconf vfs context object s of
             (Inr info, s) \<Rightarrow>
               (case getattr_ok vfs context object s of
                  (attributes, s) \<Rightarrow>
                    let info = info\<lparr>pc_max_name_length :=
                          min (pc_max_name_length info) (of_nat NFS_NAME_MAX_LEN)\<rparr> in
                    (nfs_reply xid encode_pathconf_result (PathConf_Ok attributes info), s))
           | (Inl error, s) \<Rightarrow>
               (nfs_reply xid encode_pathconf_result (PathConf_Err (nfs_status_of_error error) None), s)))"

definition nfs_commit :: "u32 \<Rightarrow> CommitArgs \<Rightarrow> 's nfs_handler" where
  "nfs_commit xid arguments context state vfs s =
     (case decode_object (cma_object arguments) state (ctx_export_id context) of
        Inl status \<Rightarrow>
          (status_reply xid encode_commit_result (\<lambda>status. Commit_Err status wcc_data_default) status, s)
      | Inr object \<Rightarrow>
          (case vfs_commit vfs context object (cma_offset arguments) (cma_count arguments) s of
             (Inr result, s) \<Rightarrow>
               (nfs_reply xid encode_commit_result
                  (Commit_Ok (wcc_of result) (hc_instance_id (cs_handles state))), s)
           | (Inl error, s) \<Rightarrow>
               (nfs_reply xid encode_commit_result
                  (Commit_Err (nfs_status_of_error error) wcc_data_default), s)))"

section \<open>The dispatcher\<close>

text \<open>\<open>Ok(\<dots>?.into())\<close>: the bytes of a procedure as an encoded reply.\<close>

definition into_result ::
  "(bytes \<Rightarrow> usize) \<Rightarrow> (ServerError + bytes) \<times> 's \<Rightarrow> (ServerError + EncodedReply) \<times> 's" where
  "into_result vec_capacity r =
     (case r of (res, s) \<Rightarrow> (r_bind res (\<lambda>bs. Inr (into_reply vec_capacity bs)), s))"

fun nfs_procedure ::
  "(bytes \<Rightarrow> usize) \<Rightarrow> u32 \<Rightarrow> NfsArguments \<Rightarrow> RequestContext \<Rightarrow> 's ConnectionState \<Rightarrow> 's Vfs \<Rightarrow> 's \<Rightarrow>
   (ServerError + EncodedReply) \<times> 's" where
  "nfs_procedure cap xid (Arg_GetAttr a) c st vfs s = into_result cap (nfs_getattr xid a c st vfs s)"
| "nfs_procedure cap xid (Arg_SetAttr a) c st vfs s = into_result cap (nfs_setattr xid a c st vfs s)"
| "nfs_procedure cap xid (Arg_Lookup a) c st vfs s = into_result cap (nfs_lookup xid a c st vfs s)"
| "nfs_procedure cap xid (Arg_Access a) c st vfs s = into_result cap (nfs_access xid a c st vfs s)"
| "nfs_procedure cap xid (Arg_ReadLink a) c st vfs s = into_result cap (nfs_readlink xid a c st vfs s)"
| "nfs_procedure cap xid (Arg_Read a) c st vfs s = dispatch_read cap xid a c st vfs s"
| "nfs_procedure cap xid (Arg_Write a) c st vfs s =
     into_result cap (dispatch_write xid (write_request_of_args a) c st vfs s)"
| "nfs_procedure cap xid (Arg_Create a) c st vfs s = into_result cap (nfs_create xid a c st vfs s)"
| "nfs_procedure cap xid (Arg_Mkdir a) c st vfs s = into_result cap (nfs_mkdir xid a c st vfs s)"
| "nfs_procedure cap xid (Arg_Symlink a) c st vfs s = into_result cap (nfs_symlink xid a c st vfs s)"
| "nfs_procedure cap xid (Arg_Mknod a) c st vfs s = into_result cap (nfs_mknod xid a c st vfs s)"
| "nfs_procedure cap xid (Arg_Remove a) c st vfs s = into_result cap (nfs_remove xid a c st vfs s)"
| "nfs_procedure cap xid (Arg_Rmdir a) c st vfs s = into_result cap (nfs_rmdir xid a c st vfs s)"
| "nfs_procedure cap xid (Arg_Rename a) c st vfs s = into_result cap (nfs_rename xid a c st vfs s)"
| "nfs_procedure cap xid (Arg_Link a) c st vfs s = into_result cap (nfs_link xid a c st vfs s)"
| "nfs_procedure cap xid (Arg_ReadDir a) c st vfs s = into_result cap (nfs_readdir xid a c st vfs s)"
| "nfs_procedure cap xid (Arg_ReadDirPlus a) c st vfs s = into_result cap (nfs_readdirplus xid a c st vfs s)"
| "nfs_procedure cap xid (Arg_FsStat a) c st vfs s = into_result cap (nfs_fsstat xid a c st vfs s)"
| "nfs_procedure cap xid (Arg_FsInfo a) c st vfs s = into_result cap (nfs_fsinfo xid a c st vfs s)"
| "nfs_procedure cap xid (Arg_PathConf a) c st vfs s = into_result cap (nfs_pathconf xid a c st vfs s)"
| "nfs_procedure cap xid (Arg_Commit a) c st vfs s = into_result cap (nfs_commit xid a c st vfs s)"
| "nfs_procedure cap xid Arg_Null c st vfs s = (Inr (into_reply cap (accepted_reply xid SUCCESS [])), s)"

definition find_export :: "'s ConnectionState \<Rightarrow> ExportId \<Rightarrow> 's ExportState option" where
  "find_export state export_id = List.find (\<lambda>export. ex_id export = export_id) (cs_exports state)"

definition bad_handle_reply ::
  "(bytes \<Rightarrow> usize) \<Rightarrow> u32 \<Rightarrow> u32 \<Rightarrow> ServerError + EncodedReply" where
  "bad_handle_reply cap xid procedure =
     r_bind (r_map_err SE_Encode (nfs_failure_reply_for_procedure xid procedure Nfs_BadHandle))
       (\<lambda>bs. Inr (into_reply cap bs))"

definition dispatch_nfs ::
  "(bytes \<Rightarrow> usize) \<Rightarrow> u32 \<Rightarrow> u32 \<Rightarrow> bytes \<Rightarrow> RequestContext \<Rightarrow> 's ConnectionState \<Rightarrow> 's \<Rightarrow>
   (ServerError + EncodedReply) \<times> 's" where
  "dispatch_nfs cap xid procedure args context state s =
     (if 21 < procedure then (Inr (into_reply cap (accepted_reply xid PROC_UNAVAIL [])), s)
      else if procedure = 7 then
        (case write_request_decode args (sl_max_rpc_record_size (cs_limits state)) of
           Inl error \<Rightarrow> (Inl (SE_Decode error), s)
         | Inr arguments \<Rightarrow>
             (case find_export state (ctx_export_id context) of
                None \<Rightarrow> (bad_handle_reply cap xid procedure, s)
              | Some export \<Rightarrow>
                  into_result cap (dispatch_write xid arguments context state (ex_vfs export) s)))
      else
        (case nfs_arguments_decode procedure args (sl_max_rpc_record_size (cs_limits state)) of
           Inl error \<Rightarrow> (Inl (SE_Decode error), s)
         | Inr arguments \<Rightarrow>
             if arguments = Arg_Null then (Inr (into_reply cap (accepted_reply xid SUCCESS [])), s)
             else
               (case find_export state (ctx_export_id context) of
                  None \<Rightarrow> (bad_handle_reply cap xid procedure, s)
                | Some export \<Rightarrow> nfs_procedure cap xid arguments context state (ex_vfs export) s)))"

section \<open>Vocabulary of the properties\<close>

text \<open>
  An accepted, successful RPC reply to the call \<open>xid\<close> with a body of at most \<open>n\<close> bytes, if it is a reply
  at all.
\<close>

definition good_reply :: "u32 \<Rightarrow> nat \<Rightarrow> 'e + bytes \<Rightarrow> bool" where
  "good_reply xid n res \<longleftrightarrow>
     (\<forall>bs. res = Inr bs \<longrightarrow> (\<exists>body. bs = accepted_reply_encoder xid SUCCESS @ body \<and> length body \<le> n))"

text \<open>The file handles of a request.\<close>

fun args_handles :: "NfsArguments \<Rightarrow> bytes list" where
  "args_handles Arg_Null = []"
| "args_handles (Arg_GetAttr a) = [oa_object a]"
| "args_handles (Arg_SetAttr a) = [sta_object a]"
| "args_handles (Arg_Lookup a) = [doa_directory a]"
| "args_handles (Arg_Access a) = [aca_object a]"
| "args_handles (Arg_ReadLink a) = [oa_object a]"
| "args_handles (Arg_Read a) = [rda_object a]"
| "args_handles (Arg_Write a) = [wra_object a]"
| "args_handles (Arg_Create a) = [doa_directory (cra_target a)]"
| "args_handles (Arg_Mkdir a) = [doa_directory (mka_target a)]"
| "args_handles (Arg_Symlink a) = [doa_directory (sla_target a)]"
| "args_handles (Arg_Mknod a) = [doa_directory (mna_target a)]"
| "args_handles (Arg_Remove a) = [doa_directory a]"
| "args_handles (Arg_Rmdir a) = [doa_directory a]"
| "args_handles (Arg_Rename a) = [doa_directory (rna_from a), doa_directory (rna_to a)]"
| "args_handles (Arg_Link a) = [lka_object a, doa_directory (lka_target a)]"
| "args_handles (Arg_ReadDir a) = [rdd_directory a]"
| "args_handles (Arg_ReadDirPlus a) = [rdp_directory a]"
| "args_handles (Arg_FsStat a) = [oa_object a]"
| "args_handles (Arg_FsInfo a) = [oa_object a]"
| "args_handles (Arg_PathConf a) = [oa_object a]"
| "args_handles (Arg_Commit a) = [cma_object a]"

text \<open>
  A concrete backend, whose state counts the calls that change it: one file with the bytes 1 to 5, in
  a root directory that lists two names.
\<close>

definition sample_attributes :: FileAttributes where
  "sample_attributes =
     \<lparr>fa_file_type = FT_Directory, fa_mode = 493, fa_links = 2, fa_uid = 0, fa_gid = 0, fa_size = 5,
      fa_used = 5, fa_device = None, fa_fs_id = 1, fa_file_id = 1,
      fa_access_time = \<lparr>time_seconds = 10, time_nanoseconds = 0\<rparr>,
      fa_modify_time = \<lparr>time_seconds = 10, time_nanoseconds = 0\<rparr>,
      fa_change_time = \<lparr>time_seconds = 10, time_nanoseconds = 0\<rparr>\<rparr>"

definition sample_object :: ObjectKey where
  "sample_object = \<lparr>obj_file_id = 1, obj_generation = 1\<rparr>"

definition sample_page :: ReadDirectoryPage where
  "sample_page =
     \<lparr>page_verifier = replicate 8 3,
      page_entries =
        [\<lparr>de_object = sample_object, de_file_id = 2, de_name = NfsName [97], de_cookie = 1, de_attributes = None\<rparr>,
         \<lparr>de_object = sample_object, de_file_id = 3, de_name = NfsName [98], de_cookie = 2, de_attributes = None\<rparr>],
      page_eof = True\<rparr>"

definition sample_vfs :: "nat Vfs" where
  "sample_vfs =
     (vfs_with_defaults (\<lambda>_. CAPABILITIES_READ_WRITE) (\<lambda>_. sample_object)
        (\<lambda>_ _ s. (Inr sample_attributes, s))
        (\<lambda>_ _ _ s. (Inr \<lparr>co_object = sample_object, co_attributes = None\<rparr>, s)))
     \<lparr>vfs_read_bytes := (\<lambda>_ _ _ _ s.
        (Inr \<lparr>vr_data = [1, 2, 3, 4, 5], vr_eof = True, vr_attributes = None\<rparr>, s)),
      vfs_remove := (\<lambda>_ _ _ s. (Inr \<lparr>mr_value = (), mr_before = None, mr_after = None\<rparr>, s + 1)),
      vfs_readdir := (\<lambda>_ _ _ _ _ s. (Inr sample_page, s))\<rparr>"

definition sample_state :: "nat ConnectionState" where
  "sample_state =
     \<lparr>cs_exports = [\<lparr>ex_vfs = sample_vfs, ex_id = 1, ex_path = [47]\<rparr>], cs_limits = production_defaults,
      cs_auth_policy = Policy_AuthSys, cs_portmapper = Portmapper_Enabled, cs_handles = sample_codec,
      cs_local_port = 2049\<rparr>"

definition sample_context :: RequestContext where
  "sample_context =
     \<lparr>ctx_principal = Anonymous, ctx_client_addr = \<lparr>sock_ip = V4 10 0 0 2, sock_port = 700\<rparr>, ctx_export_id = 1\<rparr>"

section \<open>Lemmas on replies\<close>

lemma good_reply_map_err [simp]: "good_reply xid n (r_map_err f r) = good_reply xid n r"
  by (cases r) (simp_all add: good_reply_def)

lemma good_reply_mono: "good_reply xid n r \<Longrightarrow> n \<le> m \<Longrightarrow> good_reply xid m r"
  by (fastforce simp: good_reply_def)

context nfs_result
begin

lemma good_typed: "bound a \<le> n \<Longrightarrow> good_reply xid n (typed_nfs_reply xid put a)"
  by (auto simp: good_reply_def typed_nfs_reply_def dest!: appends)

lemma good_nfs: "bound a \<le> n \<Longrightarrow> good_reply xid n (nfs_reply xid put a)"
  by (simp add: nfs_reply_def good_typed)

lemma good_status: "(\<And>st. bound (failure st) \<le> n) \<Longrightarrow> good_reply xid n (status_reply xid put failure status)"
  by (simp add: status_reply_def wire_nfs_status_def good_nfs)

end

lemmas good_replies =
  res_getattr.good_nfs res_setattr.good_nfs res_lookup.good_nfs res_access.good_nfs res_readlink.good_nfs
  res_read.good_nfs res_write.good_nfs res_create.good_nfs res_wcc.good_nfs res_link.good_nfs
  res_rename.good_nfs res_readdir.good_nfs res_fsstat.good_nfs res_fsinfo.good_nfs res_pathconf.good_nfs
  res_commit.good_nfs res_create.good_typed res_wcc.good_typed res_readdir.good_typed
  res_getattr.good_status res_setattr.good_status res_lookup.good_status res_access.good_status
  res_readlink.good_status res_read.good_status res_write.good_status res_create.good_status
  res_wcc.good_status res_link.good_status res_rename.good_status res_readdir.good_status
  res_fsstat.good_status res_fsinfo.good_status res_pathconf.good_status res_commit.good_status

lemma length_wire_handle: "codec_ok c \<Longrightarrow> length (opaque_bytes (handle_encode c e ob)) = 52"
  by (simp add: size_simps length_handle_encode handle_sizes xdr_padding_def)

lemma good_getattr: "good_reply xid 280 (fst (nfs_getattr xid a c st vfs s))"
  by (simp add: nfs_getattr_def good_replies split: sum.split prod.split)

lemma good_setattr: "good_reply xid 280 (fst (nfs_setattr xid a c st vfs s))"
  by (simp add: nfs_setattr_def good_replies split: sum.split prod.split)

lemma good_lookup: "codec_ok (cs_handles st) \<Longrightarrow> good_reply xid 280 (fst (nfs_lookup xid a c st vfs s))"
  by (simp add: nfs_lookup_def good_replies length_wire_handle split: sum.split prod.split)

lemma good_access: "good_reply xid 280 (fst (nfs_access xid a c st vfs s))"
  by (simp add: nfs_access_def good_replies Let_def split: sum.split prod.split)

lemma good_write: "codec_ok (cs_handles st) \<Longrightarrow> good_reply xid 280 (fst (dispatch_write xid a c st vfs s))"
  by (simp add: dispatch_write_def write_result_def good_replies codec_ok_def Let_def split: sum.split prod.split)

lemma good_create_reply: "codec_ok (cs_handles st) \<Longrightarrow> good_reply xid 280 (create_reply xid st e r)"
  by (simp add: create_reply_def good_replies length_wire_handle split: sum.split)

lemma good_create_failure: "good_reply xid 280 (create_failure_reply xid status)"
  by (simp add: create_failure_reply_def good_replies)

lemma good_void_reply: "good_reply xid 280 (mutation_void_reply xid r)"
  by (simp add: mutation_void_reply_def good_replies split: sum.split)

lemma good_create:
  assumes "codec_ok (cs_handles st)"
  shows "good_reply xid 280 (fst (nfs_create xid a c st vfs s))"
    and "good_reply xid 280 (fst (nfs_mkdir xid b c st vfs s))"
    and "good_reply xid 280 (fst (nfs_symlink xid d c st vfs s))"
    and "good_reply xid 280 (fst (nfs_mknod xid f c st vfs s))"
  using assms
  by (simp_all add: nfs_create_def nfs_mkdir_def nfs_symlink_def nfs_mknod_def good_create_reply
      good_create_failure split: sum.split prod.split)

lemma good_removal:
  "good_reply xid 280 (fst (nfs_remove xid a c st vfs s))"
  "good_reply xid 280 (fst (nfs_rmdir xid a c st vfs s))"
  by (simp_all add: nfs_remove_def nfs_rmdir_def good_void_reply good_replies split: sum.split prod.split)

lemma good_rename: "good_reply xid 280 (fst (nfs_rename xid a c st vfs s))"
  by (simp add: nfs_rename_def rename_failure_reply_def good_replies split: sum.split prod.split)

lemma good_link: "good_reply xid 280 (fst (nfs_link xid a c st vfs s))"
  by (simp add: nfs_link_def link_failure_reply_def good_replies split: sum.split prod.split)

lemma good_filesystem:
  "good_reply xid 280 (fst (nfs_fsstat xid a c st vfs s))"
  "good_reply xid 280 (fst (nfs_fsinfo xid a c st vfs s))"
  "good_reply xid 280 (fst (nfs_pathconf xid a c st vfs s))"
  by (simp_all add: nfs_fsstat_def nfs_fsinfo_def nfs_pathconf_def good_replies Let_def split: sum.split prod.split)

lemma good_commit: "codec_ok (cs_handles st) \<Longrightarrow> good_reply xid 280 (fst (nfs_commit xid a c st vfs s))"
  by (simp add: nfs_commit_def good_replies codec_ok_def split: sum.split prod.split)

section \<open>Lemmas on directory listings\<close>

lemma select_entries_prefix:
  assumes "select_entries st ex plus_form dl wl el items es enc db = Inr (es', truncated)"
    and "enc = length (concat (map entry_wire es))" and "list_all entry_encodable es"
    and "el - 4 + enc \<le> wl" and "wl < usize_bound - 1"
  shows "\<exists>k \<le> length items. es' = es @ map (typed_entry st ex plus_form) (take k items) \<and>
    truncated = (k < length items) \<and> list_all entry_encodable es' \<and>
    el - 4 + length (concat (map entry_wire es')) \<le> wl"
  using assms
proof (induction items arbitrary: es enc db)
  case Nil
  then show ?case by auto
next
  case (Cons item items)
  let ?t = "typed_entry st ex plus_form item"
  obtain n where n: "encoded_len encode_readdir_entry (basic_entry item) = Inr n"
    using Cons.prems(1) by auto
  let ?over = "case dl of None \<Rightarrow> False | Some limit \<Rightarrow> limit < saturating_add (saturating_add db n) 4"
  show ?case
  proof (cases ?over)
    case True
    then show ?thesis using Cons.prems n by (intro exI [of _ 0]) auto
  next
    case False
    then obtain m where m: "encoded_len encode_readdir_entry ?t = Inr m"
      using Cons.prems(1) n by (auto simp: Let_def)
    have t: "entry_encodable ?t" "m = length (entry_wire ?t)"
      using m by (auto simp: encoded_len_def dest: put_entry.put_sound)
    have sum: "saturating_add (saturating_sub el 4) enc = el - 4 + enc"
      using Cons.prems(4,5) by (simp add: saturating_sub_def saturating_add_eq)
    show ?thesis
    proof (cases "wl < saturating_add (el - 4 + enc) m")
      case True
      then show ?thesis
        using Cons.prems n m False sum by (intro exI [of _ 0]) (auto simp: Let_def)
    next
      case fits: False
      then have le: "el - 4 + (enc + m) \<le> wl" using Cons.prems(5) by (simp add: not_less)
      then have "saturating_add enc m = enc + m" using Cons.prems(5) by (simp add: saturating_add_eq)
      then have rec: "select_entries st ex plus_form dl wl el items (es @ [?t]) (enc + m) (saturating_add db n) =
          Inr (es', truncated)"
        using Cons.prems(1) n m False fits sum by (auto simp: Let_def)
      have "enc + m = length (concat (map entry_wire (es @ [?t])))" "list_all entry_encodable (es @ [?t])"
        using Cons.prems(2,3) t by simp_all
      from Cons.IH [OF rec this le Cons.prems(5)] obtain k where k: "k \<le> length items"
        "es' = (es @ [?t]) @ map (typed_entry st ex plus_form) (take k items)"
        "truncated = (k < length items)" "list_all entry_encodable es'"
        "el - 4 + length (concat (map entry_wire es')) \<le> wl"
        by blast
      show ?thesis by (rule exI [of _ "Suc k"]) (use k in simp)
    qed
  qed
qed

lemma readdir_wire_length:
  "length (readdir_wire (ReadDir_Ok a v es eof)) =
     length (readdir_wire (ReadDir_Ok a v [] eof')) + length (concat (map entry_wire es))"
  by (simp add: size_simps)

lemma typed_readdir_reply:
  "typed_nfs_reply xid encode_readdir_result result = Inr bs \<Longrightarrow>
   bs = accepted_reply_encoder xid SUCCESS @ readdir_wire result"
  by (auto simp: typed_nfs_reply_def dest: put_readdir.put_sound)

text \<open>What \<open>readdir_reply\<close> answers: the listing that fits, or \<open>TooSmall\<close>.\<close>

lemma readdir_reply_cases:
  assumes "readdir_reply xid st ex plus_form attrs page (dl, wl) = Inr bs" and wl: "wl < usize_bound - 1"
  obtains
    (small) "bs = accepted_reply_encoder xid SUCCESS @ readdir_wire (ReadDir_Err Nfs_TooSmall attrs)"
  | (listing) a k where "a = attrs \<or> a = None" "k \<le> length (page_entries page)"
      "page_entries page \<noteq> [] \<Longrightarrow> 0 < k"
      "length (readdir_wire (ReadDir_Ok a (page_verifier page)
         (map (typed_entry st ex plus_form) (take k (page_entries page)))
         (page_eof page \<and> k = length (page_entries page)))) \<le> wl + 4"
      "bs = accepted_reply_encoder xid SUCCESS @ readdir_wire (ReadDir_Ok a (page_verifier page)
         (map (typed_entry st ex plus_form) (take k (page_entries page)))
         (page_eof page \<and> k = length (page_entries page)))"
proof -
  let ?v = "page_verifier page"
  define size_of where "size_of a = encoded_len encode_readdir_result (ReadDir_Ok a ?v [] False)" for a
  define chosen where "chosen n = (if wl < saturating_sub n 4
    then r_bind (size_of None) (\<lambda>n. Inr (None, n)) else Inr (attrs, n))" for n
  define answer where "answer a el = (if wl < saturating_sub el 4
    then typed_nfs_reply xid encode_readdir_result (ReadDir_Err Nfs_TooSmall attrs)
    else r_bind (select_entries st ex plus_form dl wl el (page_entries page) [] 0 0) (\<lambda>(es, truncated).
      if page_entries page \<noteq> [] \<and> truncated \<and> es = []
      then typed_nfs_reply xid encode_readdir_result (ReadDir_Err Nfs_TooSmall attrs)
      else typed_nfs_reply xid encode_readdir_result
        (ReadDir_Ok a ?v es (page_eof page \<and> \<not> truncated))))" for a el
  have run: "readdir_reply xid st ex plus_form attrs page (dl, wl) =
      r_bind (size_of attrs) (\<lambda>n. r_bind (chosen n) (\<lambda>(a, el). answer a el))"
    unfolding readdir_reply_def Let_def prod.case size_of_def chosen_def answer_def ..
  obtain n a el where n: "size_of attrs = Inr n" and a: "chosen n = Inr (a, el)" and rest: "answer a el = Inr bs"
    using assms(1) unfolding run by auto
  have el: "(a = attrs \<or> a = None) \<and> el = length (readdir_wire (ReadDir_Ok a ?v [] False))"
    using n a by (auto simp: chosen_def size_of_def dest!: encoded_len_readdir split: if_splits)
  show thesis
  proof (cases "wl < saturating_sub el 4")
    case True
    show thesis by (rule small, rule typed_readdir_reply) (use rest True in \<open>simp add: answer_def\<close>)
  next
    case False
    then obtain es truncated where sel:
      "select_entries st ex plus_form dl wl el (page_entries page) [] 0 0 = Inr (es, truncated)"
      using rest by (auto simp: answer_def)
    have fit: "el - 4 + 0 \<le> wl" using False by (simp add: saturating_sub_def)
    obtain k where k: "k \<le> length (page_entries page)"
      "es = map (typed_entry st ex plus_form) (take k (page_entries page))"
      "truncated = (k < length (page_entries page))" "el - 4 + length (concat (map entry_wire es)) \<le> wl"
      using select_entries_prefix [OF sel _ _ fit wl] by auto
    show thesis
    proof (cases "page_entries page \<noteq> [] \<and> truncated \<and> es = []")
      case True
      show thesis
        by (rule small, rule typed_readdir_reply) (use False rest sel True in \<open>simp add: answer_def\<close>)
    next
      case some: False
      have eof: "(page_eof page \<and> \<not> truncated) = (page_eof page \<and> k = length (page_entries page))"
        using k(1,3) by auto
      have bs: "bs = accepted_reply_encoder xid SUCCESS @ readdir_wire
          (ReadDir_Ok a ?v es (page_eof page \<and> k = length (page_entries page)))"
        unfolding eof [symmetric]
        by (rule typed_readdir_reply) (use False rest sel some in \<open>auto simp: answer_def\<close>)
      have "length (readdir_wire (ReadDir_Ok a ?v es (page_eof page \<and> k = length (page_entries page)))) \<le> wl + 4"
        using k(4) el by (simp add: size_simps)
      moreover have "page_entries page \<noteq> [] \<Longrightarrow> 0 < k" using some k(2,3) by (cases k) auto
      ultimately show thesis using listing [of a k] el k(1,2) bs by blast
    qed
  qed
qed

lemma good_readdir_reply:
  assumes "wl < usize_bound - 1"
  shows "good_reply xid (max 92 (wl + 4)) (readdir_reply xid st ex plus_form attrs page (dl, wl))"
  unfolding good_reply_def
proof (intro allI impI)
  fix bs assume "readdir_reply xid st ex plus_form attrs page (dl, wl) = Inr bs"
  then show "\<exists>body. bs = accepted_reply_encoder xid SUCCESS @ body \<and> length body \<le> max 92 (wl + 4)"
    using length_post_wire [of attrs]
    by (cases rule: readdir_reply_cases [OF _ assms, case_names run small listing])
      (auto simp del: readdir_wire.simps(1))
qed

lemma good_readdir:
  "good_reply xid (max 92 (unat (sl_max_readdir_response_size (cs_limits st)) + 4))
     (fst (nfs_readdir xid a c st vfs s))"
  "good_reply xid (max 92 (unat (sl_max_readdir_response_size (cs_limits st)) + 4))
     (fst (nfs_readdirplus xid b c st vfs s))"
proof -
  have le: "unat (min n (sl_max_readdir_response_size (cs_limits st))) < usize_bound - 1 \<and>
      max 92 (unat (min n (sl_max_readdir_response_size (cs_limits st))) + 4)
        \<le> max 92 (unat (sl_max_readdir_response_size (cs_limits st)) + 4)" for n :: u32
    using unat_u32_less [of "min n (sl_max_readdir_response_size (cs_limits st))"]
    by (auto simp: min_def word_le_nat_alt)
  have post: "length (post_wire None) \<le> 88" by (rule length_post_wire)
  note reply = good_reply_mono [OF good_readdir_reply [OF le [THEN conjunct1]] le [THEN conjunct2]]
  show "good_reply xid (max 92 (unat (sl_max_readdir_response_size (cs_limits st)) + 4))
     (fst (nfs_readdir xid a c st vfs s))"
    "good_reply xid (max 92 (unat (sl_max_readdir_response_size (cs_limits st)) + 4))
     (fst (nfs_readdirplus xid b c st vfs s))"
    using post
    by (simp_all add: nfs_readdir_def nfs_readdirplus_def good_replies reply Let_def le_max_iff_disj
        split: sum.split prod.split)
qed

section \<open>Lemmas on READ\<close>

lemma read_success_reply_Inr:
  assumes "read_success_reply xid attrs data eof = Inr r"
  shows "\<exists>reply. r = Some reply \<and> reply_ok reply \<and>
    reply_into_bytes reply = accepted_reply_encoder xid SUCCESS @ be32 0 @ post_wire attrs @
      be32 (of_nat (length data)) @ bool_bytes eof @ opaque_bytes data \<and>
    length data \<le> u32_max \<and> post_encodable attrs"
proof -
  let ?prefix = "accepted_reply_encoder xid SUCCESS @ be32 0 @ post_wire attrs @
    be32 (of_nat (length data)) @ bool_bytes eof @ be32 (of_nat (length data))"
  have len: "length data \<le> u32_max" and enc: "post_encodable attrs"
    and r: "r = reply_segmented ?prefix data (xdr_padding (length data))"
    using assms by (auto simp: read_success_reply_def Let_def codec_simps write_simps bool_bytes_def xdr_padding_def
        split: if_splits)
  have bound: "length ?prefix + length data + xdr_padding (length data) < usize_bound" "xdr_padding (length data) \<le> 3"
    using len length_post_wire [of attrs] xdr_padding_less [of "length data"] by (simp_all add: size_simps)
  then obtain reply where reply: "r = Some reply"
    "reply_into_bytes reply = ?prefix @ data @ take (xdr_padding (length data)) XDR_PADDING"
    using r reply_segmented_Some [of ?prefix data "xdr_padding (length data)"] by (auto simp: reply_into_bytes_def)
  moreover have "reply_ok reply" using r reply(1) by (metis reply_segmented_ok)
  ultimately have reply: "r = Some reply" "reply_ok reply"
    "reply_into_bytes reply = ?prefix @ data @ take (xdr_padding (length data)) XDR_PADDING" by blast+
  have "take n [0, 0, 0 :: u8] = replicate n 0" if "n \<le> 3" for n
    using that by (auto simp: le_Suc_eq numeral_3_eq_3 numeral_2_eq_2)
  then show ?thesis using reply bound(2) len enc by (simp add: XDR_PADDING_def opaque_bytes_def)
qed

section \<open>Lemmas on handles\<close>

lemma decode_object_Inr:
  assumes "codec_ok (cs_handles st)"
  shows "decode_object h st e = Inr ob \<longleftrightarrow> h = handle_encode (cs_handles st) e ob"
  by (simp add: decode_object_def handle_decode_Inr [OF assms])

lemma foreign_handle:
  assumes "codec_ok (cs_handles st)" and "\<And>ob. h \<noteq> handle_encode (cs_handles st) e ob"
  shows "\<exists>status. decode_object h st e = Inl status"
  using decode_object_Inr [OF assms(1), of h e] assms(2) by (cases "decode_object h st e") auto

lemma snd_into_result [simp]: "snd (into_result cap r) = snd r"
  by (simp add: into_result_def split: prod.split)

lemma into_result_Inr:
  "into_result cap r = (Inr reply, s') \<longleftrightarrow> (\<exists>bs. r = (Inr bs, s') \<and> reply = into_reply cap bs)"
  by (cases r) (auto simp: into_result_def)

text \<open>A procedure that answers with a bounded reply answers with one of bounded length.\<close>

lemma good_into_result:
  assumes "good_reply xid n (fst r)" and "into_result cap r = (Inr reply, s')"
  shows "reply_len reply \<le> 24 + n"
  using assms by (auto simp: into_result_Inr good_reply_def size_simps)

text \<open>What READ answers: an error arm, or a prefix of the backend's data.\<close>

lemma dispatch_read_cases:
  assumes run: "dispatch_read cap xid a c st vfs s = (Inr reply, s')"
    and count_def: "count = min (rda_count a) (sl_max_read_size (cs_limits st))"
  obtains
    (failed) bs where "reply = into_reply cap bs" "good_reply xid 92 (Inr bs :: ServerError + bytes)"
  | (data) object result where "decode_object (rda_object a) st (ctx_export_id c) = Inr object"
      "vfs_read_bytes vfs c object (rda_offset a) count s = (Inr result, s')"
      "read_success_reply xid (vr_attributes result) (take (unat count) (vr_data result)) (vr_eof result) =
        Inr (Some reply)"
proof (cases "decode_object (rda_object a) st (ctx_export_id c)")
  case (Inl status)
  then obtain bs where bs: "status_reply xid encode_read_result (\<lambda>status. Read_Err status None) status = Inr bs"
    "reply = into_reply cap bs"
    using run by (auto simp: dispatch_read_def)
  moreover have "good_reply xid 92 (status_reply xid encode_read_result (\<lambda>status. Read_Err status None) status)"
    by (simp add: good_replies)
  ultimately show thesis using failed [of bs] by simp
next
  case (Inr object)
  obtain res s1 where call: "vfs_read_bytes vfs c object (rda_offset a) count s = (res, s1)" by fastforce
  show thesis
  proof (cases res)
    case (Inl e)
    then obtain bs where bs: "nfs_reply xid encode_read_result (Read_Err (nfs_status_of_error e) None) = Inr bs"
      "reply = into_reply cap bs"
      using run Inr call by (auto simp: dispatch_read_def count_def Let_def)
    moreover have "good_reply xid 92 (nfs_reply xid encode_read_result (Read_Err (nfs_status_of_error e) None))"
      by (simp add: good_replies)
    ultimately show thesis using failed [of bs] by simp
  next
    case result: (Inr result)
    have "(if unat count < length d then take (unat count) d else d) = take (unat count) d" for d :: bytes by simp
    then have "read_success_reply xid (vr_attributes result) (take (unat count) (vr_data result)) (vr_eof result) =
        Inr (Some reply)" "s1 = s'"
      using run Inr call result
      by (simp_all add: dispatch_read_def count_def [symmetric] Let_def split: sum.splits option.splits)
    then show thesis using data Inr call result by blast
  qed
qed

lemma dispatch_read_bound:
  assumes "dispatch_read cap xid a c st vfs s = (Inr reply, s')"
  shows "reply_len reply \<le> unat (sl_max_read_size (cs_limits st)) + MAXIMUM_READ_REPLY_OVERHEAD"
proof (cases rule: dispatch_read_cases [OF assms refl, case_names failed data])
  case (failed bs)
  then show ?thesis by (auto simp: good_reply_def size_simps limit_sizes)
next
  case (data object result)
  let ?count = "min (rda_count a) (sl_max_read_size (cs_limits st))"
  let ?data = "take (unat ?count) (vr_data result)"
  have "length ?data \<le> unat ?count" by simp
  also have "unat ?count \<le> unat (sl_max_read_size (cs_limits st))" by (simp add: word_le_nat_alt [symmetric])
  finally have "length ?data \<le> unat (sl_max_read_size (cs_limits st))" .
  moreover from read_success_reply_Inr [OF data(3)]
  have "reply_len reply \<le> 24 + 4 + 88 + 4 + 4 + (4 + length ?data + xdr_padding (length ?data))"
    using length_post_wire [of "vr_attributes result"] length_reply_into_bytes [of reply]
    by (auto simp: size_simps)
  ultimately show ?thesis using xdr_padding_less [of "length ?data"] by (simp add: limit_sizes)
qed

lemma nfs_procedure_bound:
  assumes codec: "codec_ok (cs_handles st)" and "\<And>a. arguments \<noteq> Arg_ReadLink a"
    and run: "nfs_procedure cap xid arguments c st vfs s = (Inr reply, s')"
  shows "reply_len reply \<le> 304 \<or>
    reply_len reply \<le> unat (sl_max_read_size (cs_limits st)) + MAXIMUM_READ_REPLY_OVERHEAD \<or>
    reply_len reply \<le> unat (sl_max_readdir_response_size (cs_limits st)) + READDIR_REPLY_OVERHEAD"
proof -
  have small: "reply_len reply \<le> 304" if "good_reply xid 280 (fst r)" "into_result cap r = (Inr reply, s')" for r
    using good_into_result [OF that] by simp
  have listing: ?thesis if "into_result cap r = (Inr reply, s')"
    "good_reply xid (max 92 (unat (sl_max_readdir_response_size (cs_limits st)) + 4)) (fst r)" for r
    using good_into_result [OF that(2,1)] by (auto simp: limit_sizes max_def split: if_splits)
  show ?thesis
    using run assms(2) codec dispatch_read_bound
    by (cases arguments)
      (auto simp: size_simps dest: small [rotated] listing
        intro: good_getattr good_setattr good_lookup good_access good_write good_create good_removal good_rename
          good_link good_filesystem good_commit good_readdir)
qed

lemma dispatch_nfs_unfold:
  "dispatch_nfs cap xid procedure args context state s =
     (if 21 < procedure then (Inr (into_reply cap (accepted_reply xid PROC_UNAVAIL [])), s)
      else
        (case nfs_arguments_decode procedure args (sl_max_rpc_record_size (cs_limits state)) of
           Inl error \<Rightarrow> (Inl (SE_Decode error), s)
         | Inr arguments \<Rightarrow>
             if arguments = Arg_Null then (Inr (into_reply cap (accepted_reply xid SUCCESS [])), s)
             else
               (case find_export state (ctx_export_id context) of
                  None \<Rightarrow> (bad_handle_reply cap xid procedure, s)
                | Some export \<Rightarrow> nfs_procedure cap xid arguments context state (ex_vfs export) s)))"
proof (cases "procedure = 7")
  case True
  have "nfs_arguments_decode 7 args l = (case decode_all (decode_write_args l) args of
      Inl e \<Rightarrow> Inl e | Inr a \<Rightarrow> Inr (Arg_Write a))" for l
    by (simp add: nfs_arguments_decode_def read_nfs_arguments_def decode_all_def d_map_def d_bind_def d_return_def
        dec_finish_def split: sum.split prod.split)
  then show ?thesis
    using write_request_decode_eq [of args "sl_max_rpc_record_size (cs_limits state)"] True
    by (simp add: dispatch_nfs_def split: sum.split option.split)
next
  case False
  then show ?thesis by (simp add: dispatch_nfs_def)
qed

lemma sample_state_simps [simp]:
  "cs_handles sample_state = sample_codec" "cs_limits sample_state = production_defaults"
  "ctx_export_id sample_context = 1"
  by (simp_all add: sample_state_def sample_context_def)

lemma sample_root_handle: "decode_object (handle_encode sample_codec 1 sample_object) sample_state 1 = Inr sample_object"
  by (simp add: decode_object_Inr sample_codec_ok)

section \<open>Properties\<close>

text \<open>
  C26: the backend is out of reach of a foreign handle.  If any file handle of a request is not one
  that this server issued for the export the request is served under, then the procedure leaves
  the backend exactly as it was: the request ends with an error before the backend is called.
\<close>

theorem foreign_handle_leaves_backend:
  assumes "codec_ok (cs_handles state)" and "h \<in> set (args_handles arguments)"
    and "\<forall>object. h \<noteq> handle_encode (cs_handles state) (ctx_export_id context) object"
  shows "snd (nfs_procedure vec_capacity xid arguments context state vfs s) = s"
proof -
  obtain status where "decode_object h state (ctx_export_id context) = Inl status"
    using foreign_handle [OF assms(1)] assms(3) by blast
  then show ?thesis
    using assms(2)
    by (cases arguments)
      (auto simp: nfs_getattr_def nfs_setattr_def nfs_lookup_def nfs_access_def nfs_readlink_def dispatch_read_def
        dispatch_write_def write_request_of_args_def nfs_create_def nfs_mkdir_def nfs_symlink_def nfs_mknod_def
        nfs_remove_def nfs_rmdir_def nfs_rename_def nfs_link_def nfs_readdir_def nfs_readdirplus_def nfs_fsstat_def
        nfs_fsinfo_def nfs_pathconf_def nfs_commit_def decode_directory_operation_def split: sum.split prod.split)
qed

theorem foreign_handle_leaves_backend_witness:
  "snd (nfs_procedure (\<lambda>b. length b) 9
      (Arg_Remove \<lparr>doa_directory = handle_encode sample_codec 2 sample_object, doa_name = [97]\<rparr>)
      sample_context sample_state sample_vfs 0) = 0 \<and>
   snd (nfs_procedure (\<lambda>b. length b) 9
      (Arg_Remove \<lparr>doa_directory = handle_encode sample_codec 1 sample_object, doa_name = [97]\<rparr>)
      sample_context sample_state sample_vfs 0) = 1"
proof -
  have "handle_encode sample_codec 2 sample_object \<noteq> handle_encode sample_codec 1 ob" for ob
    by (simp add: handle_encode_def Let_def)
  then show ?thesis
    using foreign_handle_leaves_backend [of sample_state "handle_encode sample_codec 2 sample_object"
        "Arg_Remove \<lparr>doa_directory = handle_encode sample_codec 2 sample_object, doa_name = [97]\<rparr>" sample_context
        "\<lambda>b. length b" 9 sample_vfs 0]
    by (simp add: sample_codec_ok nfs_remove_def decode_directory_operation_def sample_root_handle nfs_name_new_def
        NFS_NAME_MAX_LEN_def sample_vfs_def into_result_def)
qed

text \<open>
  C27: every reply can be delivered.  With validated limits, the reply of every procedure but READLINK
  (whose path the backend chooses) passes the check that precedes sending it, whatever the backend
  answered.  In particular no mutation is executed whose reply is then thrown away.
\<close>

theorem replies_deliverable:
  assumes "limits_validate max_permits (cs_limits state) = Inr ()" and "codec_ok (cs_handles state)"
    and "\<forall>a. arguments \<noteq> Arg_ReadLink a"
    and "nfs_procedure vec_capacity xid arguments context state vfs s = (Inr reply, s')"
  shows "validate_record_length (reply_len reply) (record_limits (cs_limits state)) = Inr ()"
proof -
  have "reply_len reply \<le> transport_record_capacity (cs_limits state)"
    using nfs_procedure_bound [OF assms(2) _ assms(4)] assms(3) transport_carries [OF assms(1)]
    by (auto simp: MAXIMUM_MUTATION_REPLY_SIZE_def)
  then show ?thesis by (rule fits_transport [OF assms(1)])
qed

theorem replies_deliverable_witness:
  "\<exists>reply. nfs_procedure (\<lambda>b. length b) 9
      (Arg_Remove \<lparr>doa_directory = handle_encode sample_codec 1 sample_object, doa_name = [97]\<rparr>)
      sample_context sample_state sample_vfs 0 = (Inr reply, 1) \<and>
    validate_record_length (reply_len reply) (record_limits production_defaults) = Inr ()"
proof -
  have "\<exists>reply. nfs_procedure (\<lambda>b. length b) 9
      (Arg_Remove \<lparr>doa_directory = handle_encode sample_codec 1 sample_object, doa_name = [97]\<rparr>)
      sample_context sample_state sample_vfs 0 = (Inr reply, 1)"
    by (simp add: nfs_remove_def decode_directory_operation_def sample_root_handle nfs_name_new_def
        NFS_NAME_MAX_LEN_def sample_vfs_def into_result_def mutation_void_reply_def typed_nfs_reply_def wcc_of_def
        codec_simps wcc_encodable_def post_encodable_def)
  then obtain reply where run: "nfs_procedure (\<lambda>b. length b) 9
      (Arg_Remove \<lparr>doa_directory = handle_encode sample_codec 1 sample_object, doa_name = [97]\<rparr>)
      sample_context sample_state sample_vfs 0 = (Inr reply, 1)" by blast
  from replies_deliverable [OF _ _ _ run] production_defaults_valid sample_codec_ok run
  show ?thesis by auto
qed

text \<open>
  C28: a directory listing makes progress and fits.  When \<open>readdir_reply\<close> answers, the reply is either
  \<open>TooSmall\<close> or a success whose listing is a prefix of the backend's page, in its order, within the
  limit (the status word does not count); the prefix is not empty unless the page is, and the end of
  the directory is reported only if the backend reported it and nothing was cut.
\<close>

theorem readdir_reply_listing:
  assumes "readdir_reply xid state export_id plus_form attributes page (directory_limit, wire_limit) = Inr bytes"
    and "wire_limit < usize_bound - 1"
  shows "bytes = accepted_reply_encoder xid SUCCESS @ readdir_wire (ReadDir_Err Nfs_TooSmall attributes) \<or>
    (\<exists>a k result. result = ReadDir_Ok a (page_verifier page)
        (map (typed_entry state export_id plus_form) (take k (page_entries page)))
        (page_eof page \<and> k = length (page_entries page)) \<and>
      (a = attributes \<or> a = None) \<and> k \<le> length (page_entries page) \<and> (page_entries page = [] \<or> 0 < k) \<and>
      bytes = accepted_reply_encoder xid SUCCESS @ readdir_wire result \<and>
      length (readdir_wire result) \<le> wire_limit + 4)"
proof (cases rule: readdir_reply_cases [OF assms, case_names small listing])
  case (listing a k)
  then show ?thesis by blast
qed simp

theorem readdir_reply_listing_witness:
  "\<exists>bytes. readdir_reply 9 sample_state 1 False None sample_page (None, 60) = Inr bytes \<and>
    (bytes = accepted_reply_encoder 9 SUCCESS @ readdir_wire (ReadDir_Err Nfs_TooSmall None) \<or>
     (\<exists>a k. bytes = accepted_reply_encoder 9 SUCCESS @ readdir_wire (ReadDir_Ok a (page_verifier sample_page)
        (map (typed_entry sample_state 1 False) (take k (page_entries sample_page)))
        (page_eof sample_page \<and> k = length (page_entries sample_page))) \<and> 0 < k))"
proof -
  have "\<not> isl (readdir_reply 9 sample_state 1 False None sample_page (None, 60))"
    by code_simp
  then obtain bytes where run: "readdir_reply 9 sample_state 1 False None sample_page (None, 60) = Inr bytes"
    by (cases "readdir_reply 9 sample_state 1 False None sample_page (None, 60)") auto
  have "page_entries sample_page \<noteq> []" by (simp add: sample_page_def)
  with readdir_reply_listing [OF run] run show ?thesis by auto
qed

text \<open>
  The segmented READ reply is the typed one.  The reply that READ sends in segments, without
  copying the data, consists of the bytes that the result encoder writes for the same answer; it
  fails whenever the encoder fails; and the length bookkeeping of a segmented reply never panics.
\<close>

theorem read_success_reply_equiv:
  "case read_success_reply xid attributes data eof of
     Inl _ \<Rightarrow> (\<exists>e. typed_nfs_reply xid encode_read_result (Read_Ok attributes data eof) = Inl e)
   | Inr r \<Rightarrow> (\<exists>reply. r = Some reply \<and> reply_ok reply \<and>
       typed_nfs_reply xid encode_read_result (Read_Ok attributes data eof) = Inr (concat (reply_segments reply)))"
proof (cases "read_success_reply xid attributes data eof")
  case (Inl e)
  have "length data \<le> u32_max \<and> post_encodable attributes"
    if "typed_nfs_reply xid encode_read_result (Read_Ok attributes data eof) = Inr bs" for bs
    using that by (auto simp: typed_nfs_reply_def codec_simps Let_def split: if_splits)
  moreover have "encode_post_attributes attributes p = Inr (p @ post_wire attributes)"
    if "post_encodable attributes" for p
    using that by (simp add: codec_simps)
  then have "\<not> (length data \<le> u32_max \<and> post_encodable attributes)"
    using Inl by (auto simp: read_success_reply_def Let_def)
  ultimately show ?thesis
    using Inl by (cases "typed_nfs_reply xid encode_read_result (Read_Ok attributes data eof)") auto
next
  case (Inr r)
  obtain reply where reply: "r = Some reply" "reply_ok reply"
    "reply_into_bytes reply = accepted_reply_encoder xid SUCCESS @ be32 0 @ post_wire attributes @
      be32 (of_nat (length data)) @ bool_bytes eof @ opaque_bytes data"
    "length data \<le> u32_max" "post_encodable attributes"
    using read_success_reply_Inr [OF Inr] by blast
  have "length (post_wire attributes) \<le> 88" "xdr_padding (length data) < 4"
    by (rule length_post_wire, rule xdr_padding_less)
  then have "typed_nfs_reply xid encode_read_result (Read_Ok attributes data eof) = Inr (reply_into_bytes reply)"
    using reply(3-5) by (simp add: typed_nfs_reply_def codec_simps write_simps bool_bytes_def Let_def size_simps)
  then show ?thesis using Inr reply by (simp add: concat_reply_segments)
qed

text \<open>
  C29: what READ returns.  A successful READ answers with the first bytes of what the backend returned,
  at most the requested count and at most the configured size, with the backend's attributes and its
  end-of-file mark.  The mark is passed on as the backend set it, also when its data was cut.
\<close>

theorem read_returns_backend_data:
  assumes "dispatch_read vec_capacity xid arguments context state vfs s = (Inr reply, s')"
    and "decode_object (rda_object arguments) state (ctx_export_id context) = Inr object"
    and "vfs_read_bytes vfs context object (rda_offset arguments)
      (min (rda_count arguments) (sl_max_read_size (cs_limits state))) s = (Inr result, s1)"
  shows "s' = s1 \<and> (\<exists>data. data = take (min (unat (rda_count arguments)) (unat (sl_max_read_size (cs_limits state))))
      (vr_data result) \<and>
    concat (reply_segments reply) = accepted_reply_encoder xid SUCCESS @ be32 (nfs_status_code Nfs_Ok) @
      post_wire (vr_attributes result) @ be32 (of_nat (length data)) @ bool_bytes (vr_eof result) @
      opaque_bytes data)"
proof -
  let ?count = "min (rda_count arguments) (sl_max_read_size (cs_limits state))"
  have count: "unat ?count = min (unat (rda_count arguments)) (unat (sl_max_read_size (cs_limits state)))"
    by (simp add: min_def word_le_nat_alt)
  have "(if unat ?count < length d then take (unat ?count) d else d) = take (unat ?count) d" for d :: bytes by simp
  then have "read_success_reply xid (vr_attributes result) (take (unat ?count) (vr_data result)) (vr_eof result) =
      Inr (Some reply)" "s' = s1"
    using assms by (simp_all add: dispatch_read_def Let_def split: sum.splits option.splits)
  with read_success_reply_Inr [OF this(1)] show ?thesis by (simp add: concat_reply_segments count)
qed

theorem read_returns_backend_data_witness:
  "\<exists>reply. dispatch_read (\<lambda>b. length b) 9
      \<lparr>rda_object = handle_encode sample_codec 1 sample_object, rda_offset = 0, rda_count = 3\<rparr>
      sample_context sample_state sample_vfs 0 = (Inr reply, 0) \<and>
    concat (reply_segments reply) = accepted_reply_encoder 9 SUCCESS @ be32 0 @ post_wire None @ be32 3 @
      bool_bytes True @ opaque_bytes [1, 2, 3]"
proof -
  let ?a = "\<lparr>rda_object = handle_encode sample_codec 1 sample_object, rda_offset = 0, rda_count = 3\<rparr>"
  have "\<exists>reply. dispatch_read (\<lambda>b. length b) 9 ?a sample_context sample_state sample_vfs 0 = (Inr reply, 0)"
    by (simp add: dispatch_read_def sample_root_handle sample_vfs_def production_defaults_def min_def
        read_success_reply_def Let_def encode_post_attributes_def reply_segmented_def XDR_PADDING_def checked_add_def
        write_simps size_simps)
  then obtain reply where run:
    "dispatch_read (\<lambda>b. length b) 9 ?a sample_context sample_state sample_vfs 0 = (Inr reply, 0)" by blast
  have "decode_object (rda_object ?a) sample_state (ctx_export_id sample_context) = Inr sample_object"
    by (simp add: sample_root_handle)
  from read_returns_backend_data [OF run this, of
      "\<lparr>vr_data = [1, 2, 3, 4, 5], vr_eof = True, vr_attributes = None\<rparr>" 0] run
  show ?thesis by (simp add: sample_vfs_def production_defaults_def)
qed



text \<open>
  The WRITE fast path changes nothing.  Procedure 7 is decoded by a decoder that borrows the data
  from the record; the dispatcher answers every call as if all procedures went through the common
  argument decoder.
\<close>

theorem dispatch_nfs_uniform:
  "dispatch_nfs cap xid procedure args context state s =
     (if 21 < procedure then (Inr (into_reply cap (accepted_reply xid PROC_UNAVAIL [])), s)
      else
        (case nfs_arguments_decode procedure args (sl_max_rpc_record_size (cs_limits state)) of
           Inl error \<Rightarrow> (Inl (SE_Decode error), s)
         | Inr arguments \<Rightarrow>
             if arguments = Arg_Null then (Inr (into_reply cap (accepted_reply xid SUCCESS [])), s)
             else
               (case find_export state (ctx_export_id context) of
                  None \<Rightarrow> (bad_handle_reply cap xid procedure, s)
                | Some export \<Rightarrow> nfs_procedure cap xid arguments context state (ex_vfs export) s)))"
  by (rule dispatch_nfs_unfold)

text \<open>
  The two error tables agree.  The status code that a failed name check puts on the wire, after
  the way back through the numeric code, is the status that the typed conversion gives the same error.
\<close>

theorem error_tables_agree: "wire_nfs_status (nfs_status e) = Inr (nfs_status_of_error e)"
  by (cases e) (simp_all add: wire_nfs_status_def nfs_status_from_code_def)

text \<open>
  FSINFO advertises only what the server accepts.  The transfer sizes in the answer are within
  the server's limits, the preferred sizes and multiples within the maxima, never above what the
  backend offered, and the property bits are exactly those of the backend's capabilities.
\<close>

theorem fsinfo_within_limits:
  "let info' = clamp_fsinfo limits info in
     fi_max_read info' \<le> sl_max_read_size limits \<and> fi_max_read info' \<le> fi_max_read info \<and>
     fi_preferred_read info' \<le> fi_max_read info' \<and> fi_read_multiple info' \<le> fi_max_read info' \<and>
     fi_max_write info' \<le> sl_max_write_size limits \<and> fi_max_write info' \<le> fi_max_write info \<and>
     fi_preferred_write info' \<le> fi_max_write info' \<and> fi_write_multiple info' \<le> fi_max_write info' \<and>
     fi_preferred_readdir info' \<le> sl_max_readdir_response_size limits \<and>
     fi_max_file_size info' = fi_max_file_size info \<and>
     bit (fsinfo_properties caps) 0 = cap_hard_links caps \<and>
     bit (fsinfo_properties caps) 1 = cap_symbolic_links caps \<and>
     bit (fsinfo_properties caps) 3 = cap_homogeneous caps \<and>
     bit (fsinfo_properties caps) 4 = cap_can_set_time caps"
  by (simp add: clamp_fsinfo_def fsinfo_properties_def Let_def bit_simps min_le_iff_disj)

end
