(* ===== verification/Rust_Strings.thy ===== *)
theory Rust_Strings
  imports Nfs_Prelude "HOL-Library.Sublist"
begin

text \<open>
  What the source uses of the standard library's slices and strings: splitting at a separator,
  stripping a prefix, trimming, the UTF-8 encoding, and the decimal form of an integer.

  A \<open>str\<close> is the list of its Unicode scalar values; its bytes are their UTF-8 encoding.
\<close>

section \<open>Slices\<close>

text \<open>\<open>slice::split\<close> at a slash, and \<open>strip_prefix\<close>.\<close>

fun split_slash :: "bytes \<Rightarrow> bytes list" where
  "split_slash [] = [[]]"
| "split_slash (b # bs) =
     (if b = 47 then [] # split_slash bs
      else case split_slash bs of c # cs \<Rightarrow> (b # c) # cs | [] \<Rightarrow> [[b]])"

definition strip_prefix :: "'a list \<Rightarrow> 'a list \<Rightarrow> 'a list option" where
  "strip_prefix p bs = (if prefix p bs then Some (drop (length p) bs) else None)"

text \<open>\<open>str::trim_start_matches\<close> and \<open>str::trim_end_matches\<close> with a character predicate.\<close>

definition trim_start_matches :: "('a \<Rightarrow> bool) \<Rightarrow> 'a list \<Rightarrow> 'a list" where
  "trim_start_matches p s = dropWhile p s"

definition trim_end_matches :: "('a \<Rightarrow> bool) \<Rightarrow> 'a list \<Rightarrow> 'a list" where
  "trim_end_matches p s = rev (dropWhile p (rev s))"

section \<open>Strings\<close>

type_synonym str = "nat list"

definition is_whitespace :: "nat \<Rightarrow> bool" where
  "is_whitespace c \<longleftrightarrow> 9 \<le> c \<and> c \<le> 13 \<or> c = 32 \<or> c = 0x85 \<or> c = 0xA0 \<or> c = 0x1680 \<or>
     0x2000 \<le> c \<and> c \<le> 0x200A \<or> c = 0x2028 \<or> c = 0x2029 \<or> c = 0x202F \<or> c = 0x205F \<or> c = 0x3000"

definition str_trim :: "str \<Rightarrow> str" where
  "str_trim s = trim_end_matches is_whitespace (trim_start_matches is_whitespace s)"

text \<open>\<open>str::split_once\<close> at a character.\<close>

fun split_once :: "'a \<Rightarrow> 'a list \<Rightarrow> ('a list \<times> 'a list) option" where
  "split_once c [] = None"
| "split_once c (x # xs) =
     (if x = c then Some ([], xs) else map_option (\<lambda>(a, b). (x # a, b)) (split_once c xs))"

text \<open>\<open>parse::<u16>\<close>: an optional plus sign and at least one decimal digit, below the bound.\<close>

definition digit_value :: "nat \<Rightarrow> nat option" where
  "digit_value c = (if 48 \<le> c \<and> c \<le> 57 then Some (c - 48) else None)"

fun parse_digits :: "nat \<Rightarrow> str \<Rightarrow> nat option" where
  "parse_digits acc [] = Some acc"
| "parse_digits acc (c # cs) =
     (case digit_value c of
        None \<Rightarrow> None
      | Some d \<Rightarrow> if 10 * acc + d < 65536 then parse_digits (10 * acc + d) cs else None)"

definition parse_u16 :: "str \<Rightarrow> u16 option" where
  "parse_u16 s =
     (let ds = (case s of c # cs \<Rightarrow> if c = 43 then cs else s | [] \<Rightarrow> s) in
      if ds = [] then None else map_option of_nat (parse_digits 0 ds))"

text \<open>\<open>to_string\<close> of an unsigned integer.\<close>

fun decimal :: "nat \<Rightarrow> str" where
  "decimal n = (if n < 10 then [48 + n] else decimal (n div 10) @ [48 + n mod 10])"

declare decimal.simps [simp del]

section \<open>UTF-8\<close>

definition scalar :: "nat \<Rightarrow> bool" where
  "scalar c \<longleftrightarrow> c < 0xD800 \<or> 0xE000 \<le> c \<and> c < 0x110000"

definition utf8_char :: "nat \<Rightarrow> bytes" where
  "utf8_char c =
     (if c < 0x80 then [of_nat c]
      else if c < 0x800 then [of_nat (0xC0 + c div 64), of_nat (0x80 + c mod 64)]
      else if c < 0x10000
      then [of_nat (0xE0 + c div 4096), of_nat (0x80 + c div 64 mod 64), of_nat (0x80 + c mod 64)]
      else [of_nat (0xF0 + c div 262144), of_nat (0x80 + c div 4096 mod 64),
            of_nat (0x80 + c div 64 mod 64), of_nat (0x80 + c mod 64)])"

definition as_bytes :: "str \<Rightarrow> bytes" where
  "as_bytes s = concat (map utf8_char s)"

definition continuation :: "u8 \<Rightarrow> nat option" where
  "continuation b = (if 0x80 \<le> unat b \<and> unat b < 0xC0 then Some (unat b - 0x80) else None)"

text \<open>
  \<open>str::from_utf8\<close>: the scalar values of a byte string, without overlong forms and surrogates.
\<close>

fun from_utf8 :: "bytes \<Rightarrow> str option" where
  "from_utf8 [] = Some []"
| "from_utf8 (a # bs) =
     (if unat a < 0x80 then map_option ((#) (unat a)) (from_utf8 bs)
      else if unat a < 0xC0 then None
      else if unat a < 0xE0 then
        (case bs of
           b # rest \<Rightarrow>
             (case continuation b of
                Some y \<Rightarrow>
                  (let c = (unat a - 0xC0) * 64 + y in
                   if 0x80 \<le> c then map_option ((#) c) (from_utf8 rest) else None)
              | None \<Rightarrow> None)
         | [] \<Rightarrow> None)
      else if unat a < 0xF0 then
        (case bs of
           b1 # b2 # rest \<Rightarrow>
             (case (continuation b1, continuation b2) of
                (Some x, Some y) \<Rightarrow>
                  (let c = (unat a - 0xE0) * 4096 + x * 64 + y in
                   if 0x800 \<le> c \<and> scalar c then map_option ((#) c) (from_utf8 rest) else None)
              | _ \<Rightarrow> None)
         | _ \<Rightarrow> None)
      else if unat a < 0xF8 then
        (case bs of
           b1 # b2 # b3 # rest \<Rightarrow>
             (case (continuation b1, continuation b2, continuation b3) of
                (Some w, Some x, Some y) \<Rightarrow>
                  (let c = (unat a - 0xF0) * 262144 + w * 4096 + x * 64 + y in
                   if 0x10000 \<le> c \<and> scalar c then map_option ((#) c) (from_utf8 rest) else None)
              | _ \<Rightarrow> None)
         | _ \<Rightarrow> None)
      else None)"

section \<open>Little-endian integers\<close>

definition le64 :: "u64 \<Rightarrow> bytes" where
  "le64 w = rev (be64 w)"

definition u64_of_le :: "bytes \<Rightarrow> u64" where
  "u64_of_le bs = u64_of_be (rev bs)"

section \<open>Lemmas\<close>

lemma split_slash_not_Nil: "split_slash bs \<noteq> []"
  by (induction bs) (auto split: list.split)

lemma split_slash_append: "split_slash (xs @ 47 # ys) = split_slash xs @ split_slash ys"
proof (induction xs)
  case (Cons b xs)
  then show ?case using split_slash_not_Nil [of xs] by (auto split: list.splits)
qed simp

lemma split_slash_component: "47 \<notin> set bs \<Longrightarrow> split_slash bs = [bs]"
  by (induction bs) auto

lemma length_le64 [simp]: "length (le64 w) = 8"
  by (simp add: le64_def)

lemma u64_of_le_le64 [simp]: "u64_of_le (le64 w) = w"
  by (simp add: u64_of_le_def le64_def)

lemma le64_u64_of_le: "length bs = 8 \<Longrightarrow> le64 (u64_of_le bs) = bs"
  by (simp add: u64_of_le_def le64_def be64_u64_of_be)

lemma le64_inject [simp]: "le64 v = le64 w \<longleftrightarrow> v = w"
  by (metis u64_of_le_le64)

lemma split_once_append: "c \<notin> set xs \<Longrightarrow> split_once c (xs @ c # ys) = Some (xs, ys)"
  by (induction xs) auto

lemma split_once_Some:
  "split_once c s = Some (a, b) \<longleftrightarrow> s = a @ c # b \<and> c \<notin> set a"
proof
  show "s = a @ c # b \<and> c \<notin> set a" if "split_once c s = Some (a, b)"
    using that by (induction c s arbitrary: a rule: split_once.induct) (auto split: if_splits)
qed (auto simp: split_once_append)

lemma unat_byte: "n < 256 \<Longrightarrow> unat (of_nat n :: u8) = n"
  by (simp add: unat_of_nat)

lemma unat_lead_byte:
  "n < 32 \<Longrightarrow> unat (0xC0 + of_nat n :: u8) = 0xC0 + n"
  "n < 16 \<Longrightarrow> unat (0xE0 + of_nat n :: u8) = 0xE0 + n"
  "n < 8 \<Longrightarrow> unat (0xF0 + of_nat n :: u8) = 0xF0 + n"
  "n < 64 \<Longrightarrow> unat (0x80 + of_nat n :: u8) = 0x80 + n"
  using unat_byte [of "0xC0 + n"] unat_byte [of "0xE0 + n"] unat_byte [of "0xF0 + n"] unat_byte [of "0x80 + n"]
  by simp_all

lemma continuation_byte: "n < 64 \<Longrightarrow> continuation (0x80 + of_nat n) = Some n"
  by (simp add: continuation_def unat_lead_byte)

lemmas from_utf8_Cons = from_utf8.simps(2)
declare from_utf8.simps(2) [simp del]

lemma from_utf8_char:
  assumes "scalar c"
  shows "from_utf8 (utf8_char c @ rest) = map_option ((#) c) (from_utf8 rest)"
proof -
  have "c div 4096 * 64 + c div 64 mod 64 = c div 64"
    using div_mult_mod_eq [of "c div 64" 64] by (simp add: div_mult2_eq [symmetric])
  then have sum3: "c div 4096 * 4096 + c div 64 mod 64 * 64 + c mod 64 = c"
    using div_mult_mod_eq [of c 64] by linarith
  have "c div 262144 * 64 + c div 4096 mod 64 = c div 4096"
    using div_mult_mod_eq [of "c div 4096" 64] by (simp add: div_mult2_eq [symmetric])
  then have sum4: "c div 262144 * 262144 + c div 4096 mod 64 * 4096 + c div 64 mod 64 * 64 + c mod 64 = c"
    using sum3 by linarith
  consider "c < 0x80" | "0x80 \<le> c" "c < 0x800" | "0x800 \<le> c" "c < 0x10000" | "0x10000 \<le> c" by linarith
  then show ?thesis
  proof cases
    case 1
    then show ?thesis by (simp add: utf8_char_def from_utf8_Cons unat_byte)
  next
    case 2
    then have "c div 64 < 32" by (simp add: less_mult_imp_div_less)
    with 2 show ?thesis
      by (simp add: utf8_char_def from_utf8_Cons [of "0xC0 + of_nat (c div 64)"] unat_lead_byte continuation_byte)
  next
    case 3
    then have "c div 4096 < 16" by (simp add: less_mult_imp_div_less)
    with 3 sum3 assms show ?thesis
      by (simp add: utf8_char_def from_utf8_Cons [of "0xE0 + of_nat (c div 4096)"] unat_lead_byte
          continuation_byte Let_def)
  next
    case 4
    have "c < 0x110000" using assms 4 by (auto simp: scalar_def)
    then have "c div 262144 < 5" by (simp add: less_mult_imp_div_less)
    with 4 sum4 assms show ?thesis
      by (simp add: utf8_char_def from_utf8_Cons [of "0xF0 + of_nat (c div 262144)"] unat_lead_byte
          continuation_byte Let_def)
  qed
qed

lemma from_utf8_as_bytes: "list_all scalar s \<Longrightarrow> from_utf8 (as_bytes s) = Some s"
  by (induction s) (simp_all add: as_bytes_def from_utf8_char)

end
