(* ===== verification/Mount.thy ===== *)
theory Mount
  imports Nfs_Procedures Rust_Strings
begin

text \<open>
  The MOUNT protocol: its types and result encoders (\<^verbatim>\<open>src/mount3/types.rs\<close>, \<^verbatim>\<open>src/mount3/codec.rs\<close>),
  the matching of export paths (\<^verbatim>\<open>src/mount3/dispatch.rs\<close>) and the service itself, \<open>dispatch_mount\<close> of
  \<^verbatim>\<open>src/server/connection.rs\<close> with its helpers.

  The mount table, a vector behind a mutex, is passed and returned explicitly; every procedure locks
  it at most once.  The backend's state is threaded as for the NFS procedures.
\<close>

section \<open>Types\<close>

definition MAX_PATH :: usize where "MAX_PATH = 1024"

datatype MountStatus =
    Mnt_Ok
  | Mnt_Permission
  | Mnt_NotFound
  | Mnt_Io
  | Mnt_Access
  | Mnt_NotDirectory
  | Mnt_Invalid
  | Mnt_NameTooLong
  | Mnt_NotSupported
  | Mnt_ServerFault

fun mount_status_code :: "MountStatus \<Rightarrow> u32" where
  "mount_status_code Mnt_Ok = 0"
| "mount_status_code Mnt_Permission = 1"
| "mount_status_code Mnt_NotFound = 2"
| "mount_status_code Mnt_Io = 5"
| "mount_status_code Mnt_Access = 13"
| "mount_status_code Mnt_NotDirectory = 20"
| "mount_status_code Mnt_Invalid = 22"
| "mount_status_code Mnt_NameTooLong = 63"
| "mount_status_code Mnt_NotSupported = 10004"
| "mount_status_code Mnt_ServerFault = 10006"

datatype MountResult =
    Mount_Ok bytes "u32 list"
  | Mount_Err MountStatus

record MountEntry =
  me_host :: bytes
  me_path :: bytes

record DumpResult =
  dump_mounts :: "MountEntry list"

record ExportEntry =
  ee_path :: bytes
  ee_groups :: "bytes list"

record ExportResult =
  result_exports :: "ExportEntry list"

section \<open>Result encoders\<close>

fun write_u32s :: "u32 list \<Rightarrow> encoder \<Rightarrow> encoder" where
  "write_u32s [] e = e"
| "write_u32s (flavor # flavors) e = write_u32s flavors (write_u32 flavor e)"

fun encode_mount_result :: "MountResult put" where
  "encode_mount_result (Mount_Ok file_handle auth_flavors) e =
     (let e = write_u32 0 e in
      r_bind (write_opaque file_handle e) (\<lambda>e.
      if u32_max < length auth_flavors then Inl (TooLarge (length auth_flavors))
      else Inr (write_u32s auth_flavors (write_u32 (of_nat (length auth_flavors)) e))))"
| "encode_mount_result (Mount_Err status) e = Inr (write_u32 (mount_status_code status) e)"

fun encode_mounts :: "MountEntry list put" where
  "encode_mounts [] e = Inr e"
| "encode_mounts (mount # mounts) e =
     (let e = write_bool True e in
      r_bind (write_opaque (me_host mount) e) (\<lambda>e.
      r_bind (write_opaque (me_path mount) e) (encode_mounts mounts)))"

definition encode_dump_result :: "DumpResult put" where
  "encode_dump_result result e =
     r_bind (encode_mounts (dump_mounts result) e) (\<lambda>e. Inr (write_bool False e))"

fun encode_groups :: "bytes list put" where
  "encode_groups [] e = Inr e"
| "encode_groups (g # groups) e =
     (let e = write_bool True e in
      r_bind (write_opaque g e) (encode_groups groups))"

fun encode_exports :: "ExportEntry list put" where
  "encode_exports [] e = Inr e"
| "encode_exports (export # exports) e =
     (let e = write_bool True e in
      r_bind (write_opaque (ee_path export) e) (\<lambda>e.
      r_bind (encode_groups (ee_groups export) e) (\<lambda>e.
      encode_exports exports (write_bool False e))))"

definition encode_export_result :: "ExportResult put" where
  "encode_export_result result e =
     r_bind (encode_exports (result_exports result) e) (\<lambda>e. Inr (write_bool False e))"

definition typed_mount_reply :: "u32 \<Rightarrow> 'a put \<Rightarrow> 'a \<Rightarrow> EncodeError + bytes" where
  "typed_mount_reply xid encode_result result = encode_result result (accepted_reply_encoder xid SUCCESS)"

section \<open>Exports and paths\<close>

definition path_at :: "bytes \<Rightarrow> usize \<Rightarrow> u8 option" where
  "path_at path i = (if i < length path then Some (path ! i) else None)"

definition export_matches :: "bytes \<Rightarrow> bytes \<Rightarrow> bool" where
  "export_matches export_path request_path \<longleftrightarrow>
     request_path = export_path
     \<or> (export_path = [47] \<and> prefix [47] request_path)
     \<or> (prefix export_path request_path \<and> path_at request_path (length export_path) = Some 47)"

text \<open>\<open>Iterator::max_by_key\<close>, which returns the last of several maxima.\<close>

fun max_by_key :: "('a \<Rightarrow> nat) \<Rightarrow> 'a option \<Rightarrow> 'a list \<Rightarrow> 'a option" where
  "max_by_key key best [] = best"
| "max_by_key key None (x # xs) = max_by_key key (Some x) xs"
| "max_by_key key (Some b) (x # xs) = max_by_key key (Some (if key b \<le> key x then x else b)) xs"

definition select_export :: "'s ConnectionState \<Rightarrow> bytes \<Rightarrow> 's ExportState option" where
  "select_export state requested =
     max_by_key (\<lambda>export. length (ex_path export)) None
       (filter (\<lambda>export. export_matches (ex_path export) requested) (cs_exports state))"

fun lookup_path :: "'s Vfs \<Rightarrow> RequestContext \<Rightarrow> bytes list \<Rightarrow> ObjectKey \<Rightarrow> ('s, ObjectKey) vfs_op" where
  "lookup_path vfs context [] object s = (Inr object, s)"
| "lookup_path vfs context (component # components) object s =
     (case nfs_name_new component of
        Inl error \<Rightarrow> (Inl error, s)
      | Inr name \<Rightarrow>
          (case vfs_lookup vfs context object name s of
             (Inl error, s) \<Rightarrow> (Inl error, s)
           | (Inr found, s) \<Rightarrow> lookup_path vfs context components (co_object found) s))"

definition resolve_mount_object ::
  "'s ExportState \<Rightarrow> RequestContext \<Rightarrow> bytes \<Rightarrow> ('s, ObjectKey) vfs_op" where
  "resolve_mount_object export context requested s =
     (let export_path = ex_path export;
          remainder =
            (if export_path = [47] then ok_or Err_NotFound (strip_prefix [47] requested)
             else r_bind (ok_or Err_NotFound (strip_prefix export_path requested)) (\<lambda>rest.
               Inr (case strip_prefix [47] rest of None \<Rightarrow> [] | Some r \<Rightarrow> r))) in
      case remainder of
        Inl error \<Rightarrow> (Inl error, s)
      | Inr remainder \<Rightarrow>
          lookup_path (ex_vfs export) context (filter (\<lambda>component. component \<noteq> []) (split_slash remainder))
            (vfs_root (ex_vfs export) s) s)"

fun mount_status :: "NfsError \<Rightarrow> MountStatus" where
  "mount_status Err_Permission = Mnt_Permission"
| "mount_status Err_NotFound = Mnt_NotFound"
| "mount_status Err_Io = Mnt_Io"
| "mount_status Err_Access = Mnt_Access"
| "mount_status Err_NotDirectory = Mnt_NotDirectory"
| "mount_status Err_Invalid = Mnt_Invalid"
| "mount_status Err_NameTooLong = Mnt_NameTooLong"
| "mount_status Err_NotSupported = Mnt_NotSupported"
| "mount_status _ = Mnt_ServerFault"

section \<open>Display of addresses\<close>

text \<open>
  \<open>IpAddr::to_string\<close> of the standard library: dotted decimal, and hexadecimal groups with the first
  longest run of at least two zero groups written \<open>::\<close>.
\<close>

function digits :: "nat \<Rightarrow> nat \<Rightarrow> bytes" where
  "digits base n =
     (let d = (if n mod base < 10 then 48 + of_nat (n mod base) else 87 + of_nat (n mod base)) in
      if n < base \<or> base \<le> 1 then [d] else digits base (n div base) @ [d])"
  by pat_completeness auto
termination
  by (relation "measure (\<lambda>(base, n). n)") auto

declare digits.simps [simp del]

definition ipv4_to_string :: "u8 \<Rightarrow> u8 \<Rightarrow> u8 \<Rightarrow> u8 \<Rightarrow> bytes" where
  "ipv4_to_string a b c d =
     digits 10 (unat a) @ [46] @ digits 10 (unat b) @ [46] @ digits 10 (unat c) @ [46] @ digits 10 (unat d)"

fun zero_span :: "usize \<Rightarrow> usize \<times> usize \<Rightarrow> usize \<times> usize \<Rightarrow> u16 list \<Rightarrow> usize \<times> usize" where
  "zero_span i longest current [] = longest"
| "zero_span i longest (start, len) (segment # segments) =
     (if segment = 0 then
        let current = (if len = 0 then i else start, len + 1) in
        zero_span (i + 1) (if snd longest < snd current then current else longest) current segments
      else zero_span (i + 1) longest (0, 0) segments)"

fun fmt_subslice :: "u16 list \<Rightarrow> bytes" where
  "fmt_subslice [] = []"
| "fmt_subslice (first # segments) =
     digits 16 (unat first) @ concat (map (\<lambda>segment. 58 # digits 16 (unat segment)) segments)"

definition ipv6_to_string :: "u16 list \<Rightarrow> bytes" where
  "ipv6_to_string segments =
     (if length segments = 8 \<and> take 6 segments = [0, 0, 0, 0, 0, 0xffff]
      then [58, 58, 102, 102, 102, 102, 58] @
        ipv4_to_string (ucast (drop_bit 8 (segments ! 6))) (ucast (segments ! 6))
          (ucast (drop_bit 8 (segments ! 7))) (ucast (segments ! 7))
      else
        let (start, len) = zero_span 0 (0, 0) (0, 0) segments in
        if 1 < len
        then fmt_subslice (take start segments) @ [58, 58] @ fmt_subslice (drop (start + len) segments)
        else fmt_subslice segments)"

fun ip_to_string :: "IpAddr \<Rightarrow> bytes" where
  "ip_to_string (V4 a b c d) = ipv4_to_string a b c d"
| "ip_to_string (V6 segments) = ipv6_to_string segments"

section \<open>The service\<close>

type_synonym MountTable = "(IpAddr \<times> bytes) list"

type_synonym 's mount_handler =
  "RequestContext \<Rightarrow> 's ConnectionState \<Rightarrow> MountTable \<times> 's \<Rightarrow> (ServerError + bytes) \<times> MountTable \<times> 's"

definition mount_reply :: "u32 \<Rightarrow> 'a put \<Rightarrow> 'a \<Rightarrow> ServerError + bytes" where
  "mount_reply xid encode_result result = r_map_err SE_Encode (typed_mount_reply xid encode_result result)"

definition read_mount_path :: "bytes \<Rightarrow> DecodeError + bytes" where
  "read_mount_path args = decode_all (read_string ''MOUNT path'' 1024) args"

definition auth_flavors :: "AuthPolicy \<Rightarrow> u32 list" where
  "auth_flavors policy =
     (case policy of
        Policy_Anonymous \<Rightarrow> [AUTH_NONE]
      | Policy_AuthSys \<Rightarrow> [AUTH_SYS]
      | Policy_AuthSysOrAnonymous \<Rightarrow> [AUTH_SYS, AUTH_NONE])"

text \<open>The critical section of MNT on the mount table.\<close>

definition record_mount :: "usize \<Rightarrow> IpAddr \<Rightarrow> bytes \<Rightarrow> MountTable \<Rightarrow> MountTable option" where
  "record_mount max_mounts client path mounts =
     (let already_mounted = list_ex (\<lambda>item. fst item = client \<and> snd item = path) mounts in
      if \<not> already_mounted \<and> max_mounts \<le> length mounts then None
      else if \<not> already_mounted then Some (mounts @ [(client, path)])
      else Some mounts)"

definition mount_mnt :: "u32 \<Rightarrow> bytes \<Rightarrow> 's mount_handler" where
  "mount_mnt xid args context state w =
     (case w of (mounts, s) \<Rightarrow>
        (case read_mount_path args of
           Inl error \<Rightarrow> (Inl (SE_Decode error), mounts, s)
         | Inr path \<Rightarrow>
             (case select_export state path of
                None \<Rightarrow> (mount_reply xid encode_mount_result (Mount_Err Mnt_NotFound), mounts, s)
              | Some export \<Rightarrow>
                  let request_context = context\<lparr>ctx_export_id := ex_id export\<rparr>;
                      vfs = ex_vfs export in
                  (case resolve_mount_object export request_context path s of
                     (Inl error, s) \<Rightarrow>
                       (mount_reply xid encode_mount_result (Mount_Err (mount_status error)), mounts, s)
                   | (Inr root, s) \<Rightarrow>
                       (case vfs_getattr vfs request_context root s of
                          (Inl error, s) \<Rightarrow>
                            (mount_reply xid encode_mount_result (Mount_Err (mount_status error)), mounts, s)
                        | (Inr attributes, s) \<Rightarrow>
                            if fa_file_type attributes \<noteq> FT_Directory
                            then (mount_reply xid encode_mount_result (Mount_Err Mnt_NotDirectory), mounts, s)
                            else
                              (case record_mount (sl_max_mounts (cs_limits state))
                                      (sock_ip (ctx_client_addr context)) path mounts of
                                 None \<Rightarrow> (mount_reply xid encode_mount_result (Mount_Err Mnt_Io), mounts, s)
                               | Some mounts \<Rightarrow>
                                   (mount_reply xid encode_mount_result
                                      (Mount_Ok (handle_encode (cs_handles state) (ex_id export) root)
                                         (auth_flavors (cs_auth_policy state))), mounts, s)))))))"

definition xdr_opaque_size :: "usize \<Rightarrow> usize option" where
  "xdr_opaque_size len = Option.bind (checked_add 4 len) (\<lambda>n. checked_add n ((4 - len mod 4) mod 4))"

definition outbound_length_fits :: "usize \<Rightarrow> ServerLimits \<Rightarrow> bool" where
  "outbound_length_fits len limits \<longleftrightarrow>
     len \<le> sl_max_rpc_record_size limits \<and>
     div_ceil len (sl_max_rpc_fragment_size limits) \<le> sl_max_fragments_per_record limits"

text \<open>\<open>Iterator::try_fold\<close> with an \<open>Option\<close>.\<close>

fun try_fold :: "('b \<Rightarrow> 'a \<Rightarrow> 'b option) \<Rightarrow> 'b \<Rightarrow> 'a list \<Rightarrow> 'b option" where
  "try_fold f acc [] = Some acc"
| "try_fold f acc (x # xs) = Option.bind (f acc x) (\<lambda>acc. try_fold f acc xs)"

definition dump_length :: "MountTable \<Rightarrow> usize option" where
  "dump_length mounts =
     try_fold (\<lambda>len (client, path).
       Option.bind (Option.bind (checked_add len 4)
         (\<lambda>len. Option.bind (xdr_opaque_size (length (ip_to_string client))) (checked_add len)))
         (\<lambda>len. Option.bind (xdr_opaque_size (length path)) (checked_add len))) (24 + 4) mounts"

definition fits_option :: "usize option \<Rightarrow> ServerLimits \<Rightarrow> bool" where
  "fits_option encoded_length limits =
     (case encoded_length of None \<Rightarrow> False | Some len \<Rightarrow> outbound_length_fits len limits)"

definition mount_dump :: "u32 \<Rightarrow> 's mount_handler" where
  "mount_dump xid context state w =
     (case w of (mounts, s) \<Rightarrow>
        if \<not> fits_option (dump_length mounts) (cs_limits state)
        then (Inr (accepted_reply xid SYSTEM_ERR []), mounts, s)
        else
          let result = \<lparr>dump_mounts =
                map (\<lambda>(client, path). \<lparr>me_host = ip_to_string client, me_path = path\<rparr>) mounts\<rparr> in
          (mount_reply xid encode_dump_result result, mounts, s))"

definition mount_umnt :: "u32 \<Rightarrow> bytes \<Rightarrow> 's mount_handler" where
  "mount_umnt xid args context state w =
     (case w of (mounts, s) \<Rightarrow>
        (case read_mount_path args of
           Inl error \<Rightarrow> (Inl (SE_Decode error), mounts, s)
         | Inr path \<Rightarrow>
             (Inr (accepted_reply xid SUCCESS []),
              filter (\<lambda>item. fst item \<noteq> sock_ip (ctx_client_addr context) \<or> snd item \<noteq> path) mounts, s)))"

definition mount_umntall :: "u32 \<Rightarrow> 's mount_handler" where
  "mount_umntall xid context state w =
     (case w of (mounts, s) \<Rightarrow>
        (Inr (accepted_reply xid SUCCESS []),
         filter (\<lambda>item. fst item \<noteq> sock_ip (ctx_client_addr context)) mounts, s))"

definition export_length :: "'s ExportState list \<Rightarrow> usize option" where
  "export_length exports =
     try_fold (\<lambda>len export.
       Option.bind (Option.bind (checked_add len 4)
         (\<lambda>len. Option.bind (xdr_opaque_size (length (ex_path export))) (checked_add len)))
         (\<lambda>len. checked_add len 4)) (24 + 4) exports"

definition mount_export :: "u32 \<Rightarrow> 's mount_handler" where
  "mount_export xid context state w =
     (case w of (mounts, s) \<Rightarrow>
        if \<not> fits_option (export_length (cs_exports state)) (cs_limits state)
        then (Inr (accepted_reply xid SYSTEM_ERR []), mounts, s)
        else
          let result = \<lparr>result_exports =
                map (\<lambda>export. \<lparr>ee_path = ex_path export, ee_groups = []\<rparr>) (cs_exports state)\<rparr> in
          (mount_reply xid encode_export_result result, mounts, s))"

definition dispatch_mount :: "u32 \<Rightarrow> u32 \<Rightarrow> bytes \<Rightarrow> 's mount_handler" where
  "dispatch_mount xid procedure args context state w =
     (if procedure \<in> {0, 2, 4, 5} \<and> args \<noteq> [] then (Inr (accepted_reply xid GARBAGE_ARGS []), w)
      else if procedure = 0 then (Inr (accepted_reply xid SUCCESS []), w)
      else if procedure = 1 then mount_mnt xid args context state w
      else if procedure = 2 then mount_dump xid context state w
      else if procedure = 3 then mount_umnt xid args context state w
      else if procedure = 4 then mount_umntall xid context state w
      else if procedure = 5 then mount_export xid context state w
      else (Inr (accepted_reply xid PROC_UNAVAIL []), w))"

section \<open>Invariant of the mount table\<close>

definition mounts_ok :: "ServerLimits \<Rightarrow> MountTable \<Rightarrow> bool" where
  "mounts_ok limits mounts \<longleftrightarrow>
     distinct mounts \<and> length mounts \<le> sl_max_mounts limits \<and> (\<forall>(client, path) \<in> set mounts. length path \<le> MAX_PATH)"

text \<open>A path lies under an export: it is the export's path, or continues it at a component boundary.\<close>

definition path_under :: "bytes \<Rightarrow> bytes \<Rightarrow> bool" where
  "path_under export path \<longleftrightarrow>
     path = export \<or> (\<exists>rest. path = export @ 47 # rest) \<or> export = [47] \<and> (\<exists>rest. path = 47 # rest)"

definition path_components :: "bytes \<Rightarrow> bytes list" where
  "path_components path = filter (\<lambda>c. c \<noteq> []) (split_slash path)"

definition mount_entry_wire :: "MountEntry \<Rightarrow> bytes" where
  "mount_entry_wire m = bool_bytes True @ opaque_bytes (me_host m) @ opaque_bytes (me_path m)"

definition export_entry_wire :: "ExportEntry \<Rightarrow> bytes" where
  "export_entry_wire x =
     bool_bytes True @ opaque_bytes (ee_path x) @
     concat (map (\<lambda>g. bool_bytes True @ opaque_bytes g) (ee_groups x)) @ bool_bytes False"

section \<open>Lemmas on paths\<close>

lemma export_matches_iff: "export_matches e r \<longleftrightarrow> path_under e r"
proof -
  have "prefix e r \<and> path_at r (length e) = Some 47 \<longleftrightarrow> (\<exists>rest. r = e @ 47 # rest)"
  proof
    assume "prefix e r \<and> path_at r (length e) = Some 47"
    then obtain rest where "r = e @ rest" "rest \<noteq> []" "hd rest = 47"
      by (auto simp: prefix_def path_at_def hd_conv_nth nth_append split: if_splits)
    then show "\<exists>rest. r = e @ 47 # rest" by (metis list.collapse)
  qed (auto simp: path_at_def)
  moreover have "prefix [47] r \<longleftrightarrow> (\<exists>rest. r = 47 # rest)" by (auto simp: prefix_def)
  ultimately show ?thesis by (auto simp: export_matches_def path_under_def)
qed

lemma path_under_components: "path_under e r \<Longrightarrow> prefix (path_components e) (path_components r)"
  by (auto simp: path_under_def path_components_def split_slash_append)

lemma max_by_key_Some:
  "max_by_key key best xs = Some r \<Longrightarrow>
   (best = Some r \<or> r \<in> set xs) \<and> (\<forall>x \<in> set xs \<union> set_option best. key x \<le> key r)"
proof (induction key best xs rule: max_by_key.induct)
  case (3 key b x xs)
  then show ?case by (auto split: if_splits)
qed auto

lemma max_by_key_None: "max_by_key key best xs = None \<longleftrightarrow> best = None \<and> xs = []"
  by (induction key best xs rule: max_by_key.induct) auto

section \<open>Lemmas on replies\<close>

lemma write_u32s_append: "write_u32s fs e = e @ concat (map be32 fs)"
  by (induction fs arbitrary: e) (simp_all add: write_u32_def)

lemma encode_mounts_Inr:
  "encode_mounts xs e = Inr e' \<Longrightarrow> e' = e @ concat (map mount_entry_wire xs)"
proof (induction xs arbitrary: e)
  case (Cons x xs)
  have "encode_mounts xs (e @ mount_entry_wire x) = Inr e'"
    using Cons.prems by (auto simp: Let_def codec_simps write_simps bool_bytes_def mount_entry_wire_def)
  from Cons.IH [OF this] show ?case by simp
qed simp

lemma encode_groups_Inr:
  "encode_groups xs e = Inr e' \<Longrightarrow> e' = e @ concat (map (\<lambda>g. bool_bytes True @ opaque_bytes g) xs)"
proof (induction xs arbitrary: e)
  case (Cons x xs)
  have "encode_groups xs (e @ bool_bytes True @ opaque_bytes x) = Inr e'"
    using Cons.prems by (auto simp: Let_def codec_simps write_simps bool_bytes_def)
  from Cons.IH [OF this] show ?case by simp
qed simp

lemma encode_exports_Inr:
  "encode_exports xs e = Inr e' \<Longrightarrow> e' = e @ concat (map export_entry_wire xs)"
proof (induction xs arbitrary: e)
  case (Cons x xs)
  have "encode_exports xs (e @ export_entry_wire x) = Inr e'"
    using Cons.prems by (auto simp: Let_def codec_simps write_simps bool_bytes_def export_entry_wire_def dest!: encode_groups_Inr)
  from Cons.IH [OF this] show ?case by simp
qed simp

lemma xdr_opaque_size_Some: "xdr_opaque_size (length v) = Some n \<Longrightarrow> n = length (opaque_bytes v)"
  by (auto simp: xdr_opaque_size_def size_simps xdr_padding_def bind_eq_Some_conv)

lemma dump_length_Some:
  "dump_length mounts = Some n \<Longrightarrow>
   n = 28 + length (concat (map (\<lambda>(client, path).
     mount_entry_wire \<lparr>me_host = ip_to_string client, me_path = path\<rparr>) mounts))"
proof -
  have "try_fold (\<lambda>len (client, path).
       Option.bind (Option.bind (checked_add len 4)
         (\<lambda>len. Option.bind (xdr_opaque_size (length (ip_to_string client))) (checked_add len)))
         (\<lambda>len. Option.bind (xdr_opaque_size (length path)) (checked_add len))) acc mounts = Some n \<Longrightarrow>
     n = acc + length (concat (map (\<lambda>(client, path).
       mount_entry_wire \<lparr>me_host = ip_to_string client, me_path = path\<rparr>) mounts))" for acc
    by (induction mounts arbitrary: acc)
      (fastforce simp: bind_eq_Some_conv mount_entry_wire_def length_bool_bytes dest!: xdr_opaque_size_Some)+
  then show "dump_length mounts = Some n \<Longrightarrow> ?thesis" by (auto simp: dump_length_def)
qed

lemma export_length_Some:
  "export_length exports = Some n \<Longrightarrow>
   n = 28 + length (concat (map (\<lambda>export. export_entry_wire \<lparr>ee_path = ex_path export, ee_groups = []\<rparr>) exports))"
proof -
  have "try_fold (\<lambda>len export.
       Option.bind (Option.bind (checked_add len 4)
         (\<lambda>len. Option.bind (xdr_opaque_size (length (ex_path export))) (checked_add len)))
         (\<lambda>len. checked_add len 4)) acc exports = Some n \<Longrightarrow>
     n = acc + length (concat (map (\<lambda>export. export_entry_wire \<lparr>ee_path = ex_path export, ee_groups = []\<rparr>) exports))"
    for acc
    by (induction exports arbitrary: acc)
      (fastforce simp: bind_eq_Some_conv export_entry_wire_def length_bool_bytes dest!: xdr_opaque_size_Some)+
  then show "export_length exports = Some n \<Longrightarrow> ?thesis" by (auto simp: export_length_def)
qed

lemma read_mount_path_Inr: "read_mount_path args = Inr path \<Longrightarrow> length path \<le> MAX_PATH"
  using opaque.decode_all_iff [of "''MOUNT path''" 1024 args path]
  by (simp add: read_mount_path_def read_string_def MAX_PATH_def)

lemma record_mount_Some:
  assumes "record_mount n client path mounts = Some mounts'"
  shows "mounts' = mounts \<and> (client, path) \<in> set mounts \<or>
    mounts' = mounts @ [(client, path)] \<and> (client, path) \<notin> set mounts \<and> length mounts < n"
  using assms by (auto simp: record_mount_def list_ex_iff Let_def split: if_splits)

lemma mount_reply_Err:
  "mount_reply xid encode_mount_result (Mount_Err status) =
     Inr (accepted_reply_encoder xid SUCCESS @ be32 (mount_status_code status))"
  by (simp add: mount_reply_def typed_mount_reply_def write_u32_def)

lemma mount_reply_Ok:
  "codec_ok c \<Longrightarrow> mount_reply xid encode_mount_result (Mount_Ok (handle_encode c e ob) (auth_flavors policy)) =
     Inr (accepted_reply_encoder xid SUCCESS @ be32 0 @ opaque_bytes (handle_encode c e ob) @
       be32 (of_nat (length (auth_flavors policy))) @ concat (map be32 (auth_flavors policy)))"
  by (cases policy)
    (auto simp: mount_reply_def typed_mount_reply_def write_u32_def write_u32s_append auth_flavors_def codec_simps
      length_wire_handle length_handle_encode handle_sizes length_accepted_reply_encoder Let_def)

lemma mount_status_not_Ok: "mount_status e \<noteq> Mnt_Ok"
  by (cases e) simp_all

text \<open>What MNT does: an error and an unchanged table, or a handle and a recorded mount.\<close>

lemma mount_mnt_cases:
  assumes "mount_mnt xid args context state (mounts, s) = (res, mounts', s')" and codec: "codec_ok (cs_handles state)"
  obtains
    (garbage) e where "read_mount_path args = Inl e" "res = Inl (SE_Decode e)" "mounts' = mounts" "s' = s"
  | (refused) status where "status \<noteq> Mnt_Ok" "mounts' = mounts"
      "res = Inr (accepted_reply_encoder xid SUCCESS @ be32 (mount_status_code status))"
  | (mounted) path export root attributes s1 where "read_mount_path args = Inr path"
      "select_export state path = Some export"
      "resolve_mount_object export (context\<lparr>ctx_export_id := ex_id export\<rparr>) path s = (Inr root, s1)"
      "vfs_getattr (ex_vfs export) (context\<lparr>ctx_export_id := ex_id export\<rparr>) root s1 = (Inr attributes, s')"
      "fa_file_type attributes = FT_Directory"
      "record_mount (sl_max_mounts (cs_limits state)) (sock_ip (ctx_client_addr context)) path mounts = Some mounts'"
      "res = Inr (accepted_reply_encoder xid SUCCESS @ be32 0 @
         opaque_bytes (handle_encode (cs_handles state) (ex_id export) root) @
         be32 (of_nat (length (auth_flavors (cs_auth_policy state)))) @
         concat (map be32 (auth_flavors (cs_auth_policy state))))"
proof -
  let ?ctx = "\<lambda>export. context\<lparr>ctx_export_id := ex_id export\<rparr>"
  have refuse: thesis if "(res, mounts', s') = (mount_reply xid encode_mount_result (Mount_Err status), mounts, s2)"
    "status \<noteq> Mnt_Ok" for status s2
    using that refused [of status] by (simp add: mount_reply_Err)
  show thesis
  proof (cases "read_mount_path args")
    case (Inl e)
    then show thesis using assms(1) garbage by (simp add: mount_mnt_def)
  next
    case path: (Inr path)
    show thesis
    proof (cases "select_export state path")
      case None
      then show thesis using assms(1) path refuse [of Mnt_NotFound s] by (simp add: mount_mnt_def)
    next
      case export: (Some export)
      obtain r1 s1 where res1: "resolve_mount_object export (?ctx export) path s = (r1, s1)" by fastforce
      show thesis
      proof (cases r1)
        case (Inl e)
        then show thesis
          using assms(1) path export res1 refuse [of "mount_status e" s1] mount_status_not_Ok
          by (simp add: mount_mnt_def Let_def)
      next
        case r1: (Inr root)
        obtain r2 s2 where res2: "vfs_getattr (ex_vfs export) (?ctx export) root s1 = (r2, s2)" by fastforce
        show thesis
        proof (cases r2)
          case (Inl e)
          then show thesis
            using assms(1) path export res1 r1 res2 refuse [of "mount_status e" s2] mount_status_not_Ok
            by (simp add: mount_mnt_def Let_def)
        next
          case r2: (Inr attributes)
          then show thesis
            using assms(1) path export res1 r1 res2 refuse [of Mnt_NotDirectory s2] refuse [of Mnt_Io s2]
              mounted [OF path export]
            by (auto simp: mount_mnt_def mount_reply_Ok [OF codec] Let_def split: if_splits option.splits)
        qed
      qed
    qed
  qed
qed

text \<open>What the procedures do to the mount table.\<close>

lemma dispatch_mount_table:
  assumes run: "dispatch_mount xid procedure args context state (mounts, s) = (res, mounts', s')"
    and codec: "codec_ok (cs_handles state)" and client_def: "client = sock_ip (ctx_client_addr context)"
  obtains (same) "mounts' = mounts"
  | (added) path where "mounts' = mounts @ [(client, path)]" "(client, path) \<notin> set mounts"
      "length mounts < sl_max_mounts (cs_limits state)" "length path \<le> MAX_PATH"
  | (removed) P where "mounts' = filter P mounts" "\<And>item. fst item \<noteq> client \<Longrightarrow> P item"
proof -
  have mnt: thesis if "mount_mnt xid args context state (mounts, s) = (res, mounts', s')"
  proof (cases rule: mount_mnt_cases [OF that codec, case_names garbage refused mounted])
    case (mounted path export root attributes s1)
    from record_mount_Some [OF mounted(6)] show thesis
      using same added [of path] read_mount_path_Inr [OF mounted(1)] by (auto simp: client_def)
  qed (use same in simp_all)
  have filtered: thesis if "mounts' = filter P mounts \<or> mounts' = mounts" "\<And>item. fst item \<noteq> client \<Longrightarrow> P item" for P
    using that same removed by blast
  consider (mnt) "mount_mnt xid args context state (mounts, s) = (res, mounts', s')"
    | (umnt) "mount_umnt xid args context state (mounts, s) = (res, mounts', s')"
    | (umntall) "mount_umntall xid context state (mounts, s) = (res, mounts', s')"
    | (rest) "mounts' = mounts"
    using run by (auto simp: dispatch_mount_def mount_dump_def mount_export_def Let_def split: if_splits)
  then show thesis
  proof cases
    case umnt
    then have "(\<exists>path. mounts' = filter (\<lambda>item. fst item \<noteq> client \<or> snd item \<noteq> path) mounts) \<or> mounts' = mounts"
      by (auto simp: mount_umnt_def client_def split: sum.splits)
    then show thesis using filtered by (metis (mono_tags, lifting))
  next
    case umntall
    then show thesis using filtered [of "\<lambda>item. fst item \<noteq> client"] by (auto simp: mount_umntall_def client_def)
  qed (use mnt same in simp_all)
qed

lemma fits_option_capacity:
  "limits_validate p l = Inr () \<Longrightarrow> fits_option (Some n) l \<longleftrightarrow> n \<le> transport_record_capacity l"
  by (simp add: fits_option_def outbound_length_fits_def transport_capacity_iff)

lemma mount_dump_length:
  assumes "mount_dump xid context state (mounts, s) = (Inr bs, w')"
  shows "length bs \<le> 24 \<or> fits_option (Some (length bs)) (cs_limits state)"
proof (cases "fits_option (dump_length mounts) (cs_limits state)")
  case True
  then obtain n where n: "dump_length mounts = Some n" by (auto simp: fits_option_def split: option.splits)
  have "length bs = 28 + length (concat (map mount_entry_wire (map (\<lambda>(client, path).
      \<lparr>me_host = ip_to_string client, me_path = path\<rparr>) mounts)))"
    using assms True
    by (auto simp: mount_dump_def mount_reply_def typed_mount_reply_def encode_dump_result_def write_simps size_simps
        Let_def dest!: encode_mounts_Inr)
  also have "map mount_entry_wire (map (\<lambda>(client, path). \<lparr>me_host = ip_to_string client, me_path = path\<rparr>) mounts) =
      map (\<lambda>(client, path). mount_entry_wire \<lparr>me_host = ip_to_string client, me_path = path\<rparr>) mounts"
    by auto
  finally have "length bs = n" using dump_length_Some [OF n] by simp
  then show ?thesis using True n by simp
next
  case False
  then show ?thesis using assms by (auto simp: mount_dump_def size_simps)
qed

lemma mount_export_length:
  assumes "mount_export xid context state (mounts, s) = (Inr bs, w')"
  shows "length bs \<le> 24 \<or> fits_option (Some (length bs)) (cs_limits state)"
proof (cases "fits_option (export_length (cs_exports state)) (cs_limits state)")
  case True
  then obtain n where n: "export_length (cs_exports state) = Some n"
    by (auto simp: fits_option_def split: option.splits)
  have "length bs = 28 + length (concat (map export_entry_wire (map (\<lambda>export.
      \<lparr>ee_path = ex_path export, ee_groups = []\<rparr>) (cs_exports state))))"
    using assms True
    by (auto simp: mount_export_def mount_reply_def typed_mount_reply_def encode_export_result_def write_simps
        size_simps Let_def dest!: encode_exports_Inr)
  then have "length bs = n" using export_length_Some [OF n] by (simp add: comp_def)
  then show ?thesis using True n by simp
next
  case False
  then show ?thesis using assms by (auto simp: mount_export_def size_simps)
qed

lemma mount_mnt_length:
  assumes "mount_mnt xid args context state (mounts, s) = (Inr bs, mounts', s')" and "codec_ok (cs_handles state)"
  shows "length bs \<le> 304"
proof (cases rule: mount_mnt_cases [OF assms, case_names garbage refused mounted])
  case (mounted path export root attributes s1)
  have "length (concat (map be32 (auth_flavors (cs_auth_policy state)))) \<le> 8"
    by (cases "cs_auth_policy state") (simp_all add: auth_flavors_def)
  then show ?thesis
    using mounted(7) length_wire_handle [OF assms(2)] by (simp add: length_accepted_reply_encoder)
qed (simp_all add: length_accepted_reply_encoder)

section \<open>Properties\<close>

text \<open>
  C32: the mount table is kept.  No MOUNT call makes the table exceed its limit, hold a mount twice or
  hold a path that is too long, and no call changes the mounts of another client.
\<close>

theorem mount_table_invariant:
  assumes "dispatch_mount xid procedure args context state (mounts, s) = (res, mounts', s')"
    and "codec_ok (cs_handles state)" and "mounts_ok (cs_limits state) mounts"
  shows "mounts_ok (cs_limits state) mounts' \<and>
    filter (\<lambda>item. fst item \<noteq> sock_ip (ctx_client_addr context)) mounts' =
    filter (\<lambda>item. fst item \<noteq> sock_ip (ctx_client_addr context)) mounts"
proof (cases rule: dispatch_mount_table [OF assms(1,2) refl, case_names same added removed])
  case (removed P)
  have "filter (\<lambda>item. fst item \<noteq> sock_ip (ctx_client_addr context)) (filter P mounts) =
      filter (\<lambda>item. fst item \<noteq> sock_ip (ctx_client_addr context)) mounts"
    using removed(2) by (auto intro!: filter_cong)
  then show ?thesis
    using assms(3) removed(1) by (auto simp: mounts_ok_def intro: order_trans [OF length_filter_le])
qed (use assms(3) in \<open>auto simp: mounts_ok_def\<close>)

theorem mount_table_invariant_witness:
  "mounts_ok production_defaults
     (fst (snd (dispatch_mount 9 4 [] sample_context sample_state ([(V4 10 0 0 2, [47]), (V4 10 0 0 3, [47])], 0))))"
proof -
  have "dispatch_mount 9 4 [] sample_context sample_state ([(V4 10 0 0 2, [47]), (V4 10 0 0 3, [47])], 0) =
      (Inr (accepted_reply 9 SUCCESS []), [(V4 10 0 0 3, [47])], 0)"
    by (simp add: dispatch_mount_def mount_umntall_def sample_context_def)
  from mount_table_invariant [OF this] this show ?thesis
    by (simp add: sample_codec_ok mounts_ok_def production_defaults_def MAX_PATH_def)
qed



text \<open>
  The export of a path is the longest that contains it.  The selected export matches the path at
  a component boundary (so its components are a prefix of the path's) and no other matching export
  has a longer path; and none is selected only if none matches.
\<close>

theorem select_export_longest:
  "case select_export state requested of
     None \<Rightarrow> (\<forall>export \<in> set (cs_exports state). \<not> path_under (ex_path export) requested)
   | Some export \<Rightarrow> export \<in> set (cs_exports state) \<and> path_under (ex_path export) requested \<and>
       prefix (path_components (ex_path export)) (path_components requested) \<and>
       (\<forall>other \<in> set (cs_exports state). path_under (ex_path other) requested \<longrightarrow>
          length (ex_path other) \<le> length (ex_path export))"
proof (cases "select_export state requested")
  case None
  then show ?thesis
    by (simp add: select_export_def max_by_key_None filter_empty_conv export_matches_iff)
next
  case (Some export)
  from max_by_key_Some [OF Some [unfolded select_export_def]] Some show ?thesis
    by (simp add: export_matches_iff path_under_components)
qed

theorem select_export_longest_witness:
  "select_export sample_state [47, 97] = Some (hd (cs_exports sample_state)) \<and>
   path_under (ex_path (hd (cs_exports sample_state))) [47, 97]"
proof -
  obtain e where e: "cs_exports sample_state = [e]" by (simp add: sample_state_def)
  have "map_option ex_id (select_export sample_state [47, 97]) = Some 1" by code_simp
  then obtain export where export: "select_export sample_state [47, 97] = Some export" by auto
  with select_export_longest [of sample_state "[47, 97]"]
  have "export = e \<and> path_under (ex_path export) [47, 97]" by (auto simp: e)
  then show ?thesis using export e by auto
qed

text \<open>
  MOUNT replies can be delivered.  DUMP and EXPORT compute the size of their reply before building
  it and answer with a system error if it is too large; the computed size is the real one, so that
  with validated limits every reply of the service passes the check that precedes sending it.
\<close>

theorem mount_replies_deliverable:
  assumes "dispatch_mount xid procedure args context state w = (Inr bs, w')"
    and "limits_validate max_permits (cs_limits state) = Inr ()" and "codec_ok (cs_handles state)"
  shows "validate_record_length (length bs) (record_limits (cs_limits state)) = Inr ()"
proof -
  obtain mounts s where w: "w = (mounts, s)" by fastforce
  obtain mounts' s' where w': "w' = (mounts', s')" by fastforce
  have "length bs \<le> 304 \<or> fits_option (Some (length bs)) (cs_limits state)"
    using assms(1) mount_mnt_length [OF _ assms(3), of xid args "context" mounts s bs mounts' s']
      mount_dump_length [of xid "context" state mounts s bs w']
      mount_export_length [of xid "context" state mounts s bs w']
    by (auto simp: dispatch_mount_def w w' mount_umnt_def mount_umntall_def size_simps split: if_splits sum.splits)
  then have "length bs \<le> transport_record_capacity (cs_limits state)"
    using transport_carries(1) [OF assms(2)] fits_option_capacity [OF assms(2), of "length bs"]
    by (auto simp: MAXIMUM_MUTATION_REPLY_SIZE_def)
  then show ?thesis by (rule fits_transport [OF assms(2)])
qed

theorem mount_replies_deliverable_witness:
  "validate_record_length 28 (record_limits production_defaults) = Inr ()"
proof -
  have "dispatch_mount 9 2 [] sample_context sample_state ([], 0) =
      (Inr (accepted_reply_encoder 9 SUCCESS @ bool_bytes False), [], 0)"
    by (simp add: dispatch_mount_def mount_dump_def fits_option_def dump_length_def outbound_length_fits_def
        production_defaults_def div_ceil_def mount_reply_def typed_mount_reply_def encode_dump_result_def
        write_bool_def write_u32_def bool_bytes_def)
  from mount_replies_deliverable [OF this] production_defaults_valid
  show ?thesis by (simp add: sample_codec_ok size_simps)
qed

end
