(* ===== verification/Portmap.thy ===== *)
theory Portmap
  imports Server_State
begin

text \<open>
  The portmapper: the lookup \<^verbatim>\<open>src/portmap/dispatch.rs\<close>, the service on the NFS connection
  (\<open>dispatch_portmap\<close> of \<^verbatim>\<open>src/server/connection.rs\<close>) and the standalone TCP and UDP endpoint
  \<^verbatim>\<open>src/server/portmapper.rs\<close>.

  Binding and polling sockets is outside the model: the local addresses that \<open>prepare\<close> asks for are
  arguments, a datagram is its bytes, and the TCP loop is given the outcomes of its \<open>select!\<close> as a
  list of events.
\<close>

section \<open>Lookups\<close>

record mapping =
  pm_prog :: u32
  pm_vers :: u32
  pm_prot :: u32
  pm_port :: u32

definition IPPROTO_TCP :: u32 where "IPPROTO_TCP = 6"
definition IPPROTO_UDP :: u32 where "IPPROTO_UDP = 17"

definition get_port :: "mapping \<Rightarrow> u16 \<Rightarrow> u16 \<Rightarrow> u32" where
  "get_port request nfs_port mount_port =
     (if pm_prot request \<noteq> IPPROTO_TCP then 0
      else if pm_prog request = NFS_PROGRAM \<and> pm_vers request = NFS_VERSION then ucast nfs_port
      else if pm_prog request = MOUNT_PROGRAM \<and> pm_vers request = MOUNT_VERSION then ucast mount_port
      else 0)"

section \<open>The service on the NFS connection\<close>

definition read_getport :: "mapping dec" where
  "read_getport =
     d_bind read_u32 (\<lambda>prog.
     d_bind read_u32 (\<lambda>vers.
     d_bind read_u32 (\<lambda>prot.
     d_bind read_u32 (\<lambda>port.
     d_return \<lparr>pm_prog = prog, pm_vers = vers, pm_prot = prot, pm_port = port\<rparr>))))"

definition dispatch_portmap :: "u32 \<Rightarrow> u32 \<Rightarrow> bytes \<Rightarrow> 's ConnectionState \<Rightarrow> ServerError + bytes" where
  "dispatch_portmap xid procedure args state =
     (if procedure = 0 \<and> args = [] then Inr (accepted_reply xid SUCCESS [])
      else if procedure = 0 then Inr (accepted_reply xid GARBAGE_ARGS [])
      else if procedure = 3 then
        r_bind (r_map_err SE_Decode (decode_all read_getport args)) (\<lambda>request.
        let program = pm_prog request;
            version = pm_vers request;
            transport = pm_prot request;
            port = (if transport = IPPROTO_TCP \<and>
                       (program = NFS_PROGRAM \<and> version = NFS_VERSION \<or>
                        program = MOUNT_PROGRAM \<and> version = MOUNT_VERSION)
                    then ucast (cs_local_port state) else 0);
            body = write_u32 port [] in
        Inr (accepted_reply xid SUCCESS body))
      else Inr (accepted_reply xid PROC_UNAVAIL []))"

section \<open>The standalone endpoint\<close>

definition MSG_DENIED :: u32 where "MSG_DENIED = 1"
definition RPC_MISMATCH :: u32 where "RPC_MISMATCH = 0"
definition AUTH_ERROR :: u32 where "AUTH_ERROR = 1"
definition AUTH_BAD_CRED :: u32 where "AUTH_BAD_CRED = 1"
definition AUTH_BAD_VERF :: u32 where "AUTH_BAD_VERF = 3"
definition PORTMAP_NULL :: u32 where "PORTMAP_NULL = 0"
definition PORTMAP_GETPORT :: u32 where "PORTMAP_GETPORT = 3"
definition MAX_PORTMAP_RECORD_SIZE :: usize where "MAX_PORTMAP_RECORD_SIZE = 4096"
definition MAX_PORTMAP_FRAGMENTS :: usize where "MAX_PORTMAP_FRAGMENTS = 16"

record PreparedPortmapper =
  pp_local_addr :: SocketAddr
  pp_nfs_port :: u16
  pp_mount_port :: u16

definition portmapper_prepare ::
  "IoErrorKind + SocketAddr \<Rightarrow> IoErrorKind + SocketAddr \<Rightarrow> (u16 \<times> u16) option \<Rightarrow> u16 \<Rightarrow>
   ServerError + PreparedPortmapper" where
  "portmapper_prepare tcp_local_addr udp_local_addr advertised_ports primary_port =
     r_bind (r_map_err SE_Io tcp_local_addr) (\<lambda>tcp_addr.
     r_bind (r_map_err SE_Io udp_local_addr) (\<lambda>udp_addr.
     if tcp_addr \<noteq> udp_addr
     then Inl (SE_InvalidConfiguration ''portmapper TCP and UDP sockets must use the same local address'')
     else if sock_port tcp_addr = 0 \<or> primary_port = 0
     then Inl (SE_InvalidConfiguration ''listener ports must be bound and non-zero'')
     else
       let (nfs_port, mount_port) =
         (case advertised_ports of None \<Rightarrow> (primary_port, primary_port) | Some ports \<Rightarrow> ports) in
       if nfs_port = 0 \<or> mount_port = 0
       then Inl (SE_InvalidConfiguration ''advertised NFS and MOUNT ports must be non-zero'')
       else Inr \<lparr>pp_local_addr = tcp_addr, pp_nfs_port = nfs_port, pp_mount_port = mount_port\<rparr>))"

definition pm_accepted_reply :: "u32 \<Rightarrow> u32 \<Rightarrow> bytes \<Rightarrow> bytes" where
  "pm_accepted_reply xid status body =
     (let reply = [];
          reply = write_u32 xid reply;
          reply = write_u32 RPC_REPLY reply;
          reply = write_u32 MSG_ACCEPTED reply;
          reply = write_u32 AUTH_NONE reply;
          reply = write_u32 0 reply;
          reply = write_u32 status reply in
      write_fixed body reply)"

definition pm_rpc_mismatch :: "u32 \<Rightarrow> bytes" where
  "pm_rpc_mismatch xid =
     (let reply = [];
          reply = write_u32 xid reply;
          reply = write_u32 RPC_REPLY reply;
          reply = write_u32 MSG_DENIED reply;
          reply = write_u32 RPC_MISMATCH reply;
          reply = write_u32 2 reply in
      write_u32 2 reply)"

definition pm_auth_error :: "u32 \<Rightarrow> u32 \<Rightarrow> bytes" where
  "pm_auth_error xid status =
     (let reply = [];
          reply = write_u32 xid reply;
          reply = write_u32 RPC_REPLY reply;
          reply = write_u32 MSG_DENIED reply;
          reply = write_u32 AUTH_ERROR reply in
      write_u32 status reply)"

definition pm_procedure :: "u32 \<Rightarrow> u32 \<Rightarrow> bytes \<Rightarrow> u16 \<Rightarrow> u16 \<Rightarrow> bytes" where
  "pm_procedure xid procedure args nfs_port mount_port =
     (if procedure = PORTMAP_NULL \<and> args = [] then pm_accepted_reply xid SUCCESS []
      else if procedure = PORTMAP_NULL then pm_accepted_reply xid GARBAGE_ARGS []
      else if procedure = PORTMAP_GETPORT then
        (case decode_all read_getport args of
           Inl _ \<Rightarrow> pm_accepted_reply xid GARBAGE_ARGS []
         | Inr request \<Rightarrow>
             pm_accepted_reply xid SUCCESS (write_u32 (get_port request nfs_port mount_port) []))
      else pm_accepted_reply xid PROC_UNAVAIL [])"

text \<open>
  \<open>match decoder.read_\<dots> { Ok(value) => value, Err(_) => return Some(reply) }\<close>.
\<close>

definition or_reply :: "'a dec \<Rightarrow> bytes \<Rightarrow> decoder \<Rightarrow> ('a \<Rightarrow> decoder \<Rightarrow> bytes option) \<Rightarrow> bytes option" where
  "or_reply read reply decoder k =
     (case read decoder of Inl _ \<Rightarrow> Some reply | Inr (value, decoder') \<Rightarrow> k value decoder')"

definition pm_dispatch_record :: "bytes \<Rightarrow> u16 \<Rightarrow> u16 \<Rightarrow> bytes option" where
  "pm_dispatch_record record_bytes nfs_port mount_port =
     (case read_u32 (decoder_new record_bytes) of
        Inl _ \<Rightarrow> None
      | Inr (xid, d) \<Rightarrow>
          let garbage = pm_accepted_reply xid GARBAGE_ARGS [] in
          or_reply read_u32 garbage d (\<lambda>message_type d.
          if message_type \<noteq> RPC_CALL then None
          else
            or_reply read_u32 garbage d (\<lambda>rpc_version d.
            if rpc_version \<noteq> 2 then Some (pm_rpc_mismatch xid)
            else
              or_reply read_u32 garbage d (\<lambda>program d.
              or_reply read_u32 garbage d (\<lambda>version d.
              or_reply read_u32 garbage d (\<lambda>procedure d.
              or_reply read_u32 garbage d (\<lambda>credential_flavor d.
              or_reply (read_opaque_slice ''RPC credential'' 400) (pm_auth_error xid AUTH_BAD_CRED) d (\<lambda>credential d.
              case decode_principal credential_flavor credential of
                Inl _ \<Rightarrow> Some (pm_auth_error xid AUTH_BAD_CRED)
              | Inr _ \<Rightarrow>
                  or_reply read_u32 (pm_auth_error xid AUTH_BAD_VERF) d (\<lambda>verifier_flavor d.
                  or_reply (read_opaque_slice ''RPC verifier'' 400) (pm_auth_error xid AUTH_BAD_VERF) d (\<lambda>verifier d.
                  if verifier_flavor \<noteq> AUTH_NONE \<or> verifier \<noteq> [] then Some (pm_auth_error xid AUTH_BAD_VERF)
                  else if program \<noteq> PORTMAP_PROGRAM then Some (pm_accepted_reply xid PROG_UNAVAIL [])
                  else if version \<noteq> PORTMAP_VERSION
                  then Some (pm_accepted_reply xid PROG_MISMATCH
                         (write_u32 PORTMAP_VERSION (write_u32 PORTMAP_VERSION [])))
                  else
                    let args = drop (dec_position d) (dec_input d) in
                    Some (pm_procedure xid procedure args nfs_port mount_port)))))))))))"

text \<open>One received datagram: what is sent back, if anything.\<close>

definition pm_datagram :: "bytes \<Rightarrow> u16 \<Rightarrow> u16 \<Rightarrow> bytes option" where
  "pm_datagram datagram nfs_port mount_port =
     (if MAX_PORTMAP_RECORD_SIZE < length datagram then None
      else pm_dispatch_record datagram nfs_port mount_port)"

text \<open>What the receiving branch of the loop does: go on, with what it sends, or fail.\<close>

definition pm_udp_receive ::
  "IoErrorKind + bytes \<Rightarrow> u16 \<Rightarrow> u16 \<Rightarrow> ServerError + bytes option" where
  "pm_udp_receive received nfs_port mount_port =
     (case received of
        Inl kind \<Rightarrow> if kind = ConnectionReset \<or> kind = ConnectionRefused then Inr None else Inl (SE_Io kind)
      | Inr datagram \<Rightarrow> Inr (pm_datagram datagram nfs_port mount_port))"

definition pm_record_limits :: RecordLimits where
  "pm_record_limits =
     \<lparr>max_record_size = MAX_PORTMAP_RECORD_SIZE, max_fragment_size = MAX_PORTMAP_RECORD_SIZE,
      max_fragments = MAX_PORTMAP_FRAGMENTS\<rparr>"

text \<open>
  The TCP loop.  An event is the branch that \<open>select!\<close> takes: a change of the shutdown channel (with
  whether it is closed, and its value), the idle timeout, or that \<open>read_record\<close> finishes; the reply is
  then written, or the request timeout cuts the write off and leaves the transport as the event says.
  The result is \<open>None\<close> while the loop is still running.
\<close>

datatype tcp_event =
    TE_Shutdown bool bool
  | TE_Idle
  | TE_Record "writer option"

definition is_disconnect :: "RecordError \<Rightarrow> bool" where
  "is_disconnect error \<longleftrightarrow> error = RecIo UnexpectedEof \<or> error = RecIo ConnectionReset"

fun pm_tcp_loop ::
  "allocator \<Rightarrow> u16 \<Rightarrow> u16 \<Rightarrow> reader \<Rightarrow> writer \<Rightarrow> tcp_event list \<Rightarrow>
   (ServerError + unit) option \<times> writer" where
  "pm_tcp_loop try_alloc nfs_port mount_port rd w [] = (None, w)"
| "pm_tcp_loop try_alloc nfs_port mount_port rd w (TE_Shutdown closed value # events) =
     (if closed \<or> value then (Some (Inr ()), w)
      else pm_tcp_loop try_alloc nfs_port mount_port rd w events)"
| "pm_tcp_loop try_alloc nfs_port mount_port rd w (TE_Idle # events) = (Some (Inr ()), w)"
| "pm_tcp_loop try_alloc nfs_port mount_port rd w (TE_Record cut_off # events) =
     (case read_record try_alloc pm_record_limits rd of
        Inl error \<Rightarrow> (Some (if is_disconnect error then Inr () else Inl (SE_Record error)), w)
      | Inr (record_bytes, rd') \<Rightarrow>
          (case pm_dispatch_record record_bytes nfs_port mount_port of
             None \<Rightarrow> pm_tcp_loop try_alloc nfs_port mount_port rd' w events
           | Some reply \<Rightarrow>
               (case cut_off of
                  Some w' \<Rightarrow> (Some (Inl SE_RequestTimeout), w')
                | None \<Rightarrow>
                    (case write_record_limited reply pm_record_limits w of
                       (Inl error, w') \<Rightarrow> (Some (Inl (SE_Record error)), w')
                     | (Inr _, w') \<Rightarrow> pm_tcp_loop try_alloc nfs_port mount_port rd' w' events))))"

definition pm_serve_tcp_connection ::
  "IoErrorKind + unit \<Rightarrow> allocator \<Rightarrow> u16 \<Rightarrow> u16 \<Rightarrow> reader \<Rightarrow> writer \<Rightarrow> tcp_event list \<Rightarrow>
   (ServerError + unit) option \<times> writer" where
  "pm_serve_tcp_connection nodelay try_alloc nfs_port mount_port rd w events =
     (case nodelay of
        Inl kind \<Rightarrow> (Some (Inl (SE_Io kind)), w)
      | Inr _ \<Rightarrow> pm_tcp_loop try_alloc nfs_port mount_port rd w events)"

text \<open>The replies to a sequence of records, each in one marked fragment.\<close>

definition pm_replies :: "u16 \<Rightarrow> u16 \<Rightarrow> bytes list \<Rightarrow> bytes" where
  "pm_replies nfs_port mount_port records =
     concat (map (\<lambda>reply. fragments_bytes [reply])
       (List.map_filter (\<lambda>r. pm_dispatch_record r nfs_port mount_port) records))"

text \<open>A NULL call and a GETPORT call for NFS version 3 over TCP, both with AUTH_NONE.\<close>

definition sample_portmap_call :: "u32 \<Rightarrow> u32 \<Rightarrow> u32 list \<Rightarrow> bytes" where
  "sample_portmap_call xid procedure args =
     concat (map be32 ([xid, 0, 2, 100000, 2, procedure, 0, 0, 0, 0] @ args))"

text \<open>What every reply of the endpoint looks like: the call's identifier, the reply tag, 32 bytes at most.\<close>

definition pm_reply_to :: "u32 \<Rightarrow> bytes \<Rightarrow> bool" where
  "pm_reply_to xid reply \<longleftrightarrow> prefix (be32 xid @ be32 RPC_REPLY) reply \<and> length reply \<le> 32"

section \<open>Replies of the standalone endpoint\<close>

lemma pm_accepted_reply_eq: "pm_accepted_reply = accepted_reply"
  by (intro ext) (simp add: pm_accepted_reply_def accepted_reply_def accepted_reply_encoder_def Let_def)

lemma pm_reply_to_accepted: "length body \<le> 8 \<Longrightarrow> pm_reply_to xid (pm_accepted_reply xid status body)"
  by (simp add: pm_reply_to_def pm_accepted_reply_def write_u32_def write_fixed_def Let_def)

lemma pm_reply_to_denied:
  "pm_reply_to xid (pm_rpc_mismatch xid)" "pm_reply_to xid (pm_auth_error xid status)"
  by (simp_all add: pm_reply_to_def pm_rpc_mismatch_def pm_auth_error_def write_u32_def Let_def)

lemma pm_reply_to_procedure: "pm_reply_to xid (pm_procedure xid procedure args nfs_port mount_port)"
  by (auto simp: pm_procedure_def write_u32_def split: sum.split intro!: pm_reply_to_accepted)

lemma or_reply_pred:
  assumes "P reply" and "\<And>value d'. read d = Inr (value, d') \<Longrightarrow> pred_option P (k value d')"
  shows "pred_option P (or_reply read reply d k)"
  using assms by (auto simp: or_reply_def split: sum.split prod.split)

lemma pred_option_if:
  "(c \<Longrightarrow> pred_option P x) \<Longrightarrow> (\<not> c \<Longrightarrow> pred_option P y) \<Longrightarrow> pred_option P (if c then x else y)"
  by simp

lemma pred_option_sum:
  "(\<And>e. pred_option P (f e)) \<Longrightarrow> (\<And>a. pred_option P (g a)) \<Longrightarrow>
     pred_option P (case s of Inl e \<Rightarrow> f e | Inr a \<Rightarrow> g a)"
  by (cases s) simp_all

lemma pred_option_SomeI: "P x \<Longrightarrow> pred_option P (Some x)"
  by simp

lemma pm_dispatch_record_replies:
  assumes "read_u32 (decoder_new r) = Inr (xid, d)"
  shows "pred_option (pm_reply_to xid) (pm_dispatch_record r nfs_port mount_port)"
  unfolding pm_dispatch_record_def assms Let_def sum.case prod.case
  by (intro or_reply_pred pred_option_if pred_option_sum pred_option_SomeI pm_reply_to_accepted
      pm_reply_to_denied pm_reply_to_procedure) (simp_all add: write_u32_def)

lemma pm_dispatch_record_Some:
  assumes "pm_dispatch_record r nfs_port mount_port = Some reply"
  obtains xid d where "read_u32 (decoder_new r) = Inr (xid, d)" and "pm_reply_to xid reply"
proof -
  obtain xid d where xid: "read_u32 (decoder_new r) = Inr (xid, d)"
    using assms by (cases "read_u32 (decoder_new r)") (auto simp: pm_dispatch_record_def)
  then show ?thesis using that pm_dispatch_record_replies [OF xid, of nfs_port mount_port] assms by simp
qed

lemma pm_dispatch_record_reply:
  assumes "pm_reply_to xid reply"
  shows "pm_dispatch_record reply nfs_port mount_port = None"
proof -
  obtain rest where reply: "reply = be32 xid @ be32 RPC_REPLY @ rest"
    using assms by (auto simp: pm_reply_to_def prefix_def)
  let ?d = "\<lambda>n. \<lparr>dec_input = reply, dec_position = n\<rparr>"
  have "read_u32 (decoder_new reply) = Inr (xid, ?d 4)" and "read_u32 (?d 4) = Inr (RPC_REPLY, ?d 8)"
    unfolding read_u32_Inr by (simp_all add: consumes_def decoder_new_def reply)
  then show ?thesis by (simp add: pm_dispatch_record_def or_reply_def rpc_constants)
qed

lemma portmapper_prepare_ports:
  "portmapper_prepare tcp udp ports primary_port = Inr prepared \<Longrightarrow>
     pp_nfs_port prepared \<noteq> 0 \<and> pp_mount_port prepared \<noteq> 0 \<and>
     (ports = None \<longrightarrow> pp_nfs_port prepared = primary_port \<and> pp_mount_port prepared = primary_port)"
  by (cases tcp; cases udp; cases ports) (auto simp: portmapper_prepare_def split: if_splits)

lemma ucast_u16_eq_0: "(ucast (p :: u16) :: u32) = 0 \<longleftrightarrow> p = 0"
  by transfer (simp add: take_bit_take_bit min_def)

lemma get_port_advertised:
  assumes "nfs_port \<noteq> 0" and "mount_port \<noteq> 0"
  shows "get_port request nfs_port mount_port \<noteq> 0 \<longleftrightarrow>
    pm_prot request = IPPROTO_TCP \<and>
    (pm_prog request, pm_vers request) \<in> {(NFS_PROGRAM, NFS_VERSION), (MOUNT_PROGRAM, MOUNT_VERSION)}"
  using assms by (auto simp: get_port_def rpc_constants ucast_u16_eq_0)

section \<open>The TCP loop\<close>

lemma pm_limits_simps:
  "max_record_size pm_record_limits = 4096" "max_fragment_size pm_record_limits = 4096"
  "max_fragments pm_record_limits = 16"
  by (simp_all add: pm_record_limits_def MAX_PORTMAP_RECORD_SIZE_def MAX_PORTMAP_FRAGMENTS_def)

lemma pm_write_reply:
  assumes "pm_reply_to xid reply" and "progressive w"
  obtains w' where "write_record_limited reply pm_record_limits w = (Inr (), w')"
    and "wr_out w' = wr_out w @ fragments_bytes [reply]" and "progressive w'"
proof -
  let ?res = "write_fragments reply 4096 w"
  have len: "length reply \<le> 32" using assms(1) by (simp add: pm_reply_to_def)
  have valid: "validate_record reply pm_record_limits = Inr ()"
    using len by (simp add: validate_record_def validate_record_length_Inr pm_limits_simps div_ceil_def)
  have "chunks 4096 reply = [reply]" using len by (simp add: chunks.simps)
  then have "wrote w (fragments_bytes [reply]) ?res"
    using wrote_write_fragments [of 4096 reply w] len by simp
  moreover obtain r w' where "?res = (r, w')" by fastforce
  ultimately show ?thesis
    using assms(2) that [of w']
    by (auto simp: wrote_def write_record_limited_def valid pm_limits_simps progressive_def)
qed

lemma pm_read_eof:
  assumes "rd_bytes rd = []" and "rd_end rd = UnexpectedEof"
  shows "read_record try_alloc pm_record_limits rd = Inl (RecIo UnexpectedEof)"
proof -
  have "io_read_u32 rd = Inl (RecIo UnexpectedEof)"
    using assms by (simp add: io_read_u32_def io_read_exact_def)
  then show ?thesis by (simp add: read_record_def pm_limits_simps eval_nat_numeral)
qed

lemma pm_read_marked:
  assumes "alloc_ok try_alloc pm_record_limits" and "fragments_ok pm_record_limits fs"
    and "rd_bytes rd = fragments_bytes fs @ rest"
  shows "read_record try_alloc pm_record_limits rd = Inr (concat fs, rd\<lparr>rd_bytes := rest\<rparr>)"
  using assms by (auto simp: read_record_Inr pm_limits_simps)

lemma pm_tcp_loop_replies:
  assumes "alloc_ok try_alloc pm_record_limits"
  shows "\<forall>fs \<in> set marked. fragments_ok pm_record_limits fs \<Longrightarrow>
    rd_bytes rd = concat (map fragments_bytes marked) \<Longrightarrow> rd_end rd = UnexpectedEof \<Longrightarrow>
    progressive w \<Longrightarrow>
    \<exists>w'. pm_tcp_loop try_alloc nfs_port mount_port rd w
           (replicate (Suc (length marked)) (TE_Record None)) = (Some (Inr ()), w') \<and>
         wr_out w' = wr_out w @ pm_replies nfs_port mount_port (map concat marked)"
proof (induction marked arbitrary: rd w)
  case Nil
  then show ?case by (simp add: pm_read_eof is_disconnect_def pm_replies_def)
next
  case (Cons fs marked)
  let ?rd = "rd\<lparr>rd_bytes := concat (map fragments_bytes marked)\<rparr>"
  have read: "read_record try_alloc pm_record_limits rd = Inr (concat fs, ?rd)"
    using Cons.prems by (intro pm_read_marked [OF assms]) simp_all
  show ?case
  proof (cases "pm_dispatch_record (concat fs) nfs_port mount_port")
    case None
    then show ?thesis using Cons.IH [of ?rd w] Cons.prems read by (simp add: pm_replies_def)
  next
    case (Some reply)
    obtain xid d where "pm_reply_to xid reply" using pm_dispatch_record_Some [OF Some] by blast
    then obtain w1 where "write_record_limited reply pm_record_limits w = (Inr (), w1)"
      and w1: "wr_out w1 = wr_out w @ fragments_bytes [reply]" "progressive w1"
      using pm_write_reply Cons.prems(4) by metis
    then show ?thesis using Cons.IH [of ?rd w1] Cons.prems read Some by (simp add: pm_replies_def)
  qed
qed

section \<open>Properties\<close>

text \<open>
  The standalone portmapper never answers more than it should: a reply carries the transaction
  identifier of the call in its first four bytes, is at most 32 bytes long, and is itself never
  answered, so that two endpoints cannot be made to exchange replies forever.
\<close>

theorem portmapper_reply_safe:
  assumes "pm_dispatch_record record_bytes nfs_port mount_port = Some reply"
  shows "take 4 reply = take 4 record_bytes \<and> length reply \<le> 32 \<and>
    pm_dispatch_record reply nfs_port' mount_port' = None"
proof -
  obtain xid d where xid: "read_u32 (decoder_new record_bytes) = Inr (xid, d)" "pm_reply_to xid reply"
    using pm_dispatch_record_Some [OF assms] by blast
  then have "take 4 reply = be32 xid" "take 4 record_bytes = be32 xid" "length reply \<le> 32"
    by (auto simp: pm_reply_to_def prefix_def read_u32_Inr consumes_def decoder_new_def)
  then show ?thesis using pm_dispatch_record_reply [OF xid(2)] by simp
qed

theorem portmapper_reply_safe_witness:
  "take 4 (accepted_reply 7 0 (be32 2049)) = take 4 (sample_portmap_call 7 3 [100003, 3, 6, 0]) \<and>
   length (accepted_reply 7 0 (be32 2049)) \<le> 32 \<and>
   pm_dispatch_record (accepted_reply 7 0 (be32 2049)) 1 1 = None"
proof -
  have "pm_dispatch_record (sample_portmap_call 7 3 [100003, 3, 6, 0]) 2049 2049 =
      Some (accepted_reply 7 0 (be32 2049))"
    by code_simp
  then show ?thesis by (rule portmapper_reply_safe)
qed

text \<open>
  The portmapper on the NFS connection and the standalone endpoint that advertises the same port
  give the same answer to every procedure and every argument: the one refuses malformed arguments
  with a decoding error exactly where the other replies \<open>GARBAGE_ARGS\<close>, and there is no other error.
\<close>

theorem portmap_services_agree:
  "case dispatch_portmap xid procedure args state of
     Inr reply \<Rightarrow> pm_procedure xid procedure args (cs_local_port state) (cs_local_port state) = reply
   | Inl error \<Rightarrow> (\<exists>e. error = SE_Decode e) \<and>
       pm_procedure xid procedure args (cs_local_port state) (cs_local_port state) =
         accepted_reply xid GARBAGE_ARGS []"
  by (cases "decode_all read_getport args")
    (auto simp: dispatch_portmap_def pm_procedure_def pm_accepted_reply_eq get_port_def Let_def
      PORTMAP_NULL_def PORTMAP_GETPORT_def)

text \<open>
  C33: A connection to the standalone portmapper is served in order and to its end: on a stream that
  carries any records marked within the limits and then ends, the loop answers each record that
  deserves an answer with one fragment, in the order of the calls, sends nothing else, and returns
  without an error.
\<close>

theorem portmapper_serves_stream:
  assumes "alloc_ok try_alloc pm_record_limits"
    and "\<forall>fs \<in> set marked. fragments_ok pm_record_limits fs"
    and "rd_bytes rd = concat (map fragments_bytes marked)" and "rd_end rd = UnexpectedEof"
    and "progressive w"
  shows "\<exists>w'. pm_serve_tcp_connection (Inr ()) try_alloc nfs_port mount_port rd w
      (replicate (Suc (length marked)) (TE_Record None)) = (Some (Inr ()), w') \<and>
    wr_out w' = wr_out w @ pm_replies nfs_port mount_port (map concat marked)"
  using pm_tcp_loop_replies [OF assms] by (simp add: pm_serve_tcp_connection_def)

theorem portmapper_serves_stream_witness:
  "\<exists>w'. pm_serve_tcp_connection (Inr ()) Some 2049 2049
      \<lparr>rd_bytes = fragments_bytes [take 8 (sample_portmap_call 7 0 []), drop 8 (sample_portmap_call 7 0 [])],
       rd_end = UnexpectedEof\<rparr> (sample_writer True)
      (replicate (Suc (length [()])) (TE_Record None)) = (Some (Inr ()), w') \<and>
    wr_out w' = fragments_bytes [accepted_reply 7 0 []]"
proof -
  let ?fs = "[take 8 (sample_portmap_call 7 0 []), drop 8 (sample_portmap_call 7 0 [])]"
  have "pm_dispatch_record (concat ?fs) 2049 2049 = Some (accepted_reply 7 0 [])" by code_simp
  then have replies: "pm_replies 2049 2049 (map concat [?fs]) = fragments_bytes [accepted_reply 7 0 []]"
    by (simp add: pm_replies_def)
  have "alloc_ok Some pm_record_limits" by (simp add: alloc_ok_def)
  moreover have "fragments_ok pm_record_limits ?fs" by code_simp
  moreover have "progressive (sample_writer True)" by (simp add: progressive_def sample_writer_def)
  ultimately show ?thesis
    using portmapper_serves_stream [of Some "[?fs]"
        "\<lparr>rd_bytes = fragments_bytes ?fs, rd_end = UnexpectedEof\<rparr>" "sample_writer True" 2049 2049]
    unfolding replies by (simp add: sample_writer_def)
qed

end
