(* ===== verification/Connection.thy ===== *)
theory Connection
  imports Replay_Machine Mount Portmap
begin

text \<open>
  A request on a connection (\<^verbatim>\<open>src/server/connection.rs\<close>): decoding the call, authentication, the
  fingerprint, the duplicate-request cache, the dispatch to the three programs and the checks on the
  reply.

  What one request awaits is decided by its environment: the outcomes of the semaphores, of the
  deadline and of the channel it waits on are fields of a record.  The critical sections on the cache
  are those of \<open>Replay_Cache\<close>; how those of several requests interleave is the subject of
  \<open>Replay_Machine\<close>.  SHA-256 is a parameter.  Tracing is left out, but for the names of the procedures.
\<close>

section \<open>Names of procedures\<close>

definition nfs_procedure_names :: "string list" where
  "nfs_procedure_names =
     [''NULL'', ''GETATTR'', ''SETATTR'', ''LOOKUP'', ''ACCESS'', ''READLINK'', ''READ'', ''WRITE'',
      ''CREATE'', ''MKDIR'', ''SYMLINK'', ''MKNOD'', ''REMOVE'', ''RMDIR'', ''RENAME'', ''LINK'',
      ''READDIR'', ''READDIRPLUS'', ''FSSTAT'', ''FSINFO'', ''PATHCONF'', ''COMMIT'']"

definition mount_procedure_names :: "string list" where
  "mount_procedure_names = [''MOUNT_NULL'', ''MNT'', ''DUMP'', ''UMNT'', ''UMNTALL'', ''EXPORT'']"

definition procedure_name :: "u32 \<Rightarrow> u32 \<Rightarrow> string" where
  "procedure_name program procedure =
     (if program = NFS_PROGRAM then
        if procedure \<le> 21 then nfs_procedure_names ! unat procedure else ''UNKNOWN_NFS''
      else if program = MOUNT_PROGRAM then
        if procedure \<le> 5 then mount_procedure_names ! unat procedure else ''UNKNOWN_MOUNT''
      else if program = PORTMAP_PROGRAM then
        if procedure = 0 then ''PMAP_NULL''
        else if procedure = 3 then ''GETPORT''
        else ''UNKNOWN_PORTMAP''
      else ''UNKNOWN_RPC'')"

section \<open>Dispatch\<close>

definition first_export_id :: "'s ConnectionState \<Rightarrow> ExportId" where
  "first_export_id state = (case cs_exports state of [] \<Rightarrow> 0 | export # _ \<Rightarrow> ex_id export)"

definition request_export_id :: "u32 \<Rightarrow> u32 \<Rightarrow> bytes \<Rightarrow> 's ConnectionState \<Rightarrow> ExportId" where
  "request_export_id program procedure args state =
     (if program = NFS_PROGRAM \<and> procedure \<noteq> 0 then
        (case read_opaque_slice ''NFS file handle'' 64 (decoder_new args) of
           Inl _ \<Rightarrow> first_export_id state
         | Inr (handle, _) \<Rightarrow>
             (case handle_decode_any (cs_handles state) handle of
                Inl _ \<Rightarrow> first_export_id state
              | Inr (export_id, _) \<Rightarrow> export_id))
      else if program = MOUNT_PROGRAM \<and> procedure \<in> {1, 3} then
        (case read_opaque_slice ''MOUNT path'' 1024 (decoder_new args) of
           Inl _ \<Rightarrow> 0
         | Inr (path, _) \<Rightarrow>
             (case select_export state path of None \<Rightarrow> 0 | Some export \<Rightarrow> ex_id export))
      else 0)"

type_synonym 's call_state = "MountTable \<times> 's"

definition dispatch_call ::
  "(bytes \<Rightarrow> usize) \<Rightarrow> u32 \<Rightarrow> u32 \<Rightarrow> u32 \<Rightarrow> u32 \<Rightarrow> bytes \<Rightarrow> RequestContext \<Rightarrow> 's ConnectionState \<Rightarrow>
   's call_state \<Rightarrow> (ServerError + EncodedReply) \<times> 's call_state" where
  "dispatch_call cap xid program version procedure args context state w =
     (if program = NFS_PROGRAM then
        if version \<noteq> NFS_VERSION
        then (Inr (into_reply cap (program_mismatch xid NFS_VERSION NFS_VERSION)), w)
        else
          (case w of (mounts, s) \<Rightarrow>
             (case dispatch_nfs cap xid procedure args context state s of (res, s) \<Rightarrow> (res, mounts, s)))
      else if program = MOUNT_PROGRAM then
        if version \<noteq> MOUNT_VERSION
        then (Inr (into_reply cap (program_mismatch xid MOUNT_VERSION MOUNT_VERSION)), w)
        else
          (case dispatch_mount xid procedure args context state w of
             (res, w) \<Rightarrow> (r_bind res (\<lambda>bs. Inr (into_reply cap bs)), w))
      else if program = PORTMAP_PROGRAM \<and> cs_portmapper state = Portmapper_Enabled then
        if version \<noteq> PORTMAP_VERSION
        then (Inr (into_reply cap (program_mismatch xid PORTMAP_VERSION PORTMAP_VERSION)), w)
        else (r_bind (dispatch_portmap xid procedure args state) (\<lambda>bs. Inr (into_reply cap bs)), w)
      else (Inr (into_reply cap (accepted_reply xid PROG_UNAVAIL [])), w))"

definition bounded_reply ::
  "(bytes \<Rightarrow> usize) \<Rightarrow> u32 \<Rightarrow> RecordLimits \<Rightarrow> EncodedReply \<Rightarrow> ServerError + EncodedReply" where
  "bounded_reply cap xid limits reply =
     (case validate_record_length (reply_len reply) limits of
        Inl error \<Rightarrow>
          let bounded_error = into_reply cap (accepted_reply xid SYSTEM_ERR []) in
          r_bind (r_map_err SE_Record (validate_record_length (reply_len bounded_error) limits)) (\<lambda>_.
          Inr bounded_error)
      | Inr _ \<Rightarrow> Inr reply)"

definition execute_request ::
  "(bytes \<Rightarrow> usize) \<Rightarrow> u32 \<Rightarrow> u32 \<Rightarrow> u32 \<Rightarrow> u32 \<Rightarrow> bytes \<Rightarrow> RequestContext \<Rightarrow> 's ConnectionState \<Rightarrow>
   's call_state \<Rightarrow> (ServerError + EncodedReply) \<times> 's call_state" where
  "execute_request cap xid program version procedure arguments context state w =
     (case dispatch_call cap xid program version procedure arguments context state w of
        (res, w) \<Rightarrow>
          (case res of
             Inr reply \<Rightarrow> bounded_reply cap xid (record_limits (cs_limits state)) reply
           | Inl (SE_Decode _) \<Rightarrow>
               bounded_reply cap xid (record_limits (cs_limits state))
                 (into_reply cap (accepted_reply xid GARBAGE_ARGS []))
           | Inl (SE_Encode _) \<Rightarrow>
               bounded_reply cap xid (record_limits (cs_limits state))
                 (into_reply cap (accepted_reply xid SYSTEM_ERR []))
           | Inl error \<Rightarrow> Inl error, w))"

section \<open>The call header\<close>

record RpcCall =
  rq_xid :: u32
  rq_rpc_version :: u32
  rq_program :: u32
  rq_version :: u32
  rq_procedure :: u32
  rq_credential_flavor :: u32
  rq_credential :: bytes
  rq_verifier_flavor :: u32
  rq_verifier :: bytes
  rq_args_offset :: usize

definition reply_on_connection :: ServerError where
  "reply_on_connection = SE_Protocol ''received an RPC reply on a server connection''"

text \<open>\<open>let value = decoder.read_\<dots>?;\<close>\<close>

definition d_try :: "'a dec \<Rightarrow> decoder \<Rightarrow> ('a \<Rightarrow> decoder \<Rightarrow> ServerError + 'b) \<Rightarrow> ServerError + 'b" where
  "d_try read d k = (case read d of Inl error \<Rightarrow> Inl (SE_Decode error) | Inr (value, d') \<Rightarrow> k value d')"

definition read_call :: "bytes \<Rightarrow> ServerError + RpcCall" where
  "read_call record_bytes =
     d_try read_u32 (decoder_new record_bytes) (\<lambda>xid d.
     d_try read_u32 d (\<lambda>message_type d.
     if message_type \<noteq> RPC_CALL then Inl reply_on_connection
     else
       d_try read_u32 d (\<lambda>rpc_version d.
       d_try read_u32 d (\<lambda>program d.
       d_try read_u32 d (\<lambda>version d.
       d_try read_u32 d (\<lambda>procedure d.
       d_try read_u32 d (\<lambda>credential_flavor d.
       d_try (read_opaque_slice ''RPC credential'' 400) d (\<lambda>credential_body d.
       d_try read_u32 d (\<lambda>verifier_flavor d.
       d_try (read_opaque_slice ''RPC verifier'' 400) d (\<lambda>verifier d.
       Inr \<lparr>rq_xid = xid, rq_rpc_version = rpc_version, rq_program = program, rq_version = version,
            rq_procedure = procedure, rq_credential_flavor = credential_flavor,
            rq_credential = credential_body, rq_verifier_flavor = verifier_flavor,
            rq_verifier = verifier, rq_args_offset = dec_position d\<rparr>))))))))))"

text \<open>The checks on a decoded header: the denial, or who calls.\<close>

definition check_call :: "AuthPolicy \<Rightarrow> RpcCall \<Rightarrow> bytes + Principal" where
  "check_call policy call =
     (if rq_verifier_flavor call \<noteq> AUTH_NONE \<or> rq_verifier call \<noteq> []
      then Inl (auth_error (rq_xid call) 3)
      else
        (case decode_principal (rq_credential_flavor call) (rq_credential call) of
           Inl _ \<Rightarrow> Inl (auth_error (rq_xid call) 1)
         | Inr who \<Rightarrow>
             if rq_rpc_version call \<noteq> 2 then Inl (rpc_mismatch (rq_xid call) 2 2)
             else if rq_program call \<noteq> PORTMAP_PROGRAM \<and> \<not> principal_allowed policy who
             then Inl (auth_error (rq_xid call) 5)
             else Inr who))"

section \<open>Fingerprints\<close>

text \<open>The hasher is the bytes that were fed to it.\<close>

definition hash_principal :: "bytes \<Rightarrow> Principal \<Rightarrow> bytes" where
  "hash_principal hasher who =
     (case who of
        Anonymous \<Rightarrow> hasher @ [0]
      | AuthSys uid gid supplementary_gids machine_name \<Rightarrow>
          hasher @ [1] @ be32 uid @ be32 gid @ be32 (of_nat (length supplementary_gids)) @
          concat (map be32 supplementary_gids) @ be32 (of_nat (length machine_name)) @ machine_name)"

definition fingerprint_input :: "u32 \<Rightarrow> u32 \<Rightarrow> u32 \<Rightarrow> bytes \<Rightarrow> Principal \<Rightarrow> bytes" where
  "fingerprint_input program version procedure args who =
     hash_principal (be32 program @ be32 version @ be32 procedure @ args) who"

section \<open>Requests\<close>

datatype waiter_outcome = Waiter_Elapsed | Waiter_Closed | Waiter_Received "ReplayError + EncodedReply"
datatype permit_outcome = Permit_Granted | Permit_Closed | Permit_Elapsed

text \<open>
  How the spawned execution ends: it runs to completion at a time, or the deadline or the abortion of
  the task leaves the mount table and the backend as they are at that moment.
\<close>

datatype 's execution_outcome = Exec_Runs nat | Exec_Elapsed "'s call_state" | Exec_Aborted "'s call_state"

record 's request_env =
  re_sha256 :: "bytes \<Rightarrow> bytes"
  re_vec_capacity :: "bytes \<Rightarrow> usize"
  re_alloc :: "usize \<Rightarrow> usize"
  re_now :: nat
  re_is_closed :: "channel \<Rightarrow> bool"
  re_channel :: channel
  re_waiter :: waiter_outcome
  re_permit :: permit_outcome
  re_tracker_alive :: bool
  re_execution :: "'s execution_outcome"

record 's server_world =
  w_cache :: CacheInner
  w_sent :: "delivery list"
  w_call_state :: "'s call_state"

definition release :: "delivery list \<times> CacheInner \<Rightarrow> 's server_world \<Rightarrow> 's server_world" where
  "release released w =
     (case released of (sent, inner) \<Rightarrow> w\<lparr>w_cache := inner, w_sent := w_sent w @ sent\<rparr>)"

text \<open>The spawned task: the lease is completed with a reply and cancelled otherwise.\<close>

definition run_execution ::
  "'s request_env \<Rightarrow> ReplayConfig \<Rightarrow> ReplayEntryKey \<Rightarrow> RpcCall \<Rightarrow> bytes \<Rightarrow> RequestContext \<Rightarrow>
   's ConnectionState \<Rightarrow> 's server_world \<Rightarrow> (ServerError + EncodedReply) \<times> 's server_world" where
  "run_execution env c key call arguments context state w =
     (let lease = \<lparr>lease_key = key, lease_finished = False\<rparr> in
      case re_execution env of
        Exec_Aborted cs \<Rightarrow>
          (Inl SE_ReplayWaiterClosed, release (lease_drop lease (w_cache w)) (w\<lparr>w_call_state := cs\<rparr>))
      | Exec_Elapsed cs \<Rightarrow>
          (Inl SE_RequestTimeout, release (snd (lease_cancel lease (w_cache w))) (w\<lparr>w_call_state := cs\<rparr>))
      | Exec_Runs now \<Rightarrow>
          (case execute_request (re_vec_capacity env) (rq_xid call) (rq_program call) (rq_version call)
                  (rq_procedure call) arguments context state (w_call_state w) of
             (Inr reply, cs) \<Rightarrow>
               (Inr reply,
                release (snd (lease_complete (re_alloc env) c now reply lease (w_cache w)))
                  (w\<lparr>w_call_state := cs\<rparr>))
           | (Inl error, cs) \<Rightarrow>
               (Inl error, release (snd (lease_cancel lease (w_cache w))) (w\<lparr>w_call_state := cs\<rparr>))))"

definition await_waiter :: "waiter_outcome \<Rightarrow> ServerError + EncodedReply" where
  "await_waiter outcome =
     (case outcome of
        Waiter_Elapsed \<Rightarrow> Inl SE_RequestTimeout
      | Waiter_Closed \<Rightarrow> Inl SE_ReplayWaiterClosed
      | Waiter_Received res \<Rightarrow> r_map_err SE_Replay res)"

definition replay_key_of :: "SocketAddr \<Rightarrow> ExportId \<Rightarrow> u32 \<Rightarrow> ReplayKey" where
  "replay_key_of client_addr export_id xid =
     \<lparr>rk_client_addr = \<lparr>sock_ip = sock_ip client_addr, sock_port = 0\<rparr>, rk_export_id = export_id,
      rk_xid = xid\<rparr>"

text \<open>The part of \<open>dispatch_record\<close> behind the checks: the duplicate-request cache and the execution.\<close>

definition dispatch_checked ::
  "'s request_env \<Rightarrow> ReplayConfig \<Rightarrow> bytes \<Rightarrow> SocketAddr \<Rightarrow> 's ConnectionState \<Rightarrow> 's server_world \<Rightarrow>
   RpcCall \<Rightarrow> Principal \<Rightarrow> (ServerError + EncodedReply) \<times> 's server_world" where
  "dispatch_checked env c arguments client_addr state w call who =
     (let export_id = request_export_id (rq_program call) (rq_procedure call) arguments state;
          fingerprint = RequestFingerprint (re_sha256 env
            (fingerprint_input (rq_program call) (rq_version call) (rq_procedure call) arguments who)) in
      case replay_begin c (re_now env) (re_is_closed env) (re_channel env)
             (replay_key_of client_addr export_id (rq_xid call)) fingerprint (w_cache w) of
        (decision, inner) \<Rightarrow>
          let w = w\<lparr>w_cache := inner\<rparr> in
          (case decision of
             Inl error \<Rightarrow> (Inl (SE_Replay error), w)
           | Inr (Replay reply) \<Rightarrow> (Inr reply, w)
           | Inr (Wait waiter) \<Rightarrow> (await_waiter (re_waiter env), w)
           | Inr (Execute key) \<Rightarrow>
               let context = \<lparr>ctx_principal = who, ctx_client_addr = client_addr, ctx_export_id = export_id\<rparr>;
                   dropped = release (lease_drop \<lparr>lease_key = key, lease_finished = False\<rparr> inner) w in
               (case re_permit env of
                  Permit_Closed \<Rightarrow> (Inl SE_ShuttingDown, dropped)
                | Permit_Elapsed \<Rightarrow> (Inl SE_RequestTimeout, dropped)
                | Permit_Granted \<Rightarrow>
                    if \<not> re_tracker_alive env then (Inl SE_ShuttingDown, dropped)
                    else run_execution env c key call arguments context state w)))"

definition dispatch_record ::
  "'s request_env \<Rightarrow> ReplayConfig \<Rightarrow> bytes \<Rightarrow> SocketAddr \<Rightarrow> 's ConnectionState \<Rightarrow> 's server_world \<Rightarrow>
   (ServerError + EncodedReply) \<times> 's server_world" where
  "dispatch_record env c record_bytes client_addr state w =
     (case read_call record_bytes of
        Inl error \<Rightarrow> (Inl error, w)
      | Inr call \<Rightarrow>
          (case check_call (cs_auth_policy state) call of
             Inl denied \<Rightarrow> (Inr (into_reply (re_vec_capacity env) denied), w)
           | Inr who \<Rightarrow>
               dispatch_checked env c (drop (rq_args_offset call) record_bytes) client_addr state w call who))"

text \<open>
  The task that the processor spawns for a request: the budget for its reply is acquired first, and a
  request that fails is answered with a system error.
\<close>

definition request_xid :: "bytes \<Rightarrow> u32 option" where
  "request_xid record_bytes = (if 4 \<le> length record_bytes then Some (u32_of_be (take 4 record_bytes)) else None)"

definition process_request ::
  "permit_outcome \<Rightarrow> 's request_env \<Rightarrow> ReplayConfig \<Rightarrow> bytes \<Rightarrow> SocketAddr \<Rightarrow> 's ConnectionState \<Rightarrow>
   's server_world \<Rightarrow> (ServerError + EncodedReply) \<times> 's server_world" where
  "process_request budget env c record_bytes client_addr state w =
     (case budget of
        Permit_Elapsed \<Rightarrow> (Inl SE_RequestTimeout, w)
      | Permit_Closed \<Rightarrow> (Inl SE_ShuttingDown, w)
      | Permit_Granted \<Rightarrow>
          (case dispatch_record env c record_bytes client_addr state w of
             (Inr reply, w) \<Rightarrow> (Inr reply, w)
           | (Inl error, w) \<Rightarrow> (Inr (error_reply (re_vec_capacity env) (request_xid record_bytes) SYSTEM_ERR), w)))"

section \<open>Vocabulary of the properties\<close>

text \<open>Failures that \<open>execute_request\<close> turns into a reply.\<close>

definition codec_failure :: "ServerError + 'a \<Rightarrow> bool" where
  "codec_failure res \<longleftrightarrow> (\<forall>error. res = Inl error \<longrightarrow> (\<exists>e. error = SE_Encode e) \<or> (\<exists>e. error = SE_Decode e))"

text \<open>A well-formed reply that accepts the call \<open>xid\<close>.\<close>

definition accepted_bytes :: "u32 \<Rightarrow> bytes \<Rightarrow> bool" where
  "accepted_bytes xid bs \<longleftrightarrow> (\<exists>status body. bs = accepted_reply_encoder xid status @ body)"

definition accepts :: "u32 \<Rightarrow> EncodedReply \<Rightarrow> bool" where
  "accepts xid reply \<longleftrightarrow> reply_ok reply \<and> accepted_bytes xid (reply_into_bytes reply)"

definition accepted_or_failed :: "('a \<Rightarrow> bool) \<Rightarrow> ServerError + 'a \<Rightarrow> bool" where
  "accepted_or_failed P res \<longleftrightarrow> codec_failure res \<and> (\<forall>a. res = Inr a \<longrightarrow> P a)"

text \<open>The standard library's promise on the capacity of a vector.\<close>

abbreviation vec_ok :: "(bytes \<Rightarrow> usize) \<Rightarrow> bool" where
  "vec_ok cap \<equiv> \<forall>bs. length bs \<le> cap bs"

text \<open>A well-formed reply to \<open>xid\<close>, accepted or denied, that can be sent.\<close>

definition deliverable :: "ServerLimits \<Rightarrow> u32 \<Rightarrow> EncodedReply \<Rightarrow> bool" where
  "deliverable limits xid reply \<longleftrightarrow> reply_ok reply \<and>
     prefix (be32 xid @ be32 RPC_REPLY) (reply_into_bytes reply) \<and>
     validate_record_length (reply_len reply) (record_limits limits) = Inr ()"

text \<open>
  The server's invariant at a time at which every retained reply has been completed: that of the
  cache, and every retained reply can be sent in answer to its request.
\<close>

definition world_ok :: "ReplayConfig \<Rightarrow> nat \<Rightarrow> ServerLimits \<Rightarrow> 's server_world \<Rightarrow> bool" where
  "world_ok c t limits w \<longleftrightarrow> cache_ok c t (w_cache w) \<and>
     (\<forall>k r n ct. entry (w_cache w) k = Some (Completed r n ct) \<longrightarrow> deliverable limits (rk_xid (ek_request k)) r)"

text \<open>
  What a request may rely on: the limits were validated, the codec and the vectors of the standard
  library keep their promises, the generation counter has not wrapped, an execution ends no earlier
  than what was completed before, and a reply that is received from the execution of a duplicate is
  one that execution was completed with.
\<close>

definition request_ok ::
  "usize \<Rightarrow> 's request_env \<Rightarrow> ReplayConfig \<Rightarrow> nat \<Rightarrow> u32 \<Rightarrow> 's ConnectionState \<Rightarrow> 's server_world \<Rightarrow> bool" where
  "request_ok max_permits env c t xid state w \<longleftrightarrow>
     limits_validate max_permits (cs_limits state) = Inr () \<and> codec_ok (cs_handles state) \<and>
     vec_ok (re_vec_capacity env) \<and> (\<forall>n. n \<le> re_alloc env n) \<and> config_ok c \<and>
     ci_next_generation (w_cache w) \<noteq> - 1 \<and>
     (\<forall>now. re_execution env = Exec_Runs now \<longrightarrow> t \<le> now) \<and>
     (\<forall>reply. re_waiter env = Waiter_Received (Inr reply) \<longrightarrow> deliverable (cs_limits state) xid reply)"

definition finished_at :: "nat \<Rightarrow> 's request_env \<Rightarrow> nat" where
  "finished_at t env = (case re_execution env of Exec_Runs now \<Rightarrow> now | _ \<Rightarrow> t)"

text \<open>An environment in which a request runs to completion at time 3, and an empty server.\<close>

definition sample_env :: "nat request_env" where
  "sample_env =
     \<lparr>re_sha256 = (\<lambda>bs. bs), re_vec_capacity = length, re_alloc = (\<lambda>n. n), re_now = 2,
      re_is_closed = (\<lambda>_. False), re_channel = 0, re_waiter = Waiter_Elapsed, re_permit = Permit_Granted,
      re_tracker_alive = True, re_execution = Exec_Runs 3\<rparr>"

definition sample_world :: "nat server_world" where
  "sample_world = \<lparr>w_cache = snd (cache_new 4 100 10), w_sent = [], w_call_state = ([], 0)\<rparr>"

definition sample_addr :: SocketAddr where
  "sample_addr = \<lparr>sock_ip = V4 10 0 0 2, sock_port = 700\<rparr>"

text \<open>A MNT call for the root, with AUTH_SYS credentials.\<close>

definition sample_mount_call :: bytes where
  "sample_mount_call =
     concat (map be32 [7, 0, 2, 100005, 3, 1, 1, 20, 0, 0, 0, 0, 0, 0, 0, 1]) @ [47, 0, 0, 0]"

section \<open>Every procedure accepts or fails to encode\<close>

lemma codec_failure_simps [simp]:
  "codec_failure (Inr a)" "codec_failure (Inl (SE_Encode e))" "codec_failure (Inl (SE_Decode d))"
  "codec_failure (r_map_err SE_Encode r)" "codec_failure (nfs_reply xid put result)"
  "codec_failure (status_reply xid put failure status)"
  by (cases r; simp add: codec_failure_def)
    (auto simp: codec_failure_def nfs_reply_def status_reply_def wire_nfs_status_def elim: r_map_err.elims)

lemma codec_failure_nfs [simp]:
  "codec_failure (fst (nfs_getattr xid a1 c st vfs s))" "codec_failure (fst (nfs_setattr xid a2 c st vfs s))"
  "codec_failure (fst (nfs_lookup xid a3 c st vfs s))" "codec_failure (fst (nfs_access xid a4 c st vfs s))"
  "codec_failure (fst (nfs_readlink xid a5 c st vfs s))" "codec_failure (fst (dispatch_write xid a7 c st vfs s))"
  by (simp_all add: nfs_getattr_def nfs_setattr_def nfs_lookup_def nfs_access_def nfs_readlink_def
      dispatch_write_def Let_def split: sum.split prod.split)

lemma codec_failure_nfs_create [simp]:
  "codec_failure (fst (nfs_create xid a8 c st vfs s))" "codec_failure (fst (nfs_mkdir xid a9 c st vfs s))"
  "codec_failure (fst (nfs_symlink xid a10 c st vfs s))" "codec_failure (fst (nfs_mknod xid a11 c st vfs s))"
  by (simp_all add: nfs_create_def nfs_mkdir_def nfs_symlink_def nfs_mknod_def create_failure_reply_def
      split: sum.split prod.split)

lemma codec_failure_nfs_remove [simp]:
  "codec_failure (fst (nfs_remove xid a12 c st vfs s))" "codec_failure (fst (nfs_rmdir xid a12 c st vfs s))"
  "codec_failure (fst (nfs_rename xid a14 c st vfs s))" "codec_failure (fst (nfs_link xid a15 c st vfs s))"
  by (simp_all add: nfs_remove_def nfs_rmdir_def nfs_rename_def nfs_link_def rename_failure_reply_def
      link_failure_reply_def split: sum.split prod.split)

lemma codec_failure_nfs_listing [simp]:
  "codec_failure (fst (nfs_readdir xid a16 c st vfs s))" "codec_failure (fst (nfs_readdirplus xid a17 c st vfs s))"
  "codec_failure (fst (nfs_fsstat xid a18 c st vfs s))" "codec_failure (fst (nfs_fsinfo xid a19 c st vfs s))"
  "codec_failure (fst (nfs_pathconf xid a20 c st vfs s))" "codec_failure (fst (nfs_commit xid a21 c st vfs s))"
  by (simp_all add: nfs_readdir_def nfs_readdirplus_def nfs_fsstat_def nfs_fsinfo_def nfs_pathconf_def
      nfs_commit_def Let_def split: sum.split prod.split)

lemma good_readlink: "\<exists>n. good_reply xid n (fst (nfs_readlink xid a c st vfs s))"
proof -
  have "good_reply xid 280 (status_reply xid encode_readlink_result (\<lambda>status. ReadLink_Err status None) status)"
    for status by (simp add: good_replies)
  then show ?thesis
    by (auto simp: nfs_readlink_def intro: res_readlink.good_nfs [OF order_refl] split: sum.split prod.split)
qed

lemma accepted_bytes_simps [simp]:
  "accepted_bytes xid (accepted_reply_encoder xid status @ body)"
  "accepted_bytes xid (accepted_reply_encoder xid status)"
  "accepted_bytes xid (accepted_reply xid status body)" "accepted_bytes xid (program_mismatch xid low high)"
  by (auto simp: accepted_bytes_def accepted_reply_def program_mismatch_def write_fixed_def write_u32_def
      intro: exI [of _ status] exI [of _ PROG_MISMATCH] exI [of _ "[]"])

lemma accepts_into_reply [simp]: "vec_ok cap \<Longrightarrow> accepts xid (into_reply cap bs) = accepted_bytes xid bs"
  by (simp add: accepts_def into_reply_ok into_reply_bytes)

lemma accepted_good: "codec_failure res \<Longrightarrow> good_reply xid n res \<Longrightarrow> accepted_or_failed (accepted_bytes xid) res"
  by (auto simp: accepted_or_failed_def good_reply_def)

lemma accepted_into:
  "vec_ok cap \<Longrightarrow> accepted_or_failed (accepted_bytes xid) res \<Longrightarrow>
   accepted_or_failed (accepts xid) (r_bind res (\<lambda>bs. Inr (into_reply cap bs)))"
  by (cases res) (auto simp: accepted_or_failed_def codec_failure_def)

lemma accepted_into_result:
  "vec_ok cap \<Longrightarrow> codec_failure (fst r) \<Longrightarrow> good_reply xid n (fst r) \<Longrightarrow>
   accepted_or_failed (accepts xid) (fst (into_result cap r))"
  by (cases r) (simp add: into_result_def accepted_into accepted_good)

lemma dispatch_read_accepted:
  assumes "vec_ok cap"
  shows "accepted_or_failed (accepts xid) (fst (dispatch_read cap xid a c st vfs s))"
proof -
  have "codec_failure (fst (dispatch_read cap xid a c st vfs s))"
    using read_success_reply_Inr
    by (fastforce simp: dispatch_read_def codec_failure_def Let_def status_reply_def nfs_reply_def
        wire_nfs_status_def split: sum.splits prod.splits option.splits elim!: r_bind.elims r_map_err.elims)
  moreover have "accepts xid reply" if "dispatch_read cap xid a c st vfs s = (Inr reply, s')" for reply s'
  proof (cases rule: dispatch_read_cases [OF that refl, case_names failed data])
    case (failed bs)
    then show ?thesis using assms by (auto simp: good_reply_def)
  next
    case (data object result)
    then show ?thesis using read_success_reply_Inr [OF data(3)] by (auto simp: accepts_def)
  qed
  ultimately show ?thesis by (auto simp: accepted_or_failed_def prod_eq_iff)
qed

lemma accepted_arm:
  "p = into_result cap r \<Longrightarrow> codec_failure (fst r) \<Longrightarrow> good_reply xid n (fst r) \<Longrightarrow>
   \<exists>n r. p = into_result cap r \<and> codec_failure (fst r) \<and> good_reply xid n (fst r)"
  by blast

lemma accepted_arms:
  assumes "codec_ok (cs_handles st)" and "vec_ok cap" and "\<And>a. arguments \<noteq> Arg_Read a"
  shows "\<exists>n r. nfs_procedure cap xid arguments c st vfs s = into_result cap r \<and>
    codec_failure (fst r) \<and> good_reply xid n (fst r)"
proof (cases arguments)
  case Arg_Null
  have "good_reply xid 0 (Inr (accepted_reply xid SUCCESS []) :: ServerError + bytes)"
    by (simp add: good_reply_def accepted_reply_def write_fixed_def)
  with Arg_Null show ?thesis
    by (intro exI [of _ 0] exI [of _ "(Inr (accepted_reply xid SUCCESS []), s)"]) (simp add: into_result_def)
next
  case (Arg_ReadLink a)
  obtain n where "good_reply xid n (fst (nfs_readlink xid a c st vfs s))" using good_readlink [of xid a c st vfs s] by blast
  then show ?thesis unfolding Arg_ReadLink nfs_procedure.simps by (blast intro: codec_failure_nfs)
next
  case (Arg_Read a)
  then show ?thesis using assms(3) by blast
qed (simp only: nfs_procedure.simps, rule accepted_arm [OF refl], simp,
    (rule good_getattr good_setattr good_lookup good_access good_write good_create good_removal good_rename
      good_link good_filesystem good_commit good_readdir | rule assms(1))+)+

lemma nfs_procedure_accepted:
  assumes "codec_ok (cs_handles st)" and "vec_ok cap"
  shows "accepted_or_failed (accepts xid) (fst (nfs_procedure cap xid arguments c st vfs s))"
proof (cases "\<exists>a. arguments = Arg_Read a")
  case True
  then show ?thesis using dispatch_read_accepted [OF assms(2)] by auto
next
  case False
  then show ?thesis using accepted_arms [OF assms, of arguments xid c vfs s] accepted_into_result [OF assms(2)]
    by metis
qed

context nfs_result
begin

lemma accepted_typed: "accepted_or_failed (accepted_bytes xid) (r_map_err SE_Encode (typed_nfs_reply xid put a))"
  by (rule accepted_good [OF _ good_reply_map_err [THEN iffD2, OF good_typed [OF order_refl]]]) simp

end

lemma bad_handle_accepted:
  assumes "vec_ok cap"
  shows "accepted_or_failed (accepts xid) (bad_handle_reply cap xid procedure)"
  unfolding bad_handle_reply_def
  by (rule accepted_into [OF assms])
    (simp add: nfs_failure_reply_for_procedure_def Let_def accepted_or_failed_def [of _ "Inr _"]
      res_getattr.accepted_typed res_setattr.accepted_typed res_lookup.accepted_typed res_access.accepted_typed
      res_readlink.accepted_typed res_read.accepted_typed res_write.accepted_typed res_create.accepted_typed
      res_wcc.accepted_typed res_rename.accepted_typed res_link.accepted_typed res_readdir.accepted_typed
      res_fsstat.accepted_typed res_fsinfo.accepted_typed res_pathconf.accepted_typed res_commit.accepted_typed)

lemma dispatch_nfs_accepted:
  assumes "codec_ok (cs_handles state)" and "vec_ok cap"
  shows "accepted_or_failed (accepts xid) (fst (dispatch_nfs cap xid procedure args context state s))"
  unfolding dispatch_nfs_unfold
  using assms(2) nfs_procedure_accepted [OF assms] bad_handle_accepted [OF assms(2)]
  by (auto simp: accepted_or_failed_def [of _ "Inr _"] accepted_or_failed_def [of _ "Inl _"]
      split: sum.split option.split)

section \<open>The other programs\<close>

lemma mount_reply_accepted:
  "accepted_or_failed (accepted_bytes xid) (mount_reply xid encode_mount_result result)"
  "accepted_or_failed (accepted_bytes xid) (mount_reply xid encode_dump_result dump)"
  "accepted_or_failed (accepted_bytes xid) (mount_reply xid encode_export_result exports)"
proof -
  show "accepted_or_failed (accepted_bytes xid) (mount_reply xid encode_mount_result result)"
    by (cases result)
      (auto simp: mount_reply_def typed_mount_reply_def accepted_or_failed_def write_u32_def write_u32s_append
        codec_simps Let_def split: if_splits)
qed (auto simp: mount_reply_def typed_mount_reply_def accepted_or_failed_def encode_dump_result_def
    encode_export_result_def write_simps dest!: encode_mounts_Inr encode_exports_Inr)

lemma dispatch_mount_accepted:
  "accepted_or_failed (accepted_bytes xid) (fst (dispatch_mount xid procedure args context state w))"
  by (cases w)
    (auto simp: dispatch_mount_def mount_mnt_def mount_dump_def mount_umnt_def mount_umntall_def mount_export_def
      mount_reply_accepted accepted_or_failed_def [of _ "Inr _"] accepted_or_failed_def [of _ "Inl _"] Let_def
      split: sum.split option.split prod.split)

lemma dispatch_portmap_accepted:
  "accepted_or_failed (accepted_bytes xid) (dispatch_portmap xid procedure args state)"
  by (cases "decode_all read_getport args")
    (auto simp: dispatch_portmap_def accepted_or_failed_def Let_def)

lemma dispatch_call_accepted:
  assumes "codec_ok (cs_handles state)" and "vec_ok cap"
  shows "accepted_or_failed (accepts xid)
    (fst (dispatch_call cap xid program version procedure args context state w))"
proof -
  note nfs = dispatch_nfs_accepted [OF assms, of xid procedure args "context" "snd w"]
  note mount = accepted_into [OF assms(2) dispatch_mount_accepted [of xid procedure args "context" state w]]
  note portmap = accepted_into [OF assms(2) dispatch_portmap_accepted [of xid procedure args state]]
  have here: "accepted_or_failed (accepts xid) (Inr (into_reply cap bs))" if "accepted_bytes xid bs" for bs
    using that assms(2) by (simp add: accepted_or_failed_def)
  obtain mounts s r1 s1 r2 w2 where "w = (mounts, s)" "dispatch_nfs cap xid procedure args context state s = (r1, s1)"
    "dispatch_mount xid procedure args context state w = (r2, w2)" by (metis surj_pair)
  then show ?thesis using nfs mount portmap by (simp add: dispatch_call_def here)
qed

section \<open>Replies that can be sent\<close>

lemma prefix_accepted: "prefix (be32 xid @ be32 RPC_REPLY) (accepted_reply_encoder xid status @ body)"
  by (simp add: accepted_reply_encoder_def write_u32_def Let_def)

lemma deliverable_small:
  assumes "limits_validate p limits = Inr ()" and "vec_ok cap" and "length bs \<le> 304"
    and "prefix (be32 xid @ be32 RPC_REPLY) bs"
  shows "deliverable limits xid (into_reply cap bs)"
proof -
  have "length bs \<le> transport_record_capacity limits"
    using assms(3) transport_carries(1) [OF assms(1)] by (simp add: MAXIMUM_MUTATION_REPLY_SIZE_def)
  with assms show ?thesis
    by (simp add: deliverable_def into_reply_ok into_reply_bytes reply_len_into_reply fits_transport)
qed

lemma deliverable_accepted:
  "limits_validate p limits = Inr () \<Longrightarrow> vec_ok cap \<Longrightarrow>
   deliverable limits xid (into_reply cap (accepted_reply xid status []))"
  by (rule deliverable_small)
    (simp_all add: length_accepted_reply prefix_accepted [of _ _ "[]", simplified] accepted_reply_def write_fixed_def
      length_accepted_reply_encoder)

lemma deliverable_denied:
  assumes "limits_validate p limits = Inr ()" and "vec_ok cap"
  shows "deliverable limits xid (into_reply cap (auth_error xid status))"
    and "deliverable limits xid (into_reply cap (rpc_mismatch xid low high))"
  by (rule deliverable_small [OF assms]; simp add: auth_error_def rpc_mismatch_def write_u32_def Let_def)+

lemma bounded_reply_deliverable:
  assumes "limits_validate p limits = Inr ()" and "vec_ok cap" and "accepts xid reply"
  shows "\<exists>reply'. bounded_reply cap xid (record_limits limits) reply = Inr reply' \<and> deliverable limits xid reply'"
proof (cases "validate_record_length (reply_len reply) (record_limits limits)")
  case (Inl e)
  then show ?thesis
    using deliverable_accepted [OF assms(1,2), of xid SYSTEM_ERR]
    by (auto simp: bounded_reply_def deliverable_def)
next
  case (Inr u)
  then show ?thesis
    using assms(3) by (auto simp: bounded_reply_def deliverable_def accepts_def accepted_bytes_def prefix_accepted)
qed

lemma execute_request_answers:
  assumes limits: "limits_validate p (cs_limits state) = Inr ()" and "codec_ok (cs_handles state)" and "vec_ok cap"
  shows "\<exists>reply cs'. execute_request cap xid program version procedure args context state cs = (Inr reply, cs') \<and>
    deliverable (cs_limits state) xid reply"
proof -
  obtain res cs' where call: "dispatch_call cap xid program version procedure args context state cs = (res, cs')"
    by (metis surj_pair)
  have here: "accepts xid (into_reply cap (accepted_reply xid status []))" for status using assms(3) by simp
  from dispatch_call_accepted [OF assms(2,3), of xid program version procedure args "context" cs]
  consider (reply) reply where "res = Inr reply" "accepts xid reply"
    | (encode) e where "res = Inl (SE_Encode e)" | (decode) e where "res = Inl (SE_Decode e)"
    by (cases res) (auto simp: call accepted_or_failed_def codec_failure_def)
  then show ?thesis
    by cases (use call bounded_reply_deliverable [OF limits assms(3)] here in \<open>fastforce simp: execute_request_def\<close>)+
qed

lemma read_u32_request_xid:
  "read_u32 (decoder_new r) = Inr (xid, d) \<Longrightarrow> request_xid r = Some xid"
  by (auto simp: read_u32_Inr consumes_def decoder_new_def request_xid_def)

lemma read_call_xid:
  assumes "read_call r = Inr call"
  shows "request_xid r = Some (rq_xid call)"
proof (cases "read_u32 (decoder_new r)")
  case (Inr x)
  then obtain xid d where "read_u32 (decoder_new r) = Inr (xid, d)" by (cases x) auto
  moreover from this have "rq_xid call = xid"
    using assms by (auto simp: read_call_def d_try_def split: sum.splits prod.splits if_splits)
  ultimately show ?thesis by (simp add: read_u32_request_xid)
qed (use assms in \<open>simp add: read_call_def d_try_def\<close>)

lemma check_call_denied:
  "check_call policy call = Inl denied \<Longrightarrow>
   (\<exists>status. denied = auth_error (rq_xid call) status) \<or> denied = rpc_mismatch (rq_xid call) 2 2"
  by (auto simp: check_call_def split: if_splits sum.splits)

section \<open>The cache within a request\<close>

lemma opened_generation:
  assumes "l = \<lparr>lg_fingerprint = fp, lg_generation = ci_next_generation i\<rparr>"
  shows "entry (open_generation r fp i) = (entry i)(latest_key r l \<mapsto> InFlight [])"
    and "is_latest (open_generation r fp i) (latest_key r l)" and "ek_fingerprint (latest_key r l) = fp"
  using assms by (simp_all add: open_generation_def Let_def alist_simps is_latest_def latest_key_def)

lemma begin_fresh_world:
  assumes ok: "cache_ok c t i" and wrap: "ci_next_generation i \<noteq> - 1" and run: "begin_fresh c key fp i = (res, i')"
  shows "cache_ok c t i'"
    and "entry i' k = Some (Completed r n ct) \<Longrightarrow> entry i k = Some (Completed r n ct)"
    and "res = Inl ErrCapacity \<or>
      (\<exists>l. res = Inr (Execute (latest_key key l)) \<and> entry i' (latest_key key l) = Some (InFlight []) \<and>
         is_latest i' (latest_key key l) \<and> lg_fingerprint l = fp)"
proof -
  have "cache_ok c t i' \<and> (entry i' k = Some (Completed r n ct) \<longrightarrow> entry i k = Some (Completed r n ct)) \<and>
    (res = Inl ErrCapacity \<or>
      (\<exists>l. res = Inr (Execute (latest_key key l)) \<and> entry i' (latest_key key l) = Some (InFlight []) \<and>
         is_latest i' (latest_key key l) \<and> lg_fingerprint l = fp))" (is "?ok \<and> ?kept \<and> ?res")
  proof (cases rule: begin_fresh_cases [OF ok wrap, of key fp, case_names full opened])
    case (full j)
    then show ?thesis using run drops_entry [OF full(3)] by simp
  next
    case (opened i1 l)
    then have i': "i' = open_generation key fp i1" "res = Inr (Execute (latest_key key l))" using run by simp_all
    note e = opened_generation [OF opened(2), of key]
    have ?kept using drops_entry [OF opened(3)] by (auto simp: i' e split: if_splits)
    moreover have ?res using e opened(2) by (auto simp: i')
    ultimately show ?thesis using opened(5) by (simp add: i')
  qed
  then show "cache_ok c t i'" and "entry i' k = Some (Completed r n ct) \<Longrightarrow> entry i k = Some (Completed r n ct)"
    and "res = Inl ErrCapacity \<or>
      (\<exists>l. res = Inr (Execute (latest_key key l)) \<and> entry i' (latest_key key l) = Some (InFlight []) \<and>
         is_latest i' (latest_key key l) \<and> lg_fingerprint l = fp)"
    by blast+
qed

text \<open>\<open>begin\<close> keeps the invariant and the retained replies, and its decision is about this request.\<close>

lemma replay_begin_world:
  assumes ok: "cache_ok c t i" and wrap: "ci_next_generation i \<noteq> - 1"
    and run: "replay_begin c now closed ch key fp i = (res, i')"
  shows "cache_ok c t i'"
    and "entry i' k = Some (Completed r n ct) \<Longrightarrow> entry i k = Some (Completed r n ct)"
    and "(\<exists>e. res = Inl e) \<or> (\<exists>ch. res = Inr (Wait ch)) \<or>
      (\<exists>k r n ct. res = Inr (Replay r) \<and> ek_request k = key \<and> entry i k = Some (Completed r n ct)) \<or>
      (\<exists>l. res = Inr (Execute (latest_key key l)) \<and> entry i' (latest_key key l) = Some (InFlight []) \<and>
         is_latest i' (latest_key key l) \<and> lg_fingerprint l = fp)" (is ?res)
proof -
  define i0 where "i0 = expire now (rc_ttl c) i"
  note ok0 = expire_ok [OF ok, of now "rc_ttl c", folded i0_def]
  note kept0 = drops_entry [OF ok0(2)]
  have wrap0: "ci_next_generation i0 \<noteq> - 1" using wrap ok0(2) by (simp add: drops_def)
  have "cache_ok c t i' \<and> (entry i' k = Some (Completed r n ct) \<longrightarrow> entry i k = Some (Completed r n ct)) \<and> ?res"
  proof (cases rule: replay_begin_cases [OF ok i0_def, of key fp closed ch, case_names wait replay fresh])
    case (wait l ws)
    then show ?thesis
      using run set_waiters_ok [OF ok0(1) wait(3)] kept0 by (auto split: if_splits)
  next
    case (replay l reply m ct')
    then show ?thesis using run ok0(1) by (auto intro!: kept0 exI [of _ "latest_key key l"])
  next
    case fresh
    then have "begin_fresh c key fp i0 = (res, i')" using run by simp
    from begin_fresh_world [OF ok0(1) wrap0 this] kept0 show ?thesis by blast
  qed
  then show "cache_ok c t i'" and "entry i' k = Some (Completed r n ct) \<Longrightarrow> entry i k = Some (Completed r n ct)"
    and ?res by blast+
qed

text \<open>Completing a lease retains the bytes of the reply, at most.\<close>

lemma lease_complete_world:
  assumes ok: "cache_ok c t i" and e: "entry i k = Some (InFlight ws)" and conf: "config_ok c" and "t \<le> now"
    and reply: "reply_ok reply" and alloc: "\<forall>n. n \<le> capacity n"
    and run: "snd (lease_complete capacity c now reply \<lparr>lease_key = k, lease_finished = False\<rparr> i) = (sent, i')"
  shows "cache_ok c now i'"
    and "entry i' k' = Some (Completed r n ct) \<Longrightarrow> entry i k' = Some (Completed r n ct) \<or>
      k' = k \<and> r = fst (replay_storage capacity reply)"
    and "is_latest i k \<Longrightarrow> snd (replay_storage capacity reply) \<le> rc_max_completed_bytes c \<Longrightarrow>
      \<exists>n. entry i' k = Some (Completed (fst (replay_storage capacity reply)) n now)"
proof -
  let ?st = "replay_storage capacity reply" and ?prep = "complete_prepare capacity c k reply i"
  have commit: "complete_commit c now k reply ?prep i = (sent, i')"
    using run by (simp add: lease_complete_def replay_complete_def split: prod.splits)
  have prep: "?prep = Some (r, n) \<Longrightarrow> r = fst ?st \<and> n = snd ?st" for r n
    by (auto simp: complete_prepare_def Let_def split: if_splits)
  have ready: "?prep = Some ?st" if "is_latest i k" "snd ?st \<le> rc_max_completed_bytes c"
    using that e replay_storage_charge [OF reply, of capacity] alloc
    by (simp add: complete_prepare_def Let_def order_trans)
  have "cache_ok c now i' \<and>
    (entry i' k' = Some (Completed r n ct) \<longrightarrow> entry i k' = Some (Completed r n ct) \<or> k' = k \<and> r = fst ?st) \<and>
    (is_latest i k \<longrightarrow> snd ?st \<le> rc_max_completed_bytes c \<longrightarrow>
      (\<exists>n. entry i' k = Some (Completed (fst ?st) n now)))"
  proof (cases rule: complete_commit_cases [OF ok e conf \<open>t \<le> now\<close>, of ?prep reply, case_names kept dropped])
    case (kept r' n' j)
    then show ?thesis using commit prep [OF kept(1)] by (cases "k' = k") (auto dest: kept(8))
  next
    case dropped
    then show ?thesis
      using commit forget_ok(2) [OF ok e] ready by (cases ?st) (auto split: if_splits)
  qed
  then show "cache_ok c now i'"
    and "entry i' k' = Some (Completed r n ct) \<Longrightarrow> entry i k' = Some (Completed r n ct) \<or> k' = k \<and> r = fst ?st"
    and "is_latest i k \<Longrightarrow> snd ?st \<le> rc_max_completed_bytes c \<Longrightarrow>
      \<exists>n. entry i' k = Some (Completed (fst ?st) n now)" by blast+
qed

lemma lease_given_up:
  assumes "entry i k = Some (InFlight ws)"
  shows "snd (lease_cancel \<lparr>lease_key = k, lease_finished = False\<rparr> i) =
      (map (\<lambda>w. (w, Inl ErrCancelled)) ws, forget k i)"
    and "lease_drop \<lparr>lease_key = k, lease_finished = False\<rparr> i =
      (map (\<lambda>w. (w, Inl ErrCancelled)) ws, forget k i)"
  using replay_cancel_InFlight [OF assms] by (simp_all add: lease_cancel_def lease_drop_def)

lemma release_sel [simp]:
  "w_cache (release (sent, i) w) = i" "w_sent (release (sent, i) w) = w_sent w @ sent"
  "w_call_state (release (sent, i) w) = w_call_state w"
  by (simp_all add: release_def)

lemma world_ok_forget:
  assumes "world_ok c t limits w" and "entry (w_cache w) k = Some (InFlight ws)"
  shows "world_ok c t limits (release (sent, forget k (w_cache w)) (w\<lparr>w_call_state := cs\<rparr>))"
  using assms forget_ok [of c t "w_cache w" k ws] by (auto simp: world_ok_def split: if_splits)

lemma run_execution_ok:
  assumes ok: "world_ok c t (cs_limits state) w" and e: "entry (w_cache w) k = Some (InFlight ws)"
    and env: "request_ok max_permits env c t (rq_xid call) state w'" and k: "rk_xid (ek_request k) = rq_xid call"
    and run: "run_execution env c k call args context state w = (res, w'')"
  shows "world_ok c (finished_at t env) (cs_limits state) w'' \<and>
    (\<forall>reply. res = Inr reply \<longrightarrow> deliverable (cs_limits state) (rq_xid call) reply)"
proof (cases "re_execution env")
  case (Exec_Runs now)
  from env have limits: "limits_validate max_permits (cs_limits state) = Inr ()" and "codec_ok (cs_handles state)"
    and "vec_ok (re_vec_capacity env)" and alloc: "\<forall>n. n \<le> re_alloc env n" and conf: "config_ok c" and "t \<le> now"
    by (auto simp: request_ok_def Exec_Runs)
  then obtain reply cs' where exec: "execute_request (re_vec_capacity env) (rq_xid call) (rq_program call)
      (rq_version call) (rq_procedure call) args context state (w_call_state w) = (Inr reply, cs')"
    and reply: "deliverable (cs_limits state) (rq_xid call) reply"
    using execute_request_answers by blast
  then have reply_ok: "reply_ok reply" by (simp add: deliverable_def)
  obtain sent i' where fin: "snd (lease_complete (re_alloc env) c now reply
      \<lparr>lease_key = k, lease_finished = False\<rparr> (w_cache w)) = (sent, i')" by fastforce
  have cache: "cache_ok c t (w_cache w)" using ok by (simp add: world_ok_def)
  note complete = lease_complete_world [OF cache e conf \<open>t \<le> now\<close> reply_ok alloc fin]
  have "deliverable (cs_limits state) (rq_xid call) (fst (replay_storage (re_alloc env) reply))"
    using reply replay_storage_ok [OF reply_ok] alloc replay_storage_bytes [of "re_alloc env" reply]
      length_reply_into_bytes by (auto simp: deliverable_def) metis
  then have "world_ok c now (cs_limits state) (release (sent, i') (w\<lparr>w_call_state := cs'\<rparr>))"
    using complete(1,2) ok k unfolding world_ok_def by fastforce
  then show ?thesis using run exec fin reply by (auto simp: run_execution_def Exec_Runs finished_at_def)
next
  case (Exec_Elapsed cs)
  then show ?thesis
    using run world_ok_forget [OF ok e, where cs = cs] by (auto simp: run_execution_def lease_given_up [OF e] finished_at_def)
next
  case (Exec_Aborted cs)
  then show ?thesis
    using run world_ok_forget [OF ok e, where cs = cs] by (auto simp: run_execution_def lease_given_up [OF e] finished_at_def)
qed

lemma world_ok_mono: "world_ok c t limits w \<Longrightarrow> t \<le> t' \<Longrightarrow> world_ok c t' limits w"
  unfolding world_ok_def cache_ok_def cache_inv_def by (meson order.trans)

lemma world_ok_begin:
  assumes "world_ok c t limits w" and "ci_next_generation (w_cache w) \<noteq> - 1"
    and "replay_begin c now closed ch key fp (w_cache w) = (res, i')"
  shows "world_ok c t limits (w\<lparr>w_cache := i'\<rparr>)"
  using assms replay_begin_world [of c t "w_cache w" now closed ch key fp res i'] by (fastforce simp: world_ok_def)

lemma dispatch_checked_ok:
  assumes ok: "world_ok c t (cs_limits state) w" and env: "request_ok max_permits env c t (rq_xid call) state w"
    and run: "dispatch_checked env c args addr state w call who = (res, w')"
  shows "world_ok c (finished_at t env) (cs_limits state) w' \<and>
    (\<forall>reply. res = Inr reply \<longrightarrow> deliverable (cs_limits state) (rq_xid call) reply)"
proof -
  define key where "key = replay_key_of addr
    (request_export_id (rq_program call) (rq_procedure call) args state) (rq_xid call)"
  have key: "rk_xid key = rq_xid call" by (simp add: key_def replay_key_of_def)
  obtain fp where fp: "fp = RequestFingerprint (re_sha256 env
    (fingerprint_input (rq_program call) (rq_version call) (rq_procedure call) args who))" by simp
  obtain decision i where began: "replay_begin c (re_now env) (re_is_closed env) (re_channel env) key fp
    (w_cache w) = (decision, i)" by fastforce
  have cache: "cache_ok c t (w_cache w)" and wrap: "ci_next_generation (w_cache w) \<noteq> - 1"
    using ok env by (simp_all add: world_ok_def request_ok_def)
  note ok1 = world_ok_begin [OF ok wrap began]
  have later: "t \<le> finished_at t env" using env by (auto simp: request_ok_def finished_at_def split: execution_outcome.split)
  note unfold = run [unfolded dispatch_checked_def Let_def, folded key_def fp, unfolded began prod.case]
  from replay_begin_world(3) [OF cache wrap began]
  consider (failed) e where "decision = Inl e" | (wait) ch where "decision = Inr (Wait ch)"
    | (replay) k r n ct where "decision = Inr (Replay r)" "ek_request k = key" "entry (w_cache w) k = Some (Completed r n ct)"
    | (run) l where "decision = Inr (Execute (latest_key key l))" "entry i (latest_key key l) = Some (InFlight [])"
    by blast
  then show ?thesis
  proof cases
    case failed
    then show ?thesis using unfold world_ok_mono [OF ok1 later] by auto
  next
    case wait
    then show ?thesis using unfold world_ok_mono [OF ok1 later] env
      by (auto simp: await_waiter_def request_ok_def split: waiter_outcome.splits)
  next
    case replay
    then have "deliverable (cs_limits state) (rk_xid (ek_request k)) r" using ok unfolding world_ok_def by blast
    then show ?thesis using unfold world_ok_mono [OF ok1 later] replay key by auto
  next
    case run
    then have e: "entry (w_cache (w\<lparr>w_cache := i\<rparr>)) (latest_key key l) = Some (InFlight [])" by simp
    have dropped: "world_ok c (finished_at t env) (cs_limits state)
        (release (lease_drop \<lparr>lease_key = latest_key key l, lease_finished = False\<rparr> i) (w\<lparr>w_cache := i\<rparr>))"
      using world_ok_mono [OF world_ok_forget [OF ok1 e, where cs = "w_call_state w"] later]
        lease_given_up(2) [OF run(2)] by simp
    have xid: "rk_xid (ek_request (latest_key key l)) = rq_xid call" using key by simp
    show ?thesis
      using unfold run(1) dropped run_execution_ok [OF ok1 e env xid]
      by (auto split: permit_outcome.splits if_splits)
  qed
qed

lemma dispatch_record_ok:
  assumes ok: "world_ok c t (cs_limits state) w" and env: "request_ok max_permits env c t xid state w"
    and xid: "request_xid record_bytes = None \<or> request_xid record_bytes = Some xid"
    and run: "dispatch_record env c record_bytes addr state w = (res, w')"
  shows "world_ok c (finished_at t env) (cs_limits state) w' \<and>
    (\<forall>reply. res = Inr reply \<longrightarrow> deliverable (cs_limits state) xid reply)"
proof -
  have later: "world_ok c (finished_at t env) (cs_limits state) w"
    using env by (intro world_ok_mono [OF ok]) (auto simp: request_ok_def finished_at_def split: execution_outcome.split)
  show ?thesis
  proof (cases "read_call record_bytes")
    case (Inl e)
    then show ?thesis using run later by (auto simp: dispatch_record_def)
  next
    case (Inr call)
    then have xid: "rq_xid call = xid" using xid read_call_xid by fastforce
    show ?thesis
    proof (cases "check_call (cs_auth_policy state) call")
      case (Inl denied)
      then have "deliverable (cs_limits state) xid (into_reply (re_vec_capacity env) denied)"
        using check_call_denied deliverable_denied xid env unfolding request_ok_def by metis
      then show ?thesis using run later Inl Inr by (auto simp: dispatch_record_def)
    next
      case (Inr who)
      then show ?thesis
        using dispatch_checked_ok [OF ok, of max_permits env call] env run xid \<open>read_call record_bytes = Inr call\<close>
        by (auto simp: dispatch_record_def)
    qed
  qed
qed

lemma replay_begin_new:
  assumes "cache_ok c t i" and "ci_next_generation i \<noteq> - 1" and "latest i key = None"
    and "replay_begin c now closed ch key fp i = (Inr decision, i')"
  obtains l where "decision = Execute (latest_key key l)" "entry i' (latest_key key l) = Some (InFlight [])"
    "is_latest i' (latest_key key l)" "lg_fingerprint l = fp"
proof -
  define i0 where "i0 = expire now (rc_ttl c) i"
  note ok0 = expire_ok [OF assms(1), of now "rc_ttl c", folded i0_def]
  have "latest i0 key = None" using drops_latest [OF ok0(2), of key] assms(3) by auto
  then have "begin_fresh c key fp i0 = (Inr decision, i')"
    using assms(4) by (simp add: replay_begin_def i0_def Let_def)
  from begin_fresh_world(3) [OF ok0(1) _ this] assms(2) ok0(2) that show thesis by (auto simp: drops_def)
qed

lemma run_execution_completes:
  assumes "run_execution env c k call args context state w = (Inr reply, w')"
  shows "\<exists>now cs'. re_execution env = Exec_Runs now \<and> w' = release (snd (lease_complete (re_alloc env) c now reply
    \<lparr>lease_key = k, lease_finished = False\<rparr> (w_cache w))) (w\<lparr>w_call_state := cs'\<rparr>)"
  using assms by (auto simp: run_execution_def Let_def split: execution_outcome.splits prod.splits sum.splits)

text \<open>A first transmission that is executed leaves its reply in the cache.\<close>

lemma dispatch_checked_retained:
  assumes ok: "world_ok c t (cs_limits state) w" and env: "request_ok max_permits env c t (rq_xid call) state w"
    and key_def: "key = replay_key_of addr (request_export_id (rq_program call) (rq_procedure call) args state) (rq_xid call)"
    and fp_def: "fp = RequestFingerprint (re_sha256 env
      (fingerprint_input (rq_program call) (rq_version call) (rq_procedure call) args who))"
    and new: "latest (w_cache w) key = None" and runs: "re_execution env = Exec_Runs now"
    and run: "dispatch_checked env c args addr state w call who = (Inr reply, w')"
    and fits: "snd (replay_storage (re_alloc env) reply) \<le> rc_max_completed_bytes c"
  obtains k n where "ek_request k = key" "ek_fingerprint k = fp"
    "entry (w_cache w') k = Some (Completed (fst (replay_storage (re_alloc env) reply)) n now)" "cache_ok c now (w_cache w')"
proof -
  obtain decision i where began: "replay_begin c (re_now env) (re_is_closed env) (re_channel env) key fp
    (w_cache w) = (decision, i)" by fastforce
  have cache: "cache_ok c t (w_cache w)" and wrap: "ci_next_generation (w_cache w) \<noteq> - 1"
    using ok env by (simp_all add: world_ok_def request_ok_def)
  note unfold = run [unfolded dispatch_checked_def Let_def, folded key_def fp_def, unfolded began prod.case]
  have "\<exists>d. decision = Inr d" using unfold by (cases decision) auto
  then obtain l where dec: "decision = Inr (Execute (latest_key key l))"
    and e: "entry i (latest_key key l) = Some (InFlight [])" "is_latest i (latest_key key l)" "lg_fingerprint l = fp"
    using replay_begin_new [OF cache wrap new] began by metis
  have "deliverable (cs_limits state) (rq_xid call) reply" using dispatch_checked_ok [OF ok env run] by blast
  then have reply_ok: "reply_ok reply" by (simp add: deliverable_def)
  obtain cs' where "w' = release (snd (lease_complete (re_alloc env) c now reply
      \<lparr>lease_key = latest_key key l, lease_finished = False\<rparr> i)) (w\<lparr>w_cache := i, w_call_state := cs'\<rparr>)"
    using unfold dec runs
    by (auto dest!: run_execution_completes split: permit_outcome.splits if_splits)
  moreover obtain sent i' where fin: "snd (lease_complete (re_alloc env) c now reply
      \<lparr>lease_key = latest_key key l, lease_finished = False\<rparr> i) = (sent, i')" by fastforce
  ultimately have w': "w_cache w' = i'" by simp
  have "config_ok c" "t \<le> now" "\<forall>n. n \<le> re_alloc env n" using env runs by (auto simp: request_ok_def)
  from lease_complete_world [OF replay_begin_world(1) [OF cache wrap began] e(1) this(1,2) reply_ok this(3) fin]
  show thesis using that [of "latest_key key l"] e fits w' by (auto simp: latest_key_def)
qed

lemma retransmission_checked:
  assumes "cache_ok c now (w_cache w)" and "entry (w_cache w) k = Some (Completed stored n now)"
    and "ek_request k = replay_key_of addr (request_export_id (rq_program call) (rq_procedure call) args state) (rq_xid call)"
    and "ek_fingerprint k = RequestFingerprint (re_sha256 env
      (fingerprint_input (rq_program call) (rq_version call) (rq_procedure call) args who))"
    and "re_now env - now < rc_ttl c"
  shows "\<exists>i'. dispatch_checked env c args addr state w call who = (Inr stored, w\<lparr>w_cache := i'\<rparr>)"
  using replay_begin_completed [OF assms(1,2,5), of "re_is_closed env" "re_channel env"] assms(3,4)
  by (auto simp: dispatch_checked_def Let_def)

section \<open>Fingerprints and the backend\<close>

lemma concat_be32_inject: "concat (map be32 xs) = concat (map be32 ys) \<Longrightarrow> xs = ys"
proof (induction xs arbitrary: ys)
  case Nil
  then show ?case by (cases ys) (auto dest: arg_cong [of _ _ length])
next
  case (Cons x xs)
  then show ?case by (cases ys) (auto dest: arg_cong [of _ _ length])
qed

lemma of_nat_u32_inject: "n \<le> u32_max \<Longrightarrow> m \<le> u32_max \<Longrightarrow> (of_nat n :: u32) = of_nat m \<Longrightarrow> n = m"
  by (drule arg_cong [of _ _ unat]) (simp add: unat_of_nat)

lemma hash_principal_inject:
  assumes "hash_principal [] who = hash_principal [] who'" and "wf_principal who" and "wf_principal who'"
  shows "who = who'"
proof (cases who; cases who')
  fix uid gid gids name uid' gid' gids' name'
  assume who: "who = AuthSys uid gid gids name" "who' = AuthSys uid' gid' gids' name'"
  then have "be32 uid @ be32 gid @ be32 (of_nat (length gids)) @ concat (map be32 gids) @ be32 (of_nat (length name)) @ name =
      be32 uid' @ be32 gid' @ be32 (of_nat (length gids')) @ concat (map be32 gids') @ be32 (of_nat (length name')) @ name'"
    using assms(1) by (simp add: hash_principal_def)
  then have eq: "uid = uid'" "gid = gid'" "(of_nat (length gids) :: u32) = of_nat (length gids')"
    and rest: "concat (map be32 gids) @ be32 (of_nat (length name)) @ name =
      concat (map be32 gids') @ be32 (of_nat (length name')) @ name'"
    by simp_all
  have "length gids = length gids'"
    using eq(3) assms(2,3) who by (intro of_nat_u32_inject) (simp_all add: wf_principal_def MAX_GROUPS_def)
  then have "length (concat (map be32 gids)) = length (concat (map be32 gids'))"
    by (simp add: length_concat comp_def sum_list_triv)
  then have "gids = gids'" "name = name'" using rest by (auto intro: concat_be32_inject)
  then show ?thesis using who eq by simp
qed (use assms(1) in \<open>simp_all add: hash_principal_def\<close>)

lemma dispatch_call_other_program:
  assumes "(program, version) \<notin> {(NFS_PROGRAM, NFS_VERSION), (MOUNT_PROGRAM, MOUNT_VERSION)}"
  shows "snd (dispatch_call cap xid program version procedure args context state cs) = cs"
  using assms by (auto simp: dispatch_call_def split: prod.split)

lemma run_execution_call_state:
  assumes "re_execution env = Exec_Runs now"
  shows "w_call_state (snd (run_execution env c key call args context state w)) =
    snd (dispatch_call (re_vec_capacity env) (rq_xid call) (rq_program call) (rq_version call) (rq_procedure call) args
      context state (w_call_state w))"
proof -
  have "snd (execute_request cap xid program version procedure args context state cs) =
      snd (dispatch_call cap xid program version procedure args context state cs)" for cap xid program version procedure cs
    by (simp add: execute_request_def split: prod.split)
  moreover have "w_call_state (release r v) = w_call_state v" for r and v :: "'a server_world" by (cases r) simp
  ultimately show ?thesis
    using assms by (simp add: run_execution_def Let_def split: prod.split sum.split) (metis snd_conv)
qed

lemma dispatch_checked_changes:
  assumes "re_execution env = Exec_Runs now"
    and "w_call_state (snd (dispatch_checked env c args addr state w call who)) \<noteq> w_call_state w"
  shows "re_permit env = Permit_Granted \<and> (\<exists>context. snd (dispatch_call (re_vec_capacity env) (rq_xid call)
    (rq_program call) (rq_version call) (rq_procedure call) args context state (w_call_state w)) \<noteq> w_call_state w)"
proof -
  have release: "w_call_state (release r v) = w_call_state v" for r and v :: "'a server_world" by (cases r) simp
  show ?thesis
    using assms(2) run_execution_call_state [OF assms(1)]
    by (auto simp: dispatch_checked_def Let_def release split: prod.splits sum.splits ReplayDecision.splits
        permit_outcome.splits if_splits)
qed

section \<open>Properties\<close>


lemma sample_world_ok: "world_ok sample_config 0 production_defaults sample_world"
  by (simp add: world_ok_def sample_world_def cache_new_def cache_ok_def cache_inv_def entries_bytes_def)

lemma sample_request_ok: "request_ok max_permits sample_env sample_config 0 xid sample_state sample_world"
  if "limits_validate max_permits production_defaults = Inr ()"
  using that sample_codec_ok
  by (simp add: request_ok_def sample_env_def sample_config_ok sample_world_def cache_new_def)




text \<open>
  C3: only authenticated calls of the served versions reach the backend.  If dispatching a record
  changes the mount table or the backend at all, then the record is an RPC version 2 call with an
  empty verifier whose credentials decode to a principal that the policy allows, it is a call of NFS
  version 3 or MOUNT version 3, and an execution permit was granted for it.
\<close>

theorem backend_behind_authentication:
  assumes "re_execution env = Exec_Runs now"
    and "w_call_state (snd (dispatch_record env c record_bytes addr state w)) \<noteq> w_call_state w"
  shows "\<exists>call who. read_call record_bytes = Inr call \<and> rq_rpc_version call = 2 \<and>
    rq_verifier_flavor call = AUTH_NONE \<and> rq_verifier call = [] \<and>
    decode_principal (rq_credential_flavor call) (rq_credential call) = Inr who \<and>
    principal_allowed (cs_auth_policy state) who \<and>
    (rq_program call, rq_version call) \<in> {(NFS_PROGRAM, NFS_VERSION), (MOUNT_PROGRAM, MOUNT_VERSION)} \<and>
    re_permit env = Permit_Granted"
proof -
  obtain call where call: "read_call record_bytes = Inr call"
    using assms(2) by (cases "read_call record_bytes") (auto simp: dispatch_record_def)
  then obtain who where who: "check_call (cs_auth_policy state) call = Inr who"
    using assms(2) by (cases "check_call (cs_auth_policy state) call") (auto simp: dispatch_record_def)
  let ?args = "drop (rq_args_offset call) record_bytes"
  have "w_call_state (snd (dispatch_checked env c ?args addr state w call who)) \<noteq> w_call_state w"
    using assms(2) call who by (simp add: dispatch_record_def)
  then have "re_permit env = Permit_Granted"
    and served: "(rq_program call, rq_version call) \<in> {(NFS_PROGRAM, NFS_VERSION), (MOUNT_PROGRAM, MOUNT_VERSION)}"
    using dispatch_checked_changes [OF assms(1)] dispatch_call_other_program by metis+
  moreover have "rq_program call \<noteq> PORTMAP_PROGRAM" using served by (auto simp: rpc_constants)
  ultimately show ?thesis
    using call who by (auto simp: check_call_def split: if_splits sum.splits)
qed

theorem backend_behind_authentication_witness:
  "w_call_state (snd (dispatch_record sample_env sample_config sample_mount_call sample_addr sample_state sample_world)) =
     ([(V4 10 0 0 2, [47])], 0) \<and>
   (\<exists>call who. read_call sample_mount_call = Inr call \<and> principal_allowed Policy_AuthSys who \<and>
     decode_principal (rq_credential_flavor call) (rq_credential call) = Inr who)"
proof -
  have run: "w_call_state (snd (dispatch_record sample_env sample_config sample_mount_call sample_addr sample_state
      sample_world)) = ([(V4 10 0 0 2, [47])], 0)" by code_simp
  have "re_execution sample_env = Exec_Runs 3" "w_call_state sample_world = ([], 0)"
    "cs_auth_policy sample_state = Policy_AuthSys"
    by (simp_all add: sample_env_def sample_world_def sample_state_def)
  with backend_behind_authentication [of sample_env 3 sample_config sample_mount_call sample_addr sample_state
      sample_world] run
  show ?thesis by auto
qed

text \<open>
  C25: the fingerprint tells requests of one size apart.  For arguments of equal length and principals
  that credentials can decode to, the bytes that are hashed determine the program, the version, the
  procedure, the arguments and the principal.
\<close>

theorem fingerprint_input_distinguishes:
  assumes "fingerprint_input program version procedure args who = fingerprint_input program' version' procedure' args' who'"
    and "length args = length args'" and "wf_principal who" and "wf_principal who'"
  shows "program = program' \<and> version = version' \<and> procedure = procedure' \<and> args = args' \<and> who = who'"
proof -
  have split: "hash_principal h p = h @ hash_principal [] p" for h p
    by (simp add: hash_principal_def split: Principal.split)
  have "be32 program @ be32 version @ be32 procedure @ args @ hash_principal [] who =
      be32 program' @ be32 version' @ be32 procedure' @ args' @ hash_principal [] who'"
    using assms(1) unfolding fingerprint_input_def by (subst (asm) (1 2) split) simp
  then show ?thesis using assms(2) hash_principal_inject [OF _ assms(3,4)] by simp
qed

theorem fingerprint_input_distinguishes_witness:
  "fingerprint_input 100003 3 1 [1] (AuthSys 0 0 [5] [97]) \<noteq> fingerprint_input 100003 3 1 [1] (AuthSys 0 0 [] [97])"
  using fingerprint_input_distinguishes [of 100003 3 1 "[1]" "AuthSys 0 0 [5] [97]" 100003 3 1 "[1]"
      "AuthSys 0 0 [] [97]"]
  by (auto simp: wf_principal_def MAX_MACHINE_NAME_def MAX_GROUPS_def)

text \<open>
  Requests of different sizes can hash alike, because the length of the arguments is not hashed: an
  anonymous request can continue its arguments with what is hashed of a principal.
\<close>

lemma fingerprint_input_ambiguous:
  "fingerprint_input program version procedure args (AuthSys uid gid gids (name @ [0])) =
   fingerprint_input program version procedure
     (args @ [1] @ be32 uid @ be32 gid @ be32 (of_nat (length gids)) @ concat (map be32 gids) @
      be32 (of_nat (Suc (length name))) @ name) Anonymous"
  by (simp add: fingerprint_input_def hash_principal_def)

end
