(* ===== verification/Connection_Loops.thy ===== *)
theory Connection_Loops
  imports Connection "HOL-Library.Multiset"
begin

text \<open>
  The three tasks of a connection (\<^verbatim>\<open>src/server/connection.rs\<close>): \<open>connection_reader\<close> and
  \<open>connection_writer\<close> as functions of the outcomes of what they await, and \<open>connection_processor\<close>
  as a step relation, because its request tasks run concurrently.
\<close>

section \<open>The reader\<close>

text \<open>
  What one turn of the reader's loop meets: the value of the shutdown channel, the permits that other
  tasks have given back to the budget, the branch that the first \<open>select!\<close> takes and, if a record was
  read, the branch that the second takes.
\<close>

datatype read_branch = Read_Shutdown bool bool | Read_Idle | Read_Record

datatype send_branch = Send_Shutdown bool bool | Send_Queued | Send_Closed | Send_Elapsed

record reader_turn =
  rt_shutdown :: bool
  rt_released :: usize
  rt_read :: read_branch
  rt_send :: send_branch

definition give_back :: "usize \<Rightarrow> Semaphore \<Rightarrow> Semaphore" where
  "give_back n budget = budget\<lparr>sem_permits := sem_permits budget + n\<rparr>"

text \<open>
  The loop returns the records that it queued and its result, \<open>None\<close> while it is running.  A record
  that is not queued gives its reservation back.
\<close>

fun connection_reader ::
  "allocator \<Rightarrow> RecordLimits \<Rightarrow> Semaphore \<Rightarrow> reader \<Rightarrow> reader_turn list \<Rightarrow>
   bytes list \<times> (ServerError + unit) option" where
  "connection_reader try_alloc limits budget rd [] = ([], None)"
| "connection_reader try_alloc limits budget rd (turn # turns) =
     (let budget = give_back (rt_released turn) budget in
      if rt_shutdown turn then ([], Some (Inr ()))
      else
        (case rt_read turn of
           Read_Shutdown closed value \<Rightarrow>
             if closed \<or> value then ([], Some (Inr ()))
             else connection_reader try_alloc limits budget rd turns
         | Read_Idle \<Rightarrow> ([], Some (Inr ()))
         | Read_Record \<Rightarrow>
             (case read_record_budgeted try_alloc limits budget rd of
                None \<Rightarrow> ([], None)
              | Some (Inl error, _) \<Rightarrow>
                  ([], Some (if is_disconnect error then Inr () else Inl (SE_Record error)))
              | Some (Inr (record_bytes, rd'), reserved) \<Rightarrow>
                  (case rt_send turn of
                     Send_Shutdown closed value \<Rightarrow>
                       if closed \<or> value then ([], Some (Inr ()))
                       else connection_reader try_alloc limits budget rd' turns
                   | Send_Queued \<Rightarrow>
                       (case connection_reader try_alloc limits reserved rd' turns of
                          (queued, res) \<Rightarrow> (record_bytes # queued, res))
                   | Send_Closed \<Rightarrow> ([], Some (Inr ()))
                   | Send_Elapsed \<Rightarrow> ([], Some (Inl SE_RequestTimeout))))))"

section \<open>The writer\<close>

text \<open>
  The replies in the order in which they are received, each with the transport as the timeout leaves
  it if the write is cut off; the list ends when the channel is closed.
\<close>

fun connection_writer ::
  "RecordLimits \<Rightarrow> (EncodedReply \<times> writer option) list \<Rightarrow> writer \<Rightarrow> (ServerError + unit) \<times> writer" where
  "connection_writer limits [] w = (Inr (), w)"
| "connection_writer limits ((reply, Some cut_off) # replies) w = (Inl SE_RequestTimeout, cut_off)"
| "connection_writer limits ((reply, None) # replies) w =
     (case write_record_segments_limited (reply_segments reply) limits w of
        (Inl error, w') \<Rightarrow> (Inl (SE_Record error), w')
      | (Inr _, w') \<Rightarrow> connection_writer limits replies w')"

section \<open>The processor\<close>

text \<open>
  The bounded channel between reader and processor, and the processor's request tasks.  Ghost fields:
  the requests that were queued and those whose task has ended.
\<close>

record 'r processor =
  pr_queue :: "'r list"
  pr_closed :: bool
  pr_shutting_down :: bool
  pr_running :: "'r multiset"
  pr_result :: "(ServerError + unit) option"
  pr_queued :: "'r list"
  pr_ended :: "'r multiset"

definition processor_init :: "bool \<Rightarrow> 'r processor" where
  "processor_init shutdown =
     \<lparr>pr_queue = [], pr_closed = shutdown, pr_shutting_down = shutdown, pr_running = {#}, pr_result = None,
      pr_queued = [], pr_ended = {#}\<rparr>"

text \<open>
  \<open>capacity\<close> is \<open>max_requests_per_connection\<close>, the capacity of the channel and the limit on tasks.  The
  channel is closed when the reader drops its end or the processor closes it; what is buffered can
  still be received.  A task that fails or is cancelled ends the processor with an error.
\<close>

inductive processor_step :: "usize \<Rightarrow> 'r processor \<Rightarrow> 'r processor \<Rightarrow> bool" for capacity :: usize where
  queue_request:
    "pr_result p = None \<Longrightarrow> \<not> pr_closed p \<Longrightarrow> length (pr_queue p) < capacity \<Longrightarrow>
     processor_step capacity p (p\<lparr>pr_queue := pr_queue p @ [r], pr_queued := pr_queued p @ [r]\<rparr>)"
| reader_ends:
    "pr_result p = None \<Longrightarrow> \<not> pr_closed p \<Longrightarrow> processor_step capacity p (p\<lparr>pr_closed := True\<rparr>)"
| shutdown_changed:
    "pr_result p = None \<Longrightarrow> \<not> pr_shutting_down p \<Longrightarrow>
     processor_step capacity p (p\<lparr>pr_shutting_down := True, pr_closed := True\<rparr>)"
| receive_request:
    "pr_result p = None \<Longrightarrow> size (pr_running p) < capacity \<Longrightarrow> pr_queue p = r # rest \<Longrightarrow>
     processor_step capacity p (p\<lparr>pr_queue := rest, pr_running := add_mset r (pr_running p)\<rparr>)"
| task_ends:
    "pr_result p = None \<Longrightarrow> r \<in># pr_running p \<Longrightarrow>
     processor_step capacity p
       (p\<lparr>pr_running := pr_running p - {#r#}, pr_ended := add_mset r (pr_ended p)\<rparr>)"
| task_fails:
    "pr_result p = None \<Longrightarrow> r \<in># pr_running p \<Longrightarrow>
     processor_step capacity p (p\<lparr>pr_running := pr_running p - {#r#}, pr_result := Some (Inl error)\<rparr>)"
| processor_returns:
    "pr_result p = None \<Longrightarrow> pr_closed p \<Longrightarrow> pr_queue p = [] \<Longrightarrow> pr_running p = {#} \<Longrightarrow>
     processor_step capacity p (p\<lparr>pr_result := Some (Inr ())\<rparr>)"

definition processor_reachable :: "usize \<Rightarrow> 'r processor \<Rightarrow> bool" where
  "processor_reachable capacity p \<longleftrightarrow> (\<exists>shutdown. (processor_step capacity)\<^sup>*\<^sup>* (processor_init shutdown) p)"

text \<open>
  The invariant: queue and tasks are within the capacity, shutting down closes the channel, requests
  are received in the order in which they were queued, every queued request is waiting, running or
  ended unless a task failed, and the processor returns only when nothing is left.
\<close>

definition processor_inv :: "usize \<Rightarrow> 'r processor \<Rightarrow> bool" where
  "processor_inv capacity p \<longleftrightarrow>
     length (pr_queue p) \<le> capacity \<and> size (pr_running p) \<le> capacity \<and>
     (pr_shutting_down p \<longrightarrow> pr_closed p) \<and> suffix (pr_queue p) (pr_queued p) \<and>
     ((\<exists>e. pr_result p = Some (Inl e)) \<or>
        mset (pr_queued p) = mset (pr_queue p) + pr_running p + pr_ended p) \<and>
     (pr_result p = Some (Inr ()) \<longrightarrow> pr_closed p \<and> pr_queue p = [] \<and> pr_running p = {#})"

text \<open>How many steps can follow once the channel is closed.\<close>

definition processor_work :: "'r processor \<Rightarrow> nat" where
  "processor_work p =
     2 * length (pr_queue p) + size (pr_running p) + (if pr_shutting_down p then 0 else 1) +
     (if pr_result p = None then 1 else 0)"

text \<open>A turn in which a record is read and queued, after \<open>n\<close> permits were given back.\<close>

definition queueing_turn :: "usize \<Rightarrow> reader_turn" where
  "queueing_turn n = \<lparr>rt_shutdown = False, rt_released = n, rt_read = Read_Record, rt_send = Send_Queued\<rparr>"

text \<open>A processor whose reader has ended with one request in the queue, and where it ends.\<close>

definition sample_processor :: "nat processor" where
  "sample_processor = (processor_init False)\<lparr>pr_queue := [7], pr_queued := [7], pr_closed := True\<rparr>"

definition sample_processor_end :: "nat processor" where
  "sample_processor_end = sample_processor\<lparr>pr_queue := [], pr_ended := {#7#}, pr_result := Some (Inr ())\<rparr>"

section \<open>Lemmas on the processor\<close>

lemma processor_init_inv: "processor_inv capacity (processor_init shutdown)"
  by (simp add: processor_inv_def processor_init_def)

lemma processor_step_inv:
  assumes "processor_step capacity p p'" and "processor_inv capacity p"
  shows "processor_inv capacity p'"
  using assms
proof cases
  case (queue_request r)
  then show ?thesis using assms(2) by (auto simp: processor_inv_def suffix_def)
next
  case (receive_request r rest)
  then show ?thesis using assms(2) by (auto simp: processor_inv_def intro: suffix_ConsD)
next
  case (task_ends r)
  then have "size (pr_running p - {#r#}) < size (pr_running p)" by (simp add: size_Diff1_less)
  with task_ends show ?thesis using assms(2) by (auto simp: processor_inv_def insert_DiffM2)
next
  case (task_fails r error)
  then have "size (pr_running p - {#r#}) < size (pr_running p)" by (simp add: size_Diff1_less)
  with task_fails show ?thesis using assms(2) by (auto simp: processor_inv_def)
qed (auto simp: processor_inv_def)

lemma processor_reachable_inv:
  assumes "processor_reachable capacity p"
  shows "processor_inv capacity p"
proof -
  obtain shutdown where "(processor_step capacity)\<^sup>*\<^sup>* (processor_init shutdown) p"
    using assms by (auto simp: processor_reachable_def)
  then show ?thesis
    by (induction rule: rtranclp_induct) (auto intro: processor_init_inv processor_step_inv)
qed

lemma processor_step_work:
  assumes "processor_step capacity p p'" and "pr_closed p"
  shows "pr_closed p'" and "processor_work p' < processor_work p"
proof -
  have "pr_closed p' \<and> processor_work p' < processor_work p"
    using assms
  proof cases
    case (task_ends r)
    then have "size (pr_running p - {#r#}) < size (pr_running p)" by (simp add: size_Diff1_less)
    with task_ends show ?thesis using assms(2) by (simp add: processor_work_def)
  next
    case (task_fails r error)
    then have "size (pr_running p - {#r#}) < size (pr_running p)" by (simp add: size_Diff1_less)
    with task_fails show ?thesis using assms(2) by (simp add: processor_work_def)
  qed (use assms(2) in \<open>auto simp: processor_work_def\<close>)
  then show "pr_closed p'" and "processor_work p' < processor_work p" by blast+
qed

lemma processor_run_work:
  assumes "(processor_step capacity ^^ n) p p'" and "pr_closed p"
  shows "pr_closed p' \<and> n + processor_work p' \<le> processor_work p"
  using assms
proof (induction n arbitrary: p')
  case (Suc n)
  then obtain q where "(processor_step capacity ^^ n) p q" "processor_step capacity q p'" by auto
  with Suc.IH [OF this(1) Suc.prems(2)] processor_step_work [of capacity q p'] show ?case by auto
qed simp

lemma processor_progress:
  assumes "pr_closed p" and "pr_result p = None" and "0 < capacity"
  shows "\<exists>p'. processor_step capacity p p'"
proof (cases "pr_running p = {#}")
  case True
  show ?thesis
  proof (cases "pr_queue p")
    case Nil
    from processor_returns [OF assms(2,1) this True] show ?thesis by blast
  next
    case (Cons r rest)
    have "size (pr_running p) < capacity" using True assms(3) by simp
    from receive_request [OF assms(2) this Cons] show ?thesis by blast
  qed
next
  case False
  then obtain r where "r \<in># pr_running p" by blast
  from task_ends [OF assms(2) this] show ?thesis by blast
qed

section \<open>Lemmas on the reader and the writer\<close>

lemma record_limits_simps [simp]:
  "max_record_size (record_limits l) = sl_max_rpc_record_size l"
  "max_fragment_size (record_limits l) = sl_max_rpc_fragment_size l"
  "max_fragments (record_limits l) = sl_max_fragments_per_record l"
  by (simp_all add: record_limits_def)

lemma fragment_size_wire:
  "limits_validate p l = Inr () \<Longrightarrow> sl_max_rpc_fragment_size l \<le> 0x7fffffff"
  by (simp add: limits_validate_def Let_def not_less split: if_splits)

lemma write_deliverable:
  assumes valid: "limits_validate p limits = Inr ()" and reply: "deliverable limits xid reply" and "progressive w"
  obtains w' where "write_record_segments_limited (reply_segments reply) (record_limits limits) w = (Inr (), w')"
    and "wr_out w' = wr_out w @ fragments_bytes (chunks (sl_max_rpc_fragment_size limits) (reply_into_bytes reply))"
    and "progressive w'"
proof -
  let ?n = "sl_max_rpc_fragment_size limits" and ?segments = "reply_segments reply"
  have bytes: "concat ?segments = reply_into_bytes reply" by (rule concat_reply_segments)
  have len: "length (concat ?segments) = reply_len reply"
    using reply length_reply_into_bytes bytes by (simp add: deliverable_def)
  have ok: "validate_record_length (length (concat ?segments)) (record_limits limits) = Inr ()"
    using reply len by (simp add: deliverable_def)
  have "length (concat ?segments) < usize_bound"
    using ok limits_validate_Inr(5) [OF valid] by (simp add: validate_record_length_Inr)
  note writing = write_record_segments_limited_eq [OF this, of "record_limits limits" w]
  have n: "0 < ?n" "?n \<le> 0x7fffffff"
    by (rule limits_validate_Inr(1) [OF valid], rule fragment_size_wire [OF valid])
  have three: "length ?segments \<le> 3"
    by (simp add: reply_segments_def split: ReplyStorage.split)
  have "wrote w (fragments_bytes (chunks ?n (concat ?segments)))
      (write_segmented_fragments ?segments (length (concat ?segments)) ?n w)"
    by (rule wrote_write_segmented_fragments [OF n(1) three]) (use n(2) in simp)
  moreover obtain r w' where "write_segmented_fragments ?segments (length (concat ?segments)) ?n w = (r, w')" by fastforce
  ultimately show thesis
    using writing ok \<open>progressive w\<close> that [of w'] by (auto simp: wrote_def bytes progressive_def)
qed

lemma connection_writer_writes:
  assumes valid: "limits_validate p limits = Inr ()"
  shows "\<forall>reply \<in> set replies. \<exists>xid. deliverable limits xid reply \<Longrightarrow> progressive w \<Longrightarrow>
    \<exists>w'. connection_writer (record_limits limits) (map (\<lambda>reply. (reply, None)) replies) w = (Inr (), w') \<and>
      wr_out w' = wr_out w @ concat (map (\<lambda>reply.
        fragments_bytes (chunks (sl_max_rpc_fragment_size limits) (reply_into_bytes reply))) replies)"
proof (induction replies arbitrary: w)
  case (Cons reply replies)
  obtain xid where "deliverable limits xid reply" using Cons.prems(1) by auto
  then obtain w1 where w1: "write_record_segments_limited (reply_segments reply) (record_limits limits) w = (Inr (), w1)"
    "wr_out w1 = wr_out w @ fragments_bytes (chunks (sl_max_rpc_fragment_size limits) (reply_into_bytes reply))"
    "progressive w1"
    using write_deliverable [OF valid _ Cons.prems(2)] by metis
  from Cons.IH [OF _ w1(3)] Cons.prems(1) show ?case by (auto simp: w1)
qed simp

text \<open>One turn of the reader on the marked bytes of a reply.\<close>

lemma reader_reads:
  assumes valid: "limits_validate p limits = Inr ()" and alloc: "alloc_ok try_alloc (record_limits limits)"
    and reply: "deliverable limits xid reply" and "\<not> sem_closed budget"
    and bytes: "rd_bytes rd = fragments_bytes (chunks (sl_max_rpc_fragment_size limits) (reply_into_bytes reply)) @ rest"
  shows "\<exists>reserved. \<not> sem_closed reserved \<and>
    connection_reader try_alloc (record_limits limits) budget rd
      (queueing_turn (sl_max_rpc_record_size limits) # turns) =
    (case connection_reader try_alloc (record_limits limits) reserved (rd\<lparr>rd_bytes := rest\<rparr>) turns of
       (queued, res) \<Rightarrow> (reply_into_bytes reply # queued, res))"
proof -
  let ?l = "record_limits limits" and ?b = "give_back (sl_max_rpc_record_size limits) budget"
  note v = limits_validate_Inr [OF valid]
  have len: "length (reply_into_bytes reply) = reply_len reply" "validate_record_length (reply_len reply) ?l = Inr ()"
    using reply length_reply_into_bytes by (simp_all add: deliverable_def)
  have "fragments_ok ?l (chunks (max_fragment_size ?l) (reply_into_bytes reply))"
    by (rule chunks_ok) (use len fragment_size_wire [OF valid] in simp_all)
  then have "read_record try_alloc ?l rd = Inr (reply_into_bytes reply, rd\<lparr>rd_bytes := rest\<rparr>)"
    using bytes v(5) by (auto simp: read_record_Inr [OF alloc] concat_chunks)
  moreover have "read_record_budgeted try_alloc ?l ?b rd = Some (read_record try_alloc ?l rd,
      case read_record try_alloc ?l rd of Inl _ \<Rightarrow> ?b
      | Inr _ \<Rightarrow> ?b\<lparr>sem_permits := sem_permits ?b - max_record_size ?l\<rparr>)"
    by (rule read_record_budgeted_eq) (use v(2,5) \<open>\<not> sem_closed budget\<close> in \<open>simp_all add: give_back_def\<close>)
  ultimately show ?thesis
    using \<open>\<not> sem_closed budget\<close>
    by (intro exI [of _ "?b\<lparr>sem_permits := sem_permits ?b - max_record_size ?l\<rparr>"])
      (simp add: queueing_turn_def Let_def give_back_def)
qed

lemma reader_eof:
  assumes "rd_bytes rd = []" and "rd_end rd = UnexpectedEof"
  shows "connection_reader try_alloc limits budget rd [queueing_turn n] = ([], Some (Inr ()))"
proof -
  have "io_read_u32 rd = Inl (RecIo UnexpectedEof)"
    using assms by (simp add: io_read_u32_def io_read_exact_def)
  then show ?thesis
    by (simp add: queueing_turn_def read_record_budgeted_def is_disconnect_def Let_def)
qed

lemma connection_reader_queues:
  assumes valid: "limits_validate p limits = Inr ()" and alloc: "alloc_ok try_alloc (record_limits limits)"
  shows "\<forall>reply \<in> set replies. \<exists>xid. deliverable limits xid reply \<Longrightarrow> \<not> sem_closed budget \<Longrightarrow>
    rd_bytes rd = concat (map (\<lambda>reply.
      fragments_bytes (chunks (sl_max_rpc_fragment_size limits) (reply_into_bytes reply))) replies) \<Longrightarrow>
    rd_end rd = UnexpectedEof \<Longrightarrow>
    connection_reader try_alloc (record_limits limits) budget rd
      (replicate (Suc (length replies)) (queueing_turn (sl_max_rpc_record_size limits))) =
    (map reply_into_bytes replies, Some (Inr ()))"
proof (induction replies arbitrary: budget rd)
  case Nil
  then show ?case using reader_eof by simp
next
  case (Cons reply replies)
  let ?rest = "concat (map (\<lambda>reply.
    fragments_bytes (chunks (sl_max_rpc_fragment_size limits) (reply_into_bytes reply))) replies)"
  obtain xid where "deliverable limits xid reply" using Cons.prems(1) by auto
  moreover have "rd_bytes rd =
      fragments_bytes (chunks (sl_max_rpc_fragment_size limits) (reply_into_bytes reply)) @ ?rest"
    using Cons.prems(3) by simp
  ultimately obtain reserved where open_budget: "\<not> sem_closed reserved"
    and turn: "connection_reader try_alloc (record_limits limits) budget rd
      (queueing_turn (sl_max_rpc_record_size limits) #
        replicate (Suc (length replies)) (queueing_turn (sl_max_rpc_record_size limits))) =
    (case connection_reader try_alloc (record_limits limits) reserved (rd\<lparr>rd_bytes := ?rest\<rparr>)
        (replicate (Suc (length replies)) (queueing_turn (sl_max_rpc_record_size limits))) of
       (queued, res) \<Rightarrow> (reply_into_bytes reply # queued, res))"
    using reader_reads [OF valid alloc _ Cons.prems(2)] by blast
  have "connection_reader try_alloc (record_limits limits) reserved (rd\<lparr>rd_bytes := ?rest\<rparr>)
      (replicate (Suc (length replies)) (queueing_turn (sl_max_rpc_record_size limits))) =
    (map reply_into_bytes replies, Some (Inr ()))"
    by (rule Cons.IH [OF _ open_budget]) (use Cons.prems in simp_all)
  then show ?case using turn by simp
qed

section \<open>Properties\<close>

text \<open>
  C9: the processor of a connection drains.  Once its channel is closed, by the reader or by a
  shutdown, every run ends within a number of steps that the requests at hand determine; it can only
  end with the error of a task, or with success when the task of every request that was ever queued
  has ended; and at all times the queue and the tasks are within the configured capacity.
\<close>

theorem processor_drains:
  assumes "processor_reachable capacity p" and "pr_closed p" and "0 < capacity"
    and "(processor_step capacity ^^ n) p p'"
  shows "n \<le> 2 * length (pr_queue p) + size (pr_running p) + 2 \<and>
    length (pr_queue p') \<le> capacity \<and> size (pr_running p') \<le> capacity \<and>
    ((\<exists>p''. processor_step capacity p' p'') \<or> (\<exists>e. pr_result p' = Some (Inl e)) \<or>
     pr_result p' = Some (Inr ()) \<and> pr_ended p' = mset (pr_queued p'))"
proof -
  have "(processor_step capacity)\<^sup>*\<^sup>* p p'" using assms(4) by (rule relpowp_imp_rtranclp)
  then have "processor_reachable capacity p'"
    using assms(1) unfolding processor_reachable_def by (meson rtranclp_trans)
  then have inv: "processor_inv capacity p'" by (rule processor_reachable_inv)
  note work = processor_run_work [OF assms(4,2)]
  have "processor_work p \<le> 2 * length (pr_queue p) + size (pr_running p) + 2" by (simp add: processor_work_def)
  then have "n \<le> 2 * length (pr_queue p) + size (pr_running p) + 2" using work by linarith
  moreover have "(\<exists>p''. processor_step capacity p' p'') \<or> (\<exists>e. pr_result p' = Some (Inl e)) \<or>
      pr_result p' = Some (Inr ()) \<and> pr_ended p' = mset (pr_queued p')"
  proof (cases "pr_result p'")
    case None
    then show ?thesis using processor_progress [of p' capacity] work assms(3) by blast
  next
    case (Some res)
    then show ?thesis using inv by (cases res) (auto simp: processor_inv_def)
  qed
  ultimately show ?thesis using inv by (simp add: processor_inv_def)
qed

lemma sample_processor_reachable: "processor_reachable 1 sample_processor"
proof -
  let ?p = "(processor_init False)\<lparr>pr_queue := [7], pr_queued := [7]\<rparr> :: nat processor"
  have "processor_step 1 (processor_init False) ?p"
    using queue_request [of "processor_init False :: nat processor" 1 7] by (simp add: processor_init_def)
  moreover have "processor_step 1 ?p sample_processor"
    using reader_ends [of ?p 1] by (simp add: processor_init_def sample_processor_def)
  ultimately show ?thesis unfolding processor_reachable_def by (meson r_into_rtranclp rtranclp.rtrancl_into_rtrancl)
qed

lemma sample_processor_run: "(processor_step 1 ^^ 3) sample_processor sample_processor_end"
proof -
  let ?p1 = "sample_processor\<lparr>pr_queue := [], pr_running := {#7#}\<rparr>"
  let ?p2 = "sample_processor\<lparr>pr_queue := [], pr_running := {#}, pr_ended := {#7#}\<rparr>"
  have "processor_step 1 sample_processor ?p1"
    using receive_request [of sample_processor 1 7 "[]"] by (simp add: sample_processor_def processor_init_def)
  moreover have "processor_step 1 ?p1 ?p2"
    using task_ends [of ?p1 7 1] by (simp add: sample_processor_def processor_init_def)
  moreover have "processor_step 1 ?p2 sample_processor_end"
    using processor_returns [of ?p2 1] by (simp add: sample_processor_def sample_processor_end_def processor_init_def)
  ultimately show ?thesis unfolding numeral_3_eq_3 by (blast intro: relpowp_0_I relpowp_Suc_I)
qed

theorem processor_drains_witness:
  "3 \<le> 2 * length (pr_queue sample_processor) + size (pr_running sample_processor) + 2 \<and>
   size (pr_running sample_processor_end) \<le> 1"
  using processor_drains [OF sample_processor_reachable _ _ sample_processor_run]
  by (simp add: sample_processor_def)

text \<open>
  C10: what the writer of a connection sends, a reader queues.  Replies that can be delivered are all
  written, over a transport that makes progress, and a reader with the same limits that gets the
  bytes, and then the end of the stream, queues exactly the bytes of the replies in their order and
  ends without an error.
\<close>

theorem connection_loops_round_trip:
  assumes "limits_validate max_permits limits = Inr ()" and "alloc_ok try_alloc (record_limits limits)"
    and "\<forall>reply \<in> set replies. \<exists>xid. deliverable limits xid reply"
    and "progressive w" and "\<not> sem_closed budget"
  shows "\<exists>w' sent. connection_writer (record_limits limits) (map (\<lambda>reply. (reply, None)) replies) w = (Inr (), w') \<and>
    wr_out w' = wr_out w @ sent \<and>
    connection_reader try_alloc (record_limits limits) budget \<lparr>rd_bytes = sent, rd_end = UnexpectedEof\<rparr>
      (replicate (Suc (length replies)) (queueing_turn (sl_max_rpc_record_size limits))) =
    (map reply_into_bytes replies, Some (Inr ()))"
proof -
  let ?sent = "concat (map (\<lambda>reply.
    fragments_bytes (chunks (sl_max_rpc_fragment_size limits) (reply_into_bytes reply))) replies)"
  obtain w' where "connection_writer (record_limits limits) (map (\<lambda>reply. (reply, None)) replies) w = (Inr (), w')"
    "wr_out w' = wr_out w @ ?sent"
    using connection_writer_writes [OF assms(1,3,4)] by blast
  moreover have "connection_reader try_alloc (record_limits limits) budget \<lparr>rd_bytes = ?sent, rd_end = UnexpectedEof\<rparr>
      (replicate (Suc (length replies)) (queueing_turn (sl_max_rpc_record_size limits))) =
    (map reply_into_bytes replies, Some (Inr ()))"
    by (rule connection_reader_queues [OF assms(1,2,3,5)]) simp_all
  ultimately show ?thesis by blast
qed

theorem connection_loops_round_trip_witness:
  "\<exists>w'. connection_writer (record_limits production_defaults)
      [(into_reply length (accepted_reply 7 0 []), None), (into_reply length (accepted_reply 8 4 []), None)]
      (sample_writer True) = (Inr (), w')"
proof -
  have "deliverable production_defaults x (into_reply length (accepted_reply x status []))" for x status
    using deliverable_accepted [OF production_defaults_valid] by simp
  moreover have "progressive (sample_writer True)" by (simp add: progressive_def sample_writer_def)
  ultimately show ?thesis
    using connection_loops_round_trip [OF production_defaults_valid, of Some
        "[into_reply length (accepted_reply 7 0 []), into_reply length (accepted_reply 8 4 [])]" "sample_writer True"
        "\<lparr>sem_permits = 0, sem_closed = False\<rparr>"]
    by (auto simp: alloc_ok_def)
qed

end
