(* ===== verification/Server_Lifecycle.thy ===== *)
theory Server_Lifecycle
  imports Connection_Loops
begin

text \<open>
  Building, starting and running a server (\<^verbatim>\<open>src/server/builder.rs\<close>, \<^verbatim>\<open>src/server/mod.rs\<close>,
  \<^verbatim>\<open>src/server/handle.rs\<close>): the builder with its validation, the state of a fresh run, the accept
  loop as a step relation over the numbers of its tasks, and the handle.

  Listeners are outside the model: their local addresses are arguments.  A path is the bytes of its
  UTF-8 encoding, and the operating system's random source is the one of \<open>Handle_Codec\<close>.
\<close>

section \<open>The builder\<close>

record 's NfsServerBuilder =
  nb_exports :: "'s ExportState list"
  nb_limits :: ServerLimits
  nb_auth_policy :: AuthPolicy
  nb_portmapper :: PortmapperMode

definition builder_new :: "'s Vfs \<Rightarrow> 's NfsServerBuilder" where
  "builder_new vfs =
     \<lparr>nb_exports = [\<lparr>ex_vfs = vfs, ex_id = 1, ex_path = [47]\<rparr>], nb_limits = production_defaults,
      nb_auth_policy = Policy_AuthSys, nb_portmapper = Portmapper_Disabled\<rparr>"

definition absolute_path :: "bytes \<Rightarrow> bytes" where
  "absolute_path name = (if prefix [47] name then name else 47 # name)"

definition export_name :: "bytes \<Rightarrow> 's NfsServerBuilder \<Rightarrow> 's NfsServerBuilder" where
  "export_name name b =
     b\<lparr>nb_exports := (nb_exports b)[0 := (nb_exports b ! 0)\<lparr>ex_path := absolute_path name\<rparr>]\<rparr>"

definition export_id :: "ExportId \<Rightarrow> 's NfsServerBuilder \<Rightarrow> 's NfsServerBuilder" where
  "export_id i b = b\<lparr>nb_exports := (nb_exports b)[0 := (nb_exports b ! 0)\<lparr>ex_id := i\<rparr>]\<rparr>"

definition push_export :: "ExportId \<Rightarrow> bytes \<Rightarrow> 's Vfs \<Rightarrow> 's NfsServerBuilder \<Rightarrow> 's NfsServerBuilder" where
  "push_export i name vfs b =
     b\<lparr>nb_exports := nb_exports b @ [\<lparr>ex_vfs = vfs, ex_id = i, ex_path = absolute_path name\<rparr>]\<rparr>"

definition builder_limits :: "ServerLimits \<Rightarrow> 's NfsServerBuilder \<Rightarrow> 's NfsServerBuilder" where
  "builder_limits limits b = b\<lparr>nb_limits := limits\<rparr>"

definition builder_auth_policy :: "AuthPolicy \<Rightarrow> 's NfsServerBuilder \<Rightarrow> 's NfsServerBuilder" where
  "builder_auth_policy policy b = b\<lparr>nb_auth_policy := policy\<rparr>"

definition builder_portmapper :: "PortmapperMode \<Rightarrow> 's NfsServerBuilder \<Rightarrow> 's NfsServerBuilder" where
  "builder_portmapper mode b = b\<lparr>nb_portmapper := mode\<rparr>"

record 's NfsServer =
  ns_exports :: "'s ExportState list"
  ns_limits :: ServerLimits
  ns_auth_policy :: AuthPolicy
  ns_portmapper :: PortmapperMode

definition from_builder :: "'s NfsServerBuilder \<Rightarrow> 's NfsServer" where
  "from_builder b =
     \<lparr>ns_exports = nb_exports b, ns_limits = nb_limits b, ns_auth_policy = nb_auth_policy b,
      ns_portmapper = nb_portmapper b\<rparr>"

text \<open>The loop of \<open>build\<close>; its first argument is \<open>self.exports[..index]\<close>.\<close>

fun check_exports :: "'s ExportState list \<Rightarrow> 's ExportState list \<Rightarrow> ServerError + unit" where
  "check_exports earlier [] = Inr ()"
| "check_exports earlier (export # exports) =
     (if 0 \<in> set (ex_path export) \<or> 1024 < length (ex_path export)
      then Inl (SE_InvalidConfiguration ''export path is invalid'')
      else if \<not> prefix [47] (ex_path export) \<or> 1 < length (ex_path export) \<and> suffix [47] (ex_path export)
      then Inl (SE_InvalidConfiguration ''export path must be absolute and must not have a trailing slash'')
      else if list_ex (\<lambda>other. ex_id other = ex_id export \<or> ex_path other = ex_path export) earlier
      then Inl (SE_InvalidConfiguration ''export IDs and paths must be unique'')
      else check_exports (earlier @ [export]) exports)"

definition build :: "usize \<Rightarrow> 's NfsServerBuilder \<Rightarrow> ServerError + 's NfsServer" where
  "build max_permits b =
     r_bind (r_map_err SE_InvalidConfiguration (limits_validate max_permits (nb_limits b))) (\<lambda>_.
     r_bind (check_exports [] (nb_exports b)) (\<lambda>_.
     Inr (from_builder b)))"

section \<open>Starting\<close>

record MountInfo =
  mi_server_addr :: SocketAddr
  mi_export_path :: bytes
  mi_nfs_version :: u32
  mi_nfs_port :: u16
  mi_mount_port :: u16

definition mount_infos :: "'s NfsServer \<Rightarrow> SocketAddr \<Rightarrow> MountInfo list" where
  "mount_infos server local_addr =
     map (\<lambda>export. \<lparr>mi_server_addr = local_addr, mi_export_path = ex_path export, mi_nfs_version = NFS_VERSION,
            mi_nfs_port = sock_port local_addr, mi_mount_port = sock_port local_addr\<rparr>) (ns_exports server)"

text \<open>What a run shares between its connections, beside the fields that do not change.\<close>

record 's run_state =
  rs_connection :: "'s ConnectionState"
  rs_replay_config :: ReplayConfig
  rs_replay :: CacheInner
  rs_requests :: Semaphore
  rs_request_buffers :: Semaphore
  rs_reply_buffers :: Semaphore
  rs_mounts :: MountTable

definition semaphore_new :: "usize \<Rightarrow> Semaphore" where
  "semaphore_new permits = \<lparr>sem_permits = permits, sem_closed = False\<rparr>"

definition connection_state ::
  "(bytes \<Rightarrow> bytes \<Rightarrow> bytes) \<Rightarrow> (usize \<Rightarrow> 'r \<Rightarrow> (string + bytes) \<times> 'r) \<Rightarrow> 's NfsServer \<Rightarrow> u16 \<Rightarrow> 'r \<Rightarrow>
   (ServerError + 's run_state) \<times> 'r" where
  "connection_state hmac try_fill_bytes server local_port rng =
     (case handle_codec_try_random hmac try_fill_bytes rng of
        (Inl error, rng) \<Rightarrow> (Inl SE_Entropy, rng)
      | (Inr handles, rng) \<Rightarrow>
          let limits = ns_limits server;
              (config, cache) = cache_new (sl_replay_cache_capacity limits) (sl_replay_cache_max_bytes limits)
                (sl_replay_cache_ttl limits) in
          (Inr \<lparr>rs_connection =
                  \<lparr>cs_exports = ns_exports server, cs_limits = limits, cs_auth_policy = ns_auth_policy server,
                   cs_portmapper = ns_portmapper server, cs_handles = handles, cs_local_port = local_port\<rparr>,
                rs_replay_config = config, rs_replay = cache,
                rs_requests = semaphore_new (sl_max_inflight_requests limits),
                rs_request_buffers = semaphore_new (sl_max_buffered_request_bytes limits),
                rs_reply_buffers = semaphore_new (sl_max_buffered_reply_bytes limits),
                rs_mounts = []\<rparr>, rng))"

text \<open>The handle: whether it still holds the task of the run, and the value it sent on the shutdown channel.\<close>

record ServerHandle =
  sh_mount_infos :: "MountInfo list"
  sh_portmapper_addr :: "SocketAddr option"
  sh_shutdown :: bool
  sh_task :: bool

definition start_inner ::
  "(bytes \<Rightarrow> bytes \<Rightarrow> bytes) \<Rightarrow> (usize \<Rightarrow> 'r \<Rightarrow> (string + bytes) \<times> 'r) \<Rightarrow> 's NfsServer \<Rightarrow>
   IoErrorKind + SocketAddr \<Rightarrow>
   ((IoErrorKind + SocketAddr) \<times> (IoErrorKind + SocketAddr) \<times> (u16 \<times> u16) option) option \<Rightarrow> 'r \<Rightarrow>
   (ServerError + (ServerHandle \<times> PreparedPortmapper option \<times> 's run_state)) \<times> 'r" where
  "start_inner hmac try_fill_bytes server listener_addr sockets rng =
     (case listener_addr of
        Inl kind \<Rightarrow> (Inl (SE_Io kind), rng)
      | Inr local_addr \<Rightarrow>
          (case (case sockets of
                   None \<Rightarrow> Inr None
                 | Some (tcp, udp, advertised) \<Rightarrow>
                     r_bind (portmapper_prepare tcp udp advertised (sock_port local_addr)) (\<lambda>prepared.
                     Inr (Some prepared))) of
             Inl error \<Rightarrow> (Inl error, rng)
           | Inr portmapper \<Rightarrow>
               (case connection_state hmac try_fill_bytes server (sock_port local_addr) rng of
                  (Inl error, rng) \<Rightarrow> (Inl error, rng)
                | (Inr state, rng) \<Rightarrow>
                    (Inr (\<lparr>sh_mount_infos = mount_infos server local_addr,
                           sh_portmapper_addr = map_option pp_local_addr portmapper,
                           sh_shutdown = False, sh_task = True\<rparr>, portmapper, state), rng))))"

definition handle_shutdown :: "ServerHandle \<Rightarrow> (ServerError + unit) \<times> ServerHandle" where
  "handle_shutdown handle = (Inr (), handle\<lparr>sh_shutdown := True\<rparr>)"

text \<open>\<open>joined\<close> is what the task yields when it is awaited: a join error, or the result of \<open>run\<close>.\<close>

definition handle_wait :: "unit + (ServerError + unit) \<Rightarrow> ServerHandle \<Rightarrow> (ServerError + unit) \<times> ServerHandle" where
  "handle_wait joined handle =
     (if \<not> sh_task handle then (Inr (), handle)
      else (case joined of Inl _ \<Rightarrow> Inl SE_Task | Inr res \<Rightarrow> res, handle\<lparr>sh_task := False\<rparr>))"

section \<open>Running\<close>

text \<open>
  The accept loop of \<open>run\<close> with that of \<open>run_portmapper\<close>, which shares its connection permits: the
  permits left, the numbers of connection tasks, of tasks of the portmapper and of tracked
  executions, the phase of the portmapper service and the value of the shutdown channel.
\<close>

datatype run_phase = Run_Accepting | Run_Draining | Run_Ended "ServerError + unit"
datatype service_phase = Service_None | Service_Accepting | Service_Draining

record server_run =
  ru_permits :: nat
  ru_tasks :: nat
  ru_portmapper_tasks :: nat
  ru_executions :: nat
  ru_service :: service_phase
  ru_shutdown :: bool
  ru_phase :: run_phase

definition run_init :: "usize \<Rightarrow> bool \<Rightarrow> server_run" where
  "run_init max_connections with_portmapper =
     \<lparr>ru_permits = max_connections, ru_tasks = 0, ru_portmapper_tasks = 0, ru_executions = 0,
      ru_service = (if with_portmapper then Service_Accepting else Service_None), ru_shutdown = False,
      ru_phase = Run_Accepting\<rparr>"

definition run_live :: "server_run \<Rightarrow> bool" where
  "run_live r \<longleftrightarrow> ru_phase r = Run_Accepting \<or> ru_phase r = Run_Draining"

text \<open>Returning drops the task sets, which aborts what is left in them.\<close>

definition run_return :: "ServerError + unit \<Rightarrow> server_run \<Rightarrow> server_run" where
  "run_return res r =
     r\<lparr>ru_permits := ru_permits r + ru_tasks r + ru_portmapper_tasks r, ru_tasks := 0, ru_portmapper_tasks := 0,
       ru_executions := 0, ru_service := Service_None, ru_phase := Run_Ended res\<rparr>"

definition service_end :: "server_run \<Rightarrow> server_run" where
  "service_end r =
     r\<lparr>ru_permits := ru_permits r + ru_portmapper_tasks r, ru_portmapper_tasks := 0, ru_service := Service_None\<rparr>"

inductive run_step :: "server_run \<Rightarrow> server_run \<Rightarrow> bool" where
  shutdown_requested: "run_step r (r\<lparr>ru_shutdown := True\<rparr>)"
| accept_connection:
    "ru_phase r = Run_Accepting \<Longrightarrow> 0 < ru_permits r \<Longrightarrow>
     run_step r (r\<lparr>ru_permits := ru_permits r - 1, ru_tasks := ru_tasks r + 1\<rparr>)"
| reject_connection: "ru_phase r = Run_Accepting \<Longrightarrow> ru_permits r = 0 \<Longrightarrow> run_step r r"
| accept_fails: "ru_phase r = Run_Accepting \<Longrightarrow> run_step r (run_return (Inl (SE_Io kind)) r)"
| connection_ends:
    "run_live r \<Longrightarrow> 0 < ru_tasks r \<Longrightarrow>
     run_step r (r\<lparr>ru_permits := ru_permits r + 1, ru_tasks := ru_tasks r - 1\<rparr>)"
| execution_starts:
    "run_live r \<Longrightarrow> 0 < ru_tasks r \<Longrightarrow> run_step r (r\<lparr>ru_executions := ru_executions r + 1\<rparr>)"
| execution_ends:
    "run_live r \<Longrightarrow> 0 < ru_executions r \<Longrightarrow> run_step r (r\<lparr>ru_executions := ru_executions r - 1\<rparr>)"
| portmapper_accepts:
    "ru_service r = Service_Accepting \<Longrightarrow> 0 < ru_permits r \<Longrightarrow>
     run_step r (r\<lparr>ru_permits := ru_permits r - 1, ru_portmapper_tasks := ru_portmapper_tasks r + 1\<rparr>)"
| portmapper_connection_ends:
    "0 < ru_portmapper_tasks r \<Longrightarrow>
     run_step r (r\<lparr>ru_permits := ru_permits r + 1, ru_portmapper_tasks := ru_portmapper_tasks r - 1\<rparr>)"
| portmapper_breaks:
    "ru_service r = Service_Accepting \<Longrightarrow> ru_shutdown r \<Longrightarrow> run_step r (r\<lparr>ru_service := Service_Draining\<rparr>)"
| portmapper_ends:
    "ru_service r = Service_Draining \<Longrightarrow> ru_portmapper_tasks r = 0 \<Longrightarrow>
     run_step r ((service_end r)\<lparr>ru_phase := Run_Draining\<rparr>)"
| portmapper_fails:
    "ru_service r = Service_Accepting \<Longrightarrow>
     run_step r (if ru_phase r = Run_Accepting \<and> \<not> ru_shutdown r then run_return (Inl error) r
                 else (service_end r)\<lparr>ru_phase := Run_Draining\<rparr>)"
| run_breaks: "ru_phase r = Run_Accepting \<Longrightarrow> ru_shutdown r \<Longrightarrow> run_step r (r\<lparr>ru_phase := Run_Draining\<rparr>)"
| run_finishes:
    "ru_phase r = Run_Draining \<Longrightarrow> ru_tasks r = 0 \<Longrightarrow> ru_service r = Service_None \<Longrightarrow> ru_executions r = 0 \<Longrightarrow>
     run_step r (run_return (Inr ()) r)"
| run_aborts: "ru_phase r = Run_Draining \<Longrightarrow> run_step r (run_return (Inr ()) r)"

definition run_reachable :: "usize \<Rightarrow> server_run \<Rightarrow> bool" where
  "run_reachable max_connections r \<longleftrightarrow> (\<exists>with_portmapper. run_step\<^sup>*\<^sup>* (run_init max_connections with_portmapper) r)"

definition run_inv :: "usize \<Rightarrow> server_run \<Rightarrow> bool" where
  "run_inv max_connections r \<longleftrightarrow>
     ru_permits r + ru_tasks r + ru_portmapper_tasks r = max_connections \<and>
     (ru_service r = Service_None \<longrightarrow> ru_portmapper_tasks r = 0) \<and>
     (ru_service r = Service_Draining \<longrightarrow> ru_shutdown r) \<and>
     (ru_phase r = Run_Draining \<longrightarrow> ru_shutdown r) \<and>
     (\<not> run_live r \<longrightarrow> ru_tasks r = 0 \<and> ru_executions r = 0 \<and> ru_service r = Service_None)"

text \<open>What \<open>build\<close> demands of the path of an export.\<close>

definition export_path_ok :: "bytes \<Rightarrow> bool" where
  "export_path_ok path \<longleftrightarrow>
     0 \<notin> set path \<and> length path \<le> 1024 \<and> prefix [47] path \<and> (path = [47] \<or> \<not> suffix [47] path)"

text \<open>What the run starts with, as the state of requests.\<close>

definition fresh_world :: "'s run_state \<Rightarrow> 's \<Rightarrow> 's server_world" where
  "fresh_world rs s = \<lparr>w_cache = rs_replay rs, w_sent = [], w_call_state = (rs_mounts rs, s)\<rparr>"

text \<open>A builder with a second export, a keyed code of 32 bytes and a random source that counts.\<close>

definition sample_builder :: "nat NfsServerBuilder" where
  "sample_builder = push_export 2 [100, 97, 116, 97] sample_vfs (builder_new sample_vfs)"

definition sample_hmac :: "bytes \<Rightarrow> bytes \<Rightarrow> bytes" where
  "sample_hmac secret message = replicate 32 (fold (+) message (hd secret))"

definition sample_fill :: "usize \<Rightarrow> nat \<Rightarrow> (string + bytes) \<times> nat" where
  "sample_fill n rng = (Inr (replicate n (of_nat rng)), rng + 1)"

section \<open>Lemmas\<close>

lemma run_step_inv: "run_step r r' \<Longrightarrow> run_inv n r \<Longrightarrow> run_inv n r'"
  by (induction rule: run_step.induct) (auto simp: run_inv_def run_live_def run_return_def service_end_def)

lemma run_reachable_inv:
  assumes "run_reachable n r"
  shows "run_inv n r"
proof -
  obtain b where "run_step\<^sup>*\<^sup>* (run_init n b) r" using assms by (auto simp: run_reachable_def)
  then show ?thesis
  proof (induction rule: rtranclp_induct)
    case base
    then show ?case by (simp add: run_inv_def run_init_def run_live_def)
  next
    case (step q r)
    then show ?case by (simp add: run_step_inv)
  qed
qed

lemma run_can_end:
  assumes "run_inv n r" and "ru_shutdown r"
  shows "\<exists>r' res. run_step\<^sup>*\<^sup>* r r' \<and> ru_phase r' = Run_Ended res"
proof (cases "ru_phase r")
  case Run_Accepting
  let ?r = "r\<lparr>ru_phase := Run_Draining\<rparr>"
  have "run_step r ?r" using run_breaks [OF Run_Accepting assms(2)] .
  moreover have "run_step ?r (run_return (Inr ()) ?r)" by (rule run_aborts) simp
  ultimately have "run_step\<^sup>*\<^sup>* r (run_return (Inr ()) ?r)" by (meson r_into_rtranclp rtranclp.rtrancl_into_rtrancl)
  then show ?thesis by (auto simp: run_return_def)
next
  case Run_Draining
  then have "run_step\<^sup>*\<^sup>* r (run_return (Inr ()) r)" using run_aborts by blast
  then show ?thesis by (auto simp: run_return_def)
next
  case (Run_Ended res)
  then show ?thesis by blast
qed

lemma path_head_tail: "prefix [47] path \<Longrightarrow> length path \<le> 1 \<Longrightarrow> path = [47]"
  by (cases path) (auto simp: prefix_def)

lemma check_exports_Inr:
  "check_exports earlier exports = Inr () \<longleftrightarrow>
     (\<forall>e \<in> set exports. export_path_ok (ex_path e)) \<and>
     (\<forall>e \<in> set exports. \<forall>other \<in> set earlier. ex_id other \<noteq> ex_id e \<and> ex_path other \<noteq> ex_path e) \<and>
     distinct (map ex_id exports) \<and> distinct (map ex_path exports)"
proof (induction earlier exports rule: check_exports.induct)
  case (2 earlier export exports)
  have path: "export_path_ok (ex_path export) \<longleftrightarrow>
      \<not> (0 \<in> set (ex_path export) \<or> 1024 < length (ex_path export)) \<and>
      \<not> (\<not> prefix [47] (ex_path export) \<or> 1 < length (ex_path export) \<and> suffix [47] (ex_path export))"
    using path_head_tail [of "ex_path export"] by (auto simp: export_path_ok_def not_less)
  let ?clash = "list_ex (\<lambda>other. ex_id other = ex_id export \<or> ex_path other = ex_path export) earlier"
  show ?case
  proof (cases "export_path_ok (ex_path export) \<and> \<not> ?clash")
    case True
    then have "check_exports earlier (export # exports) = check_exports (earlier @ [export]) exports"
      unfolding path by auto
    moreover have "check_exports (earlier @ [export]) exports = Inr () \<longleftrightarrow>
      (\<forall>e \<in> set exports. export_path_ok (ex_path e)) \<and>
      (\<forall>e \<in> set exports. \<forall>other \<in> set (earlier @ [export]). ex_id other \<noteq> ex_id e \<and> ex_path other \<noteq> ex_path e) \<and>
      distinct (map ex_id exports) \<and> distinct (map ex_path exports)"
      by (rule 2) (use True in \<open>unfold path, auto\<close>)
    ultimately show ?thesis using True by (auto simp: list_ex_iff image_iff)
  next
    case False
    then have "check_exports earlier (export # exports) \<noteq> Inr ()" unfolding path by auto
    with False show ?thesis by (auto simp: list_ex_iff)
  qed
qed simp

lemma build_Inr:
  "build p b = Inr server \<longleftrightarrow>
     limits_validate p (nb_limits b) = Inr () \<and> server = from_builder b \<and>
     (\<forall>e \<in> set (nb_exports b). export_path_ok (ex_path e)) \<and>
     distinct (map ex_id (nb_exports b)) \<and> distinct (map ex_path (nb_exports b))"
  using check_exports_Inr [of "[]" "nb_exports b"]
  by (cases "limits_validate p (nb_limits b)"; cases "check_exports [] (nb_exports b)") (auto simp: build_def)

lemma select_export_own_path:
  assumes "e \<in> set (cs_exports state)" and "distinct (map ex_path (cs_exports state))"
  shows "select_export state (ex_path e) = Some e"
proof -
  let ?matching = "filter (\<lambda>export. export_matches (ex_path export) (ex_path e)) (cs_exports state)"
  have e: "e \<in> set ?matching" using assms(1) by (simp add: export_matches_def)
  then obtain r where r: "select_export state (ex_path e) = Some r"
    using max_by_key_None [of _ None ?matching]
    by (cases "select_export state (ex_path e)") (auto simp: select_export_def filter_empty_conv)
  from max_by_key_Some [OF r [unfolded select_export_def]] e
  have "r \<in> set (cs_exports state)" "path_under (ex_path r) (ex_path e)" "length (ex_path e) \<le> length (ex_path r)"
    by (auto simp: export_matches_iff)
  then have "ex_path r = ex_path e" by (auto simp: path_under_def)
  with assms \<open>r \<in> set (cs_exports state)\<close> have "r = e" by (auto simp: distinct_map inj_on_def)
  with r show ?thesis by simp
qed

lemma find_export_own_id:
  assumes "e \<in> set (cs_exports state)" and "distinct (map ex_id (cs_exports state))"
  shows "find_export state (ex_id e) = Some e"
proof -
  have "List.find (\<lambda>x. ex_id x = ex_id e) xs = Some e" if "e \<in> set xs" "distinct (map ex_id xs)" for xs
    using that by (induction xs) (auto simp: image_iff)
  then show ?thesis using assms by (simp add: find_export_def)
qed

lemma connection_state_Inr:
  assumes "connection_state hmac fill server port rng = (Inr rs, rng')"
  obtains handles where "handle_codec_try_random hmac fill rng = (Inr handles, rng')"
    "rs_connection rs = \<lparr>cs_exports = ns_exports server, cs_limits = ns_limits server,
      cs_auth_policy = ns_auth_policy server, cs_portmapper = ns_portmapper server, cs_handles = handles,
      cs_local_port = port\<rparr>"
    "(rs_replay_config rs, rs_replay rs) = cache_new (sl_replay_cache_capacity (ns_limits server))
      (sl_replay_cache_max_bytes (ns_limits server)) (sl_replay_cache_ttl (ns_limits server))"
    "rs_requests rs = semaphore_new (sl_max_inflight_requests (ns_limits server))"
    "rs_request_buffers rs = semaphore_new (sl_max_buffered_request_bytes (ns_limits server))"
    "rs_reply_buffers rs = semaphore_new (sl_max_buffered_reply_bytes (ns_limits server))" "rs_mounts rs = []"
  using assms by (auto simp: connection_state_def Let_def split: prod.splits sum.splits)

section \<open>Properties\<close>

text \<open>
  C11: a server that was built and started satisfies what its requests rely on.  The limits are valid,
  the handle codec is well-formed, the invariant of the server holds of its fresh state for every
  state of the backend, the mount table is well-formed, each byte budget holds a record and an
  execution permit is available.  (The byte limit of the replay cache, which is not validated, is
  assumed to leave room for its arithmetic.)
\<close>

theorem started_server_ok:
  assumes "build max_permits b = Inr server" and "connection_state hmac try_fill_bytes server port rng = (Inr rs, rng')"
    and "\<forall>key message. length (hmac key message) = 32"
    and "\<forall>n r bs r'. try_fill_bytes n r = (Inr bs, r') \<longrightarrow> length bs = n"
    and "sl_replay_cache_max_bytes (nb_limits b) < usize_bound - 1"
  shows "cs_limits (rs_connection rs) = nb_limits b \<and> limits_validate max_permits (nb_limits b) = Inr () \<and>
    codec_ok (cs_handles (rs_connection rs)) \<and> config_ok (rs_replay_config rs) \<and>
    world_ok (rs_replay_config rs) 0 (nb_limits b) (fresh_world rs s) \<and> mounts_ok (nb_limits b) (rs_mounts rs) \<and>
    sl_max_rpc_record_size (nb_limits b) \<le> sem_permits (rs_request_buffers rs) \<and>
    sl_max_rpc_record_size (nb_limits b) \<le> sem_permits (rs_reply_buffers rs) \<and> 0 < sem_permits (rs_requests rs)"
proof -
  have valid: "limits_validate max_permits (nb_limits b) = Inr ()" and server: "server = from_builder b"
    using assms(1) by (simp_all add: build_Inr)
  obtain handles where rs: "handle_codec_try_random hmac try_fill_bytes rng = (Inr handles, rng')"
    "cs_handles (rs_connection rs) = handles" "cs_limits (rs_connection rs) = nb_limits b"
    "(rs_replay_config rs, rs_replay rs) = cache_new (sl_replay_cache_capacity (nb_limits b))
      (sl_replay_cache_max_bytes (nb_limits b)) (sl_replay_cache_ttl (nb_limits b))"
    "rs_requests rs = semaphore_new (sl_max_inflight_requests (nb_limits b))"
    "rs_request_buffers rs = semaphore_new (sl_max_buffered_request_bytes (nb_limits b))"
    "rs_reply_buffers rs = semaphore_new (sl_max_buffered_reply_bytes (nb_limits b))" "rs_mounts rs = []"
    by (rule connection_state_Inr [OF assms(2)]) (simp add: server from_builder_def)
  have "codec_ok handles"
    using rs(1) assms(3)
    by (auto simp: handle_codec_try_random_def codec_ok_def handle_sizes split: prod.splits sum.splits
        intro: assms(4) [rule_format])
  moreover have "config_ok (rs_replay_config rs)" and "world_ok (rs_replay_config rs) 0 (nb_limits b) (fresh_world rs s)"
    using rs(4) assms(5)
    by (simp_all add: cache_new_def config_ok_def world_ok_def fresh_world_def cache_ok_def cache_inv_def entries_bytes_def)
  moreover have "sl_max_rpc_record_size (nb_limits b) \<le> sl_max_buffered_request_bytes (nb_limits b) \<and>
      sl_max_rpc_record_size (nb_limits b) \<le> sl_max_buffered_reply_bytes (nb_limits b) \<and>
      0 < sl_max_inflight_requests (nb_limits b)"
    using valid by (simp add: limits_validate_def Let_def not_less split: if_splits)
  ultimately show ?thesis using valid rs by (simp add: semaphore_new_def mounts_ok_def)
qed

lemma sample_started:
  "\<exists>server rs rng'. build 2305843009213693951 sample_builder = Inr server \<and>
    connection_state sample_hmac sample_fill server 2049 1 = (Inr rs, rng')"
proof -
  have "\<exists>server. build 2305843009213693951 sample_builder = Inr server"
    using production_defaults_valid
    by (simp add: build_Inr sample_builder_def builder_new_def push_export_def absolute_path_def export_path_ok_def
        suffix_def)
  then show ?thesis
    by (auto simp: connection_state_def handle_codec_try_random_def sample_fill_def cache_new_def Let_def)
qed

theorem started_server_ok_witness:
  "\<exists>server rs rng'. build 2305843009213693951 sample_builder = Inr server \<and>
    connection_state sample_hmac sample_fill server 2049 1 = (Inr rs, rng') \<and>
    codec_ok (cs_handles (rs_connection rs)) \<and> world_ok (rs_replay_config rs) 0 production_defaults (fresh_world rs 0)"
proof -
  obtain server rs rng' where run: "build 2305843009213693951 sample_builder = Inr server"
    "connection_state sample_hmac sample_fill server 2049 1 = (Inr rs, rng')" using sample_started by blast
  have limits: "nb_limits sample_builder = production_defaults"
    by (simp add: sample_builder_def push_export_def builder_new_def)
  have "sl_replay_cache_max_bytes production_defaults < usize_bound - 1" by (simp add: production_defaults_def)
  with started_server_ok [OF run, of 0] run limits show ?thesis by (auto simp: sample_hmac_def sample_fill_def)
qed

text \<open>
  C12: every export of a built server can be mounted and used.  Its path is a valid absolute path, a
  MNT request for that path selects this export and no other, and requests under its identifier are
  served by it.
\<close>

theorem built_exports_served:
  assumes "build max_permits b = Inr server" and "connection_state hmac try_fill_bytes server port rng = (Inr rs, rng')"
    and "export \<in> set (nb_exports b)"
  shows "export_path_ok (ex_path export) \<and> select_export (rs_connection rs) (ex_path export) = Some export \<and>
    find_export (rs_connection rs) (ex_id export) = Some export"
proof -
  note b = assms(1) [unfolded build_Inr]
  have exports: "cs_exports (rs_connection rs) = nb_exports b"
    using b by (auto intro: connection_state_Inr [OF assms(2)] simp: from_builder_def)
  then show ?thesis
    using b assms(3) by (simp add: select_export_own_path find_export_own_id)
qed

theorem built_exports_served_witness:
  "\<exists>server rs rng'. build 2305843009213693951 sample_builder = Inr server \<and>
    connection_state sample_hmac sample_fill server 2049 1 = (Inr rs, rng') \<and>
    (\<exists>export. select_export (rs_connection rs) [47, 100, 97, 116, 97] = Some export \<and> ex_id export = 2)"
proof -
  obtain server rs rng' where run: "build 2305843009213693951 sample_builder = Inr server"
    "connection_state sample_hmac sample_fill server 2049 1 = (Inr rs, rng')" using sample_started by blast
  let ?export = "\<lparr>ex_vfs = sample_vfs, ex_id = 2, ex_path = [47, 100, 97, 116, 97]\<rparr>"
  have "?export \<in> set (nb_exports sample_builder)"
    by (simp add: sample_builder_def push_export_def builder_new_def absolute_path_def)
  from built_exports_served [OF run this] run show ?thesis by auto
qed



end
