(* ===== verification/Legacy_Xdr.thy ===== *)
theory Legacy_Xdr
  imports Xdr_Codec Record_Marking
begin

text \<open>
  The XDR layer of the demo stack: the trait \<open>XDR\<close> of \<^verbatim>\<open>src/xdr.rs\<close> with its three macros, and the
  NFSv3 data types of \<^verbatim>\<open>src/nfs.rs\<close> that are built from them.

  \<open>deserialize\<close> reads from an \<open>impl Read\<close>, always a cursor over a received record; here a reader maps
  the rest of that record to an error or to a value and what is then left.  \<open>serialize\<close> writes to an
  \<open>impl Write\<close>, always a growing vector, and here maps the bytes written so far to the extended ones;
  writing to a vector does not fail, but the length assertion of \<open>Vec::serialize\<close> may.  A panic of the
  source is the error value \<open>Panicked\<close>.  An \<open>nfsstring\<close>, a wrapper around a byte vector, is that vector.

  The interface of a type's code is the locale \<open>legacy_xdr\<close>: serialising appends the wire form of the
  value, and deserialising reads it back and stops behind it.  Each type of this theory instantiates it.
\<close>

section \<open>Readers and writers\<close>

datatype LegacyError = LegacyIo IoErrorKind | LegacyMessage string | Panicked

type_synonym 'a rd = "bytes \<Rightarrow> LegacyError + ('a \<times> bytes)"
type_synonym ser = "bytes \<Rightarrow> LegacyError + bytes"

definition rd_return :: "'a \<Rightarrow> 'a rd" where
  "rd_return a src = Inr (a, src)"

definition rd_fail :: "LegacyError \<Rightarrow> 'a rd" where
  "rd_fail e src = Inl e"

definition rd_bind :: "'a rd \<Rightarrow> ('a \<Rightarrow> 'b rd) \<Rightarrow> 'b rd" where
  "rd_bind m k src = (case m src of Inl e \<Rightarrow> Inl e | Inr (a, rest) \<Rightarrow> k a rest)"

definition rd_exact :: "usize \<Rightarrow> bytes rd" where
  "rd_exact n src =
     (if n \<le> length src then Inr (take n src, drop n src) else Inl (LegacyIo UnexpectedEof))"

definition write_all :: "bytes \<Rightarrow> ser" where
  "write_all buf dest = Inr (dest @ buf)"

section \<open>Primitive types\<close>

definition u32_serialize :: "u32 \<Rightarrow> ser" where
  "u32_serialize v = write_all (be32 v)"

definition u32_deserialize :: "u32 rd" where
  "u32_deserialize = rd_bind (rd_exact 4) (\<lambda>bs. rd_return (u32_of_be bs))"

definition u64_serialize :: "u64 \<Rightarrow> ser" where
  "u64_serialize v = write_all (be64 v)"

definition u64_deserialize :: "u64 rd" where
  "u64_deserialize = rd_bind (rd_exact 8) (\<lambda>bs. rd_return (u64_of_be bs))"

text \<open>A signed integer is the integer that its two's complement word denotes.\<close>

definition i32_serialize :: "int \<Rightarrow> ser" where
  "i32_serialize v = write_all (be32 (word_of_int v))"

definition i32_deserialize :: "int rd" where
  "i32_deserialize = rd_bind (rd_exact 4) (\<lambda>bs. rd_return (sint (u32_of_be bs)))"

definition i64_serialize :: "int \<Rightarrow> ser" where
  "i64_serialize v = write_all (be64 (word_of_int v))"

definition i64_deserialize :: "int rd" where
  "i64_deserialize = rd_bind (rd_exact 8) (\<lambda>bs. rd_return (sint (u64_of_be bs)))"

definition bool_serialize :: "bool \<Rightarrow> ser" where
  "bool_serialize b = u32_serialize (if b then 1 else 0)"

definition bool_deserialize :: "bool rd" where
  "bool_deserialize = rd_bind u32_deserialize (\<lambda>val. rd_return (0 < val))"

definition array_u8_serialize :: "bytes \<Rightarrow> ser" where
  "array_u8_serialize v = write_all v"

definition array_u8_deserialize :: "usize \<Rightarrow> bytes rd" where
  "array_u8_deserialize n = rd_exact n"

definition pad_of :: "u32 \<Rightarrow> usize" where
  "pad_of len = unat ((4 - len mod 4) mod 4)"

definition vec_u8_serialize :: "bytes \<Rightarrow> ser" where
  "vec_u8_serialize v dest =
     (if length v < u32_max then
        (let len = of_nat (length v) :: u32; pad = pad_of len in
         r_bind (u32_serialize len dest) (\<lambda>dest.
         r_bind (write_all v dest) (\<lambda>dest.
         if 0 < pad then write_all (take pad [0, 0, 0, 0]) dest else Inr dest)))
      else Inl Panicked)"

definition vec_u8_deserialize :: "bytes rd" where
  "vec_u8_deserialize =
     rd_bind u32_deserialize (\<lambda>len.
     rd_bind (rd_exact (unat len)) (\<lambda>v.
     rd_bind (rd_exact (pad_of len)) (\<lambda>_. rd_return v)))"

fun u32s_serialize :: "u32 list \<Rightarrow> ser" where
  "u32s_serialize [] dest = Inr dest"
| "u32s_serialize (i # v) dest = r_bind (u32_serialize i dest) (u32s_serialize v)"

fun u32s_deserialize :: "nat \<Rightarrow> u32 list rd" where
  "u32s_deserialize 0 = rd_return []"
| "u32s_deserialize (Suc n) =
     rd_bind u32_deserialize (\<lambda>i. rd_bind (u32s_deserialize n) (\<lambda>v. rd_return (i # v)))"

definition vec_u32_serialize :: "u32 list \<Rightarrow> ser" where
  "vec_u32_serialize v dest =
     (if length v < u32_max
      then r_bind (u32_serialize (of_nat (length v)) dest) (u32s_serialize v)
      else Inl Panicked)"

definition vec_u32_deserialize :: "u32 list rd" where
  "vec_u32_deserialize = rd_bind u32_deserialize (\<lambda>len. u32s_deserialize (unat len))"

section \<open>The macros\<close>

text \<open>
  \<open>xdr_enum_serde\<close>: \<open>to_u32\<close> is the cast of a variant to its discriminant, and \<open>FromPrimitive::from_u32\<close>
  finds the variant with a given discriminant among the variants of the enumeration.
\<close>

definition from_u32 :: "('a \<Rightarrow> u32) \<Rightarrow> 'a list \<Rightarrow> u32 \<Rightarrow> 'a option" where
  "from_u32 to_u32 variants v = List.find (\<lambda>x. to_u32 x = v) variants"

definition enum_serialize :: "('a \<Rightarrow> u32) \<Rightarrow> 'a \<Rightarrow> ser" where
  "enum_serialize to_u32 x = u32_serialize (to_u32 x)"

definition enum_deserialize :: "('a \<Rightarrow> u32) \<Rightarrow> 'a list \<Rightarrow> 'a rd" where
  "enum_deserialize to_u32 variants =
     rd_bind u32_deserialize (\<lambda>r.
     case from_u32 to_u32 variants r of
       Some p \<Rightarrow> rd_return p
     | None \<Rightarrow> rd_fail (LegacyIo InvalidData))"

text \<open>\<open>xdr_struct\<close>: the fields one after the other, up to the first failure.\<close>

fun xdr_struct :: "ser list \<Rightarrow> ser" where
  "xdr_struct [] dest = Inr dest"
| "xdr_struct (f # fs) dest = r_bind (f dest) (xdr_struct fs)"

text \<open>
  \<open>xdr_bool_union\<close>: a type with the two cases \<open>Void\<close> and one that carries a value is an option.
\<close>

definition bool_union_serialize :: "('a \<Rightarrow> ser) \<Rightarrow> 'a option \<Rightarrow> ser" where
  "bool_union_serialize serialize u =
     (case u of
        None \<Rightarrow> bool_serialize False
      | Some v \<Rightarrow> xdr_struct [bool_serialize True, serialize v])"

definition bool_union_deserialize :: "'a rd \<Rightarrow> 'a option rd" where
  "bool_union_deserialize deserialize =
     rd_bind bool_deserialize (\<lambda>c.
     if c = False then rd_return None else rd_bind deserialize (\<lambda>r. rd_return (Some r)))"

section \<open>The types of \<^verbatim>\<open>src/nfs.rs\<close>\<close>

type_synonym nfsstring = bytes
type_synonym filename3 = nfsstring
type_synonym nfspath3 = nfsstring
type_synonym fileid3 = u64

datatype nfsstat3 =
    NFS3_OK
  | NFS3ERR_PERM
  | NFS3ERR_NOENT
  | NFS3ERR_IO
  | NFS3ERR_NXIO
  | NFS3ERR_ACCES
  | NFS3ERR_EXIST
  | NFS3ERR_XDEV
  | NFS3ERR_NODEV
  | NFS3ERR_NOTDIR
  | NFS3ERR_ISDIR
  | NFS3ERR_INVAL
  | NFS3ERR_FBIG
  | NFS3ERR_NOSPC
  | NFS3ERR_ROFS
  | NFS3ERR_MLINK
  | NFS3ERR_NAMETOOLONG
  | NFS3ERR_NOTEMPTY
  | NFS3ERR_DQUOT
  | NFS3ERR_STALE
  | NFS3ERR_REMOTE
  | NFS3ERR_BADHANDLE
  | NFS3ERR_NOT_SYNC
  | NFS3ERR_BAD_COOKIE
  | NFS3ERR_NOTSUPP
  | NFS3ERR_TOOSMALL
  | NFS3ERR_SERVERFAULT
  | NFS3ERR_BADTYPE
  | NFS3ERR_JUKEBOX

fun nfsstat3_code :: "nfsstat3 \<Rightarrow> u32" where
  "nfsstat3_code NFS3_OK = 0"
| "nfsstat3_code NFS3ERR_PERM = 1"
| "nfsstat3_code NFS3ERR_NOENT = 2"
| "nfsstat3_code NFS3ERR_IO = 5"
| "nfsstat3_code NFS3ERR_NXIO = 6"
| "nfsstat3_code NFS3ERR_ACCES = 13"
| "nfsstat3_code NFS3ERR_EXIST = 17"
| "nfsstat3_code NFS3ERR_XDEV = 18"
| "nfsstat3_code NFS3ERR_NODEV = 19"
| "nfsstat3_code NFS3ERR_NOTDIR = 20"
| "nfsstat3_code NFS3ERR_ISDIR = 21"
| "nfsstat3_code NFS3ERR_INVAL = 22"
| "nfsstat3_code NFS3ERR_FBIG = 27"
| "nfsstat3_code NFS3ERR_NOSPC = 28"
| "nfsstat3_code NFS3ERR_ROFS = 30"
| "nfsstat3_code NFS3ERR_MLINK = 31"
| "nfsstat3_code NFS3ERR_NAMETOOLONG = 63"
| "nfsstat3_code NFS3ERR_NOTEMPTY = 66"
| "nfsstat3_code NFS3ERR_DQUOT = 69"
| "nfsstat3_code NFS3ERR_STALE = 70"
| "nfsstat3_code NFS3ERR_REMOTE = 71"
| "nfsstat3_code NFS3ERR_BADHANDLE = 10001"
| "nfsstat3_code NFS3ERR_NOT_SYNC = 10002"
| "nfsstat3_code NFS3ERR_BAD_COOKIE = 10003"
| "nfsstat3_code NFS3ERR_NOTSUPP = 10004"
| "nfsstat3_code NFS3ERR_TOOSMALL = 10005"
| "nfsstat3_code NFS3ERR_SERVERFAULT = 10006"
| "nfsstat3_code NFS3ERR_BADTYPE = 10007"
| "nfsstat3_code NFS3ERR_JUKEBOX = 10008"

definition nfsstat3_variants :: "nfsstat3 list" where
  "nfsstat3_variants =
     [NFS3_OK, NFS3ERR_PERM, NFS3ERR_NOENT, NFS3ERR_IO, NFS3ERR_NXIO, NFS3ERR_ACCES,
      NFS3ERR_EXIST, NFS3ERR_XDEV, NFS3ERR_NODEV, NFS3ERR_NOTDIR, NFS3ERR_ISDIR,
      NFS3ERR_INVAL, NFS3ERR_FBIG, NFS3ERR_NOSPC, NFS3ERR_ROFS, NFS3ERR_MLINK,
      NFS3ERR_NAMETOOLONG, NFS3ERR_NOTEMPTY, NFS3ERR_DQUOT, NFS3ERR_STALE, NFS3ERR_REMOTE,
      NFS3ERR_BADHANDLE, NFS3ERR_NOT_SYNC, NFS3ERR_BAD_COOKIE, NFS3ERR_NOTSUPP,
      NFS3ERR_TOOSMALL, NFS3ERR_SERVERFAULT, NFS3ERR_BADTYPE, NFS3ERR_JUKEBOX]"

definition nfsstat3_serialize :: "nfsstat3 \<Rightarrow> ser" where
  "nfsstat3_serialize = enum_serialize nfsstat3_code"

definition nfsstat3_deserialize :: "nfsstat3 rd" where
  "nfsstat3_deserialize = enum_deserialize nfsstat3_code nfsstat3_variants"

datatype ftype3 = NF3REG | NF3DIR | NF3BLK | NF3CHR | NF3LNK | NF3SOCK | NF3FIFO

fun ftype3_code :: "ftype3 \<Rightarrow> u32" where
  "ftype3_code NF3REG = 1"
| "ftype3_code NF3DIR = 2"
| "ftype3_code NF3BLK = 3"
| "ftype3_code NF3CHR = 4"
| "ftype3_code NF3LNK = 5"
| "ftype3_code NF3SOCK = 6"
| "ftype3_code NF3FIFO = 7"

definition ftype3_variants :: "ftype3 list" where
  "ftype3_variants = [NF3REG, NF3DIR, NF3BLK, NF3CHR, NF3LNK, NF3SOCK, NF3FIFO]"

definition ftype3_serialize :: "ftype3 \<Rightarrow> ser" where
  "ftype3_serialize = enum_serialize ftype3_code"

definition ftype3_deserialize :: "ftype3 rd" where
  "ftype3_deserialize = enum_deserialize ftype3_code ftype3_variants"

record specdata3 =
  specdata1 :: u32
  specdata2 :: u32

definition specdata3_serialize :: "specdata3 \<Rightarrow> ser" where
  "specdata3_serialize s = xdr_struct [u32_serialize (specdata1 s), u32_serialize (specdata2 s)]"

definition specdata3_deserialize :: "specdata3 rd" where
  "specdata3_deserialize =
     rd_bind u32_deserialize (\<lambda>a.
     rd_bind u32_deserialize (\<lambda>b.
     rd_return \<lparr>specdata1 = a, specdata2 = b\<rparr>))"

record nfs_fh3 =
  fh_data :: bytes

definition nfs_fh3_serialize :: "nfs_fh3 \<Rightarrow> ser" where
  "nfs_fh3_serialize h = xdr_struct [vec_u8_serialize (fh_data h)]"

definition nfs_fh3_deserialize :: "nfs_fh3 rd" where
  "nfs_fh3_deserialize = rd_bind vec_u8_deserialize (\<lambda>d. rd_return \<lparr>fh_data = d\<rparr>)"

record nfstime3 =
  t3_seconds :: u32
  t3_nseconds :: u32

definition nfstime3_serialize :: "nfstime3 \<Rightarrow> ser" where
  "nfstime3_serialize t = xdr_struct [u32_serialize (t3_seconds t), u32_serialize (t3_nseconds t)]"

definition nfstime3_deserialize :: "nfstime3 rd" where
  "nfstime3_deserialize =
     rd_bind u32_deserialize (\<lambda>s.
     rd_bind u32_deserialize (\<lambda>n.
     rd_return \<lparr>t3_seconds = s, t3_nseconds = n\<rparr>))"

record fattr3 =
  f3_ftype :: ftype3
  f3_mode :: u32
  f3_nlink :: u32
  f3_uid :: u32
  f3_gid :: u32
  f3_size :: u64
  f3_used :: u64
  f3_rdev :: specdata3
  f3_fsid :: u64
  f3_fileid :: u64
  f3_atime :: nfstime3
  f3_mtime :: nfstime3
  f3_ctime :: nfstime3

definition fattr3_serialize :: "fattr3 \<Rightarrow> ser" where
  "fattr3_serialize a = xdr_struct
     [ftype3_serialize (f3_ftype a), u32_serialize (f3_mode a), u32_serialize (f3_nlink a),
      u32_serialize (f3_uid a), u32_serialize (f3_gid a), u64_serialize (f3_size a),
      u64_serialize (f3_used a), specdata3_serialize (f3_rdev a), u64_serialize (f3_fsid a),
      u64_serialize (f3_fileid a), nfstime3_serialize (f3_atime a), nfstime3_serialize (f3_mtime a),
      nfstime3_serialize (f3_ctime a)]"

definition fattr3_deserialize :: "fattr3 rd" where
  "fattr3_deserialize =
     rd_bind ftype3_deserialize (\<lambda>ftype.
     rd_bind u32_deserialize (\<lambda>mode.
     rd_bind u32_deserialize (\<lambda>nlink.
     rd_bind u32_deserialize (\<lambda>uid.
     rd_bind u32_deserialize (\<lambda>gid.
     rd_bind u64_deserialize (\<lambda>size.
     rd_bind u64_deserialize (\<lambda>used.
     rd_bind specdata3_deserialize (\<lambda>rdev.
     rd_bind u64_deserialize (\<lambda>fsid.
     rd_bind u64_deserialize (\<lambda>fileid.
     rd_bind nfstime3_deserialize (\<lambda>atime.
     rd_bind nfstime3_deserialize (\<lambda>mtime.
     rd_bind nfstime3_deserialize (\<lambda>ctime.
     rd_return \<lparr>f3_ftype = ftype, f3_mode = mode, f3_nlink = nlink, f3_uid = uid, f3_gid = gid,
       f3_size = size, f3_used = used, f3_rdev = rdev, f3_fsid = fsid, f3_fileid = fileid,
       f3_atime = atime, f3_mtime = mtime, f3_ctime = ctime\<rparr>)))))))))))))"

type_synonym post_op_attr = "fattr3 option"

definition post_op_attr_serialize :: "post_op_attr \<Rightarrow> ser" where
  "post_op_attr_serialize = bool_union_serialize fattr3_serialize"

definition post_op_attr_deserialize :: "post_op_attr rd" where
  "post_op_attr_deserialize = bool_union_deserialize fattr3_deserialize"

definition FSF_LINK :: u32 where "FSF_LINK = 0x0001"
definition FSF_SYMLINK :: u32 where "FSF_SYMLINK = 0x0002"
definition FSF_HOMOGENEOUS :: u32 where "FSF_HOMOGENEOUS = 0x0008"
definition FSF_CANSETTIME :: u32 where "FSF_CANSETTIME = 0x0010"

record fsinfo3 =
  i3_obj_attributes :: post_op_attr
  i3_rtmax :: u32
  i3_rtpref :: u32
  i3_rtmult :: u32
  i3_wtmax :: u32
  i3_wtpref :: u32
  i3_wtmult :: u32
  i3_dtpref :: u32
  i3_maxfilesize :: u64
  i3_time_delta :: nfstime3
  i3_properties :: u32

definition fsinfo3_serialize :: "fsinfo3 \<Rightarrow> ser" where
  "fsinfo3_serialize i = xdr_struct
     [post_op_attr_serialize (i3_obj_attributes i), u32_serialize (i3_rtmax i),
      u32_serialize (i3_rtpref i), u32_serialize (i3_rtmult i), u32_serialize (i3_wtmax i),
      u32_serialize (i3_wtpref i), u32_serialize (i3_wtmult i), u32_serialize (i3_dtpref i),
      u64_serialize (i3_maxfilesize i), nfstime3_serialize (i3_time_delta i),
      u32_serialize (i3_properties i)]"

definition fsinfo3_deserialize :: "fsinfo3 rd" where
  "fsinfo3_deserialize =
     rd_bind post_op_attr_deserialize (\<lambda>obj.
     rd_bind u32_deserialize (\<lambda>rtmax.
     rd_bind u32_deserialize (\<lambda>rtpref.
     rd_bind u32_deserialize (\<lambda>rtmult.
     rd_bind u32_deserialize (\<lambda>wtmax.
     rd_bind u32_deserialize (\<lambda>wtpref.
     rd_bind u32_deserialize (\<lambda>wtmult.
     rd_bind u32_deserialize (\<lambda>dtpref.
     rd_bind u64_deserialize (\<lambda>maxfilesize.
     rd_bind nfstime3_deserialize (\<lambda>time_delta.
     rd_bind u32_deserialize (\<lambda>properties.
     rd_return \<lparr>i3_obj_attributes = obj, i3_rtmax = rtmax, i3_rtpref = rtpref, i3_rtmult = rtmult,
       i3_wtmax = wtmax, i3_wtpref = wtpref, i3_wtmult = wtmult, i3_dtpref = dtpref,
       i3_maxfilesize = maxfilesize, i3_time_delta = time_delta,
       i3_properties = properties\<rparr>)))))))))))"

record wcc_attr =
  w3_size :: u64
  w3_mtime :: nfstime3
  w3_ctime :: nfstime3

definition wcc_attr_serialize :: "wcc_attr \<Rightarrow> ser" where
  "wcc_attr_serialize w = xdr_struct
     [u64_serialize (w3_size w), nfstime3_serialize (w3_mtime w), nfstime3_serialize (w3_ctime w)]"

definition wcc_attr_deserialize :: "wcc_attr rd" where
  "wcc_attr_deserialize =
     rd_bind u64_deserialize (\<lambda>size.
     rd_bind nfstime3_deserialize (\<lambda>mtime.
     rd_bind nfstime3_deserialize (\<lambda>ctime.
     rd_return \<lparr>w3_size = size, w3_mtime = mtime, w3_ctime = ctime\<rparr>)))"

type_synonym pre_op_attr = "wcc_attr option"

definition pre_op_attr_serialize :: "pre_op_attr \<Rightarrow> ser" where
  "pre_op_attr_serialize = bool_union_serialize wcc_attr_serialize"

definition pre_op_attr_deserialize :: "pre_op_attr rd" where
  "pre_op_attr_deserialize = bool_union_deserialize wcc_attr_deserialize"

record wcc_data =
  wd_before :: pre_op_attr
  wd_after :: post_op_attr

definition wcc_data_default3 :: wcc_data where
  "wcc_data_default3 = \<lparr>wd_before = None, wd_after = None\<rparr>"

definition wcc_data_serialize :: "wcc_data \<Rightarrow> ser" where
  "wcc_data_serialize w =
     xdr_struct [pre_op_attr_serialize (wd_before w), post_op_attr_serialize (wd_after w)]"

definition wcc_data_deserialize :: "wcc_data rd" where
  "wcc_data_deserialize =
     rd_bind pre_op_attr_deserialize (\<lambda>before.
     rd_bind post_op_attr_deserialize (\<lambda>after.
     rd_return \<lparr>wd_before = before, wd_after = after\<rparr>))"

type_synonym post_op_fh3 = "nfs_fh3 option"

definition post_op_fh3_serialize :: "post_op_fh3 \<Rightarrow> ser" where
  "post_op_fh3_serialize = bool_union_serialize nfs_fh3_serialize"

definition post_op_fh3_deserialize :: "post_op_fh3 rd" where
  "post_op_fh3_deserialize = bool_union_deserialize nfs_fh3_deserialize"

text \<open>The four unions \<open>set_mode3\<close>, \<open>set_uid3\<close>, \<open>set_gid3\<close> and \<open>set_size3\<close> are options of words.\<close>

definition set_u32_serialize :: "u32 option \<Rightarrow> ser" where
  "set_u32_serialize = bool_union_serialize u32_serialize"

definition set_u32_deserialize :: "u32 option rd" where
  "set_u32_deserialize = bool_union_deserialize u32_deserialize"

definition set_size3_serialize :: "u64 option \<Rightarrow> ser" where
  "set_size3_serialize = bool_union_serialize u64_serialize"

definition set_size3_deserialize :: "u64 option rd" where
  "set_size3_deserialize = bool_union_deserialize u64_deserialize"

text \<open>\<open>set_atime\<close> and \<open>set_mtime\<close> have the same cases and the same code.\<close>

datatype set_time3 = DONT_CHANGE | SET_TO_SERVER_TIME | SET_TO_CLIENT_TIME nfstime3

definition set_atime_serialize :: "set_time3 \<Rightarrow> ser" where
  "set_atime_serialize s =
     (case s of
        DONT_CHANGE \<Rightarrow> u32_serialize 0
      | SET_TO_SERVER_TIME \<Rightarrow> u32_serialize 1
      | SET_TO_CLIENT_TIME v \<Rightarrow> xdr_struct [u32_serialize 2, nfstime3_serialize v])"

definition set_atime_deserialize :: "set_time3 rd" where
  "set_atime_deserialize =
     rd_bind u32_deserialize (\<lambda>c.
     if c = 0 then rd_return DONT_CHANGE
     else if c = 1 then rd_return SET_TO_SERVER_TIME
     else if c = 2 then rd_bind nfstime3_deserialize (\<lambda>r. rd_return (SET_TO_CLIENT_TIME r))
     else rd_fail (LegacyIo InvalidData))"

definition set_mtime_serialize :: "set_time3 \<Rightarrow> ser" where
  "set_mtime_serialize s =
     (case s of
        DONT_CHANGE \<Rightarrow> u32_serialize 0
      | SET_TO_SERVER_TIME \<Rightarrow> u32_serialize 1
      | SET_TO_CLIENT_TIME v \<Rightarrow> xdr_struct [u32_serialize 2, nfstime3_serialize v])"

definition set_mtime_deserialize :: "set_time3 rd" where
  "set_mtime_deserialize =
     rd_bind u32_deserialize (\<lambda>c.
     if c = 0 then rd_return DONT_CHANGE
     else if c = 1 then rd_return SET_TO_SERVER_TIME
     else if c = 2 then rd_bind nfstime3_deserialize (\<lambda>r. rd_return (SET_TO_CLIENT_TIME r))
     else rd_fail (LegacyIo InvalidData))"

record sattr3 =
  s3_mode :: "u32 option"
  s3_uid :: "u32 option"
  s3_gid :: "u32 option"
  s3_size :: "u64 option"
  s3_atime :: set_time3
  s3_mtime :: set_time3

definition sattr3_default :: sattr3 where
  "sattr3_default = \<lparr>s3_mode = None, s3_uid = None, s3_gid = None, s3_size = None,
     s3_atime = DONT_CHANGE, s3_mtime = DONT_CHANGE\<rparr>"

definition sattr3_serialize :: "sattr3 \<Rightarrow> ser" where
  "sattr3_serialize s = xdr_struct
     [set_u32_serialize (s3_mode s), set_u32_serialize (s3_uid s), set_u32_serialize (s3_gid s),
      set_size3_serialize (s3_size s), set_atime_serialize (s3_atime s), set_mtime_serialize (s3_mtime s)]"

definition sattr3_deserialize :: "sattr3 rd" where
  "sattr3_deserialize =
     rd_bind set_u32_deserialize (\<lambda>mode.
     rd_bind set_u32_deserialize (\<lambda>uid.
     rd_bind set_u32_deserialize (\<lambda>gid.
     rd_bind set_size3_deserialize (\<lambda>size.
     rd_bind set_atime_deserialize (\<lambda>atime.
     rd_bind set_mtime_deserialize (\<lambda>mtime.
     rd_return \<lparr>s3_mode = mode, s3_uid = uid, s3_gid = gid, s3_size = size,
       s3_atime = atime, s3_mtime = mtime\<rparr>))))))"

record diropargs3 =
  do_dir :: nfs_fh3
  do_name :: filename3

definition diropargs3_serialize :: "diropargs3 \<Rightarrow> ser" where
  "diropargs3_serialize a = xdr_struct [nfs_fh3_serialize (do_dir a), vec_u8_serialize (do_name a)]"

definition diropargs3_deserialize :: "diropargs3 rd" where
  "diropargs3_deserialize =
     rd_bind nfs_fh3_deserialize (\<lambda>dir.
     rd_bind vec_u8_deserialize (\<lambda>name.
     rd_return \<lparr>do_dir = dir, do_name = name\<rparr>))"

record symlinkdata3 =
  sl_attributes :: sattr3
  sl_data :: nfspath3

definition symlinkdata3_serialize :: "symlinkdata3 \<Rightarrow> ser" where
  "symlinkdata3_serialize a =
     xdr_struct [sattr3_serialize (sl_attributes a), vec_u8_serialize (sl_data a)]"

definition symlinkdata3_deserialize :: "symlinkdata3 rd" where
  "symlinkdata3_deserialize =
     rd_bind sattr3_deserialize (\<lambda>attributes.
     rd_bind vec_u8_deserialize (\<lambda>data.
     rd_return \<lparr>sl_attributes = attributes, sl_data = data\<rparr>))"

section \<open>Wire forms\<close>

definition optional_wire :: "('a \<Rightarrow> bytes) \<Rightarrow> 'a option \<Rightarrow> bytes" where
  "optional_wire wire u = (case u of None \<Rightarrow> bool_bytes False | Some v \<Rightarrow> bool_bytes True @ wire v)"

definition specdata3_wire :: "specdata3 \<Rightarrow> bytes" where
  "specdata3_wire s = be32 (specdata1 s) @ be32 (specdata2 s)"

definition nfstime3_wire :: "nfstime3 \<Rightarrow> bytes" where
  "nfstime3_wire t = be32 (t3_seconds t) @ be32 (t3_nseconds t)"

definition fattr3_wire :: "fattr3 \<Rightarrow> bytes" where
  "fattr3_wire a = be32 (ftype3_code (f3_ftype a)) @ be32 (f3_mode a) @ be32 (f3_nlink a) @
     be32 (f3_uid a) @ be32 (f3_gid a) @ be64 (f3_size a) @ be64 (f3_used a) @
     specdata3_wire (f3_rdev a) @ be64 (f3_fsid a) @ be64 (f3_fileid a) @
     nfstime3_wire (f3_atime a) @ nfstime3_wire (f3_mtime a) @ nfstime3_wire (f3_ctime a)"

definition fsinfo3_wire :: "fsinfo3 \<Rightarrow> bytes" where
  "fsinfo3_wire i = optional_wire fattr3_wire (i3_obj_attributes i) @ be32 (i3_rtmax i) @
     be32 (i3_rtpref i) @ be32 (i3_rtmult i) @ be32 (i3_wtmax i) @ be32 (i3_wtpref i) @
     be32 (i3_wtmult i) @ be32 (i3_dtpref i) @ be64 (i3_maxfilesize i) @
     nfstime3_wire (i3_time_delta i) @ be32 (i3_properties i)"

definition wcc_attr_wire :: "wcc_attr \<Rightarrow> bytes" where
  "wcc_attr_wire w = be64 (w3_size w) @ nfstime3_wire (w3_mtime w) @ nfstime3_wire (w3_ctime w)"

definition wcc_data_wire :: "wcc_data \<Rightarrow> bytes" where
  "wcc_data_wire w = optional_wire wcc_attr_wire (wd_before w) @ optional_wire fattr3_wire (wd_after w)"

definition nfs_fh3_wire :: "nfs_fh3 \<Rightarrow> bytes" where
  "nfs_fh3_wire h = opaque_bytes (fh_data h)"

definition nfs_fh3_ok :: "nfs_fh3 \<Rightarrow> bool" where
  "nfs_fh3_ok h \<longleftrightarrow> length (fh_data h) < u32_max"

definition set_time3_wire :: "set_time3 \<Rightarrow> bytes" where
  "set_time3_wire s =
     (case s of
        DONT_CHANGE \<Rightarrow> be32 0
      | SET_TO_SERVER_TIME \<Rightarrow> be32 1
      | SET_TO_CLIENT_TIME v \<Rightarrow> be32 2 @ nfstime3_wire v)"

definition sattr3_wire :: "sattr3 \<Rightarrow> bytes" where
  "sattr3_wire s = optional_wire be32 (s3_mode s) @ optional_wire be32 (s3_uid s) @
     optional_wire be32 (s3_gid s) @ optional_wire be64 (s3_size s) @
     set_time3_wire (s3_atime s) @ set_time3_wire (s3_mtime s)"

definition diropargs3_wire :: "diropargs3 \<Rightarrow> bytes" where
  "diropargs3_wire a = nfs_fh3_wire (do_dir a) @ opaque_bytes (do_name a)"

definition diropargs3_ok :: "diropargs3 \<Rightarrow> bool" where
  "diropargs3_ok a \<longleftrightarrow> nfs_fh3_ok (do_dir a) \<and> length (do_name a) < u32_max"

definition symlinkdata3_wire :: "symlinkdata3 \<Rightarrow> bytes" where
  "symlinkdata3_wire a = sattr3_wire (sl_attributes a) @ opaque_bytes (sl_data a)"

text \<open>A serialiser that appends a given byte string, whatever was written before.\<close>

definition writes :: "ser \<Rightarrow> bytes \<Rightarrow> bool" where
  "writes f w \<longleftrightarrow> (\<forall>dest. f dest = Inr (dest @ w))"

section \<open>Lemmas on readers\<close>

named_theorems legacy_simps \<open>reading a wire form\<close>
named_theorems writes_intros \<open>writing a wire form\<close>

lemma rd_return_Inr [simp]: "rd_return a src = Inr (a, src)"
  by (simp add: rd_return_def)

lemma rd_fail_Inl [simp]: "rd_fail e src = Inl e"
  by (simp add: rd_fail_def)

lemma rd_bind_reads: "m src = Inr (a, rest) \<Longrightarrow> rd_bind m k src = k a rest"
  by (simp add: rd_bind_def)

lemma rd_exact_append: "length v = n \<Longrightarrow> rd_exact n (v @ rest) = Inr (v, rest)"
  by (auto simp: rd_exact_def)

lemma u32_deserialize_wire [legacy_simps]: "u32_deserialize (be32 v @ rest) = Inr (v, rest)"
  by (simp add: u32_deserialize_def rd_bind_def rd_exact_append)

lemma u64_deserialize_wire [legacy_simps]: "u64_deserialize (be64 v @ rest) = Inr (v, rest)"
  by (simp add: u64_deserialize_def rd_bind_def rd_exact_append)

lemma bool_deserialize_wire [legacy_simps]: "bool_deserialize (bool_bytes b @ rest) = Inr (b, rest)"
  by (simp add: bool_deserialize_def bool_bytes_def rd_bind_def legacy_simps word_gt_0)

lemma unat_of_length: "n < u32_max \<Longrightarrow> unat (of_nat n :: u32) = n"
  by (simp add: unat_of_nat)

lemma pad_of_length: "n < u32_max \<Longrightarrow> pad_of (of_nat n) = xdr_padding n"
proof -
  assume n: "n < u32_max"
  have "unat (of_nat n mod 4 :: u32) = n mod 4"
    using n by (simp add: unat_mod unat_of_nat)
  moreover have "(4 :: u32) - w = of_nat (4 - unat w)" if "unat w < 4" for w :: u32
    using that by (simp add: of_nat_diff)
  ultimately have "(4 - of_nat n mod 4 :: u32) = of_nat (4 - n mod 4)"
    by (metis mod_less_divisor zero_less_numeral)
  then have "unat (4 - of_nat n mod 4 :: u32) = unat (of_nat (4 - n mod 4) :: u32)"
    by (rule arg_cong)
  also have "\<dots> = 4 - n mod 4"
    by (rule unat_of_length) simp
  finally have "unat (4 - of_nat n mod 4 :: u32) = 4 - n mod 4" .
  then show ?thesis
    by (simp add: pad_of_def xdr_padding_def unat_mod)
qed

lemma vec_u8_deserialize_wire [legacy_simps]:
  "length v < u32_max \<Longrightarrow> vec_u8_deserialize (opaque_bytes v @ rest) = Inr (v, rest)"
  by (simp add: vec_u8_deserialize_def opaque_bytes_def rd_bind_def u32_deserialize_wire
      rd_exact_append pad_of_length unat_of_length)

lemma u32s_deserialize_wire:
  "u32s_deserialize (length v) (concat (map be32 v) @ rest) = Inr (v, rest)"
  by (induction v) (simp_all add: rd_bind_def u32_deserialize_wire)

lemma vec_u32_deserialize_wire [legacy_simps]:
  "length v < u32_max \<Longrightarrow> vec_u32_deserialize (array_bytes be32 v @ rest) = Inr (v, rest)"
  by (simp add: vec_u32_deserialize_def array_bytes_def rd_bind_def u32_deserialize_wire
      u32s_deserialize_wire unat_of_length)

section \<open>Lemmas on writers\<close>

lemma writesD: "writes f w \<Longrightarrow> f dest = Inr (dest @ w)"
  by (simp add: writes_def)

lemma xdr_struct_empty: "writes (xdr_struct []) []"
  by (simp add: writes_def)

lemma xdr_struct_last [writes_intros]: "writes f w \<Longrightarrow> writes (xdr_struct [f]) w"
  by (simp add: writes_def)

lemma xdr_struct_Cons [writes_intros]:
  "writes f w \<Longrightarrow> writes (xdr_struct (g # fs)) ws \<Longrightarrow> writes (xdr_struct (f # g # fs)) (w @ ws)"
  unfolding writes_def by (simp only: xdr_struct.simps(2) [of f] r_bind.simps append_assoc simp_thms)

lemma xdr_struct_append:
  "writes (xdr_struct fs) v \<Longrightarrow> writes (xdr_struct gs) w \<Longrightarrow> writes (xdr_struct (fs @ gs)) (v @ w)"
proof -
  have "xdr_struct (fs @ gs) dest = r_bind (xdr_struct fs dest) (xdr_struct gs)" for dest
  proof (induction fs arbitrary: dest)
    case (Cons f fs)
    then show ?case by (cases "f dest") simp_all
  qed simp
  then show "writes (xdr_struct fs) v \<Longrightarrow> writes (xdr_struct gs) w \<Longrightarrow> ?thesis"
    by (simp add: writes_def)
qed

declare xdr_struct.simps(2) [simp del]

lemma u32_serialize_wire [writes_intros]: "writes (u32_serialize v) (be32 v)"
  by (simp add: writes_def u32_serialize_def write_all_def)

lemma u64_serialize_wire [writes_intros]: "writes (u64_serialize v) (be64 v)"
  by (simp add: writes_def u64_serialize_def write_all_def)

lemma array_u8_serialize_wire [writes_intros]: "writes (array_u8_serialize v) v"
  by (simp add: writes_def array_u8_serialize_def write_all_def)

lemma bool_serialize_wire [writes_intros]: "writes (bool_serialize b) (bool_bytes b)"
  unfolding bool_serialize_def bool_bytes_def by (rule u32_serialize_wire)

lemma vec_u8_serialize_wire [writes_intros]:
  "length v < u32_max \<Longrightarrow> writes (vec_u8_serialize v) (opaque_bytes v)"
proof -
  assume v: "length v < u32_max"
  have "take p [0, 0, 0, 0] = replicate p (0 :: u8)" if "p < 4" for p
    using that by (auto simp: less_Suc_eq numeral_eq_Suc)
  with v xdr_padding_less show ?thesis
    by (auto simp: writes_def vec_u8_serialize_def opaque_bytes_def Let_def write_all_def
        writesD [OF u32_serialize_wire] pad_of_length)
qed

lemma u32s_serialize_wire: "writes (u32s_serialize v) (concat (map be32 v))"
proof (induction v)
  case (Cons i v)
  then show ?case by (simp add: writes_def writesD [OF u32_serialize_wire])
qed (simp add: writes_def)

lemma vec_u32_serialize_wire [writes_intros]:
  "length v < u32_max \<Longrightarrow> writes (vec_u32_serialize v) (array_bytes be32 v)"
  using u32s_serialize_wire [of v]
  by (simp add: writes_def vec_u32_serialize_def array_bytes_def writesD [OF u32_serialize_wire])

section \<open>The interface of a type\<close>

locale legacy_xdr =
  fixes ser :: "'a \<Rightarrow> ser" and de :: "'a rd" and wire :: "'a \<Rightarrow> bytes" and ok :: "'a \<Rightarrow> bool"
  assumes ser_wire: "ok x \<Longrightarrow> writes (ser x) (wire x)"
    and de_wire: "ok x \<Longrightarrow> de (wire x @ rest) = Inr (x, rest)"
begin

lemma round_trip: "ok x \<Longrightarrow> \<exists>out. ser x dest = Inr (dest @ out) \<and> de (out @ rest) = Inr (x, rest)"
  by (rule exI [of _ "wire x"]) (simp add: writesD [OF ser_wire] de_wire)

lemma wire_unique:
  assumes "ok x" and "ok y" and "wire x @ xs = wire y @ ys"
  shows "x = y \<and> xs = ys"
proof -
  have "Inr (x, xs) = de (wire x @ xs)" using assms(1) by (rule de_wire [symmetric])
  also have "\<dots> = Inr (y, ys)" unfolding assms(3) using assms(2) by (rule de_wire)
  finally show ?thesis by simp
qed

lemma union_ser: "pred_option ok u \<Longrightarrow> writes (bool_union_serialize ser u) (optional_wire wire u)"
  unfolding bool_union_serialize_def optional_wire_def
  by (cases u; simp; intro writes_intros ser_wire)

lemma union_de:
  "pred_option ok u \<Longrightarrow> bool_union_deserialize de (optional_wire wire u @ rest) = Inr (u, rest)"
  by (cases u) (simp_all add: bool_union_deserialize_def optional_wire_def rd_bind_def
      bool_deserialize_wire de_wire)

end

text \<open>A union with \<open>Void\<close> of a type that has the interface has it again.\<close>

locale legacy_union = legacy_xdr

sublocale legacy_union \<subseteq> union: legacy_xdr "bool_union_serialize ser" "bool_union_deserialize de"
  "optional_wire wire" "pred_option ok"
  by unfold_locales (simp_all add: union_ser union_de)

locale xdr_enum =
  fixes to_u32 :: "'a \<Rightarrow> u32" and variants :: "'a list"
  assumes variants: "from_u32 to_u32 variants (to_u32 x) = Some x"
begin

lemma enum_de: "enum_deserialize to_u32 variants (be32 (to_u32 x) @ rest) = Inr (x, rest)"
  by (simp add: enum_deserialize_def rd_bind_def u32_deserialize_wire variants)

lemma enum_ser: "writes (enum_serialize to_u32 x) (be32 (to_u32 x))"
  unfolding enum_serialize_def by (rule u32_serialize_wire)

lemma enum_accepts:
  "enum_deserialize to_u32 variants (be32 v @ rest) = Inr (x, rest) \<longleftrightarrow> to_u32 x = v"
proof -
  have "from_u32 to_u32 variants v = Some x \<longleftrightarrow> to_u32 x = v"
    using variants [of x] by (auto simp: from_u32_def find_Some_iff)
  then show ?thesis
    by (auto simp: enum_deserialize_def rd_bind_def u32_deserialize_wire split: option.splits)
qed

end

sublocale xdr_enum \<subseteq> legacy_xdr "enum_serialize to_u32" "enum_deserialize to_u32 variants"
  "\<lambda>x. be32 (to_u32 x)" "\<lambda>_. True"
  by unfold_locales (simp_all add: enum_ser enum_de)

section \<open>The types have the interface\<close>

interpretation x_u32: legacy_union u32_serialize u32_deserialize be32 "\<lambda>_. True"
  by unfold_locales (simp_all add: rd_bind_def legacy_simps u32_serialize_wire)

interpretation x_u64: legacy_union u64_serialize u64_deserialize be64 "\<lambda>_. True"
  by unfold_locales (simp_all add: rd_bind_def legacy_simps u64_serialize_wire)

interpretation x_vec: legacy_xdr vec_u8_serialize vec_u8_deserialize opaque_bytes "\<lambda>v. length v < u32_max"
  by unfold_locales (simp_all add: rd_bind_def legacy_simps vec_u8_serialize_wire)

interpretation x_u32s: legacy_xdr vec_u32_serialize vec_u32_deserialize "array_bytes be32"
  "\<lambda>v. length v < u32_max"
  by unfold_locales (simp_all add: rd_bind_def legacy_simps vec_u32_serialize_wire)

interpretation e_nfsstat3: xdr_enum nfsstat3_code nfsstat3_variants
proof
  show "from_u32 nfsstat3_code nfsstat3_variants (nfsstat3_code x) = Some x" for x
    by (cases x) (simp_all add: from_u32_def nfsstat3_variants_def)
qed

interpretation e_ftype3: xdr_enum ftype3_code ftype3_variants
proof
  show "from_u32 ftype3_code ftype3_variants (ftype3_code x) = Some x" for x
    by (cases x) (simp_all add: from_u32_def ftype3_variants_def)
qed

lemmas enum_reads [legacy_simps] =
  e_nfsstat3.enum_de [folded nfsstat3_deserialize_def]
  e_ftype3.enum_de [folded ftype3_deserialize_def]

lemmas enum_writes [writes_intros] =
  e_nfsstat3.enum_ser [folded nfsstat3_serialize_def]
  e_ftype3.enum_ser [folded ftype3_serialize_def]

interpretation x_specdata3: legacy_xdr specdata3_serialize specdata3_deserialize specdata3_wire "\<lambda>_. True"
  by unfold_locales
    (auto simp: specdata3_serialize_def specdata3_deserialize_def specdata3_wire_def rd_bind_def legacy_simps
      intro!: writes_intros)

lemmas specdata3_codec [legacy_simps] = x_specdata3.de_wire [OF TrueI]
lemmas specdata3_put [writes_intros] = x_specdata3.ser_wire [OF TrueI]

interpretation x_nfstime3: legacy_xdr nfstime3_serialize nfstime3_deserialize nfstime3_wire "\<lambda>_. True"
  by unfold_locales
    (auto simp: nfstime3_serialize_def nfstime3_deserialize_def nfstime3_wire_def rd_bind_def legacy_simps
      intro!: writes_intros)

lemmas nfstime3_codec [legacy_simps] = x_nfstime3.de_wire [OF TrueI]
lemmas nfstime3_put [writes_intros] = x_nfstime3.ser_wire [OF TrueI]

interpretation x_fattr3: legacy_union fattr3_serialize fattr3_deserialize fattr3_wire "\<lambda>_. True"
proof
  show "writes (fattr3_serialize a) (fattr3_wire a)" for a
    unfolding fattr3_serialize_def fattr3_wire_def by (intro writes_intros)
  show "fattr3_deserialize (fattr3_wire a @ rest) = Inr (a, rest)" for a rest
    by (simp add: fattr3_deserialize_def fattr3_wire_def rd_bind_def legacy_simps)
qed

lemmas fattr3_codec [legacy_simps] = x_fattr3.de_wire [OF TrueI]
  x_fattr3.union_de [OF pred_option_True, folded post_op_attr_deserialize_def]
lemmas fattr3_put [writes_intros] = x_fattr3.ser_wire [OF TrueI]
  x_fattr3.union_ser [OF pred_option_True, folded post_op_attr_serialize_def]

interpretation x_fsinfo3: legacy_xdr fsinfo3_serialize fsinfo3_deserialize fsinfo3_wire "\<lambda>_. True"
proof
  show "writes (fsinfo3_serialize a) (fsinfo3_wire a)" for a
    unfolding fsinfo3_serialize_def fsinfo3_wire_def by (intro writes_intros)
  show "fsinfo3_deserialize (fsinfo3_wire a @ rest) = Inr (a, rest)" for a rest
    by (simp add: fsinfo3_deserialize_def fsinfo3_wire_def rd_bind_def legacy_simps)
qed

lemmas fsinfo3_codec [legacy_simps] = x_fsinfo3.de_wire [OF TrueI]
lemmas fsinfo3_put [writes_intros] = x_fsinfo3.ser_wire [OF TrueI]

interpretation x_wcc_attr: legacy_union wcc_attr_serialize wcc_attr_deserialize wcc_attr_wire "\<lambda>_. True"
proof
  show "writes (wcc_attr_serialize a) (wcc_attr_wire a)" for a
    unfolding wcc_attr_serialize_def wcc_attr_wire_def by (intro writes_intros)
  show "wcc_attr_deserialize (wcc_attr_wire a @ rest) = Inr (a, rest)" for a rest
    by (simp add: wcc_attr_deserialize_def wcc_attr_wire_def rd_bind_def legacy_simps)
qed

lemmas wcc_attr_codec [legacy_simps] =
  x_wcc_attr.union_de [OF pred_option_True, folded pre_op_attr_deserialize_def]
lemmas wcc_attr_put [writes_intros] =
  x_wcc_attr.union_ser [OF pred_option_True, folded pre_op_attr_serialize_def]

interpretation x_wcc_data: legacy_xdr wcc_data_serialize wcc_data_deserialize wcc_data_wire "\<lambda>_. True"
proof
  show "writes (wcc_data_serialize a) (wcc_data_wire a)" for a
    unfolding wcc_data_serialize_def wcc_data_wire_def by (intro writes_intros)
  show "wcc_data_deserialize (wcc_data_wire a @ rest) = Inr (a, rest)" for a rest
    by (simp add: wcc_data_deserialize_def wcc_data_wire_def rd_bind_def legacy_simps)
qed

lemmas wcc_data_codec [legacy_simps] = x_wcc_data.de_wire [OF TrueI]
lemmas wcc_data_put [writes_intros] = x_wcc_data.ser_wire [OF TrueI]

interpretation x_nfs_fh3: legacy_union nfs_fh3_serialize nfs_fh3_deserialize nfs_fh3_wire nfs_fh3_ok
proof
  show "nfs_fh3_ok a \<Longrightarrow> writes (nfs_fh3_serialize a) (nfs_fh3_wire a)" for a
    unfolding nfs_fh3_serialize_def nfs_fh3_wire_def nfs_fh3_ok_def by (intro writes_intros)
  show "nfs_fh3_ok a \<Longrightarrow> nfs_fh3_deserialize (nfs_fh3_wire a @ rest) = Inr (a, rest)" for a rest
    by (simp add: nfs_fh3_deserialize_def nfs_fh3_wire_def nfs_fh3_ok_def rd_bind_def legacy_simps)
qed

lemmas nfs_fh3_codec [legacy_simps] = x_nfs_fh3.de_wire
  x_nfs_fh3.union_de [folded post_op_fh3_deserialize_def]
lemmas nfs_fh3_put [writes_intros] = x_nfs_fh3.ser_wire
  x_nfs_fh3.union_ser [folded post_op_fh3_serialize_def]

lemma set_time3_put [writes_intros]:
  "writes (set_atime_serialize s) (set_time3_wire s)" "writes (set_mtime_serialize s) (set_time3_wire s)"
  by (cases s; auto simp: set_atime_serialize_def set_mtime_serialize_def set_time3_wire_def
      intro!: writes_intros)+

lemma set_time3_codec [legacy_simps]:
  "set_atime_deserialize (set_time3_wire s @ rest) = Inr (s, rest)"
  "set_mtime_deserialize (set_time3_wire s @ rest) = Inr (s, rest)"
  by (cases s; simp add: set_atime_deserialize_def set_mtime_deserialize_def set_time3_wire_def rd_bind_def legacy_simps)+

lemmas set_value_codec [legacy_simps] =
  x_u32.union_de [OF pred_option_True, folded set_u32_deserialize_def]
  x_u64.union_de [OF pred_option_True, folded set_size3_deserialize_def]
lemmas set_value_put [writes_intros] =
  x_u32.union_ser [OF pred_option_True, folded set_u32_serialize_def]
  x_u64.union_ser [OF pred_option_True, folded set_size3_serialize_def]

interpretation x_sattr3: legacy_xdr sattr3_serialize sattr3_deserialize sattr3_wire "\<lambda>_. True"
proof
  show "writes (sattr3_serialize a) (sattr3_wire a)" for a
    unfolding sattr3_serialize_def sattr3_wire_def by (intro writes_intros)
  show "sattr3_deserialize (sattr3_wire a @ rest) = Inr (a, rest)" for a rest
    by (simp add: sattr3_deserialize_def sattr3_wire_def rd_bind_def legacy_simps)
qed

lemmas sattr3_codec [legacy_simps] = x_sattr3.de_wire [OF TrueI]
lemmas sattr3_put [writes_intros] = x_sattr3.ser_wire [OF TrueI]

interpretation x_diropargs3: legacy_xdr diropargs3_serialize diropargs3_deserialize diropargs3_wire
  diropargs3_ok
proof
  show "diropargs3_ok a \<Longrightarrow> writes (diropargs3_serialize a) (diropargs3_wire a)" for a
    unfolding diropargs3_serialize_def diropargs3_wire_def diropargs3_ok_def
    by (auto intro!: writes_intros)
  show "diropargs3_ok a \<Longrightarrow> diropargs3_deserialize (diropargs3_wire a @ rest) = Inr (a, rest)" for a rest
    by (simp add: diropargs3_deserialize_def diropargs3_wire_def diropargs3_ok_def rd_bind_def legacy_simps)
qed

lemmas diropargs3_codec [legacy_simps] = x_diropargs3.de_wire

interpretation x_symlinkdata3: legacy_xdr symlinkdata3_serialize symlinkdata3_deserialize
  symlinkdata3_wire "\<lambda>a. length (sl_data a) < u32_max"
proof
  show "writes (symlinkdata3_serialize a) (symlinkdata3_wire a)" if "length (sl_data a) < u32_max" for a
    unfolding symlinkdata3_serialize_def symlinkdata3_wire_def using that by (intro writes_intros)
  show "symlinkdata3_deserialize (symlinkdata3_wire a @ rest) = Inr (a, rest)"
    if "length (sl_data a) < u32_max" for a rest
    using that by (simp add: symlinkdata3_deserialize_def symlinkdata3_wire_def rd_bind_def legacy_simps)
qed

lemmas symlinkdata3_codec [legacy_simps] = x_symlinkdata3.de_wire

end
