(* ===== verification/Legacy_Rpc.thy ===== *)
theory Legacy_Rpc
  imports Legacy_Xdr Server_State
begin

text \<open>
  The RPC messages of the demo stack, \<^verbatim>\<open>src/rpc/message_legacy.rs\<close>, and the portmap mapping and mount
  status that its handlers exchange (\<^verbatim>\<open>src/portmap/types.rs\<close>, \<^verbatim>\<open>src/mount.rs\<close>).

  The readers of the discriminated unions update a value in place and leave it as it was when the
  discriminant is unknown; they take that initial value as their first argument.
\<close>

section \<open>Enumerations\<close>

datatype auth_stat =
  AUTH_BADCRED | AUTH_REJECTEDCRED | AUTH_BADVERF | AUTH_REJECTEDVERF | AUTH_TOOWEAK

fun auth_stat_code :: "auth_stat \<Rightarrow> u32" where
  "auth_stat_code AUTH_BADCRED = 1"
| "auth_stat_code AUTH_REJECTEDCRED = 2"
| "auth_stat_code AUTH_BADVERF = 3"
| "auth_stat_code AUTH_REJECTEDVERF = 4"
| "auth_stat_code AUTH_TOOWEAK = 5"

definition auth_stat_variants :: "auth_stat list" where
  "auth_stat_variants =
     [AUTH_BADCRED, AUTH_REJECTEDCRED, AUTH_BADVERF, AUTH_REJECTEDVERF, AUTH_TOOWEAK]"

definition auth_stat_serialize :: "auth_stat \<Rightarrow> ser" where
  "auth_stat_serialize = enum_serialize auth_stat_code"

definition auth_stat_deserialize :: "auth_stat rd" where
  "auth_stat_deserialize = enum_deserialize auth_stat_code auth_stat_variants"

datatype auth_flavor = AUTH_NULL | AUTH_UNIX | AUTH_SHORT | AUTH_DES

fun auth_flavor_code :: "auth_flavor \<Rightarrow> u32" where
  "auth_flavor_code AUTH_NULL = 0"
| "auth_flavor_code AUTH_UNIX = 1"
| "auth_flavor_code AUTH_SHORT = 2"
| "auth_flavor_code AUTH_DES = 3"

definition auth_flavor_variants :: "auth_flavor list" where
  "auth_flavor_variants = [AUTH_NULL, AUTH_UNIX, AUTH_SHORT, AUTH_DES]"

definition auth_flavor_serialize :: "auth_flavor \<Rightarrow> ser" where
  "auth_flavor_serialize = enum_serialize auth_flavor_code"

definition auth_flavor_deserialize :: "auth_flavor rd" where
  "auth_flavor_deserialize = enum_deserialize auth_flavor_code auth_flavor_variants"

datatype mountstat3 =
    MNT3_OK
  | MNT3ERR_PERM
  | MNT3ERR_NOENT
  | MNT3ERR_IO
  | MNT3ERR_ACCES
  | MNT3ERR_NOTDIR
  | MNT3ERR_INVAL
  | MNT3ERR_NAMETOOLONG
  | MNT3ERR_NOTSUPP
  | MNT3ERR_SERVERFAULT

fun mountstat3_code :: "mountstat3 \<Rightarrow> u32" where
  "mountstat3_code MNT3_OK = 0"
| "mountstat3_code MNT3ERR_PERM = 1"
| "mountstat3_code MNT3ERR_NOENT = 2"
| "mountstat3_code MNT3ERR_IO = 5"
| "mountstat3_code MNT3ERR_ACCES = 13"
| "mountstat3_code MNT3ERR_NOTDIR = 20"
| "mountstat3_code MNT3ERR_INVAL = 22"
| "mountstat3_code MNT3ERR_NAMETOOLONG = 63"
| "mountstat3_code MNT3ERR_NOTSUPP = 10004"
| "mountstat3_code MNT3ERR_SERVERFAULT = 10006"

definition mountstat3_serialize :: "mountstat3 \<Rightarrow> ser" where
  "mountstat3_serialize = enum_serialize mountstat3_code"

section \<open>Authentication\<close>

record auth_unix =
  au_stamp :: u32
  au_machinename :: bytes
  au_uid :: u32
  au_gid :: u32
  au_gids :: "u32 list"

definition auth_unix_default :: auth_unix where
  "auth_unix_default = \<lparr>au_stamp = 0, au_machinename = [], au_uid = 0, au_gid = 0, au_gids = []\<rparr>"

definition auth_unix_serialize :: "auth_unix \<Rightarrow> ser" where
  "auth_unix_serialize a = xdr_struct
     [u32_serialize (au_stamp a), vec_u8_serialize (au_machinename a), u32_serialize (au_uid a),
      u32_serialize (au_gid a), vec_u32_serialize (au_gids a)]"

definition auth_unix_deserialize :: "auth_unix rd" where
  "auth_unix_deserialize =
     rd_bind u32_deserialize (\<lambda>stamp.
     rd_bind vec_u8_deserialize (\<lambda>machinename.
     rd_bind u32_deserialize (\<lambda>uid.
     rd_bind u32_deserialize (\<lambda>gid.
     rd_bind vec_u32_deserialize (\<lambda>gids.
     rd_return \<lparr>au_stamp = stamp, au_machinename = machinename, au_uid = uid, au_gid = gid,
       au_gids = gids\<rparr>)))))"

record opaque_auth =
  oa_flavor :: auth_flavor
  oa_body :: bytes

definition opaque_auth_default :: opaque_auth where
  "opaque_auth_default = \<lparr>oa_flavor = AUTH_NULL, oa_body = []\<rparr>"

definition opaque_auth_serialize :: "opaque_auth \<Rightarrow> ser" where
  "opaque_auth_serialize a = xdr_struct [auth_flavor_serialize (oa_flavor a), vec_u8_serialize (oa_body a)]"

definition opaque_auth_deserialize :: "opaque_auth rd" where
  "opaque_auth_deserialize =
     rd_bind auth_flavor_deserialize (\<lambda>flavor.
     rd_bind vec_u8_deserialize (\<lambda>body.
     rd_return \<lparr>oa_flavor = flavor, oa_body = body\<rparr>))"

section \<open>Messages\<close>

record call_body =
  cb_rpcvers :: u32
  cb_prog :: u32
  cb_vers :: u32
  cb_proc :: u32
  cb_cred :: opaque_auth
  cb_verf :: opaque_auth

definition call_body_default :: call_body where
  "call_body_default = \<lparr>cb_rpcvers = 0, cb_prog = 0, cb_vers = 0, cb_proc = 0,
     cb_cred = opaque_auth_default, cb_verf = opaque_auth_default\<rparr>"

definition call_body_serialize :: "call_body \<Rightarrow> ser" where
  "call_body_serialize c = xdr_struct
     [u32_serialize (cb_rpcvers c), u32_serialize (cb_prog c), u32_serialize (cb_vers c),
      u32_serialize (cb_proc c), opaque_auth_serialize (cb_cred c), opaque_auth_serialize (cb_verf c)]"

definition call_body_deserialize :: "call_body rd" where
  "call_body_deserialize =
     rd_bind u32_deserialize (\<lambda>rpcvers.
     rd_bind u32_deserialize (\<lambda>prog.
     rd_bind u32_deserialize (\<lambda>vers.
     rd_bind u32_deserialize (\<lambda>pr.
     rd_bind opaque_auth_deserialize (\<lambda>cred.
     rd_bind opaque_auth_deserialize (\<lambda>verf.
     rd_return \<lparr>cb_rpcvers = rpcvers, cb_prog = prog, cb_vers = vers, cb_proc = pr,
       cb_cred = cred, cb_verf = verf\<rparr>))))))"

record mismatch_info =
  mi_low :: u32
  mi_high :: u32

definition mismatch_info_default :: mismatch_info where
  "mismatch_info_default = \<lparr>mi_low = 0, mi_high = 0\<rparr>"

definition mismatch_info_serialize :: "mismatch_info \<Rightarrow> ser" where
  "mismatch_info_serialize m = xdr_struct [u32_serialize (mi_low m), u32_serialize (mi_high m)]"

definition mismatch_info_deserialize :: "mismatch_info rd" where
  "mismatch_info_deserialize =
     rd_bind u32_deserialize (\<lambda>low.
     rd_bind u32_deserialize (\<lambda>high.
     rd_return \<lparr>mi_low = low, mi_high = high\<rparr>))"

datatype accept_body =
    Accept_SUCCESS
  | Accept_PROG_UNAVAIL
  | Accept_PROG_MISMATCH mismatch_info
  | Accept_PROC_UNAVAIL
  | Accept_GARBAGE_ARGS

definition accept_body_serialize :: "accept_body \<Rightarrow> ser" where
  "accept_body_serialize b =
     (case b of
        Accept_SUCCESS \<Rightarrow> u32_serialize 0
      | Accept_PROG_UNAVAIL \<Rightarrow> u32_serialize 1
      | Accept_PROG_MISMATCH v \<Rightarrow> xdr_struct [u32_serialize 2, mismatch_info_serialize v]
      | Accept_PROC_UNAVAIL \<Rightarrow> u32_serialize 3
      | Accept_GARBAGE_ARGS \<Rightarrow> u32_serialize 4)"

definition accept_body_deserialize :: "accept_body rd" where
  "accept_body_deserialize =
     rd_bind u32_deserialize (\<lambda>c.
     if c = 0 then rd_return Accept_SUCCESS
     else if c = 1 then rd_return Accept_PROG_UNAVAIL
     else if c = 2 then rd_bind mismatch_info_deserialize (\<lambda>r. rd_return (Accept_PROG_MISMATCH r))
     else if c = 3 then rd_return Accept_PROC_UNAVAIL
     else rd_return Accept_GARBAGE_ARGS)"

record accepted_reply3 =
  ar_verf :: opaque_auth
  ar_reply_data :: accept_body

definition accepted_reply3_default :: accepted_reply3 where
  "accepted_reply3_default = \<lparr>ar_verf = opaque_auth_default, ar_reply_data = Accept_SUCCESS\<rparr>"

definition accepted_reply3_serialize :: "accepted_reply3 \<Rightarrow> ser" where
  "accepted_reply3_serialize r =
     xdr_struct [opaque_auth_serialize (ar_verf r), accept_body_serialize (ar_reply_data r)]"

definition accepted_reply3_deserialize :: "accepted_reply3 rd" where
  "accepted_reply3_deserialize =
     rd_bind opaque_auth_deserialize (\<lambda>verf.
     rd_bind accept_body_deserialize (\<lambda>data.
     rd_return \<lparr>ar_verf = verf, ar_reply_data = data\<rparr>))"

datatype rejected_reply = Reject_RPC_MISMATCH mismatch_info | Reject_AUTH_ERROR auth_stat

definition rejected_reply_default :: rejected_reply where
  "rejected_reply_default = Reject_RPC_MISMATCH mismatch_info_default"

definition rejected_reply_serialize :: "rejected_reply \<Rightarrow> ser" where
  "rejected_reply_serialize r =
     (case r of
        Reject_RPC_MISMATCH v \<Rightarrow> xdr_struct [u32_serialize 0, mismatch_info_serialize v]
      | Reject_AUTH_ERROR v \<Rightarrow> xdr_struct [u32_serialize 1, auth_stat_serialize v])"

definition rejected_reply_deserialize :: "rejected_reply \<Rightarrow> rejected_reply rd" where
  "rejected_reply_deserialize this =
     rd_bind u32_deserialize (\<lambda>c.
     if c = 0 then rd_bind mismatch_info_deserialize (\<lambda>r. rd_return (Reject_RPC_MISMATCH r))
     else if c = 1 then rd_bind auth_stat_deserialize (\<lambda>r. rd_return (Reject_AUTH_ERROR r))
     else rd_return this)"

datatype reply_body = Reply_MSG_ACCEPTED accepted_reply3 | Reply_MSG_DENIED rejected_reply

definition reply_body_default :: reply_body where
  "reply_body_default = Reply_MSG_ACCEPTED accepted_reply3_default"

definition reply_body_serialize :: "reply_body \<Rightarrow> ser" where
  "reply_body_serialize r =
     (case r of
        Reply_MSG_ACCEPTED v \<Rightarrow> xdr_struct [u32_serialize 0, accepted_reply3_serialize v]
      | Reply_MSG_DENIED v \<Rightarrow> xdr_struct [u32_serialize 1, rejected_reply_serialize v])"

definition reply_body_deserialize :: "reply_body \<Rightarrow> reply_body rd" where
  "reply_body_deserialize this =
     rd_bind u32_deserialize (\<lambda>c.
     if c = 0 then rd_bind accepted_reply3_deserialize (\<lambda>r. rd_return (Reply_MSG_ACCEPTED r))
     else if c = 1
     then rd_bind (rejected_reply_deserialize rejected_reply_default)
            (\<lambda>r. rd_return (Reply_MSG_DENIED r))
     else rd_return this)"

datatype rpc_body = CALL call_body | REPLY reply_body

definition rpc_body_default :: rpc_body where
  "rpc_body_default = CALL call_body_default"

definition rpc_body_serialize :: "rpc_body \<Rightarrow> ser" where
  "rpc_body_serialize b =
     (case b of
        CALL v \<Rightarrow> xdr_struct [u32_serialize 0, call_body_serialize v]
      | REPLY v \<Rightarrow> xdr_struct [u32_serialize 1, reply_body_serialize v])"

definition rpc_body_deserialize :: "rpc_body \<Rightarrow> rpc_body rd" where
  "rpc_body_deserialize this =
     rd_bind u32_deserialize (\<lambda>c.
     if c = 0 then rd_bind call_body_deserialize (\<lambda>r. rd_return (CALL r))
     else if c = 1
     then rd_bind (reply_body_deserialize reply_body_default) (\<lambda>r. rd_return (REPLY r))
     else rd_return this)"

record rpc_msg =
  rm_xid :: u32
  rm_body :: rpc_body

definition rpc_msg_serialize :: "rpc_msg \<Rightarrow> ser" where
  "rpc_msg_serialize m = xdr_struct [u32_serialize (rm_xid m), rpc_body_serialize (rm_body m)]"

definition rpc_msg_deserialize :: "rpc_msg rd" where
  "rpc_msg_deserialize =
     rd_bind u32_deserialize (\<lambda>xid.
     rd_bind (rpc_body_deserialize rpc_body_default) (\<lambda>body.
     rd_return \<lparr>rm_xid = xid, rm_body = body\<rparr>))"

section \<open>Replies\<close>

definition accepted_message :: "u32 \<Rightarrow> accept_body \<Rightarrow> rpc_msg" where
  "accepted_message xid data =
     \<lparr>rm_xid = xid,
      rm_body = REPLY (Reply_MSG_ACCEPTED \<lparr>ar_verf = opaque_auth_default, ar_reply_data = data\<rparr>)\<rparr>"

definition proc_unavail_reply_message :: "u32 \<Rightarrow> rpc_msg" where
  "proc_unavail_reply_message xid = accepted_message xid Accept_PROC_UNAVAIL"

definition prog_unavail_reply_message :: "u32 \<Rightarrow> rpc_msg" where
  "prog_unavail_reply_message xid = accepted_message xid Accept_PROG_UNAVAIL"

definition prog_mismatch_reply_message :: "u32 \<Rightarrow> u32 \<Rightarrow> rpc_msg" where
  "prog_mismatch_reply_message xid accepted_ver =
     accepted_message xid (Accept_PROG_MISMATCH \<lparr>mi_low = accepted_ver, mi_high = accepted_ver\<rparr>)"

definition garbage_args_reply_message :: "u32 \<Rightarrow> rpc_msg" where
  "garbage_args_reply_message xid = accepted_message xid Accept_GARBAGE_ARGS"

definition rpc_vers_mismatch :: "u32 \<Rightarrow> rpc_msg" where
  "rpc_vers_mismatch xid =
     \<lparr>rm_xid = xid,
      rm_body = REPLY (Reply_MSG_DENIED (Reject_RPC_MISMATCH mismatch_info_default))\<rparr>"

definition make_success_reply :: "u32 \<Rightarrow> rpc_msg" where
  "make_success_reply xid = accepted_message xid Accept_SUCCESS"

section \<open>The portmap mapping\<close>

record legacy_mapping =
  lm_prog :: u32
  lm_vers :: u32
  lm_prot :: u32
  lm_port :: u32

definition mapping_serialize :: "legacy_mapping \<Rightarrow> ser" where
  "mapping_serialize m = xdr_struct
     [u32_serialize (lm_prog m), u32_serialize (lm_vers m), u32_serialize (lm_prot m),
      u32_serialize (lm_port m)]"

definition mapping_deserialize :: "legacy_mapping rd" where
  "mapping_deserialize =
     rd_bind u32_deserialize (\<lambda>prog.
     rd_bind u32_deserialize (\<lambda>vers.
     rd_bind u32_deserialize (\<lambda>prot.
     rd_bind u32_deserialize (\<lambda>port.
     rd_return \<lparr>lm_prog = prog, lm_vers = vers, lm_prot = prot, lm_port = port\<rparr>))))"

section \<open>Wire forms\<close>

definition opaque_auth_wire :: "opaque_auth \<Rightarrow> bytes" where
  "opaque_auth_wire a = be32 (auth_flavor_code (oa_flavor a)) @ opaque_bytes (oa_body a)"

definition opaque_auth_ok :: "opaque_auth \<Rightarrow> bool" where
  "opaque_auth_ok a \<longleftrightarrow> length (oa_body a) < u32_max"

definition auth_unix_wire :: "auth_unix \<Rightarrow> bytes" where
  "auth_unix_wire a = be32 (au_stamp a) @ opaque_bytes (au_machinename a) @ be32 (au_uid a) @
     be32 (au_gid a) @ array_bytes be32 (au_gids a)"

definition auth_unix_ok :: "auth_unix \<Rightarrow> bool" where
  "auth_unix_ok a \<longleftrightarrow> length (au_machinename a) < u32_max \<and> length (au_gids a) < u32_max"

definition call_body_wire :: "call_body \<Rightarrow> bytes" where
  "call_body_wire c = be32 (cb_rpcvers c) @ be32 (cb_prog c) @ be32 (cb_vers c) @ be32 (cb_proc c) @
     opaque_auth_wire (cb_cred c) @ opaque_auth_wire (cb_verf c)"

definition call_body_ok :: "call_body \<Rightarrow> bool" where
  "call_body_ok c \<longleftrightarrow> opaque_auth_ok (cb_cred c) \<and> opaque_auth_ok (cb_verf c)"

definition mismatch_info_wire :: "mismatch_info \<Rightarrow> bytes" where
  "mismatch_info_wire m = be32 (mi_low m) @ be32 (mi_high m)"

fun accept_body_wire :: "accept_body \<Rightarrow> bytes" where
  "accept_body_wire Accept_SUCCESS = be32 0"
| "accept_body_wire Accept_PROG_UNAVAIL = be32 1"
| "accept_body_wire (Accept_PROG_MISMATCH v) = be32 2 @ mismatch_info_wire v"
| "accept_body_wire Accept_PROC_UNAVAIL = be32 3"
| "accept_body_wire Accept_GARBAGE_ARGS = be32 4"

fun reply_body_wire :: "reply_body \<Rightarrow> bytes" where
  "reply_body_wire (Reply_MSG_ACCEPTED r) =
     be32 0 @ opaque_auth_wire (ar_verf r) @ accept_body_wire (ar_reply_data r)"
| "reply_body_wire (Reply_MSG_DENIED (Reject_RPC_MISMATCH v)) = be32 1 @ be32 0 @ mismatch_info_wire v"
| "reply_body_wire (Reply_MSG_DENIED (Reject_AUTH_ERROR v)) = be32 1 @ be32 1 @ be32 (auth_stat_code v)"

fun reply_body_ok :: "reply_body \<Rightarrow> bool" where
  "reply_body_ok (Reply_MSG_ACCEPTED r) \<longleftrightarrow> opaque_auth_ok (ar_verf r)"
| "reply_body_ok (Reply_MSG_DENIED r) \<longleftrightarrow> True"

fun rpc_body_wire :: "rpc_body \<Rightarrow> bytes" where
  "rpc_body_wire (CALL v) = be32 0 @ call_body_wire v"
| "rpc_body_wire (REPLY v) = be32 1 @ reply_body_wire v"

definition rpc_msg_wire :: "rpc_msg \<Rightarrow> bytes" where
  "rpc_msg_wire m = be32 (rm_xid m) @ rpc_body_wire (rm_body m)"

definition rpc_msg_ok :: "rpc_msg \<Rightarrow> bool" where
  "rpc_msg_ok m \<longleftrightarrow> (case rm_body m of CALL v \<Rightarrow> call_body_ok v | REPLY v \<Rightarrow> reply_body_ok v)"

definition mapping_wire :: "legacy_mapping \<Rightarrow> bytes" where
  "mapping_wire m = be32 (lm_prog m) @ be32 (lm_vers m) @ be32 (lm_prot m) @ be32 (lm_port m)"

section \<open>The messages have the interface\<close>

interpretation e_auth_stat: xdr_enum auth_stat_code auth_stat_variants
proof
  show "from_u32 auth_stat_code auth_stat_variants (auth_stat_code x) = Some x" for x
    by (cases x) (simp_all add: from_u32_def auth_stat_variants_def)
qed

interpretation e_auth_flavor: xdr_enum auth_flavor_code auth_flavor_variants
proof
  show "from_u32 auth_flavor_code auth_flavor_variants (auth_flavor_code x) = Some x" for x
    by (cases x) (simp_all add: from_u32_def auth_flavor_variants_def)
qed

lemma mountstat3_put [writes_intros]: "writes (mountstat3_serialize s) (be32 (mountstat3_code s))"
  unfolding mountstat3_serialize_def enum_serialize_def by (rule u32_serialize_wire)

lemmas auth_enum_reads [legacy_simps] =
  e_auth_stat.enum_de [folded auth_stat_deserialize_def]
  e_auth_flavor.enum_de [folded auth_flavor_deserialize_def]

lemmas auth_enum_writes [writes_intros] =
  e_auth_stat.enum_ser [folded auth_stat_serialize_def]
  e_auth_flavor.enum_ser [folded auth_flavor_serialize_def]

interpretation x_opaque_auth: legacy_xdr opaque_auth_serialize opaque_auth_deserialize opaque_auth_wire
  opaque_auth_ok
proof
  show "opaque_auth_ok a \<Longrightarrow> writes (opaque_auth_serialize a) (opaque_auth_wire a)" for a
    unfolding opaque_auth_serialize_def opaque_auth_wire_def opaque_auth_ok_def by (intro writes_intros)
  show "opaque_auth_ok a \<Longrightarrow> opaque_auth_deserialize (opaque_auth_wire a @ rest) = Inr (a, rest)" for a rest
    by (simp add: opaque_auth_deserialize_def opaque_auth_wire_def opaque_auth_ok_def rd_bind_def legacy_simps)
qed

lemmas opaque_auth_codec [legacy_simps] = x_opaque_auth.de_wire
lemmas opaque_auth_put [writes_intros] = x_opaque_auth.ser_wire

interpretation x_auth_unix: legacy_xdr auth_unix_serialize auth_unix_deserialize auth_unix_wire auth_unix_ok
proof
  show "auth_unix_ok a \<Longrightarrow> writes (auth_unix_serialize a) (auth_unix_wire a)" for a
    unfolding auth_unix_serialize_def auth_unix_wire_def auth_unix_ok_def by (auto intro!: writes_intros)
  show "auth_unix_ok a \<Longrightarrow> auth_unix_deserialize (auth_unix_wire a @ rest) = Inr (a, rest)" for a rest
    by (simp add: auth_unix_deserialize_def auth_unix_wire_def auth_unix_ok_def rd_bind_def legacy_simps)
qed

lemmas auth_unix_codec [legacy_simps] = x_auth_unix.de_wire

interpretation x_call_body: legacy_xdr call_body_serialize call_body_deserialize call_body_wire call_body_ok
proof
  show "call_body_ok a \<Longrightarrow> writes (call_body_serialize a) (call_body_wire a)" for a
    unfolding call_body_serialize_def call_body_wire_def call_body_ok_def by (auto intro!: writes_intros)
  show "call_body_ok a \<Longrightarrow> call_body_deserialize (call_body_wire a @ rest) = Inr (a, rest)" for a rest
    by (simp add: call_body_deserialize_def call_body_wire_def call_body_ok_def rd_bind_def legacy_simps)
qed

lemmas call_body_codec [legacy_simps] = x_call_body.de_wire
lemmas call_body_put [writes_intros] = x_call_body.ser_wire

interpretation x_mismatch_info: legacy_xdr mismatch_info_serialize mismatch_info_deserialize
  mismatch_info_wire "\<lambda>_. True"
proof
  show "writes (mismatch_info_serialize a) (mismatch_info_wire a)" for a
    unfolding mismatch_info_serialize_def mismatch_info_wire_def by (intro writes_intros)
  show "mismatch_info_deserialize (mismatch_info_wire a @ rest) = Inr (a, rest)" for a rest
    by (simp add: mismatch_info_deserialize_def mismatch_info_wire_def rd_bind_def legacy_simps)
qed

lemmas mismatch_info_codec [legacy_simps] = x_mismatch_info.de_wire [OF TrueI]
lemmas mismatch_info_put [writes_intros] = x_mismatch_info.ser_wire [OF TrueI]

interpretation x_accept_body: legacy_xdr accept_body_serialize accept_body_deserialize
  accept_body_wire "\<lambda>_. True"
proof
  show "writes (accept_body_serialize a) (accept_body_wire a)" for a
    unfolding accept_body_serialize_def by (cases a; simp; intro writes_intros)
  show "accept_body_deserialize (accept_body_wire a @ rest) = Inr (a, rest)" for a rest
    by (cases a) (simp_all add: accept_body_deserialize_def rd_bind_def legacy_simps)
qed

lemmas accept_body_codec [legacy_simps] = x_accept_body.de_wire [OF TrueI]
lemmas accept_body_put [writes_intros] = x_accept_body.ser_wire [OF TrueI]

interpretation x_reply_body: legacy_xdr reply_body_serialize "reply_body_deserialize this"
  reply_body_wire reply_body_ok for this
proof
  show "writes (reply_body_serialize a) (reply_body_wire a)" if "reply_body_ok a" for a
    using that
    by (cases a rule: reply_body_wire.cases)
      (auto simp: reply_body_serialize_def accepted_reply3_serialize_def rejected_reply_serialize_def
        intro!: writes_intros)
  show "reply_body_deserialize this (reply_body_wire a @ rest) = Inr (a, rest)"
    if "reply_body_ok a" for a rest
    using that
    by (cases a rule: reply_body_wire.cases)
      (simp_all add: reply_body_deserialize_def accepted_reply3_deserialize_def
        rejected_reply_deserialize_def rd_bind_def legacy_simps)
qed

lemmas reply_body_codec [legacy_simps] = x_reply_body.de_wire
lemmas reply_body_put [writes_intros] = x_reply_body.ser_wire

interpretation x_rpc_msg: legacy_xdr rpc_msg_serialize rpc_msg_deserialize rpc_msg_wire rpc_msg_ok
proof
  show "writes (rpc_msg_serialize a) (rpc_msg_wire a)" if "rpc_msg_ok a" for a
    using that unfolding rpc_msg_serialize_def rpc_msg_wire_def rpc_body_serialize_def rpc_msg_ok_def
    by (cases "rm_body a"; simp; intro writes_intros)
  show "rpc_msg_deserialize (rpc_msg_wire a @ rest) = Inr (a, rest)" if "rpc_msg_ok a" for a rest
    using that
    by (cases "rm_body a")
      (simp_all add: rpc_msg_deserialize_def rpc_msg_wire_def rpc_msg_ok_def rpc_body_deserialize_def
        rd_bind_def legacy_simps)
qed

lemmas rpc_msg_codec [legacy_simps] = x_rpc_msg.de_wire
lemmas rpc_msg_put [writes_intros] = x_rpc_msg.ser_wire

interpretation x_mapping: legacy_xdr mapping_serialize mapping_deserialize mapping_wire "\<lambda>_. True"
proof
  show "writes (mapping_serialize a) (mapping_wire a)" for a
    unfolding mapping_serialize_def mapping_wire_def by (intro writes_intros)
  show "mapping_deserialize (mapping_wire a @ rest) = Inr (a, rest)" for a rest
    by (simp add: mapping_deserialize_def mapping_wire_def rd_bind_def legacy_simps)
qed

lemmas mapping_codec [legacy_simps] = x_mapping.de_wire [OF TrueI]

end
