(* ===== verification/Legacy_Tracker.thy ===== *)
theory Legacy_Tracker
  imports Nfs_Prelude "HOL-Library.AList"
begin

text \<open>
  The retransmission tracker of the demo stack, \<^verbatim>\<open>src/transaction_tracker.rs\<close>.

  The nested hash maps are association lists, an \<open>Instant\<close> and a \<open>Duration\<close> are natural numbers, and
  the clock reading of a call is an argument of it.  Both methods hold the tracker's lock from the
  reading of the clock to their end, so that a run of the tracker is a sequence of calls with
  clock readings that do not decrease.

  The tracker is compared with a specification that keeps one partial function from a client and a
  transaction identifier to a state, and that forgets a completed transaction at the instant its
  retention period is over.  The source visits the completed transactions in the order of their
  completion and stops at the first that is still to be retained; the theorems show that this
  queue is enough.
\<close>

section \<open>State\<close>

datatype TransactionState = InProgress | Completed nat

record CompletedTransaction =
  ct_client_addr :: string
  ct_xid :: u32
  ct_completed_at :: nat

type_synonym transactions = "(string \<times> (u32 \<times> TransactionState) list) list"

record TrackerState =
  ts_transactions :: transactions
  ts_completed_order :: "CompletedTransaction list"

record TransactionTracker =
  tt_retention_period :: nat
  tt_state :: TrackerState

definition tracker_new :: "nat \<Rightarrow> TransactionTracker" where
  "tracker_new retention_period =
     \<lparr>tt_retention_period = retention_period,
      tt_state = \<lparr>ts_transactions = [], ts_completed_order = []\<rparr>\<rparr>"

section \<open>Operations\<close>

text \<open>One turn of the loop of \<open>housekeeping\<close>, on a completed transaction taken from the queue.\<close>

definition remove_expired :: "CompletedTransaction \<Rightarrow> transactions \<Rightarrow> transactions" where
  "remove_expired completed txs =
     (case map_of txs (ct_client_addr completed) of
        Some transactions \<Rightarrow>
          (let transactions =
                 (if map_of transactions (ct_xid completed) = Some (Completed (ct_completed_at completed))
                  then AList.delete (ct_xid completed) transactions else transactions) in
           if transactions = [] then AList.delete (ct_client_addr completed) txs
           else AList.update (ct_client_addr completed) transactions txs)
      | None \<Rightarrow> txs)"

fun housekeeping_loop ::
  "nat \<Rightarrow> nat \<Rightarrow> transactions \<Rightarrow> CompletedTransaction list \<Rightarrow> transactions \<times> CompletedTransaction list" where
  "housekeeping_loop now max_age txs [] = (txs, [])"
| "housekeeping_loop now max_age txs (completed # rest) =
     (if max_age \<le> now - ct_completed_at completed
      then housekeeping_loop now max_age (remove_expired completed txs) rest
      else (txs, completed # rest))"

definition housekeeping :: "nat \<Rightarrow> nat \<Rightarrow> TrackerState \<Rightarrow> TrackerState" where
  "housekeeping now max_age st =
     (let (txs, order) = housekeeping_loop now max_age (ts_transactions st) (ts_completed_order st) in
      \<lparr>ts_transactions = txs, ts_completed_order = order\<rparr>)"

definition is_retransmission ::
  "nat \<Rightarrow> u32 \<Rightarrow> string \<Rightarrow> TransactionTracker \<Rightarrow> bool \<times> TransactionTracker" where
  "is_retransmission now xid client_addr tracker =
     (let st = housekeeping now (tt_retention_period tracker) (tt_state tracker);
          transactions = (case map_of (ts_transactions st) client_addr of Some t \<Rightarrow> t | None \<Rightarrow> []) in
      if map_of transactions xid = None
      then (False, tracker\<lparr>tt_state := st\<lparr>ts_transactions :=
              AList.update client_addr (AList.update xid InProgress transactions) (ts_transactions st)\<rparr>\<rparr>)
      else (True, tracker\<lparr>tt_state := st\<rparr>))"

definition mark_processed :: "nat \<Rightarrow> u32 \<Rightarrow> string \<Rightarrow> TransactionTracker \<Rightarrow> TransactionTracker" where
  "mark_processed completed_at xid client_addr tracker =
     (let st = tt_state tracker in
      case map_of (ts_transactions st) client_addr of
        None \<Rightarrow> tracker
      | Some transactions \<Rightarrow>
          (case map_of transactions xid of
             None \<Rightarrow> tracker
           | Some tx \<Rightarrow>
               tracker\<lparr>tt_state :=
                 \<lparr>ts_transactions =
                    AList.update client_addr (AList.update xid (Completed completed_at) transactions)
                      (ts_transactions st),
                  ts_completed_order = ts_completed_order st @
                    [\<lparr>ct_client_addr = client_addr, ct_xid = xid, ct_completed_at = completed_at\<rparr>]\<rparr>\<rparr>))"

section \<open>The specification\<close>

text \<open>What the tracker knows of a transaction.\<close>

definition tx_lookup :: "transactions \<Rightarrow> string \<times> u32 \<Rightarrow> TransactionState option" where
  "tx_lookup txs k = Option.bind (map_of txs (fst k)) (\<lambda>transactions. map_of transactions (snd k))"

definition tracker_view :: "TransactionTracker \<Rightarrow> string \<times> u32 \<Rightarrow> TransactionState option" where
  "tracker_view tracker = tx_lookup (ts_transactions (tt_state tracker))"

fun remembered :: "nat \<Rightarrow> nat \<Rightarrow> TransactionState \<Rightarrow> bool" where
  "remembered now retention InProgress \<longleftrightarrow> True"
| "remembered now retention (Completed t) \<longleftrightarrow> now - t < retention"

definition forget_expired ::
  "nat \<Rightarrow> nat \<Rightarrow> ('k \<Rightarrow> TransactionState option) \<Rightarrow> 'k \<Rightarrow> TransactionState option" where
  "forget_expired now retention view k =
     (case view k of
        Some tx \<Rightarrow> if remembered now retention tx then Some tx else None
      | None \<Rightarrow> None)"

section \<open>The invariant\<close>

definition ct_key :: "CompletedTransaction \<Rightarrow> string \<times> u32" where
  "ct_key c = (ct_client_addr c, ct_xid c)"

definition tracker_inv :: "nat \<Rightarrow> TransactionTracker \<Rightarrow> bool" where
  "tracker_inv now tracker \<longleftrightarrow>
     sorted (map ct_completed_at (ts_completed_order (tt_state tracker))) \<and>
     (\<forall>c \<in> set (ts_completed_order (tt_state tracker)). ct_completed_at c \<le> now) \<and>
     (\<forall>k t. tracker_view tracker k = Some (Completed t) \<longrightarrow>
       (\<exists>c \<in> set (ts_completed_order (tt_state tracker)). ct_key c = k \<and> ct_completed_at c = t)) \<and>
     (\<forall>(client, transactions) \<in> set (ts_transactions (tt_state tracker)). transactions \<noteq> [])"

section \<open>Runs\<close>

datatype tracker_call = Check u32 string | Done u32 string

fun tracker_calls ::
  "(nat \<times> tracker_call) list \<Rightarrow> TransactionTracker \<Rightarrow> bool list \<times> TransactionTracker" where
  "tracker_calls [] tracker = ([], tracker)"
| "tracker_calls ((now, Check xid client) # calls) tracker =
     (let (answer, tracker) = is_retransmission now xid client tracker;
          (answers, tracker) = tracker_calls calls tracker in (answer # answers, tracker))"
| "tracker_calls ((now, Done xid client) # calls) tracker =
     tracker_calls calls (mark_processed now xid client tracker)"

text \<open>The checks that were answered \<open>False\<close>: the transactions that the server executes, with the instant.\<close>

fun executed :: "(nat \<times> tracker_call) list \<Rightarrow> TransactionTracker \<Rightarrow> (nat \<times> string \<times> u32) list" where
  "executed [] tracker = []"
| "executed ((now, Check xid client) # calls) tracker =
     (let (answer, tracker) = is_retransmission now xid client tracker in
      if answer then executed calls tracker else (now, client, xid) # executed calls tracker)"
| "executed ((now, Done xid client) # calls) tracker =
     executed calls (mark_processed now xid client tracker)"

text \<open>The same calls on the specification.\<close>

fun spec_calls ::
  "nat \<Rightarrow> (nat \<times> tracker_call) list \<Rightarrow> (string \<times> u32 \<Rightarrow> TransactionState option) \<Rightarrow>
   bool list \<times> (string \<times> u32 \<Rightarrow> TransactionState option)" where
  "spec_calls retention [] view = ([], view)"
| "spec_calls retention ((now, Check xid client) # calls) view =
     (let view = forget_expired now retention view;
          answer = (view (client, xid) \<noteq> None);
          (answers, view) =
            spec_calls retention calls (if answer then view else view((client, xid) \<mapsto> InProgress)) in
      (answer # answers, view))"
| "spec_calls retention ((now, Done xid client) # calls) view =
     spec_calls retention calls
       (if view (client, xid) = None then view else view((client, xid) \<mapsto> Completed now))"

section \<open>Lemmas\<close>

lemma tx_lookup_update:
  "tx_lookup (AList.update c transactions txs) k =
     (if fst k = c then map_of transactions (snd k) else tx_lookup txs k)"
  by (simp add: tx_lookup_def update_conv')

lemma delete_Nil: "AList.delete a xs = [] \<Longrightarrow> b \<noteq> a \<Longrightarrow> map_of xs b = None"
  using delete_conv [of a xs b] by simp

lemma tx_lookup_remove_expired:
  "tx_lookup (remove_expired c txs) k =
     (if k = ct_key c \<and> tx_lookup txs k = Some (Completed (ct_completed_at c)) then None
      else tx_lookup txs k)"
  by (cases k) (auto simp: remove_expired_def tx_lookup_def ct_key_def update_conv' delete_conv' Let_def
      delete_Nil split: option.splits)

lemma update_not_Nil [simp]: "AList.update a v xs \<noteq> []"
  by (cases xs) auto

lemma update_nonempty:
  "\<forall>(c, v) \<in> set xs. v \<noteq> [] \<Longrightarrow> v \<noteq> [] \<Longrightarrow> \<forall>(c, v) \<in> set (AList.update a v xs). v \<noteq> []"
  by (induction xs) auto

lemma remove_expired_nonempty:
  assumes "\<forall>(c, v) \<in> set txs. v \<noteq> []"
  shows "\<forall>(c, v) \<in> set (remove_expired c txs). v \<noteq> []"
proof (cases "map_of txs (ct_client_addr c)")
  case None
  then show ?thesis using assms by (simp add: remove_expired_def)
next
  case (Some transactions)
  have "\<forall>(c, v) \<in> set (AList.delete a txs). v \<noteq> []" for a
    using assms by (auto simp: AList.delete_eq)
  then show ?thesis
    using Some update_nonempty [OF assms] by (simp add: remove_expired_def Let_def)
qed

text \<open>The loop of \<open>housekeeping\<close> removes the completed transactions of an expired prefix of the queue.\<close>

lemma housekeeping_loop_lookup:
  "tx_lookup (fst (housekeeping_loop now max_age txs order)) k =
     (if \<exists>c \<in> set (takeWhile (\<lambda>c. max_age \<le> now - ct_completed_at c) order).
           ct_key c = k \<and> tx_lookup txs k = Some (Completed (ct_completed_at c))
      then None else tx_lookup txs k)"
proof (induction order arbitrary: txs)
  case (Cons c order)
  then show ?case by (auto simp: tx_lookup_remove_expired)
qed simp

lemma housekeeping_loop_order:
  "snd (housekeeping_loop now max_age txs order) =
     dropWhile (\<lambda>c. max_age \<le> now - ct_completed_at c) order"
  by (induction order arbitrary: txs) auto

lemma housekeeping_loop_nonempty:
  "\<forall>(c, v) \<in> set txs. v \<noteq> [] \<Longrightarrow>
     \<forall>(c, v) \<in> set (fst (housekeeping_loop now max_age txs order)). v \<noteq> []"
proof (induction order arbitrary: txs)
  case (Cons c order)
  from Cons.IH [OF remove_expired_nonempty [OF Cons.prems]] Cons.prems show ?case by simp
qed simp

lemma sorted_takeWhile_all:
  assumes "sorted (map ct_completed_at order)" and "c \<in> set order"
    and "max_age \<le> now - ct_completed_at c"
  shows "c \<in> set (takeWhile (\<lambda>c. max_age \<le> now - ct_completed_at c) order)"
  using assms by (induction order) (auto intro: order_trans [OF _ diff_le_mono2])

lemma housekeeping_fields:
  "ts_transactions (housekeeping now retention st) =
     fst (housekeeping_loop now retention (ts_transactions st) (ts_completed_order st))"
  "ts_completed_order (housekeeping now retention st) =
     dropWhile (\<lambda>c. retention \<le> now - ct_completed_at c) (ts_completed_order st)"
  by (simp_all add: housekeeping_def split_beta Let_def housekeeping_loop_order)

lemma tracker_invD:
  assumes "tracker_inv now tracker"
  shows "sorted (map ct_completed_at (ts_completed_order (tt_state tracker)))"
    and "c \<in> set (ts_completed_order (tt_state tracker)) \<Longrightarrow> ct_completed_at c \<le> now"
    and "tracker_view tracker k = Some (Completed t) \<Longrightarrow>
      \<exists>c \<in> set (ts_completed_order (tt_state tracker)). ct_key c = k \<and> ct_completed_at c = t"
    and "\<forall>(client, transactions) \<in> set (ts_transactions (tt_state tracker)). transactions \<noteq> []"
  using assms unfolding tracker_inv_def by blast+

text \<open>On a tracker with the invariant, \<open>housekeeping\<close> forgets exactly what the specification forgets.\<close>

lemma housekeeping_view:
  assumes "tracker_inv then_now tracker"
  shows "tx_lookup (ts_transactions (housekeeping now retention (tt_state tracker))) =
           forget_expired now retention (tracker_view tracker)"
proof
  fix k
  let ?order = "ts_completed_order (tt_state tracker)"
  let ?expired = "\<lambda>c. retention \<le> now - ct_completed_at c"
  have lookup: "tx_lookup (ts_transactions (housekeeping now retention (tt_state tracker))) k =
      (if \<exists>c \<in> set (takeWhile ?expired ?order). ct_key c = k \<and>
            tracker_view tracker k = Some (Completed (ct_completed_at c))
       then None else tracker_view tracker k)"
    unfolding tracker_view_def housekeeping_fields by (rule housekeeping_loop_lookup)
  show "tx_lookup (ts_transactions (housekeeping now retention (tt_state tracker))) k =
      forget_expired now retention (tracker_view tracker) k"
  proof (cases "\<exists>t. tracker_view tracker k = Some (Completed t)")
    case True
    then obtain t where t: "tracker_view tracker k = Some (Completed t)" by blast
    then obtain c where c: "c \<in> set ?order" "ct_key c = k" "ct_completed_at c = t"
      using tracker_invD(3) [OF assms] by blast
    have "c \<in> set (takeWhile ?expired ?order)" if "retention \<le> now - t"
      using tracker_invD(1) [OF assms] c that by (intro sorted_takeWhile_all) simp_all
    moreover have "retention \<le> now - t" if "d \<in> set (takeWhile ?expired ?order)" "ct_completed_at d = t" for d
      using set_takeWhileD [OF that(1)] that(2) by simp
    ultimately have "(\<exists>c \<in> set (takeWhile ?expired ?order). ct_key c = k \<and>
        tracker_view tracker k = Some (Completed (ct_completed_at c))) \<longleftrightarrow> retention \<le> now - t"
      using t c by (metis TransactionState.inject option.inject)
    with t show ?thesis unfolding lookup by (simp add: forget_expired_def not_le)
  next
    case False
    show ?thesis
    proof (cases "tracker_view tracker k")
      case (Some tx)
      with False show ?thesis by (cases tx) (simp_all add: lookup forget_expired_def)
    qed (simp add: lookup forget_expired_def)
  qed
qed

text \<open>The calls keep the invariant.\<close>

lemma tracker_inv_new: "tracker_inv 0 (tracker_new retention)"
  by (simp add: tracker_inv_def tracker_new_def tracker_view_def tx_lookup_def)

lemma tracker_inv_mono: "tracker_inv now tracker \<Longrightarrow> now \<le> now' \<Longrightarrow> tracker_inv now' tracker"
  unfolding tracker_inv_def by (meson order_trans)

lemma housekeeping_inv:
  assumes "tracker_inv now tracker"
  shows "tracker_inv now (tracker\<lparr>tt_state := housekeeping now retention (tt_state tracker)\<rparr>)"
proof -
  let ?order = "ts_completed_order (tt_state tracker)"
  let ?expired = "\<lambda>c. retention \<le> now - ct_completed_at c"
  let ?new = "tracker\<lparr>tt_state := housekeeping now retention (tt_state tracker)\<rparr>"
  have view: "tracker_view ?new = forget_expired now retention (tracker_view tracker)"
    using housekeeping_view [OF assms, of now retention] by (simp add: tracker_view_def)
  have queued: "\<exists>c \<in> set (dropWhile ?expired ?order). ct_key c = k \<and> ct_completed_at c = t"
    if "tracker_view ?new k = Some (Completed t)" for k t
  proof -
    from that have "tracker_view tracker k = Some (Completed t)" and t: "now - t < retention"
      by (auto simp: view forget_expired_def split: option.splits if_splits)
    then obtain c where c: "c \<in> set ?order" "ct_key c = k" "ct_completed_at c = t"
      using tracker_invD(3) [OF assms] by blast
    then have "c \<notin> set (takeWhile ?expired ?order)"
      using t by (auto dest: set_takeWhileD)
    with c have "c \<in> set (dropWhile ?expired ?order)"
      by (metis Un_iff set_append takeWhile_dropWhile_id)
    with c show ?thesis by blast
  qed
  have "sorted (map ct_completed_at (dropWhile ?expired ?order))"
    using tracker_invD(1) [OF assms] sorted_append
    by (metis map_append takeWhile_dropWhile_id)
  moreover have "\<forall>c \<in> set (dropWhile ?expired ?order). ct_completed_at c \<le> now"
    using tracker_invD(2) [OF assms] by (blast dest: set_dropWhileD)
  ultimately show ?thesis
    unfolding tracker_inv_def
    using queued housekeeping_loop_nonempty [OF tracker_invD(4) [OF assms], of now retention ?order]
    by (simp add: housekeeping_fields)
qed

lemma is_retransmission_view:
  assumes "tracker_inv now' tracker"
  shows "fst (is_retransmission now xid client tracker) \<longleftrightarrow>
           forget_expired now (tt_retention_period tracker) (tracker_view tracker) (client, xid) \<noteq> None"
    and "tracker_view (snd (is_retransmission now xid client tracker)) =
           (let view = forget_expired now (tt_retention_period tracker) (tracker_view tracker) in
            if view (client, xid) = None then view((client, xid) \<mapsto> InProgress) else view)"
proof -
  let ?st = "housekeeping now (tt_retention_period tracker) (tt_state tracker)"
  let ?txs = "case map_of (ts_transactions ?st) client of Some t \<Rightarrow> t | None \<Rightarrow> []"
  have view: "tx_lookup (ts_transactions ?st) = forget_expired now (tt_retention_period tracker) (tracker_view tracker)"
    by (rule housekeeping_view [OF assms])
  have txs: "map_of ?txs x = tx_lookup (ts_transactions ?st) (client, x)" for x
    by (simp add: tx_lookup_def split: option.splits)
  show "fst (is_retransmission now xid client tracker) \<longleftrightarrow>
      forget_expired now (tt_retention_period tracker) (tracker_view tracker) (client, xid) \<noteq> None"
    by (simp only: is_retransmission_def Let_def txs view fst_conv if_distrib [of fst] split: if_split) simp
  have "tx_lookup (AList.update client (AList.update xid InProgress ?txs) (ts_transactions ?st)) =
      (tx_lookup (ts_transactions ?st))((client, xid) \<mapsto> InProgress)"
    by (rule ext) (auto simp: tx_lookup_update update_conv' txs)
  then show "tracker_view (snd (is_retransmission now xid client tracker)) =
      (let view = forget_expired now (tt_retention_period tracker) (tracker_view tracker) in
       if view (client, xid) = None then view((client, xid) \<mapsto> InProgress) else view)"
    by (simp add: is_retransmission_def Let_def txs view tracker_view_def)
qed

lemma is_retransmission_inv:
  assumes "tracker_inv now tracker"
  shows "tracker_inv now (snd (is_retransmission now xid client tracker))"
proof -
  let ?st = "housekeeping now (tt_retention_period tracker) (tt_state tracker)"
  have inv: "tracker_inv now (tracker\<lparr>tt_state := ?st\<rparr>)"
    by (rule housekeeping_inv [OF assms])
  let ?new = "snd (is_retransmission now xid client tracker)"
  have order: "ts_completed_order (tt_state ?new) = ts_completed_order ?st"
    by (simp add: is_retransmission_def Let_def)
  have view: "tracker_view (tracker\<lparr>tt_state := ?st\<rparr>) k = Some (Completed t)"
    if "tracker_view ?new k = Some (Completed t)" for k t
    using that is_retransmission_view(2) [OF assms] housekeeping_view [OF assms]
    by (auto simp: Let_def tracker_view_def split: if_splits)
  have "\<forall>(c, v) \<in> set (ts_transactions (tt_state ?new)). v \<noteq> []"
    using tracker_invD(4) [OF inv]
      update_nonempty [of "ts_transactions ?st" "AList.update xid InProgress v" client for v]
    by (simp add: is_retransmission_def Let_def update_nonempty)
  then show ?thesis
    using tracker_invD(1-3) [OF inv] view unfolding tracker_inv_def order by simp
qed

lemma mark_processed_view:
  "tracker_view (mark_processed now xid client tracker) =
     (if tracker_view tracker (client, xid) = None then tracker_view tracker
      else (tracker_view tracker)((client, xid) \<mapsto> Completed now))"
  by (rule ext)
    (auto simp: mark_processed_def tracker_view_def tx_lookup_def update_conv' Let_def split: option.splits)

lemma mark_processed_inv:
  assumes "tracker_inv now tracker"
  shows "tracker_inv now (mark_processed now xid client tracker)"
proof (cases "tracker_view tracker (client, xid)")
  case None
  then have "mark_processed now xid client tracker = tracker"
    by (auto simp: mark_processed_def tracker_view_def tx_lookup_def Let_def split: option.splits)
  then show ?thesis using assms by simp
next
  case (Some tx)
  then obtain transactions where txs: "map_of (ts_transactions (tt_state tracker)) client = Some transactions"
    "map_of transactions xid = Some tx"
    by (auto simp: tracker_view_def tx_lookup_def bind_eq_Some_conv)
  let ?new = "mark_processed now xid client tracker"
  let ?c = "\<lparr>ct_client_addr = client, ct_xid = xid, ct_completed_at = now\<rparr>"
  have order: "ts_completed_order (tt_state ?new) = ts_completed_order (tt_state tracker) @ [?c]"
    by (simp add: mark_processed_def txs Let_def)
  have "\<exists>c \<in> set (ts_completed_order (tt_state tracker) @ [?c]). ct_key c = k \<and> ct_completed_at c = t"
    if "tracker_view ?new k = Some (Completed t)" for k t
    using that Some tracker_invD(3) [OF assms, of k t]
    by (cases "k = (client, xid)") (auto simp: mark_processed_view ct_key_def)
  moreover have "\<forall>(c, v) \<in> set (ts_transactions (tt_state ?new)). v \<noteq> []"
    using update_nonempty [OF tracker_invD(4) [OF assms], of "AList.update xid (Completed now) transactions"]
    by (simp add: mark_processed_def txs Let_def)
  ultimately show ?thesis
    unfolding tracker_inv_def order
    using tracker_invD(1,2) [OF assms] by (simp add: sorted_append)
qed

lemma retention_kept [simp]:
  "tt_retention_period (snd (is_retransmission now xid client tracker)) = tt_retention_period tracker"
  "tt_retention_period (mark_processed now xid client tracker) = tt_retention_period tracker"
  by (simp_all add: is_retransmission_def mark_processed_def Let_def split: option.splits)

lemma tracker_calls_spec:
  "tracker_inv now tracker \<Longrightarrow> sorted (now # map fst calls) \<Longrightarrow>
     fst (tracker_calls calls tracker) =
       fst (spec_calls (tt_retention_period tracker) calls (tracker_view tracker)) \<and>
     tracker_view (snd (tracker_calls calls tracker)) =
       snd (spec_calls (tt_retention_period tracker) calls (tracker_view tracker))"
proof (induction calls arbitrary: tracker now)
  case (Cons a calls)
  obtain t call where a: "a = (t, call)" by fastforce
  from Cons a have inv: "tracker_inv t tracker" and sorted: "sorted (t # map fst calls)"
    by (auto intro: tracker_inv_mono)
  show ?case
  proof (cases call)
    case (Check xid client)
    show ?thesis
      using Cons.IH [OF is_retransmission_inv [OF inv, of xid client] sorted]
        is_retransmission_view [OF inv, of t xid client]
      by (simp add: a Check split_beta Let_def fun_upd_def split: if_splits)
  next
    case (Done xid client)
    show ?thesis
      using Cons.IH [OF mark_processed_inv [OF inv] sorted]
      by (simp add: a Done mark_processed_view)
  qed
qed simp

lemma executed_clock: "(t, k) \<in> set (executed calls tracker) \<Longrightarrow> t \<in> fst ` set calls"
proof (induction calls arbitrary: tracker)
  case (Cons a calls)
  then show ?case
    by (cases a; cases "snd a") (auto simp: split_beta Let_def split: if_splits)
qed simp

text \<open>A transaction that is known from the instant \<open>t0\<close> on is not executed in the retention period after it.\<close>

lemma executed_later:
  "tracker_inv now tracker \<Longrightarrow> sorted (now # map fst calls) \<Longrightarrow> t0 \<le> now \<Longrightarrow>
   tracker_view tracker k = Some InProgress \<or> (\<exists>t \<ge> t0. tracker_view tracker k = Some (Completed t)) \<Longrightarrow>
   (t1, k) \<in> set (executed calls tracker) \<Longrightarrow> t0 + tt_retention_period tracker \<le> t1"
proof (induction calls arbitrary: tracker now)
  case (Cons a calls)
  obtain t call where a: "a = (t, call)" by fastforce
  from Cons a have inv: "tracker_inv t tracker" and sorted: "sorted (t # map fst calls)"
    and t: "t0 \<le> t"
    by (auto intro: tracker_inv_mono)
  show ?case
  proof (cases call)
    case (Check xid client)
    let ?view = "forget_expired t (tt_retention_period tracker) (tracker_view tracker)"
    let ?new = "snd (is_retransmission t xid client tracker)"
    have "t \<le> t1"
      using executed_clock [OF Cons.prems(5)] sorted by (auto simp: a)
    show ?thesis
    proof (cases "?view k")
      case None
      with Cons.prems(4) obtain t' where "t0 \<le> t'" "tt_retention_period tracker \<le> t - t'"
        by (auto simp: forget_expired_def not_less split: if_splits)
      with t have "t0 + tt_retention_period tracker \<le> t" by linarith
      with \<open>t \<le> t1\<close> show ?thesis by simp
    next
      case (Some tx)
      then have "tracker_view ?new k = tracker_view tracker k"
        using is_retransmission_view(2) [OF inv, of t xid client]
        by (auto simp: Let_def forget_expired_def split: option.splits if_splits)
      moreover have "(t1, k) \<in> set (executed calls ?new)"
        using Cons.prems(5) Some is_retransmission_view(1) [OF inv, of t xid client]
        by (auto simp: a Check split_beta Let_def split: if_splits)
      ultimately show ?thesis
        using Cons.IH [OF is_retransmission_inv [OF inv, of xid client] sorted t] Cons.prems(4) by simp
    qed
  next
    case (Done xid client)
    have "tracker_view (mark_processed t xid client tracker) k = Some InProgress \<or>
        (\<exists>t' \<ge> t0. tracker_view (mark_processed t xid client tracker) k = Some (Completed t'))"
      using Cons.prems(4) t by (auto simp: mark_processed_view)
    then show ?thesis
      using Cons.IH [OF mark_processed_inv [OF inv] sorted t] Cons.prems(5) by (simp add: a Done)
  qed
qed simp

lemma executed_apart:
  "tracker_inv now tracker \<Longrightarrow> sorted (now # map fst calls) \<Longrightarrow>
   sorted_wrt (\<lambda>(t1, k1) (t2, k2). k1 = k2 \<longrightarrow> t1 + tt_retention_period tracker \<le> t2)
     (executed calls tracker)"
proof (induction calls arbitrary: tracker now)
  case (Cons a calls)
  obtain t call where a: "a = (t, call)" by fastforce
  from Cons a have inv: "tracker_inv t tracker" and sorted: "sorted (t # map fst calls)"
    by (auto intro: tracker_inv_mono)
  show ?case
  proof (cases call)
    case (Check xid client)
    let ?new = "snd (is_retransmission t xid client tracker)"
    have "t + tt_retention_period tracker \<le> t1"
      if "\<not> fst (is_retransmission t xid client tracker)" "(t1, client, xid) \<in> set (executed calls ?new)" for t1
    proof -
      have "tracker_view ?new (client, xid) = Some InProgress"
        using that(1) is_retransmission_view [OF inv, of t xid client] by (simp add: Let_def)
      then show ?thesis
        using executed_later [OF is_retransmission_inv [OF inv] sorted order_refl _ that(2)] by simp
    qed
    then show ?thesis
      using Cons.IH [OF is_retransmission_inv [OF inv, of xid client] sorted]
      by (auto simp: a Check split_beta Let_def)
  next
    case (Done xid client)
    show ?thesis
      using Cons.IH [OF mark_processed_inv [OF inv] sorted] by (simp add: a Done)
  qed
qed simp

section \<open>Properties\<close>

text \<open>
  C18: the queue of completed transactions is enough.  On every sequence of calls with a clock that
  does not go back, the tracker gives the answers of the specification that forgets a completed
  transaction exactly when its retention period is over, and ends up knowing the same transactions.
\<close>

theorem tracker_refines_spec:
  assumes "sorted (map fst calls)"
  shows "fst (tracker_calls calls (tracker_new retention)) = fst (spec_calls retention calls Map.empty) \<and>
         tracker_view (snd (tracker_calls calls (tracker_new retention))) =
           snd (spec_calls retention calls Map.empty)"
proof -
  have "tracker_view (tracker_new retention) = Map.empty"
    by (rule ext) (simp add: tracker_view_def tracker_new_def tx_lookup_def)
  then show ?thesis
    using tracker_calls_spec [OF tracker_inv_new, of calls retention] assms
    by (simp add: tracker_new_def)
qed

theorem tracker_refines_spec_witness:
  "fst (tracker_calls [(0, Check 7 ''c''), (1, Done 7 ''c''), (2, Check 7 ''c''), (9, Check 7 ''c'')]
     (tracker_new 5)) = [False, True, False]"
  using tracker_refines_spec [of "[(0, Check 7 ''c''), (1, Done 7 ''c''), (2, Check 7 ''c''), (9, Check 7 ''c'')]" 5]
  by (simp add: forget_expired_def Let_def)

text \<open>
  At most one execution per retention period.  However requests, retransmissions and completions
  are interleaved, two executions of the same transaction of the same client are at least the
  retention period apart.
\<close>

theorem executions_apart:
  assumes "sorted (map fst calls)"
  shows "sorted_wrt (\<lambda>(t1, k1) (t2, k2). k1 = k2 \<longrightarrow> t1 + retention \<le> t2)
           (executed calls (tracker_new retention))"
  using executed_apart [OF tracker_inv_new, of calls retention] assms by (simp add: tracker_new_def)

theorem executions_apart_witness:
  "executed [(0, Check 7 ''c''), (1, Done 7 ''c''), (2, Check 7 ''c''), (9, Check 7 ''c'')] (tracker_new 5) =
     [(0, ''c'', 7), (9, ''c'', 7)] \<and>
   sorted_wrt (\<lambda>(t1, k1) (t2, k2). k1 = k2 \<longrightarrow> t1 + 5 \<le> t2)
     (executed [(0, Check 7 ''c''), (1, Done 7 ''c''), (2, Check 7 ''c''), (9, Check 7 ''c'')] (tracker_new 5))"
proof (rule conjI)
  show "executed [(0, Check 7 ''c''), (1, Done 7 ''c''), (2, Check 7 ''c''), (9, Check 7 ''c'')] (tracker_new 5) =
     [(0, ''c'', 7), (9, ''c'', 7)]"
    by code_simp
qed (rule executions_apart, simp)

end
