(* ===== verification/Legacy_Vfs.thy ===== *)
theory Legacy_Vfs
  imports Legacy_Rpc Legacy_Tracker Rust_Strings
begin

text \<open>
  The file system interface of the demo stack, \<^verbatim>\<open>src/vfs/legacy.rs\<close>, and the context that its handlers
  share, \<^verbatim>\<open>src/context.rs\<close>.

  The trait \<open>NFSFileSystem\<close> is a record of operations over a state; an operation takes the state to a
  result and a new state.  A file system that other tasks change between two calls is covered by a
  state that holds those changes as well.  The methods with a default body are fields too, since an
  implementation may override them, and their defaults are the definitions \<open>default_\<dots>\<close>.  The
  generation number, a static that is set once from the clock, is an argument of the defaults that
  use it.
\<close>

section \<open>Types\<close>

record DirEntrySimple =
  des_fileid :: fileid3
  des_name :: filename3

record ReadDirSimpleResult =
  rds_entries :: "DirEntrySimple list"
  rds_end :: bool

record LegacyDirEntry =
  lde_fileid :: fileid3
  lde_name :: filename3
  lde_attr :: fattr3

record LegacyReadDirResult =
  rdr_entries :: "LegacyDirEntry list"
  rdr_end :: bool

definition from_readdir_result :: "LegacyReadDirResult \<Rightarrow> ReadDirSimpleResult" where
  "from_readdir_result result =
     \<lparr>rds_entries = map (\<lambda>e. \<lparr>des_fileid = lde_fileid e, des_name = lde_name e\<rparr>) (rdr_entries result),
      rds_end = rdr_end result\<rparr>"

datatype VFSCapabilities = VfsReadOnly | VfsReadWrite

text \<open>The static \<open>GENERATION_NUMBER\<close> and its initialisation from the milliseconds since the epoch.\<close>

definition get_generation_number :: "u64 \<Rightarrow> u64 option \<Rightarrow> u64 \<times> u64 option" where
  "get_generation_number now_millis static =
     (case static of None \<Rightarrow> (now_millis, Some now_millis) | Some g \<Rightarrow> (g, static))"

section \<open>The trait\<close>

type_synonym ('fs, 'a) fs_op = "'fs \<Rightarrow> (nfsstat3 + 'a) \<times> 'fs"

record 'fs NFSFileSystem =
  l_capabilities :: "'fs \<Rightarrow> VFSCapabilities"
  l_root_dir :: "'fs \<Rightarrow> fileid3"
  l_lookup :: "fileid3 \<Rightarrow> filename3 \<Rightarrow> ('fs, fileid3) fs_op"
  l_getattr :: "fileid3 \<Rightarrow> ('fs, fattr3) fs_op"
  l_setattr :: "fileid3 \<Rightarrow> sattr3 \<Rightarrow> ('fs, fattr3) fs_op"
  l_read :: "fileid3 \<Rightarrow> u64 \<Rightarrow> u32 \<Rightarrow> ('fs, bytes \<times> bool) fs_op"
  l_write :: "fileid3 \<Rightarrow> u64 \<Rightarrow> bytes \<Rightarrow> ('fs, fattr3) fs_op"
  l_create :: "fileid3 \<Rightarrow> filename3 \<Rightarrow> sattr3 \<Rightarrow> ('fs, fileid3 \<times> fattr3) fs_op"
  l_create_exclusive :: "fileid3 \<Rightarrow> filename3 \<Rightarrow> ('fs, fileid3) fs_op"
  l_mkdir :: "fileid3 \<Rightarrow> filename3 \<Rightarrow> ('fs, fileid3 \<times> fattr3) fs_op"
  l_remove :: "fileid3 \<Rightarrow> filename3 \<Rightarrow> ('fs, unit) fs_op"
  l_rename :: "fileid3 \<Rightarrow> filename3 \<Rightarrow> fileid3 \<Rightarrow> filename3 \<Rightarrow> ('fs, unit) fs_op"
  l_readdir :: "fileid3 \<Rightarrow> fileid3 \<Rightarrow> usize \<Rightarrow> ('fs, LegacyReadDirResult) fs_op"
  l_readdir_simple :: "fileid3 \<Rightarrow> usize \<Rightarrow> ('fs, ReadDirSimpleResult) fs_op"
  l_symlink :: "fileid3 \<Rightarrow> filename3 \<Rightarrow> nfspath3 \<Rightarrow> sattr3 \<Rightarrow> ('fs, fileid3 \<times> fattr3) fs_op"
  l_readlink :: "fileid3 \<Rightarrow> ('fs, nfspath3) fs_op"
  l_fsinfo :: "fileid3 \<Rightarrow> ('fs, fsinfo3) fs_op"
  l_id_to_fh :: "fileid3 \<Rightarrow> nfs_fh3"
  l_fh_to_id :: "nfs_fh3 \<Rightarrow> nfsstat3 + fileid3"
  l_path_to_id :: "bytes \<Rightarrow> ('fs, fileid3) fs_op"
  l_serverid :: bytes

section \<open>Default methods\<close>

definition default_readdir_simple ::
  "(fileid3 \<Rightarrow> fileid3 \<Rightarrow> usize \<Rightarrow> ('fs, LegacyReadDirResult) fs_op) \<Rightarrow>
   fileid3 \<Rightarrow> usize \<Rightarrow> ('fs, ReadDirSimpleResult) fs_op" where
  "default_readdir_simple readdir dirid count fs =
     (case readdir dirid 0 count fs of
        (Inl stat, fs) \<Rightarrow> (Inl stat, fs)
      | (Inr result, fs) \<Rightarrow> (Inr (from_readdir_result result), fs))"

text \<open>The match that turns the result of \<open>getattr\<close> into optional attributes.\<close>

fun post_attr :: "nfsstat3 + fattr3 \<Rightarrow> post_op_attr" where
  "post_attr (Inr v) = Some v"
| "post_attr (Inl _) = None"

definition default_fsinfo :: "(fileid3 \<Rightarrow> ('fs, fattr3) fs_op) \<Rightarrow> fileid3 \<Rightarrow> ('fs, fsinfo3) fs_op" where
  "default_fsinfo getattr root_fileid fs =
     (let (attr, fs) = getattr root_fileid fs in
      (Inr \<lparr>i3_obj_attributes = post_attr attr,
            i3_rtmax = 1024 * 1024, i3_rtpref = 1024 * 124, i3_rtmult = 1024 * 1024,
            i3_wtmax = 1024 * 1024, i3_wtpref = 1024 * 1024, i3_wtmult = 1024 * 1024,
            i3_dtpref = 1024 * 1024, i3_maxfilesize = 128 * 1024 * 1024 * 1024,
            i3_time_delta = \<lparr>t3_seconds = 0, t3_nseconds = 1000000\<rparr>,
            i3_properties = FSF_SYMLINK OR FSF_HOMOGENEOUS OR FSF_CANSETTIME\<rparr>, fs))"

definition default_id_to_fh :: "u64 \<Rightarrow> fileid3 \<Rightarrow> nfs_fh3" where
  "default_id_to_fh gennum i = \<lparr>fh_data = le64 gennum @ le64 i\<rparr>"

definition default_fh_to_id :: "u64 \<Rightarrow> nfs_fh3 \<Rightarrow> nfsstat3 + fileid3" where
  "default_fh_to_id gennum h =
     (if length (fh_data h) \<noteq> 16 then Inl NFS3ERR_BADHANDLE
      else
        let gen = u64_of_le (take 8 (fh_data h)); i = u64_of_le (take 8 (drop 8 (fh_data h))) in
        if gen < gennum then Inl NFS3ERR_STALE
        else if gennum < gen then Inl NFS3ERR_BADHANDLE
        else Inr i)"

fun walk_path ::
  "(fileid3 \<Rightarrow> filename3 \<Rightarrow> ('fs, fileid3) fs_op) \<Rightarrow> bytes list \<Rightarrow> fileid3 \<Rightarrow> ('fs, fileid3) fs_op" where
  "walk_path lookup [] fid fs = (Inr fid, fs)"
| "walk_path lookup (component # splits) fid fs =
     (if component = [] then walk_path lookup splits fid fs
      else
        case lookup fid component fs of
          (Inl stat, fs) \<Rightarrow> (Inl stat, fs)
        | (Inr fid, fs) \<Rightarrow> walk_path lookup splits fid fs)"

definition default_path_to_id ::
  "('fs \<Rightarrow> fileid3) \<Rightarrow> (fileid3 \<Rightarrow> filename3 \<Rightarrow> ('fs, fileid3) fs_op) \<Rightarrow> bytes \<Rightarrow> ('fs, fileid3) fs_op" where
  "default_path_to_id root_dir lookup path fs = walk_path lookup (split_slash path) (root_dir fs) fs"

definition default_serverid :: "u64 \<Rightarrow> bytes" where
  "default_serverid gennum = le64 gennum"

section \<open>The context of a call\<close>

record 'fs RPCContext =
  ctx_local_port :: u16
  ctx_client_addr :: string
  ctx_auth :: auth_unix
  ctx_vfs :: "'fs NFSFileSystem"
  ctx_mount_signal :: bool
  ctx_export_name :: str

section \<open>Lemmas\<close>

lemma post_attr_None [simp]: "post_attr (Inl e) = None"
  by simp

text \<open>A handle is accepted exactly when the running server has made it, and then it names its file.\<close>

lemma default_fh_to_id_Inr:
  "default_fh_to_id gennum h = Inr i \<longleftrightarrow> h = default_id_to_fh gennum i"
proof
  assume ok: "default_fh_to_id gennum h = Inr i"
  then have len: "length (fh_data h) = 16" and
    gen: "u64_of_le (take 8 (fh_data h)) = gennum" and i: "u64_of_le (take 8 (drop 8 (fh_data h))) = i"
    by (auto simp: default_fh_to_id_def Let_def split: if_splits)
  have "le64 gennum = take 8 (fh_data h)" and "le64 i = take 8 (drop 8 (fh_data h))"
    unfolding gen [symmetric] i [symmetric] by (rule le64_u64_of_le; simp add: len)+
  then have "le64 gennum @ le64 i = fh_data h"
    using len by (simp add: append_take_drop_id)
  then show "h = default_id_to_fh gennum i"
    by (cases h) (simp add: default_id_to_fh_def)
qed (simp add: default_fh_to_id_def default_id_to_fh_def Let_def)

lemma default_id_to_fh_ok: "nfs_fh3_ok (default_id_to_fh gennum i)"
  by (simp add: nfs_fh3_ok_def default_id_to_fh_def)

lemma walk_path_filter:
  "walk_path lookup splits fid fs = walk_path lookup (filter (\<lambda>c. c \<noteq> []) splits) fid fs"
  by (induction lookup splits fid fs rule: walk_path.induct) (auto split: sum.splits prod.splits)

lemma walk_path_append:
  "walk_path lookup (xs @ ys) fid fs =
     (case walk_path lookup xs fid fs of
        (Inl stat, fs) \<Rightarrow> (Inl stat, fs)
      | (Inr fid, fs) \<Rightarrow> walk_path lookup ys fid fs)"
  by (induction lookup xs fid fs rule: walk_path.induct) (auto split: sum.splits prod.splits)

end
