(* ===== verification/Legacy_Handlers.thy ===== *)
theory Legacy_Handlers
  imports Legacy_Vfs
begin

text \<open>
  The procedures of the demo stack: the NFS program of \<^verbatim>\<open>src/nfs_handlers.rs\<close>, the MOUNT program of
  \<^verbatim>\<open>src/mount_handlers.rs\<close> and the portmapper of \<^verbatim>\<open>src/portmap_handlers.rs\<close>.

  A handler reads its arguments from the rest of the request, calls the file system and appends to
  the reply.  The state \<open>hs\<close> holds these three and the signals sent to the mount listener; a handler
  is a function on it that may fail, with the operator \<open>?\<close> as \<open>h_bind\<close>.  Where the source subtracts on
  \<open>usize\<close>, the argument \<open>checks\<close> says whether the program is built with overflow checks, and so panics,
  or wraps around.  Sending to the mount listener is taken to complete.
\<close>

section \<open>Handlers\<close>

record 'fs hs =
  hs_input :: bytes
  hs_output :: bytes
  hs_fs :: 'fs
  hs_signals :: "bool list"

type_synonym ('fs, 'a) hm = "'fs hs \<Rightarrow> (LegacyError + 'a) \<times> 'fs hs"

definition h_return :: "'a \<Rightarrow> ('fs, 'a) hm" where
  "h_return a s = (Inr a, s)"

definition h_bind :: "('fs, 'a) hm \<Rightarrow> ('a \<Rightarrow> ('fs, 'b) hm) \<Rightarrow> ('fs, 'b) hm" where
  "h_bind m k s = (case m s of (Inl e, s) \<Rightarrow> (Inl e, s) | (Inr a, s) \<Rightarrow> k a s)"

definition h_lift :: "LegacyError + 'a \<Rightarrow> ('fs, 'a) hm" where
  "h_lift r s = (r, s)"

definition h_read :: "'a rd \<Rightarrow> ('fs, 'a) hm" where
  "h_read deserialize s =
     (case deserialize (hs_input s) of
        Inl e \<Rightarrow> (Inl e, s)
      | Inr (a, rest) \<Rightarrow> (Inr a, s\<lparr>hs_input := rest\<rparr>))"

definition h_write :: "ser list \<Rightarrow> ('fs, unit) hm" where
  "h_write sers s =
     (case xdr_struct sers (hs_output s) of
        Inl e \<Rightarrow> (Inl e, s)
      | Inr out \<Rightarrow> (Inr (), s\<lparr>hs_output := out\<rparr>))"

definition h_vfs :: "('fs, 'a) fs_op \<Rightarrow> ('fs, nfsstat3 + 'a) hm" where
  "h_vfs operation s = (let (r, fs) = operation (hs_fs s) in (Inr r, s\<lparr>hs_fs := fs\<rparr>))"

definition h_writable :: "'fs RPCContext \<Rightarrow> ('fs, bool) hm" where
  "h_writable ctx s = (Inr (l_capabilities (ctx_vfs ctx) (hs_fs s) = VfsReadWrite), s)"

definition h_signal :: "'fs RPCContext \<Rightarrow> bool \<Rightarrow> ('fs, unit) hm" where
  "h_signal ctx mounted s =
     (Inr (), if ctx_mount_signal ctx then s\<lparr>hs_signals := hs_signals s @ [mounted]\<rparr> else s)"

text \<open>The attributes of a file before and after an operation.\<close>

definition wcc_of_attr :: "fattr3 \<Rightarrow> wcc_attr" where
  "wcc_of_attr v = \<lparr>w3_size = f3_size v, w3_mtime = f3_mtime v, w3_ctime = f3_ctime v\<rparr>"

fun pre_attr :: "nfsstat3 + fattr3 \<Rightarrow> pre_op_attr" where
  "pre_attr (Inr v) = Some (wcc_of_attr v)"
| "pre_attr (Inl _) = None"

definition success :: "u32 \<Rightarrow> ser" where
  "success xid = rpc_msg_serialize (make_success_reply xid)"

section \<open>Reading procedures\<close>

definition nfsproc3_null :: "u32 \<Rightarrow> ('fs, unit) hm" where
  "nfsproc3_null xid = h_write [success xid]"

definition nfsproc3_getattr :: "u32 \<Rightarrow> 'fs RPCContext \<Rightarrow> ('fs, unit) hm" where
  "nfsproc3_getattr xid ctx =
     h_bind (h_read nfs_fh3_deserialize) (\<lambda>handle.
     case l_fh_to_id (ctx_vfs ctx) handle of
       Inl stat \<Rightarrow> h_write [success xid, nfsstat3_serialize stat]
     | Inr fid \<Rightarrow>
         h_bind (h_vfs (l_getattr (ctx_vfs ctx) fid)) (\<lambda>r.
         case r of
           Inr attr \<Rightarrow> h_write [success xid, nfsstat3_serialize NFS3_OK, fattr3_serialize attr]
         | Inl stat \<Rightarrow> h_write [success xid, nfsstat3_serialize stat]))"

definition nfsproc3_lookup :: "u32 \<Rightarrow> 'fs RPCContext \<Rightarrow> ('fs, unit) hm" where
  "nfsproc3_lookup xid ctx =
     h_bind (h_read diropargs3_deserialize) (\<lambda>dirops.
     case l_fh_to_id (ctx_vfs ctx) (do_dir dirops) of
       Inl stat \<Rightarrow> h_write [success xid, nfsstat3_serialize stat, post_op_attr_serialize None]
     | Inr dirid \<Rightarrow>
         h_bind (h_vfs (l_getattr (ctx_vfs ctx) dirid)) (\<lambda>dir_attr.
         h_bind (h_vfs (l_lookup (ctx_vfs ctx) dirid (do_name dirops))) (\<lambda>r.
         case r of
           Inr fid \<Rightarrow>
             h_bind (h_vfs (l_getattr (ctx_vfs ctx) fid)) (\<lambda>obj_attr.
             h_write [success xid, nfsstat3_serialize NFS3_OK,
               nfs_fh3_serialize (l_id_to_fh (ctx_vfs ctx) fid),
               post_op_attr_serialize (post_attr obj_attr), post_op_attr_serialize (post_attr dir_attr)])
         | Inl stat \<Rightarrow>
             h_write [success xid, nfsstat3_serialize stat, post_op_attr_serialize (post_attr dir_attr)])))"

record READ3args =
  ra_file :: nfs_fh3
  ra_offset :: u64
  ra_count :: u32

definition READ3args_deserialize :: "READ3args rd" where
  "READ3args_deserialize =
     rd_bind nfs_fh3_deserialize (\<lambda>file.
     rd_bind u64_deserialize (\<lambda>offset.
     rd_bind u32_deserialize (\<lambda>count.
     rd_return \<lparr>ra_file = file, ra_offset = offset, ra_count = count\<rparr>)))"

record READ3resok =
  rr_file_attributes :: post_op_attr
  rr_count :: u32
  rr_eof :: bool
  rr_data :: bytes

definition READ3resok_serialize :: "READ3resok \<Rightarrow> ser" where
  "READ3resok_serialize r = xdr_struct
     [post_op_attr_serialize (rr_file_attributes r), u32_serialize (rr_count r),
      bool_serialize (rr_eof r), vec_u8_serialize (rr_data r)]"

definition nfsproc3_read :: "u32 \<Rightarrow> 'fs RPCContext \<Rightarrow> ('fs, unit) hm" where
  "nfsproc3_read xid ctx =
     h_bind (h_read READ3args_deserialize) (\<lambda>args.
     case l_fh_to_id (ctx_vfs ctx) (ra_file args) of
       Inl stat \<Rightarrow> h_write [success xid, nfsstat3_serialize stat, post_op_attr_serialize None]
     | Inr fid \<Rightarrow>
         h_bind (h_vfs (l_getattr (ctx_vfs ctx) fid)) (\<lambda>obj_attr.
         h_bind (h_vfs (l_read (ctx_vfs ctx) fid (ra_offset args) (ra_count args))) (\<lambda>r.
         case r of
           Inr (data, eof) \<Rightarrow>
             h_write [success xid, nfsstat3_serialize NFS3_OK,
               READ3resok_serialize
                 \<lparr>rr_file_attributes = post_attr obj_attr, rr_count = of_nat (length data),
                  rr_eof = eof, rr_data = data\<rparr>]
         | Inl stat \<Rightarrow>
             h_write [success xid, nfsstat3_serialize stat, post_op_attr_serialize (post_attr obj_attr)])))"

definition nfsproc3_fsinfo :: "u32 \<Rightarrow> 'fs RPCContext \<Rightarrow> ('fs, unit) hm" where
  "nfsproc3_fsinfo xid ctx =
     h_bind (h_read nfs_fh3_deserialize) (\<lambda>handle.
     case l_fh_to_id (ctx_vfs ctx) handle of
       Inl stat \<Rightarrow> h_write [success xid, nfsstat3_serialize stat, post_op_attr_serialize None]
     | Inr fid \<Rightarrow>
         h_bind (h_vfs (l_fsinfo (ctx_vfs ctx) fid)) (\<lambda>r.
         case r of
           Inr fsinfo \<Rightarrow> h_write [success xid, nfsstat3_serialize NFS3_OK, fsinfo3_serialize fsinfo]
         | Inl stat \<Rightarrow> h_write [success xid, nfsstat3_serialize stat]))"

definition ACCESS3_READ :: u32 where "ACCESS3_READ = 0x0001"
definition ACCESS3_LOOKUP :: u32 where "ACCESS3_LOOKUP = 0x0002"

definition nfsproc3_access :: "u32 \<Rightarrow> 'fs RPCContext \<Rightarrow> ('fs, unit) hm" where
  "nfsproc3_access xid ctx =
     h_bind (h_read nfs_fh3_deserialize) (\<lambda>handle.
     h_bind (h_read u32_deserialize) (\<lambda>access.
     case l_fh_to_id (ctx_vfs ctx) handle of
       Inl stat \<Rightarrow> h_write [success xid, nfsstat3_serialize stat, post_op_attr_serialize None]
     | Inr fid \<Rightarrow>
         h_bind (h_vfs (l_getattr (ctx_vfs ctx) fid)) (\<lambda>obj_attr.
         h_bind (h_writable ctx) (\<lambda>writable.
         h_write [success xid, nfsstat3_serialize NFS3_OK, post_op_attr_serialize (post_attr obj_attr),
           u32_serialize (if writable then access else access AND (ACCESS3_READ OR ACCESS3_LOOKUP))]))))"

record PATHCONF3resok =
  pr_obj_attributes :: post_op_attr
  pr_linkmax :: u32
  pr_name_max :: u32
  pr_no_trunc :: bool
  pr_chown_restricted :: bool
  pr_case_insensitive :: bool
  pr_case_preserving :: bool

definition PATHCONF3resok_serialize :: "PATHCONF3resok \<Rightarrow> ser" where
  "PATHCONF3resok_serialize r = xdr_struct
     [post_op_attr_serialize (pr_obj_attributes r), u32_serialize (pr_linkmax r),
      u32_serialize (pr_name_max r), bool_serialize (pr_no_trunc r),
      bool_serialize (pr_chown_restricted r), bool_serialize (pr_case_insensitive r),
      bool_serialize (pr_case_preserving r)]"

definition nfsproc3_pathconf :: "u32 \<Rightarrow> 'fs RPCContext \<Rightarrow> ('fs, unit) hm" where
  "nfsproc3_pathconf xid ctx =
     h_bind (h_read nfs_fh3_deserialize) (\<lambda>handle.
     case l_fh_to_id (ctx_vfs ctx) handle of
       Inl stat \<Rightarrow> h_write [success xid, nfsstat3_serialize stat, post_op_attr_serialize None]
     | Inr fid \<Rightarrow>
         h_bind (h_vfs (l_getattr (ctx_vfs ctx) fid)) (\<lambda>obj_attr.
         h_write [success xid, nfsstat3_serialize NFS3_OK,
           PATHCONF3resok_serialize
             \<lparr>pr_obj_attributes = post_attr obj_attr, pr_linkmax = 0, pr_name_max = 32768,
              pr_no_trunc = True, pr_chown_restricted = True, pr_case_insensitive = False,
              pr_case_preserving = True\<rparr>]))"

record FSSTAT3resok =
  st_obj_attributes :: post_op_attr
  st_tbytes :: u64
  st_fbytes :: u64
  st_abytes :: u64
  st_tfiles :: u64
  st_ffiles :: u64
  st_afiles :: u64
  st_invarsec :: u32

definition FSSTAT3resok_serialize :: "FSSTAT3resok \<Rightarrow> ser" where
  "FSSTAT3resok_serialize r = xdr_struct
     [post_op_attr_serialize (st_obj_attributes r), u64_serialize (st_tbytes r),
      u64_serialize (st_fbytes r), u64_serialize (st_abytes r), u64_serialize (st_tfiles r),
      u64_serialize (st_ffiles r), u64_serialize (st_afiles r), u32_serialize (st_invarsec r)]"

definition nfsproc3_fsstat :: "u32 \<Rightarrow> 'fs RPCContext \<Rightarrow> ('fs, unit) hm" where
  "nfsproc3_fsstat xid ctx =
     h_bind (h_read nfs_fh3_deserialize) (\<lambda>handle.
     case l_fh_to_id (ctx_vfs ctx) handle of
       Inl stat \<Rightarrow> h_write [success xid, nfsstat3_serialize stat, post_op_attr_serialize None]
     | Inr fid \<Rightarrow>
         h_bind (h_vfs (l_getattr (ctx_vfs ctx) fid)) (\<lambda>obj_attr.
         h_write [success xid, nfsstat3_serialize NFS3_OK,
           FSSTAT3resok_serialize
             \<lparr>st_obj_attributes = post_attr obj_attr,
              st_tbytes = 1024 * 1024 * 1024 * 1024, st_fbytes = 1024 * 1024 * 1024 * 1024,
              st_abytes = 1024 * 1024 * 1024 * 1024, st_tfiles = 1024 * 1024 * 1024,
              st_ffiles = 1024 * 1024 * 1024, st_afiles = 1024 * 1024 * 1024,
              st_invarsec = 4294967295\<rparr>]))"

definition nfsproc3_readlink :: "u32 \<Rightarrow> 'fs RPCContext \<Rightarrow> ('fs, unit) hm" where
  "nfsproc3_readlink xid ctx =
     h_bind (h_read nfs_fh3_deserialize) (\<lambda>handle.
     case l_fh_to_id (ctx_vfs ctx) handle of
       Inl stat \<Rightarrow> h_write [success xid, nfsstat3_serialize stat]
     | Inr fid \<Rightarrow>
         h_bind (h_vfs (l_getattr (ctx_vfs ctx) fid)) (\<lambda>attr.
         case attr of
           Inl stat \<Rightarrow> h_write [success xid, nfsstat3_serialize stat, post_op_attr_serialize None]
         | Inr v \<Rightarrow>
             h_bind (h_vfs (l_readlink (ctx_vfs ctx) fid)) (\<lambda>r.
             case r of
               Inr path \<Rightarrow>
                 h_write [success xid, nfsstat3_serialize NFS3_OK, post_op_attr_serialize (Some v),
                   vec_u8_serialize path]
             | Inl stat \<Rightarrow>
                 h_write [success xid, nfsstat3_serialize stat, post_op_attr_serialize (Some v)])))"

section \<open>Directory listings\<close>

text \<open>\<^verbatim>\<open>src/write_counter.rs\<close>: a writer that counts what is written through it.\<close>

record WriteCounter =
  wc_inner :: bytes
  wc_count :: usize

definition write_counter_new :: "bytes \<Rightarrow> WriteCounter" where
  "write_counter_new inner = \<lparr>wc_inner = inner, wc_count = 0\<rparr>"

definition counter_write :: "bytes \<Rightarrow> WriteCounter \<Rightarrow> WriteCounter" where
  "counter_write buf w = \<lparr>wc_inner = wc_inner w @ buf, wc_count = wc_count w + length buf\<rparr>"

definition bytes_written :: "WriteCounter \<Rightarrow> usize" where
  "bytes_written w = wc_count w"

definition counted :: "ser list \<Rightarrow> WriteCounter \<Rightarrow> LegacyError + WriteCounter" where
  "counted sers w = r_bind (xdr_struct sers []) (\<lambda>buf. Inr (counter_write buf w))"

definition usize_sub :: "bool \<Rightarrow> usize \<Rightarrow> usize \<Rightarrow> LegacyError + usize" where
  "usize_sub checks a b =
     (if b \<le> a then Inr (a - b) else if checks then Inl Panicked else Inr (a + usize_bound - b))"

record READDIRPLUS3args =
  rp_dir :: nfs_fh3
  rp_cookie :: u64
  rp_cookieverf :: bytes
  rp_dircount :: u32
  rp_maxcount :: u32

definition READDIRPLUS3args_deserialize :: "READDIRPLUS3args rd" where
  "READDIRPLUS3args_deserialize =
     rd_bind nfs_fh3_deserialize (\<lambda>dir.
     rd_bind u64_deserialize (\<lambda>cookie.
     rd_bind (array_u8_deserialize 8) (\<lambda>cookieverf.
     rd_bind u32_deserialize (\<lambda>dircount.
     rd_bind u32_deserialize (\<lambda>maxcount.
     rd_return \<lparr>rp_dir = dir, rp_cookie = cookie, rp_cookieverf = cookieverf, rp_dircount = dircount,
       rp_maxcount = maxcount\<rparr>)))))"

record entry3 =
  e3_fileid :: fileid3
  e3_name :: filename3
  e3_cookie :: u64

definition entry3_serialize :: "entry3 \<Rightarrow> ser" where
  "entry3_serialize e = xdr_struct
     [u64_serialize (e3_fileid e), vec_u8_serialize (e3_name e), u64_serialize (e3_cookie e)]"

record READDIR3args =
  rd_dir :: nfs_fh3
  rd_cookie :: u64
  rd_cookieverf :: bytes
  rd_dircount :: u32

definition READDIR3args_deserialize :: "READDIR3args rd" where
  "READDIR3args_deserialize =
     rd_bind nfs_fh3_deserialize (\<lambda>dir.
     rd_bind u64_deserialize (\<lambda>cookie.
     rd_bind (array_u8_deserialize 8) (\<lambda>cookieverf.
     rd_bind u32_deserialize (\<lambda>dircount.
     rd_return \<lparr>rd_dir = dir, rd_cookie = cookie, rd_cookieverf = cookieverf, rd_dircount = dircount\<rparr>))))"

record entryplus3 =
  ep_fileid :: fileid3
  ep_name :: filename3
  ep_cookie :: u64
  ep_name_attributes :: post_op_attr
  ep_name_handle :: post_op_fh3

definition entryplus3_serialize :: "entryplus3 \<Rightarrow> ser" where
  "entryplus3_serialize e = xdr_struct
     [u64_serialize (ep_fileid e), vec_u8_serialize (ep_name e), u64_serialize (ep_cookie e),
      post_op_attr_serialize (ep_name_attributes e), post_op_fh3_serialize (ep_name_handle e)]"

text \<open>The cookie verifier that is sent: the modification time of the directory, when it has one.\<close>

fun dirversion :: "nfsstat3 + fattr3 \<Rightarrow> bytes" where
  "dirversion (Inr v) =
     be64 (push_bit 32 (ucast (t3_seconds (f3_mtime v))) OR ucast (t3_nseconds (f3_mtime v)))"
| "dirversion (Inl _) = replicate 8 0"

definition dircount_of :: "filename3 \<Rightarrow> usize" where
  "dircount_of name = 8 + 4 + length name + 8"

definition make_entryplus :: "(fileid3 \<Rightarrow> nfs_fh3) \<Rightarrow> LegacyDirEntry \<Rightarrow> entryplus3" where
  "make_entryplus id_to_fh e =
     \<lparr>ep_fileid = lde_fileid e, ep_name = lde_name e, ep_cookie = lde_fileid e,
      ep_name_attributes = Some (lde_attr e), ep_name_handle = Some (id_to_fh (lde_fileid e))\<rparr>"

text \<open>
  The loops over the entries: they return the writer and whether every entry was written.  The
  second limit, on the bytes of the names, is only kept by \<open>READDIRPLUS\<close>.
\<close>

fun plus_entries ::
  "(fileid3 \<Rightarrow> nfs_fh3) \<Rightarrow> usize \<Rightarrow> usize \<Rightarrow> LegacyDirEntry list \<Rightarrow> WriteCounter \<Rightarrow> usize \<Rightarrow>
   LegacyError + (WriteCounter \<times> bool)" where
  "plus_entries id_to_fh max_bytes_allowed max_dircount_bytes [] w accumulated_dircount = Inr (w, True)"
| "plus_entries id_to_fh max_bytes_allowed max_dircount_bytes (e # entries) w accumulated_dircount =
     r_bind (xdr_struct [bool_serialize True, entryplus3_serialize (make_entryplus id_to_fh e)] [])
       (\<lambda>write_buf.
     let added_dircount = dircount_of (lde_name e) in
     if length write_buf + bytes_written w < max_bytes_allowed \<and>
        added_dircount + accumulated_dircount < max_dircount_bytes
     then plus_entries id_to_fh max_bytes_allowed max_dircount_bytes entries (counter_write write_buf w)
            (accumulated_dircount + added_dircount)
     else Inr (w, False))"

fun simple_entries ::
  "usize \<Rightarrow> DirEntrySimple list \<Rightarrow> WriteCounter \<Rightarrow> LegacyError + (WriteCounter \<times> bool)" where
  "simple_entries max_bytes_allowed [] w = Inr (w, True)"
| "simple_entries max_bytes_allowed (e # entries) w =
     r_bind (xdr_struct [bool_serialize True,
               entry3_serialize
                 \<lparr>e3_fileid = des_fileid e, e3_name = des_name e, e3_cookie = des_fileid e\<rparr>] [])
       (\<lambda>write_buf.
     if length write_buf + bytes_written w < max_bytes_allowed
     then simple_entries max_bytes_allowed entries (counter_write write_buf w)
     else Inr (w, False))"

definition h_counted ::
  "(WriteCounter \<Rightarrow> LegacyError + WriteCounter) \<Rightarrow> ('fs, unit) hm" where
  "h_counted f s =
     (case f (write_counter_new (hs_output s)) of
        Inl e \<Rightarrow> (Inl e, s)
      | Inr w \<Rightarrow> (Inr (), s\<lparr>hs_output := wc_inner w\<rparr>))"

definition readdirplus_reply ::
  "u32 \<Rightarrow> (fileid3 \<Rightarrow> nfs_fh3) \<Rightarrow> nfsstat3 + fattr3 \<Rightarrow> usize \<Rightarrow> usize \<Rightarrow> LegacyReadDirResult \<Rightarrow> WriteCounter \<Rightarrow>
   LegacyError + WriteCounter" where
  "readdirplus_reply xid id_to_fh dir_attr max_bytes_allowed max_dircount_bytes result w =
     r_bind (counted [success xid, nfsstat3_serialize NFS3_OK, post_op_attr_serialize (post_attr dir_attr),
               array_u8_serialize (dirversion dir_attr)] w) (\<lambda>w.
     r_bind (plus_entries id_to_fh max_bytes_allowed max_dircount_bytes (rdr_entries result) w 0)
       (\<lambda>(w, all_entries_written).
     counted [bool_serialize False, bool_serialize (if all_entries_written then rdr_end result else False)] w))"

definition readdir_simple_reply ::
  "u32 \<Rightarrow> nfsstat3 + fattr3 \<Rightarrow> usize \<Rightarrow> ReadDirSimpleResult \<Rightarrow> WriteCounter \<Rightarrow> LegacyError + WriteCounter" where
  "readdir_simple_reply xid dir_attr max_bytes_allowed result w =
     r_bind (counted [success xid, nfsstat3_serialize NFS3_OK, post_op_attr_serialize (post_attr dir_attr),
               array_u8_serialize (dirversion dir_attr)] w) (\<lambda>w.
     r_bind (simple_entries max_bytes_allowed (rds_entries result) w) (\<lambda>(w, all_entries_written).
     counted [bool_serialize False, bool_serialize (if all_entries_written then rds_end result else False)] w))"

definition nfsproc3_readdirplus :: "bool \<Rightarrow> u32 \<Rightarrow> 'fs RPCContext \<Rightarrow> ('fs, unit) hm" where
  "nfsproc3_readdirplus checks xid ctx =
     h_bind (h_read READDIRPLUS3args_deserialize) (\<lambda>args.
     case l_fh_to_id (ctx_vfs ctx) (rp_dir args) of
       Inl stat \<Rightarrow> h_write [success xid, nfsstat3_serialize stat, post_op_attr_serialize None]
     | Inr dirid \<Rightarrow>
         h_bind (h_vfs (l_getattr (ctx_vfs ctx) dirid)) (\<lambda>dir_attr.
         h_bind (h_lift (usize_sub checks (unat (rp_maxcount args)) 128)) (\<lambda>max_bytes_allowed.
         h_bind (h_vfs (l_readdir (ctx_vfs ctx) dirid (rp_cookie args) (unat (rp_dircount args div 16)))) (\<lambda>r.
         case r of
           Inr result \<Rightarrow>
             h_counted (readdirplus_reply xid (l_id_to_fh (ctx_vfs ctx)) dir_attr max_bytes_allowed
               (unat (rp_dircount args)) result)
         | Inl stat \<Rightarrow>
             h_write [success xid, nfsstat3_serialize stat, post_op_attr_serialize (post_attr dir_attr)]))))"

definition nfsproc3_readdir :: "bool \<Rightarrow> u32 \<Rightarrow> 'fs RPCContext \<Rightarrow> ('fs, unit) hm" where
  "nfsproc3_readdir checks xid ctx =
     h_bind (h_read READDIR3args_deserialize) (\<lambda>args.
     case l_fh_to_id (ctx_vfs ctx) (rd_dir args) of
       Inl stat \<Rightarrow> h_write [success xid, nfsstat3_serialize stat, post_op_attr_serialize None]
     | Inr dirid \<Rightarrow>
         h_bind (h_vfs (l_getattr (ctx_vfs ctx) dirid)) (\<lambda>dir_attr.
         h_bind (h_lift (usize_sub checks (unat (rd_dircount args)) 128)) (\<lambda>max_bytes_allowed.
         h_bind (h_vfs (l_readdir_simple (ctx_vfs ctx) dirid (unat (rd_dircount args div 16)))) (\<lambda>r.
         case r of
           Inr result \<Rightarrow> h_counted (readdir_simple_reply xid dir_attr max_bytes_allowed result)
         | Inl stat \<Rightarrow>
             h_write [success xid, nfsstat3_serialize stat, post_op_attr_serialize (post_attr dir_attr)]))))"

section \<open>Writing procedures\<close>

datatype stable_how = UNSTABLE | DATA_SYNC | FILE_SYNC

fun stable_how_code :: "stable_how \<Rightarrow> u32" where
  "stable_how_code UNSTABLE = 0"
| "stable_how_code DATA_SYNC = 1"
| "stable_how_code FILE_SYNC = 2"

definition stable_how_serialize :: "stable_how \<Rightarrow> ser" where
  "stable_how_serialize = enum_serialize stable_how_code"

record WRITE3args =
  wa_file :: nfs_fh3
  wa_offset :: u64
  wa_count :: u32
  wa_stable :: u32
  wa_data :: bytes

definition WRITE3args_deserialize :: "WRITE3args rd" where
  "WRITE3args_deserialize =
     rd_bind nfs_fh3_deserialize (\<lambda>file.
     rd_bind u64_deserialize (\<lambda>offset.
     rd_bind u32_deserialize (\<lambda>count.
     rd_bind u32_deserialize (\<lambda>stable.
     rd_bind vec_u8_deserialize (\<lambda>data.
     rd_return \<lparr>wa_file = file, wa_offset = offset, wa_count = count, wa_stable = stable,
       wa_data = data\<rparr>)))))"

record WRITE3resok =
  wr_file_wcc :: wcc_data
  wr_count :: u32
  wr_committed :: stable_how
  wr_verf :: bytes

definition WRITE3resok_serialize :: "WRITE3resok \<Rightarrow> ser" where
  "WRITE3resok_serialize r = xdr_struct
     [wcc_data_serialize (wr_file_wcc r), u32_serialize (wr_count r),
      stable_how_serialize (wr_committed r), array_u8_serialize (wr_verf r)]"

text \<open>The reply of every writing procedure on a file system without write capabilities.\<close>

definition rofs_reply :: "u32 \<Rightarrow> ('fs, unit) hm" where
  "rofs_reply xid =
     h_write [success xid, nfsstat3_serialize NFS3ERR_ROFS, wcc_data_serialize wcc_data_default3]"

text \<open>The reply with a failure status and empty attributes.\<close>

definition wcc_failure :: "u32 \<Rightarrow> nfsstat3 \<Rightarrow> ('fs, unit) hm" where
  "wcc_failure xid stat =
     h_write [success xid, nfsstat3_serialize stat, wcc_data_serialize wcc_data_default3]"

definition nfsproc3_write :: "u32 \<Rightarrow> 'fs RPCContext \<Rightarrow> ('fs, unit) hm" where
  "nfsproc3_write xid ctx =
     h_bind (h_writable ctx) (\<lambda>writable.
     if \<not> writable then rofs_reply xid
     else
       h_bind (h_read WRITE3args_deserialize) (\<lambda>args.
       if length (wa_data args) \<noteq> unat (wa_count args)
       then h_write [rpc_msg_serialize (garbage_args_reply_message xid)]
       else
         case l_fh_to_id (ctx_vfs ctx) (wa_file args) of
           Inl stat \<Rightarrow> wcc_failure xid stat
         | Inr fid \<Rightarrow>
             h_bind (h_vfs (l_getattr (ctx_vfs ctx) fid)) (\<lambda>pre_obj_attr.
             h_bind (h_vfs (l_write (ctx_vfs ctx) fid (wa_offset args) (wa_data args))) (\<lambda>r.
             case r of
               Inr fattr \<Rightarrow>
                 h_write [success xid, nfsstat3_serialize NFS3_OK,
                   WRITE3resok_serialize
                     \<lparr>wr_file_wcc = \<lparr>wd_before = pre_attr pre_obj_attr, wd_after = Some fattr\<rparr>,
                      wr_count = wa_count args, wr_committed = FILE_SYNC,
                      wr_verf = l_serverid (ctx_vfs ctx)\<rparr>]
             | Inl stat \<Rightarrow> wcc_failure xid stat))))"

datatype createmode3 = UNCHECKED | GUARDED | EXCLUSIVE

fun createmode3_code :: "createmode3 \<Rightarrow> u32" where
  "createmode3_code UNCHECKED = 0"
| "createmode3_code GUARDED = 1"
| "createmode3_code EXCLUSIVE = 2"

definition createmode3_deserialize :: "createmode3 rd" where
  "createmode3_deserialize = enum_deserialize createmode3_code [UNCHECKED, GUARDED, EXCLUSIVE]"

text \<open>
  The second half of \<open>nfsproc3_create\<close>: the call of the file system, the attributes of the directory
  after it, and the reply.
\<close>

definition create_and_reply ::
  "u32 \<Rightarrow> 'fs RPCContext \<Rightarrow> fileid3 \<Rightarrow> filename3 \<Rightarrow> createmode3 \<Rightarrow> sattr3 \<Rightarrow> pre_op_attr \<Rightarrow> ('fs, unit) hm" where
  "create_and_reply xid ctx dirid name createhow target_attributes pre_dir_attr =
     h_bind (if createhow = EXCLUSIVE
             then h_bind (h_vfs (l_create_exclusive (ctx_vfs ctx) dirid name)) (\<lambda>fid.
                    h_return (fid, None))
             else h_bind (h_vfs (l_create (ctx_vfs ctx) dirid name target_attributes)) (\<lambda>res.
                    h_return (case res of
                        Inr (fid, fattr) \<Rightarrow> (Inr fid, Some fattr)
                      | Inl stat \<Rightarrow> (Inl stat, None)))) (\<lambda>(fid, postopattr).
     h_bind (h_vfs (l_getattr (ctx_vfs ctx) dirid)) (\<lambda>post_dir_attr.
     let wcc_res = \<lparr>wd_before = pre_dir_attr, wd_after = post_attr post_dir_attr\<rparr> in
     case fid of
       Inr fid \<Rightarrow>
         h_write [success xid, nfsstat3_serialize NFS3_OK,
           post_op_fh3_serialize (Some (l_id_to_fh (ctx_vfs ctx) fid)),
           post_op_attr_serialize postopattr, wcc_data_serialize wcc_res]
     | Inl e \<Rightarrow> h_write [success xid, nfsstat3_serialize e, wcc_data_serialize wcc_res]))"

definition nfsproc3_create :: "u32 \<Rightarrow> 'fs RPCContext \<Rightarrow> ('fs, unit) hm" where
  "nfsproc3_create xid ctx =
     h_bind (h_writable ctx) (\<lambda>writable.
     if \<not> writable then rofs_reply xid
     else
       h_bind (h_read diropargs3_deserialize) (\<lambda>dirops.
       h_bind (h_read createmode3_deserialize) (\<lambda>createhow.
       case l_fh_to_id (ctx_vfs ctx) (do_dir dirops) of
         Inl stat \<Rightarrow> wcc_failure xid stat
       | Inr dirid \<Rightarrow>
           h_bind (h_vfs (l_getattr (ctx_vfs ctx) dirid)) (\<lambda>pre.
           case pre of
             Inl stat \<Rightarrow> wcc_failure xid stat
           | Inr v \<Rightarrow>
               (case createhow of
                  UNCHECKED \<Rightarrow>
                    h_bind (h_read sattr3_deserialize) (\<lambda>target_attributes.
                    create_and_reply xid ctx dirid (do_name dirops) createhow target_attributes
                      (Some (wcc_of_attr v)))
                | GUARDED \<Rightarrow>
                    h_bind (h_read sattr3_deserialize) (\<lambda>target_attributes.
                    h_bind (h_vfs (l_lookup (ctx_vfs ctx) dirid (do_name dirops))) (\<lambda>found.
                    case found of
                      Inr _ \<Rightarrow>
                        h_bind (h_vfs (l_getattr (ctx_vfs ctx) dirid)) (\<lambda>post_dir_attr.
                        h_write [success xid, nfsstat3_serialize NFS3ERR_EXIST,
                          wcc_data_serialize
                            \<lparr>wd_before = Some (wcc_of_attr v), wd_after = post_attr post_dir_attr\<rparr>])
                    | Inl _ \<Rightarrow>
                        create_and_reply xid ctx dirid (do_name dirops) createhow target_attributes
                          (Some (wcc_of_attr v))))
                | EXCLUSIVE \<Rightarrow>
                    create_and_reply xid ctx dirid (do_name dirops) createhow sattr3_default
                      (Some (wcc_of_attr v)))))))"

record SETATTR3args =
  sg_object :: nfs_fh3
  sg_new_attribute :: sattr3
  sg_guard :: "nfstime3 option"

definition SETATTR3args_deserialize :: "SETATTR3args rd" where
  "SETATTR3args_deserialize =
     rd_bind nfs_fh3_deserialize (\<lambda>object.
     rd_bind sattr3_deserialize (\<lambda>new_attribute.
     rd_bind (bool_union_deserialize nfstime3_deserialize) (\<lambda>guard.
     rd_return \<lparr>sg_object = object, sg_new_attribute = new_attribute, sg_guard = guard\<rparr>)))"

definition nfsproc3_setattr :: "u32 \<Rightarrow> 'fs RPCContext \<Rightarrow> ('fs, unit) hm" where
  "nfsproc3_setattr xid ctx =
     h_bind (h_writable ctx) (\<lambda>writable.
     if \<not> writable then rofs_reply xid
     else
       h_bind (h_read SETATTR3args_deserialize) (\<lambda>args.
       case l_fh_to_id (ctx_vfs ctx) (sg_object args) of
         Inl stat \<Rightarrow> h_write [success xid, nfsstat3_serialize stat]
       | Inr fid \<Rightarrow>
           h_bind (h_vfs (l_getattr (ctx_vfs ctx) fid)) (\<lambda>pre.
           case pre of
             Inl stat \<Rightarrow> wcc_failure xid stat
           | Inr v \<Rightarrow>
               h_bind (case sg_guard args of
                         None \<Rightarrow> h_return ()
                       | Some c \<Rightarrow>
                           if t3_seconds c \<noteq> t3_seconds (f3_ctime v) \<or>
                              t3_nseconds c \<noteq> t3_nseconds (f3_ctime v)
                           then wcc_failure xid NFS3ERR_NOT_SYNC
                           else h_return ()) (\<lambda>_.
               h_bind (h_vfs (l_setattr (ctx_vfs ctx) fid (sg_new_attribute args))) (\<lambda>r.
               case r of
                 Inr post_op_attr \<Rightarrow>
                   h_write [success xid, nfsstat3_serialize NFS3_OK,
                     wcc_data_serialize
                       \<lparr>wd_before = Some (wcc_of_attr v), wd_after = Some post_op_attr\<rparr>]
               | Inl stat \<Rightarrow> wcc_failure xid stat)))))"

definition nfsproc3_remove :: "u32 \<Rightarrow> 'fs RPCContext \<Rightarrow> ('fs, unit) hm" where
  "nfsproc3_remove xid ctx =
     h_bind (h_writable ctx) (\<lambda>writable.
     if \<not> writable then rofs_reply xid
     else
       h_bind (h_read diropargs3_deserialize) (\<lambda>dirops.
       case l_fh_to_id (ctx_vfs ctx) (do_dir dirops) of
         Inl stat \<Rightarrow> wcc_failure xid stat
       | Inr dirid \<Rightarrow>
           h_bind (h_vfs (l_getattr (ctx_vfs ctx) dirid)) (\<lambda>pre.
           case pre of
             Inl stat \<Rightarrow> wcc_failure xid stat
           | Inr v \<Rightarrow>
               h_bind (h_vfs (l_remove (ctx_vfs ctx) dirid (do_name dirops))) (\<lambda>res.
               h_bind (h_vfs (l_getattr (ctx_vfs ctx) dirid)) (\<lambda>post_dir_attr.
               let wcc_res = \<lparr>wd_before = Some (wcc_of_attr v), wd_after = post_attr post_dir_attr\<rparr> in
               case res of
                 Inr _ \<Rightarrow> h_write [success xid, nfsstat3_serialize NFS3_OK, wcc_data_serialize wcc_res]
               | Inl e \<Rightarrow> h_write [success xid, nfsstat3_serialize e, wcc_data_serialize wcc_res])))))"

definition nfsproc3_rename :: "u32 \<Rightarrow> 'fs RPCContext \<Rightarrow> ('fs, unit) hm" where
  "nfsproc3_rename xid ctx =
     h_bind (h_writable ctx) (\<lambda>writable.
     if \<not> writable then rofs_reply xid
     else
       h_bind (h_read diropargs3_deserialize) (\<lambda>fromdirops.
       h_bind (h_read diropargs3_deserialize) (\<lambda>todirops.
       case l_fh_to_id (ctx_vfs ctx) (do_dir fromdirops) of
         Inl stat \<Rightarrow> wcc_failure xid stat
       | Inr from_dirid \<Rightarrow>
           (case l_fh_to_id (ctx_vfs ctx) (do_dir todirops) of
              Inl stat \<Rightarrow> wcc_failure xid stat
            | Inr to_dirid \<Rightarrow>
                h_bind (h_vfs (l_getattr (ctx_vfs ctx) from_dirid)) (\<lambda>pre_from.
                case pre_from of
                  Inl stat \<Rightarrow> wcc_failure xid stat
                | Inr from_v \<Rightarrow>
                    h_bind (h_vfs (l_getattr (ctx_vfs ctx) to_dirid)) (\<lambda>pre_to.
                    case pre_to of
                      Inl stat \<Rightarrow> wcc_failure xid stat
                    | Inr to_v \<Rightarrow>
                        h_bind (h_vfs (l_rename (ctx_vfs ctx) from_dirid (do_name fromdirops) to_dirid
                                  (do_name todirops))) (\<lambda>res.
                        h_bind (h_vfs (l_getattr (ctx_vfs ctx) from_dirid)) (\<lambda>post_from.
                        h_bind (h_vfs (l_getattr (ctx_vfs ctx) to_dirid)) (\<lambda>post_to.
                        let from_wcc_res =
                              \<lparr>wd_before = Some (wcc_of_attr from_v), wd_after = post_attr post_from\<rparr>;
                            to_wcc_res =
                              \<lparr>wd_before = Some (wcc_of_attr to_v), wd_after = post_attr post_to\<rparr>;
                            stat = (case res of Inr _ \<Rightarrow> NFS3_OK | Inl e \<Rightarrow> e) in
                        h_write [success xid, nfsstat3_serialize stat, wcc_data_serialize from_wcc_res,
                          wcc_data_serialize to_wcc_res])))))))))"

record MKDIR3args =
  ma_dirops :: diropargs3
  ma_attributes :: sattr3

definition MKDIR3args_deserialize :: "MKDIR3args rd" where
  "MKDIR3args_deserialize =
     rd_bind diropargs3_deserialize (\<lambda>dirops.
     rd_bind sattr3_deserialize (\<lambda>attributes.
     rd_return \<lparr>ma_dirops = dirops, ma_attributes = attributes\<rparr>))"

definition nfsproc3_mkdir :: "u32 \<Rightarrow> 'fs RPCContext \<Rightarrow> ('fs, unit) hm" where
  "nfsproc3_mkdir xid ctx =
     h_bind (h_writable ctx) (\<lambda>writable.
     if \<not> writable then rofs_reply xid
     else
       h_bind (h_read MKDIR3args_deserialize) (\<lambda>args.
       case l_fh_to_id (ctx_vfs ctx) (do_dir (ma_dirops args)) of
         Inl stat \<Rightarrow> wcc_failure xid stat
       | Inr dirid \<Rightarrow>
           h_bind (h_vfs (l_getattr (ctx_vfs ctx) dirid)) (\<lambda>pre.
           case pre of
             Inl stat \<Rightarrow> wcc_failure xid stat
           | Inr v \<Rightarrow>
               h_bind (h_vfs (l_mkdir (ctx_vfs ctx) dirid (do_name (ma_dirops args)))) (\<lambda>res.
               h_bind (h_vfs (l_getattr (ctx_vfs ctx) dirid)) (\<lambda>post_dir_attr.
               let wcc_res = \<lparr>wd_before = Some (wcc_of_attr v), wd_after = post_attr post_dir_attr\<rparr> in
               case res of
                 Inr (fid, fattr) \<Rightarrow>
                   h_write [success xid, nfsstat3_serialize NFS3_OK,
                     post_op_fh3_serialize (Some (l_id_to_fh (ctx_vfs ctx) fid)),
                     post_op_attr_serialize (Some fattr), wcc_data_serialize wcc_res]
               | Inl e \<Rightarrow> h_write [success xid, nfsstat3_serialize e, wcc_data_serialize wcc_res])))))"

record SYMLINK3args =
  ya_dirops :: diropargs3
  ya_symlink :: symlinkdata3

definition SYMLINK3args_deserialize :: "SYMLINK3args rd" where
  "SYMLINK3args_deserialize =
     rd_bind diropargs3_deserialize (\<lambda>dirops.
     rd_bind symlinkdata3_deserialize (\<lambda>symlink.
     rd_return \<lparr>ya_dirops = dirops, ya_symlink = symlink\<rparr>))"

definition nfsproc3_symlink :: "u32 \<Rightarrow> 'fs RPCContext \<Rightarrow> ('fs, unit) hm" where
  "nfsproc3_symlink xid ctx =
     h_bind (h_writable ctx) (\<lambda>writable.
     if \<not> writable then rofs_reply xid
     else
       h_bind (h_read SYMLINK3args_deserialize) (\<lambda>args.
       case l_fh_to_id (ctx_vfs ctx) (do_dir (ya_dirops args)) of
         Inl stat \<Rightarrow> wcc_failure xid stat
       | Inr dirid \<Rightarrow>
           h_bind (h_vfs (l_getattr (ctx_vfs ctx) dirid)) (\<lambda>pre.
           case pre of
             Inl stat \<Rightarrow> wcc_failure xid stat
           | Inr v \<Rightarrow>
               h_bind (h_vfs (l_symlink (ctx_vfs ctx) dirid (do_name (ya_dirops args))
                         (sl_data (ya_symlink args)) (sl_attributes (ya_symlink args)))) (\<lambda>res.
               h_bind (h_vfs (l_getattr (ctx_vfs ctx) dirid)) (\<lambda>post_dir_attr.
               let wcc_res = \<lparr>wd_before = Some (wcc_of_attr v), wd_after = post_attr post_dir_attr\<rparr> in
               case res of
                 Inr (fid, fattr) \<Rightarrow>
                   h_write [success xid, nfsstat3_serialize NFS3_OK,
                     post_op_fh3_serialize (Some (l_id_to_fh (ctx_vfs ctx) fid)),
                     post_op_attr_serialize (Some fattr), wcc_data_serialize wcc_res]
               | Inl e \<Rightarrow> h_write [success xid, nfsstat3_serialize e, wcc_data_serialize wcc_res])))))"

section \<open>Dispatch\<close>

datatype NFSProgram =
    NFSPROC3_NULL
  | NFSPROC3_GETATTR
  | NFSPROC3_SETATTR
  | NFSPROC3_LOOKUP
  | NFSPROC3_ACCESS
  | NFSPROC3_READLINK
  | NFSPROC3_READ
  | NFSPROC3_WRITE
  | NFSPROC3_CREATE
  | NFSPROC3_MKDIR
  | NFSPROC3_SYMLINK
  | NFSPROC3_MKNOD
  | NFSPROC3_REMOVE
  | NFSPROC3_RMDIR
  | NFSPROC3_RENAME
  | NFSPROC3_LINK
  | NFSPROC3_READDIR
  | NFSPROC3_READDIRPLUS
  | NFSPROC3_FSSTAT
  | NFSPROC3_FSINFO
  | NFSPROC3_PATHCONF
  | NFSPROC3_COMMIT
  | NFSPROC3_INVALID

definition NFSProgram_variants :: "NFSProgram list" where
  "NFSProgram_variants =
     [NFSPROC3_NULL, NFSPROC3_GETATTR, NFSPROC3_SETATTR, NFSPROC3_LOOKUP, NFSPROC3_ACCESS,
      NFSPROC3_READLINK, NFSPROC3_READ, NFSPROC3_WRITE, NFSPROC3_CREATE, NFSPROC3_MKDIR,
      NFSPROC3_SYMLINK, NFSPROC3_MKNOD, NFSPROC3_REMOVE, NFSPROC3_RMDIR, NFSPROC3_RENAME,
      NFSPROC3_LINK, NFSPROC3_READDIR, NFSPROC3_READDIRPLUS, NFSPROC3_FSSTAT, NFSPROC3_FSINFO,
      NFSPROC3_PATHCONF, NFSPROC3_COMMIT, NFSPROC3_INVALID]"

text \<open>The discriminants of an enumeration that counts from zero.\<close>

definition nth_variant :: "'a list \<Rightarrow> 'a \<Rightarrow> u32 \<Rightarrow> 'a" where
  "nth_variant variants other v =
     (if unat v < length variants then variants ! unat v else other)"

definition nfs_proc :: "bool \<Rightarrow> u32 \<Rightarrow> 'fs RPCContext \<Rightarrow> NFSProgram \<Rightarrow> ('fs, unit) hm" where
  "nfs_proc checks xid ctx prog =
     (case prog of
        NFSPROC3_NULL \<Rightarrow> nfsproc3_null xid
      | NFSPROC3_GETATTR \<Rightarrow> nfsproc3_getattr xid ctx
      | NFSPROC3_LOOKUP \<Rightarrow> nfsproc3_lookup xid ctx
      | NFSPROC3_READ \<Rightarrow> nfsproc3_read xid ctx
      | NFSPROC3_FSINFO \<Rightarrow> nfsproc3_fsinfo xid ctx
      | NFSPROC3_ACCESS \<Rightarrow> nfsproc3_access xid ctx
      | NFSPROC3_PATHCONF \<Rightarrow> nfsproc3_pathconf xid ctx
      | NFSPROC3_FSSTAT \<Rightarrow> nfsproc3_fsstat xid ctx
      | NFSPROC3_READDIR \<Rightarrow> nfsproc3_readdir checks xid ctx
      | NFSPROC3_READDIRPLUS \<Rightarrow> nfsproc3_readdirplus checks xid ctx
      | NFSPROC3_WRITE \<Rightarrow> nfsproc3_write xid ctx
      | NFSPROC3_CREATE \<Rightarrow> nfsproc3_create xid ctx
      | NFSPROC3_SETATTR \<Rightarrow> nfsproc3_setattr xid ctx
      | NFSPROC3_REMOVE \<Rightarrow> nfsproc3_remove xid ctx
      | NFSPROC3_RMDIR \<Rightarrow> nfsproc3_remove xid ctx
      | NFSPROC3_RENAME \<Rightarrow> nfsproc3_rename xid ctx
      | NFSPROC3_MKDIR \<Rightarrow> nfsproc3_mkdir xid ctx
      | NFSPROC3_SYMLINK \<Rightarrow> nfsproc3_symlink xid ctx
      | NFSPROC3_READLINK \<Rightarrow> nfsproc3_readlink xid ctx
      | _ \<Rightarrow> h_write [rpc_msg_serialize (proc_unavail_reply_message xid)])"

definition handle_nfs :: "bool \<Rightarrow> u32 \<Rightarrow> call_body \<Rightarrow> 'fs RPCContext \<Rightarrow> ('fs, unit) hm" where
  "handle_nfs checks xid call ctx =
     (if cb_vers call \<noteq> NFS_VERSION
      then h_write [rpc_msg_serialize (prog_mismatch_reply_message xid NFS_VERSION)]
      else nfs_proc checks xid ctx (nth_variant NFSProgram_variants NFSPROC3_INVALID (cb_proc call)))"

section \<open>The MOUNT program\<close>

datatype MountProgram =
    MOUNTPROC3_NULL
  | MOUNTPROC3_MNT
  | MOUNTPROC3_DUMP
  | MOUNTPROC3_UMNT
  | MOUNTPROC3_UMNTALL
  | MOUNTPROC3_EXPORT
  | MOUNTPROC3_INVALID

definition MountProgram_variants :: "MountProgram list" where
  "MountProgram_variants =
     [MOUNTPROC3_NULL, MOUNTPROC3_MNT, MOUNTPROC3_DUMP, MOUNTPROC3_UMNT, MOUNTPROC3_UMNTALL,
      MOUNTPROC3_EXPORT, MOUNTPROC3_INVALID]"

definition mountproc3_null :: "u32 \<Rightarrow> ('fs, unit) hm" where
  "mountproc3_null xid = h_write [success xid]"

record mountres3_ok =
  mo_fhandle :: bytes
  mo_auth_flavors :: "u32 list"

definition mountres3_ok_serialize :: "mountres3_ok \<Rightarrow> ser" where
  "mountres3_ok_serialize r =
     xdr_struct [vec_u8_serialize (mo_fhandle r), vec_u32_serialize (mo_auth_flavors r)]"

definition is_slash :: "nat \<Rightarrow> bool" where
  "is_slash c \<longleftrightarrow> c = 47"

text \<open>The path below the export that a client asks for, when it asks for one.\<close>

definition mount_path :: "str \<Rightarrow> bytes \<Rightarrow> bytes option" where
  "mount_path export_name path =
     (let utf8path = (case from_utf8 path of Some s \<Rightarrow> s | None \<Rightarrow> []) in
      map_option (\<lambda>p. 47 # as_bytes (str_trim (trim_end_matches is_slash (trim_start_matches is_slash p))))
        (strip_prefix export_name utf8path))"

definition mountproc3_mnt :: "u32 \<Rightarrow> 'fs RPCContext \<Rightarrow> ('fs, unit) hm" where
  "mountproc3_mnt xid ctx =
     h_bind (h_read vec_u8_deserialize) (\<lambda>path.
     case mount_path (ctx_export_name ctx) path of
       None \<Rightarrow> h_write [success xid, mountstat3_serialize MNT3ERR_NOENT]
     | Some path \<Rightarrow>
         h_bind (h_vfs (l_path_to_id (ctx_vfs ctx) path)) (\<lambda>r.
         case r of
           Inr fileid \<Rightarrow>
             h_bind (h_signal ctx True) (\<lambda>_.
             h_write [success xid, mountstat3_serialize MNT3_OK,
               mountres3_ok_serialize
                 \<lparr>mo_fhandle = fh_data (l_id_to_fh (ctx_vfs ctx) fileid),
                  mo_auth_flavors = [auth_flavor_code AUTH_NULL, auth_flavor_code AUTH_UNIX]\<rparr>])
         | Inl _ \<Rightarrow> h_write [success xid, mountstat3_serialize MNT3ERR_NOENT]))"

definition mountproc3_export :: "u32 \<Rightarrow> 'fs RPCContext \<Rightarrow> ('fs, unit) hm" where
  "mountproc3_export xid ctx =
     h_write [success xid, bool_serialize True, vec_u8_serialize (as_bytes (ctx_export_name ctx)),
       bool_serialize False, bool_serialize False]"

definition mountproc3_umnt :: "u32 \<Rightarrow> 'fs RPCContext \<Rightarrow> ('fs, unit) hm" where
  "mountproc3_umnt xid ctx =
     h_bind (h_read vec_u8_deserialize) (\<lambda>path.
     h_bind (h_signal ctx False) (\<lambda>_.
     h_write [success xid, mountstat3_serialize MNT3_OK]))"

definition mountproc3_umnt_all :: "u32 \<Rightarrow> 'fs RPCContext \<Rightarrow> ('fs, unit) hm" where
  "mountproc3_umnt_all xid ctx =
     h_bind (h_signal ctx False) (\<lambda>_.
     h_write [success xid, mountstat3_serialize MNT3_OK])"

definition handle_mount :: "u32 \<Rightarrow> call_body \<Rightarrow> 'fs RPCContext \<Rightarrow> ('fs, unit) hm" where
  "handle_mount xid call ctx =
     (case nth_variant MountProgram_variants MOUNTPROC3_INVALID (cb_proc call) of
        MOUNTPROC3_NULL \<Rightarrow> mountproc3_null xid
      | MOUNTPROC3_MNT \<Rightarrow> mountproc3_mnt xid ctx
      | MOUNTPROC3_UMNT \<Rightarrow> mountproc3_umnt xid ctx
      | MOUNTPROC3_UMNTALL \<Rightarrow> mountproc3_umnt_all xid ctx
      | MOUNTPROC3_EXPORT \<Rightarrow> mountproc3_export xid ctx
      | _ \<Rightarrow> h_write [rpc_msg_serialize (proc_unavail_reply_message xid)])"

section \<open>The portmapper\<close>

datatype PortmapProgram =
    PMAPPROC_NULL
  | PMAPPROC_SET
  | PMAPPROC_UNSET
  | PMAPPROC_GETPORT
  | PMAPPROC_DUMP
  | PMAPPROC_CALLIT
  | PMAPPROC_INVALID

definition PortmapProgram_variants :: "PortmapProgram list" where
  "PortmapProgram_variants =
     [PMAPPROC_NULL, PMAPPROC_SET, PMAPPROC_UNSET, PMAPPROC_GETPORT, PMAPPROC_DUMP, PMAPPROC_CALLIT,
      PMAPPROC_INVALID]"

definition pmapproc_null :: "u32 \<Rightarrow> ('fs, unit) hm" where
  "pmapproc_null xid = h_write [success xid]"

definition pmapproc_getport :: "u32 \<Rightarrow> 'fs RPCContext \<Rightarrow> ('fs, unit) hm" where
  "pmapproc_getport xid ctx =
     h_bind (h_read mapping_deserialize) (\<lambda>_.
     h_write [success xid, u32_serialize (ucast (ctx_local_port ctx))])"

definition handle_portmap :: "u32 \<Rightarrow> call_body \<Rightarrow> 'fs RPCContext \<Rightarrow> ('fs, unit) hm" where
  "handle_portmap xid call ctx =
     (if cb_vers call \<noteq> PORTMAP_VERSION
      then h_write [rpc_msg_serialize (prog_mismatch_reply_message xid PORTMAP_VERSION)]
      else
        case nth_variant PortmapProgram_variants PMAPPROC_INVALID (cb_proc call) of
          PMAPPROC_NULL \<Rightarrow> pmapproc_null xid
        | PMAPPROC_GETPORT \<Rightarrow> pmapproc_getport xid ctx
        | _ \<Rightarrow> h_write [rpc_msg_serialize (proc_unavail_reply_message xid)])"

end
