(* ===== verification/Legacy_Replies.thy ===== *)
theory Legacy_Replies
  imports Legacy_Handlers
begin

text \<open>
  What the procedures of the demo stack promise: every call that is answered is answered with an
  accepted reply to its own transaction, no call panics on a file system with bounded data, and a
  read-only file system is never asked to change anything.

  The first two are proved by rules that follow the structure of the handlers: a part of a handler
  is silent when it writes nothing, answers when it appends a reply, and is calm when it does
  not panic.
\<close>

section \<open>Notions\<close>

text \<open>A serialiser that only appends; and one that cannot fail.\<close>

definition appends :: "ser \<Rightarrow> bool" where
  "appends f \<longleftrightarrow> (\<forall>dest out. f dest = Inr out \<longrightarrow> prefix dest out)"

definition infallible :: "ser \<Rightarrow> bool" where
  "infallible f \<longleftrightarrow> (\<exists>w. writes f w)"

text \<open>A reader that fails only with an I/O error, and does not panic.\<close>

definition calm_reader :: "'a rd \<Rightarrow> bool" where
  "calm_reader m \<longleftrightarrow> (\<forall>src e. m src = Inl e \<longrightarrow> (\<exists>k. e = LegacyIo k))"

text \<open>An accepted reply to the transaction \<open>xid\<close>, followed by its results.\<close>

definition reply_to :: "u32 \<Rightarrow> bytes \<Rightarrow> bool" where
  "reply_to xid w \<longleftrightarrow> (\<exists>body. prefix (rpc_msg_wire (accepted_message xid body)) w)"

definition silent :: "('fs, 'a) hm \<Rightarrow> bool" where
  "silent m \<longleftrightarrow> (\<forall>s. hs_output (snd (m s)) = hs_output s)"

definition answers :: "u32 \<Rightarrow> ('fs, 'a) hm \<Rightarrow> bool" where
  "answers xid m \<longleftrightarrow>
     (\<forall>s a s'. m s = (Inr a, s') \<longrightarrow> (\<exists>w. hs_output s' = hs_output s @ w \<and> reply_to xid w))"

definition calm :: "('fs, 'a) hm \<Rightarrow> bool" where
  "calm m \<longleftrightarrow> (\<forall>s e. fst (m s) = Inl e \<longrightarrow> (\<exists>k. e = LegacyIo k))"

text \<open>
  A file system whose data has lengths that an XDR vector can have: the hypothesis under which
  no length assertion fails.
\<close>

definition vfs_bounded :: "'fs NFSFileSystem \<Rightarrow> bool" where
  "vfs_bounded vfs \<longleftrightarrow>
     (\<forall>i. nfs_fh3_ok (l_id_to_fh vfs i)) \<and>
     (\<forall>i offset count fs data eof fs'.
        l_read vfs i offset count fs = (Inr (data, eof), fs') \<longrightarrow> length data < u32_max) \<and>
     (\<forall>i fs path fs'. l_readlink vfs i fs = (Inr path, fs') \<longrightarrow> length path < u32_max) \<and>
     (\<forall>i cookie n fs result fs'. l_readdir vfs i cookie n fs = (Inr result, fs') \<longrightarrow>
        (\<forall>e \<in> set (rdr_entries result). length (lde_name e) < u32_max)) \<and>
     (\<forall>i n fs result fs'. l_readdir_simple vfs i n fs = (Inr result, fs') \<longrightarrow>
        (\<forall>e \<in> set (rds_entries result). length (des_name e) < u32_max))"

text \<open>A file system with the changing operations of another one.\<close>

definition with_mutators :: "'fs NFSFileSystem \<Rightarrow> 'fs NFSFileSystem \<Rightarrow> 'fs NFSFileSystem" where
  "with_mutators vfs other = vfs
     \<lparr>l_setattr := l_setattr other, l_write := l_write other, l_create := l_create other,
      l_create_exclusive := l_create_exclusive other, l_mkdir := l_mkdir other,
      l_remove := l_remove other, l_rename := l_rename other, l_symlink := l_symlink other\<rparr>"

section \<open>Rules for serialisers\<close>

lemma writes_appends: "writes f w \<Longrightarrow> appends f"
  by (auto simp: writes_def appends_def)

lemma infallible_appends: "infallible f \<Longrightarrow> appends f"
  by (auto simp: infallible_def intro: writes_appends)

lemma writes_infallible: "writes f w \<Longrightarrow> infallible f"
  by (auto simp: infallible_def)

lemma appends_struct: "list_all appends fs \<Longrightarrow> appends (xdr_struct fs)"
proof (induction fs)
  case (Cons f fs)
  show ?case
    unfolding appends_def
  proof (intro allI impI)
    fix dest out
    assume "xdr_struct (f # fs) dest = Inr out"
    then obtain mid where "f dest = Inr mid" "xdr_struct fs mid = Inr out"
      by (auto simp: xdr_struct.simps(2))
    moreover from Cons have "appends f" "appends (xdr_struct fs)" by simp_all
    ultimately have "prefix dest mid" "prefix mid out" by (simp_all add: appends_def)
    then show "prefix dest out" by (rule prefix_order.trans)
  qed
qed (simp add: appends_def)

lemma infallibleD: "infallible f \<Longrightarrow> \<exists>buf. f dest = Inr (dest @ buf)"
  by (auto simp: infallible_def writes_def)

lemma infallible_struct: "list_all infallible fs \<Longrightarrow> infallible (xdr_struct fs)"
proof (induction fs)
  case (Cons f fs)
  then obtain v w where "writes f v" "writes (xdr_struct fs) w" by (auto simp: infallible_def)
  then have "writes (xdr_struct (f # fs)) (v @ w)"
    unfolding writes_def by (simp only: xdr_struct.simps(2) [of f] r_bind.simps append_assoc simp_thms)
  then show ?case by (rule writes_infallible)
qed (auto simp: infallible_def intro: xdr_struct_empty)

lemma appends_vec [simp]: "appends (vec_u8_serialize v)"
proof (cases "length v < u32_max")
  case False
  then show ?thesis by (simp add: appends_def vec_u8_serialize_def)
qed (rule writes_appends, rule vec_u8_serialize_wire)

lemma infallible_vec [simp]: "length v < u32_max \<Longrightarrow> infallible (vec_u8_serialize v)"
  by (rule writes_infallible) (rule vec_u8_serialize_wire)

lemma infallible_u32s [simp]: "length v < u32_max \<Longrightarrow> infallible (vec_u32_serialize v)"
  by (rule writes_infallible) (rule vec_u32_serialize_wire)

lemma infallible_basic [simp]:
  "infallible (u32_serialize v)" "infallible (u64_serialize l)" "infallible (bool_serialize b)"
  "infallible (array_u8_serialize bs)" "infallible (nfsstat3_serialize stat)"
  "infallible (mountstat3_serialize mstat)" "infallible (fattr3_serialize a)"
  "infallible (post_op_attr_serialize p)" "infallible (wcc_data_serialize w)"
  "infallible (fsinfo3_serialize i)"
  by (rule writes_infallible, rule writes_intros)+

lemma infallible_union: "\<forall>v. u = Some v \<longrightarrow> infallible (ser v) \<Longrightarrow> infallible (bool_union_serialize ser u)"
  by (cases u) (auto simp: bool_union_serialize_def intro: infallible_struct)

lemma appends_union: "(\<And>v. appends (ser v)) \<Longrightarrow> appends (bool_union_serialize ser u)"
  by (cases u) (auto simp: bool_union_serialize_def infallible_appends intro: appends_struct)

lemma infallible_fh [simp]: "nfs_fh3_ok h \<Longrightarrow> infallible (nfs_fh3_serialize h)"
  by (rule writes_infallible) (rule writes_intros)

lemma appends_fh [simp]: "appends (nfs_fh3_serialize h)" "appends (post_op_fh3_serialize u)"
  by (auto simp: nfs_fh3_serialize_def post_op_fh3_serialize_def intro!: appends_union appends_struct)

lemma infallible_post_fh [simp]: "nfs_fh3_ok h \<Longrightarrow> infallible (post_op_fh3_serialize (Some h))"
  by (simp add: post_op_fh3_serialize_def infallible_union)

lemma infallible_stable_how [simp]: "infallible (stable_how_serialize h)"
  by (simp add: stable_how_serialize_def enum_serialize_def)

lemma infallible_results [simp]:
  "length (rr_data r) < u32_max \<Longrightarrow> infallible (READ3resok_serialize r)"
  "infallible (PATHCONF3resok_serialize pr)" "infallible (FSSTAT3resok_serialize st)"
  "infallible (WRITE3resok_serialize wr)"
  by (auto simp: READ3resok_serialize_def PATHCONF3resok_serialize_def FSSTAT3resok_serialize_def
      WRITE3resok_serialize_def intro!: infallible_struct)

lemma appends_read_result [simp]: "appends (READ3resok_serialize r)"
  by (auto simp: READ3resok_serialize_def infallible_appends intro!: appends_struct)

lemma rpc_msg_ok_accepted: "rpc_msg_ok (accepted_message xid body)"
  by (simp add: rpc_msg_ok_def accepted_message_def opaque_auth_ok_def opaque_auth_default_def)

lemma writes_accepted: "writes (rpc_msg_serialize (accepted_message xid body)) (rpc_msg_wire (accepted_message xid body))"
  by (rule x_rpc_msg.ser_wire) (rule rpc_msg_ok_accepted)

lemma writes_success: "writes (success xid) (rpc_msg_wire (accepted_message xid Accept_SUCCESS))"
  unfolding success_def make_success_reply_def by (rule writes_accepted)

lemma infallible_success [simp]: "infallible (success xid)" "infallible (rpc_msg_serialize (accepted_message xid body))"
  by (rule writes_infallible, rule writes_success writes_accepted)+

lemmas accepted_messages = proc_unavail_reply_message_def prog_unavail_reply_message_def
  prog_mismatch_reply_message_def garbage_args_reply_message_def make_success_reply_def

section \<open>Rules for readers\<close>

lemma calm_reader_bind:
  "calm_reader m \<Longrightarrow> (\<And>a. calm_reader (k a)) \<Longrightarrow> calm_reader (rd_bind m k)"
  by (auto simp: calm_reader_def rd_bind_def split: sum.splits)

lemma calm_reader_basic [simp]:
  "calm_reader (rd_return a)" "calm_reader (rd_exact n)" "calm_reader (rd_fail (LegacyIo k))"
  by (auto simp: calm_reader_def rd_exact_def)

lemma calm_reader_u32 [simp]: "calm_reader u32_deserialize"
  by (auto simp: u32_deserialize_def intro!: calm_reader_bind)

lemma calm_reader_u64 [simp]: "calm_reader u64_deserialize"
  by (auto simp: u64_deserialize_def intro!: calm_reader_bind)

lemma calm_reader_bool [simp]: "calm_reader bool_deserialize"
  by (auto simp: bool_deserialize_def intro!: calm_reader_bind)

lemma calm_reader_vec [simp]: "calm_reader vec_u8_deserialize"
  by (auto simp: vec_u8_deserialize_def intro!: calm_reader_bind)

lemma calm_reader_array [simp]: "calm_reader (array_u8_deserialize n)"
  by (simp add: array_u8_deserialize_def)

lemma calm_reader_enum [simp]: "calm_reader (enum_deserialize to_u32 variants)"
  by (auto simp: enum_deserialize_def intro!: calm_reader_bind split: option.splits)

lemma calm_reader_union: "calm_reader m \<Longrightarrow> calm_reader (bool_union_deserialize m)"
  by (auto simp: bool_union_deserialize_def intro!: calm_reader_bind)

lemma calm_reader_fh [simp]: "calm_reader nfs_fh3_deserialize"
  by (auto simp: nfs_fh3_deserialize_def intro!: calm_reader_bind)

lemma calm_reader_time [simp]: "calm_reader nfstime3_deserialize"
  by (auto simp: nfstime3_deserialize_def intro!: calm_reader_bind)

lemma calm_reader_set_time [simp]: "calm_reader set_atime_deserialize" "calm_reader set_mtime_deserialize"
  by (auto simp: set_atime_deserialize_def set_mtime_deserialize_def intro!: calm_reader_bind)

lemma calm_reader_sattr3 [simp]: "calm_reader sattr3_deserialize"
  by (auto simp: sattr3_deserialize_def set_u32_deserialize_def set_size3_deserialize_def
      intro!: calm_reader_bind calm_reader_union)

lemma calm_reader_dirops [simp]: "calm_reader diropargs3_deserialize"
  by (auto simp: diropargs3_deserialize_def intro!: calm_reader_bind)

lemma calm_reader_arguments [simp]:
  "calm_reader READ3args_deserialize" "calm_reader READDIRPLUS3args_deserialize"
  "calm_reader READDIR3args_deserialize" "calm_reader WRITE3args_deserialize"
  "calm_reader createmode3_deserialize" "calm_reader SETATTR3args_deserialize"
  "calm_reader MKDIR3args_deserialize" "calm_reader SYMLINK3args_deserialize"
  by (auto simp: READ3args_deserialize_def READDIRPLUS3args_deserialize_def
      READDIR3args_deserialize_def WRITE3args_deserialize_def createmode3_deserialize_def
      SETATTR3args_deserialize_def MKDIR3args_deserialize_def SYMLINK3args_deserialize_def
      symlinkdata3_deserialize_def intro!: calm_reader_bind calm_reader_union)

section \<open>Rules for handlers\<close>

named_theorems silent_intros
named_theorems answers_intros
named_theorems calm_intros

lemma silent_basic [silent_intros]:
  "silent (h_return a)" "silent (h_lift r)" "silent (h_read d)" "silent (h_vfs operation)"
  "silent (h_writable ctx)" "silent (h_signal ctx b)"
  by (auto simp: silent_def h_return_def h_lift_def h_read_def h_vfs_def h_writable_def h_signal_def
      split_beta Let_def split: sum.splits)

lemma h_bind_cases:
  obtains e t where "m s = (Inl e, t)" "h_bind m k s = (Inl e, t)"
  | a t where "m s = (Inr a, t)" "h_bind m k s = k a t"
proof (cases "m s")
  case (Pair r t)
  with that show thesis by (cases r) (simp_all add: h_bind_def)
qed

lemma silent_bind [silent_intros]:
  assumes "silent m" and "\<And>a. silent (k a)"
  shows "silent (h_bind m k)"
  unfolding silent_def
proof
  fix s
  have "hs_output (snd (m s)) = hs_output s" using assms(1) by (simp add: silent_def)
  then show "hs_output (snd (h_bind m k s)) = hs_output s"
    using assms(2) by (cases rule: h_bind_cases [of m s k]) (simp_all add: silent_def)
qed

lemma silent_if [silent_intros]: "silent m \<Longrightarrow> silent m' \<Longrightarrow> silent (if b then m else m')"
  by simp

lemma answers_bind [answers_intros]:
  assumes "silent m" and "\<And>a. answers xid (k a)"
  shows "answers xid (h_bind m k)"
  unfolding answers_def
proof (intro allI impI)
  fix s a s'
  assume run: "h_bind m k s = (Inr a, s')"
  then obtain b t where "m s = (Inr b, t)" "k b t = (Inr a, s')"
    by (auto simp: h_bind_def split: sum.splits prod.splits)
  moreover from \<open>m s = (Inr b, t)\<close> have "hs_output t = hs_output s"
    using assms(1) by (metis silent_def snd_conv)
  moreover from \<open>k b t = (Inr a, s')\<close> obtain w where "hs_output s' = hs_output t @ w" "reply_to xid w"
    using assms(2) [of b] unfolding answers_def by blast
  ultimately show "\<exists>w. hs_output s' = hs_output s @ w \<and> reply_to xid w" by auto
qed

lemma answers_if [answers_intros]: "answers xid m \<Longrightarrow> answers xid m' \<Longrightarrow> answers xid (if b then m else m')"
  by simp

lemma answers_sum [answers_intros]:
  "(\<And>a. answers xid (f a)) \<Longrightarrow> (\<And>b. answers xid (g b)) \<Longrightarrow>
     answers xid (case r of Inl a \<Rightarrow> f a | Inr b \<Rightarrow> g b)"
  by (cases r) simp_all

lemma answers_option [answers_intros]:
  "answers xid f \<Longrightarrow> (\<And>b. answers xid (g b)) \<Longrightarrow>
     answers xid (case r of None \<Rightarrow> f | Some b \<Rightarrow> g b)"
  by (cases r) simp_all

lemma answers_pair [answers_intros]:
  "(\<And>a b. answers xid (f a b)) \<Longrightarrow> answers xid (case p of (a, b) \<Rightarrow> f a b)"
  by (cases p) simp

lemma answers_let [answers_intros]: "(\<And>a. answers xid (f a)) \<Longrightarrow> answers xid (let a = t in f a)"
  by simp

lemma answers_mode [answers_intros]:
  "answers xid a \<Longrightarrow> answers xid b \<Longrightarrow> answers xid c \<Longrightarrow>
     answers xid (case mode of UNCHECKED \<Rightarrow> a | GUARDED \<Rightarrow> b | EXCLUSIVE \<Rightarrow> c)"
  by (cases mode) simp_all

lemma answers_write:
  assumes "writes f (rpc_msg_wire (accepted_message xid body))" and "list_all appends fs"
  shows "answers xid (h_write (f # fs))"
  unfolding answers_def
proof (intro allI impI)
  fix s a s'
  assume run: "h_write (f # fs) s = (Inr a, s')"
  have "xdr_struct (f # fs) (hs_output s) =
      xdr_struct fs (hs_output s @ rpc_msg_wire (accepted_message xid body))"
    using writesD [OF assms(1)] by (simp add: xdr_struct.simps(2))
  with run obtain out where
    "xdr_struct fs (hs_output s @ rpc_msg_wire (accepted_message xid body)) = Inr out" "hs_output s' = out"
    by (auto simp: h_write_def split: sum.splits)
  then have "prefix (hs_output s @ rpc_msg_wire (accepted_message xid body)) (hs_output s')"
    using appends_struct [OF assms(2)] by (simp add: appends_def)
  then obtain zs where "hs_output s' = hs_output s @ rpc_msg_wire (accepted_message xid body) @ zs"
    by (auto elim!: prefixE)
  moreover have "reply_to xid (rpc_msg_wire (accepted_message xid body) @ zs)"
    unfolding reply_to_def by (rule exI) (rule prefixI, rule refl)
  ultimately show "\<exists>w. hs_output s' = hs_output s @ w \<and> reply_to xid w" by blast
qed

lemma answers_success [answers_intros]: "list_all appends fs \<Longrightarrow> answers xid (h_write (success xid # fs))"
  by (rule answers_write [OF writes_success])

lemma answers_message [answers_intros]: "answers xid (h_write [rpc_msg_serialize (accepted_message xid body)])"
  by (rule answers_write [OF writes_accepted]) simp

lemma answers_failure [answers_intros]: "answers xid (wcc_failure xid stat)" "answers xid (rofs_reply xid)"
  unfolding wcc_failure_def rofs_reply_def
  by (rule answers_success; simp add: infallible_appends)+

section \<open>Listings\<close>

lemma counter_write_Nil [simp]: "counter_write [] w = w"
  by (simp add: counter_write_def)

lemma counter_write_append [simp]: "counter_write b (counter_write a w) = counter_write (a @ b) w"
  by (simp add: counter_write_def)

lemma counter_write_fields [simp]:
  "wc_inner (counter_write buf w) = wc_inner w @ buf" "wc_count (counter_write buf w) = wc_count w + length buf"
  by (simp_all add: counter_write_def)

lemma counted_Inr [simp]:
  "counted sers w = Inr w' \<longleftrightarrow> (\<exists>buf. xdr_struct sers [] = Inr buf \<and> w' = counter_write buf w)"
  by (auto simp: counted_def)

lemma plus_entries_writes:
  "plus_entries id_to_fh max_bytes max_dircount entries w acc = Inr (w', everything) \<Longrightarrow>
     \<exists>buf. w' = counter_write buf w"
proof (induction id_to_fh max_bytes max_dircount entries w acc rule: plus_entries.induct)
  case (1 id_to_fh max_bytes max_dircount w acc)
  then show ?case by (auto intro: exI [of _ "[]"])
next
  case (2 id_to_fh max_bytes max_dircount e entries w acc)
  then show ?case
    by (fastforce simp: Let_def intro: exI [of _ "[]"] split: if_splits)
qed

lemma simple_entries_writes:
  "simple_entries max_bytes entries w = Inr (w', everything) \<Longrightarrow> \<exists>buf. w' = counter_write buf w"
proof (induction max_bytes entries w rule: simple_entries.induct)
  case (1 max_bytes w)
  then show ?case by (auto intro: exI [of _ "[]"])
next
  case (2 max_bytes e entries w)
  then show ?case by (fastforce intro: exI [of _ "[]"] split: if_splits)
qed

lemma answers_counted:
  assumes "\<And>w w'. f w = Inr w' \<Longrightarrow>
    \<exists>buf rest. xdr_struct (success xid # fs) [] = Inr buf \<and> w' = counter_write (buf @ rest) w"
    and "list_all appends fs"
  shows "answers xid (h_counted f)"
  unfolding answers_def
proof (intro allI impI)
  fix s a s'
  assume "h_counted f s = (Inr a, s')"
  then obtain w' where w': "f (write_counter_new (hs_output s)) = Inr w'" "hs_output s' = wc_inner w'"
    by (auto simp: h_counted_def split: sum.splits)
  with assms(1) obtain buf rest where buf: "xdr_struct (success xid # fs) [] = Inr buf"
    and out: "hs_output s' = hs_output s @ buf @ rest"
    by (fastforce simp: write_counter_new_def)
  have "xdr_struct fs (rpc_msg_wire (accepted_message xid Accept_SUCCESS)) = Inr buf"
    using buf writesD [OF writes_success, of xid "[]"] by (simp add: xdr_struct.simps(2))
  then have "prefix (rpc_msg_wire (accepted_message xid Accept_SUCCESS)) buf"
    using appends_struct [OF assms(2)] by (simp add: appends_def)
  then have "reply_to xid (buf @ rest)"
    unfolding reply_to_def by (metis prefix_order.trans prefix_prefix prefixI)
  with out show "\<exists>w. hs_output s' = hs_output s @ w \<and> reply_to xid w" by blast
qed

lemma answers_readdirplus [answers_intros]:
  "answers xid (h_counted (readdirplus_reply xid id_to_fh dir_attr max_bytes max_dircount result))"
proof (rule answers_counted)
  fix w w'
  assume "readdirplus_reply xid id_to_fh dir_attr max_bytes max_dircount result w = Inr w'"
  then show "\<exists>buf rest. xdr_struct (success xid # [nfsstat3_serialize NFS3_OK,
      post_op_attr_serialize (post_attr dir_attr), array_u8_serialize (dirversion dir_attr)]) [] = Inr buf \<and>
      w' = counter_write (buf @ rest) w"
    by (fastforce simp: readdirplus_reply_def dest!: plus_entries_writes)
qed (simp add: infallible_appends)

lemma answers_readdir [answers_intros]:
  "answers xid (h_counted (readdir_simple_reply xid dir_attr max_bytes result))"
proof (rule answers_counted)
  fix w w'
  assume "readdir_simple_reply xid dir_attr max_bytes result w = Inr w'"
  then show "\<exists>buf rest. xdr_struct (success xid # [nfsstat3_serialize NFS3_OK,
      post_op_attr_serialize (post_attr dir_attr), array_u8_serialize (dirversion dir_attr)]) [] = Inr buf \<and>
      w' = counter_write (buf @ rest) w"
    by (fastforce simp: readdir_simple_reply_def dest!: simple_entries_writes)
qed (simp add: infallible_appends)

section \<open>Every procedure answers\<close>

lemma answers_reading:
  "answers xid (nfsproc3_null xid)" "answers xid (nfsproc3_getattr xid ctx)"
  "answers xid (nfsproc3_lookup xid ctx)" "answers xid (nfsproc3_read xid ctx)"
  "answers xid (nfsproc3_fsinfo xid ctx)" "answers xid (nfsproc3_access xid ctx)"
  "answers xid (nfsproc3_pathconf xid ctx)" "answers xid (nfsproc3_fsstat xid ctx)"
  "answers xid (nfsproc3_readlink xid ctx)" "answers xid (nfsproc3_readdirplus checks xid ctx)"
  "answers xid (nfsproc3_readdir checks xid ctx)"
  unfolding nfsproc3_null_def nfsproc3_getattr_def nfsproc3_lookup_def nfsproc3_read_def
    nfsproc3_fsinfo_def nfsproc3_access_def nfsproc3_pathconf_def nfsproc3_fsstat_def
    nfsproc3_readlink_def nfsproc3_readdirplus_def nfsproc3_readdir_def
  by (intro answers_intros silent_intros; simp add: infallible_appends)+

lemma answers_writing:
  "answers xid (nfsproc3_write xid ctx)" "answers xid (nfsproc3_remove xid ctx)"
  "answers xid (nfsproc3_rename xid ctx)" "answers xid (nfsproc3_mkdir xid ctx)"
  "answers xid (nfsproc3_symlink xid ctx)"
  unfolding nfsproc3_write_def nfsproc3_remove_def nfsproc3_rename_def nfsproc3_mkdir_def
    nfsproc3_symlink_def garbage_args_reply_message_def
  by (intro answers_intros silent_intros; simp add: infallible_appends)+

lemma answers_create: "answers xid (nfsproc3_create xid ctx)"
  unfolding nfsproc3_create_def create_and_reply_def
  by (intro answers_intros silent_intros; simp add: infallible_appends)

text \<open>A handler that may answer before it goes on.\<close>

lemma answers_then:
  assumes "silent m \<or> answers xid m" and "\<And>a. answers xid (k a)"
  shows "answers xid (h_bind m k)"
  using assms(1)
proof
  assume first: "answers xid m"
  show ?thesis
    unfolding answers_def
  proof (intro allI impI)
    fix s a s'
    assume "h_bind m k s = (Inr a, s')"
    then obtain b t where "m s = (Inr b, t)" "k b t = (Inr a, s')"
      by (cases rule: h_bind_cases [of m s k]) auto
    then obtain v w where "hs_output t = hs_output s @ v" "reply_to xid v" "hs_output s' = hs_output t @ w"
      using first assms(2) unfolding answers_def by blast
    then show "\<exists>w. hs_output s' = hs_output s @ w \<and> reply_to xid w"
      unfolding reply_to_def by (metis append_assoc prefix_order.trans prefixI)
  qed
qed (rule answers_bind [OF _ assms(2)])

lemma answers_guard:
  "silent (case g of None \<Rightarrow> h_return () | Some c \<Rightarrow> if P c then wcc_failure xid stat else h_return ()) \<or>
   answers xid (case g of None \<Rightarrow> h_return () | Some c \<Rightarrow> if P c then wcc_failure xid stat else h_return ())"
  by (cases g) (auto intro: silent_intros answers_intros)

lemma answers_setattr: "answers xid (nfsproc3_setattr xid ctx)"
  unfolding nfsproc3_setattr_def
  by (intro answers_bind answers_if answers_sum answers_failure answers_success silent_basic
      answers_then [OF answers_guard]; simp add: infallible_appends)

lemma answers_nfs: "answers xid (handle_nfs checks xid call ctx)"
proof -
  have "answers xid (nfs_proc checks xid ctx prog)" for prog
    unfolding nfs_proc_def accepted_messages
    by (cases prog)
      (simp_all add: answers_reading answers_writing answers_create answers_setattr answers_message)
  then show ?thesis
    unfolding handle_nfs_def accepted_messages by (intro answers_intros)
qed

lemma answers_mount: "answers xid (handle_mount xid call ctx)"
proof -
  have "answers xid (mountproc3_null xid)" "answers xid (mountproc3_mnt xid ctx)"
    "answers xid (mountproc3_umnt xid ctx)" "answers xid (mountproc3_umnt_all xid ctx)"
    "answers xid (mountproc3_export xid ctx)"
    unfolding mountproc3_null_def mountproc3_mnt_def mountproc3_umnt_def mountproc3_umnt_all_def
      mountproc3_export_def mountres3_ok_serialize_def
    by (intro answers_intros silent_intros; simp add: infallible_appends appends_struct)+
  then show ?thesis
    unfolding handle_mount_def accepted_messages
    by (cases "nth_variant MountProgram_variants MOUNTPROC3_INVALID (cb_proc call)")
      (simp_all add: answers_message)
qed

lemma answers_portmap: "answers xid (handle_portmap xid call (ctx :: 'fs RPCContext))"
proof -
  have "answers xid (pmapproc_null xid :: ('fs, unit) hm)" "answers xid (pmapproc_getport xid ctx)"
    unfolding pmapproc_null_def pmapproc_getport_def
    by (intro answers_intros silent_intros; simp add: infallible_appends)+
  then show ?thesis
    unfolding handle_portmap_def accepted_messages
    by (cases "nth_variant PortmapProgram_variants PMAPPROC_INVALID (cb_proc call)")
      (simp_all add: answers_message)
qed

section \<open>No procedure panics\<close>

lemma calm_bind [calm_intros]: "calm m \<Longrightarrow> (\<And>a. calm (k a)) \<Longrightarrow> calm (h_bind m k)"
  unfolding calm_def by (metis h_bind_cases fst_conv sum.inject(1))

lemma calm_vfs [calm_intros]:
  assumes "\<And>r fs fs'. operation fs = (r, fs') \<Longrightarrow> calm (k r)"
  shows "calm (h_bind (h_vfs (operation :: ('fs, 'a) fs_op)) k)"
  unfolding calm_def
proof
  fix s :: "'fs hs"
  obtain r fs' where "operation (hs_fs s) = (r, fs')" by fastforce
  with assms [OF this] show "\<forall>e. fst (h_bind (h_vfs operation) k s) = Inl e \<longrightarrow> (\<exists>k. e = LegacyIo k)"
    by (simp add: h_bind_def h_vfs_def calm_def)
qed

lemma calm_basic [calm_intros]:
  "calm (h_return v)" "calm (h_writable ctx)" "calm (h_signal ctx b)"
  "calm_reader d \<Longrightarrow> calm (h_read d)" "list_all infallible fs \<Longrightarrow> calm (h_write fs)"
  "calm (h_lift (usize_sub False m n))"
proof -
  show "calm (h_read d)" if "calm_reader d"
    using that by (auto simp: calm_def calm_reader_def h_read_def split: sum.splits)
  show "calm (h_write fs)" if "list_all infallible fs"
    using infallible_struct [OF that]
    by (auto simp: calm_def h_write_def infallible_def writes_def split: sum.splits)
qed (simp_all add: calm_def h_return_def h_writable_def h_signal_def h_lift_def usize_sub_def)

lemma calm_sum [calm_intros]:
  "(\<And>a. r = Inl a \<Longrightarrow> calm (f a)) \<Longrightarrow> (\<And>b. r = Inr b \<Longrightarrow> calm (g b)) \<Longrightarrow>
     calm (case r of Inl a \<Rightarrow> f a | Inr b \<Rightarrow> g b)"
  by (cases r) simp_all

lemma calm_pair [calm_intros]: "(\<And>a b. p = (a, b) \<Longrightarrow> calm (h a b)) \<Longrightarrow> calm (case p of (a, b) \<Rightarrow> h a b)"
  by (cases p) simp

lemma calm_option [calm_intros]:
  "calm m \<Longrightarrow> (\<And>c. u = Some c \<Longrightarrow> calm (n c)) \<Longrightarrow> calm (case u of None \<Rightarrow> m | Some c \<Rightarrow> n c)"
  by (cases u) simp_all

lemma calm_mode [calm_intros]:
  "calm m \<Longrightarrow> calm m' \<Longrightarrow> calm m'' \<Longrightarrow>
     calm (case mode of UNCHECKED \<Rightarrow> m | GUARDED \<Rightarrow> m' | EXCLUSIVE \<Rightarrow> m'')"
  by (cases mode) simp_all

lemma calm_if [calm_intros]: "calm m \<Longrightarrow> calm m' \<Longrightarrow> calm (if b then m else m')"
  by simp

lemma calm_let [calm_intros]: "(\<And>a. calm (l a)) \<Longrightarrow> calm (let a = t in l a)"
  by simp

lemma calm_failure [calm_intros]: "calm (wcc_failure xid stat)" "calm (rofs_reply xid)"
  unfolding wcc_failure_def rofs_reply_def by (intro calm_intros; simp)+

lemma counted_infallible: "list_all infallible sers \<Longrightarrow> \<exists>buf. counted sers w = Inr (counter_write buf w)"
  using infallibleD [OF infallible_struct, of sers "[]"] by (auto simp: counted_def)

lemma plus_entries_infallible:
  "\<forall>e \<in> set entries. length (lde_name e) < u32_max \<Longrightarrow> \<forall>i. nfs_fh3_ok (id_to_fh i) \<Longrightarrow>
     \<exists>r. plus_entries id_to_fh max_bytes max_dircount entries w acc = Inr r"
proof (induction entries arbitrary: w acc)
  case (Cons e entries)
  have "infallible (entryplus3_serialize (make_entryplus id_to_fh e))"
    unfolding entryplus3_serialize_def make_entryplus_def using Cons.prems
    by (intro infallible_struct) simp
  then obtain buf where "xdr_struct [bool_serialize True, entryplus3_serialize (make_entryplus id_to_fh e)] [] = Inr buf"
    using infallibleD [OF infallible_struct, of "[bool_serialize True, entryplus3_serialize (make_entryplus id_to_fh e)]" "[]"]
    by auto
  then show ?case using Cons by (simp add: Let_def) (blast intro: exI [of _ False])
qed (simp only: plus_entries.simps, blast)

lemma simple_entries_infallible:
  "\<forall>e \<in> set entries. length (des_name e) < u32_max \<Longrightarrow>
     \<exists>r. simple_entries max_bytes entries w = Inr r"
proof (induction entries arbitrary: w)
  case (Cons e entries)
  let ?entry = "entry3_serialize \<lparr>e3_fileid = des_fileid e, e3_name = des_name e, e3_cookie = des_fileid e\<rparr>"
  have "infallible ?entry"
    unfolding entry3_serialize_def using Cons.prems by (intro infallible_struct) simp
  then obtain buf where "xdr_struct [bool_serialize True, ?entry] [] = Inr buf"
    using infallibleD [OF infallible_struct, of "[bool_serialize True, ?entry]" "[]"] by auto
  then show ?case using Cons by simp (blast intro: exI [of _ False])
qed (simp only: simple_entries.simps, blast)

lemma calm_counted [calm_intros]: "(\<And>w. \<exists>w'. f w = Inr w') \<Longrightarrow> calm (h_counted f)"
  unfolding calm_def h_counted_def by (metis fst_conv sum.distinct(1) sum.case(2))

lemma readdirplus_reply_infallible:
  assumes "\<forall>e \<in> set (rdr_entries result). length (lde_name e) < u32_max" and "\<forall>i. nfs_fh3_ok (id_to_fh i)"
  shows "\<exists>w'. readdirplus_reply xid id_to_fh dir_attr max_bytes max_dircount result w = Inr w'"
proof -
  obtain v where v: "counted [success xid, nfsstat3_serialize NFS3_OK, post_op_attr_serialize (post_attr dir_attr),
      array_u8_serialize (dirversion dir_attr)] w = Inr v"
    using counted_infallible [of "[success xid, nfsstat3_serialize NFS3_OK, post_op_attr_serialize (post_attr dir_attr),
      array_u8_serialize (dirversion dir_attr)]" w] by auto
  obtain v' everything where "plus_entries id_to_fh max_bytes max_dircount (rdr_entries result) v 0 = Inr (v', everything)"
    using plus_entries_infallible [OF assms] by fastforce
  then show ?thesis
    unfolding readdirplus_reply_def v
    using counted_infallible [of "[bool_serialize False, bool_serialize (if everything then rdr_end result else False)]" v']
    by auto
qed

lemma readdir_simple_reply_infallible:
  assumes "\<forall>e \<in> set (rds_entries result). length (des_name e) < u32_max"
  shows "\<exists>w'. readdir_simple_reply xid dir_attr max_bytes result w = Inr w'"
proof -
  obtain v where v: "counted [success xid, nfsstat3_serialize NFS3_OK, post_op_attr_serialize (post_attr dir_attr),
      array_u8_serialize (dirversion dir_attr)] w = Inr v"
    using counted_infallible [of "[success xid, nfsstat3_serialize NFS3_OK, post_op_attr_serialize (post_attr dir_attr),
      array_u8_serialize (dirversion dir_attr)]" w] by auto
  obtain v' everything where "simple_entries max_bytes (rds_entries result) v = Inr (v', everything)"
    using simple_entries_infallible [OF assms] by fastforce
  then show ?thesis
    unfolding readdir_simple_reply_def v
    using counted_infallible [of "[bool_serialize False, bool_serialize (if everything then rds_end result else False)]" v']
    by auto
qed

lemma vfs_boundedD:
  assumes "vfs_bounded vfs"
  shows "nfs_fh3_ok (l_id_to_fh vfs i)" and "\<forall>i. nfs_fh3_ok (l_id_to_fh vfs i)"
    and "l_read vfs i offset count fs = (Inr (data, eof), fs') \<Longrightarrow> length data < u32_max"
    and "l_readlink vfs i fs = (Inr path, fs') \<Longrightarrow> length path < u32_max"
    and "l_readdir vfs i cookie n fs = (Inr result, fs') \<Longrightarrow>
      \<forall>e \<in> set (rdr_entries result). length (lde_name e) < u32_max"
    and "l_readdir_simple vfs i n fs = (Inr simple, fs') \<Longrightarrow>
      \<forall>e \<in> set (rds_entries simple). length (des_name e) < u32_max"
  using assms unfolding vfs_bounded_def by (elim conjE, metis)+

lemma calm_reading_simple:
  assumes "vfs_bounded (ctx_vfs ctx)"
  shows "calm (nfsproc3_null xid)" "calm (nfsproc3_getattr xid ctx)" "calm (nfsproc3_lookup xid ctx)"
    "calm (nfsproc3_fsinfo xid ctx)" "calm (nfsproc3_access xid ctx)"
    "calm (nfsproc3_pathconf xid ctx)" "calm (nfsproc3_fsstat xid ctx)"
  unfolding nfsproc3_null_def nfsproc3_getattr_def nfsproc3_lookup_def
    nfsproc3_fsinfo_def nfsproc3_access_def nfsproc3_pathconf_def nfsproc3_fsstat_def
  by (intro calm_intros; simp add: vfs_boundedD(1) [OF assms])+

lemma calm_reading_data:
  assumes "vfs_bounded (ctx_vfs ctx)"
  shows "calm (nfsproc3_read xid ctx)" "calm (nfsproc3_readlink xid ctx)"
  unfolding nfsproc3_read_def nfsproc3_readlink_def
  by (intro calm_intros; auto dest: vfs_boundedD(3,4) [OF assms])+

lemma calm_reading_dirs:
  assumes "vfs_bounded (ctx_vfs ctx)"
  shows "calm (nfsproc3_readdirplus False xid ctx)" "calm (nfsproc3_readdir False xid ctx)"
  unfolding nfsproc3_readdirplus_def nfsproc3_readdir_def
  by (intro calm_intros readdirplus_reply_infallible readdir_simple_reply_infallible;
      simp add: vfs_boundedD(1,5,6) [OF assms])+

lemma calm_writing:
  assumes "vfs_bounded (ctx_vfs ctx)"
  shows "calm (nfsproc3_write xid ctx)" "calm (nfsproc3_setattr xid ctx)"
    "calm (nfsproc3_remove xid ctx)" "calm (nfsproc3_rename xid ctx)" "calm (nfsproc3_mkdir xid ctx)"
    "calm (nfsproc3_symlink xid ctx)"
  subgoal unfolding nfsproc3_write_def garbage_args_reply_message_def by (intro calm_intros; simp (no_asm))
  subgoal unfolding nfsproc3_setattr_def by (intro calm_intros; simp (no_asm))
  subgoal unfolding nfsproc3_remove_def by (intro calm_intros; simp (no_asm))
  subgoal unfolding nfsproc3_rename_def by (intro calm_intros; simp (no_asm))
  subgoal unfolding nfsproc3_mkdir_def by (intro calm_intros; simp (no_asm) add: vfs_boundedD(1) [OF assms])
  subgoal unfolding nfsproc3_symlink_def by (intro calm_intros; simp (no_asm) add: vfs_boundedD(1) [OF assms])
  done

lemma calm_create:
  assumes "vfs_bounded (ctx_vfs ctx)"
  shows "calm (nfsproc3_create xid ctx)"
proof -
  have "calm (create_and_reply xid ctx dirid name createhow target_attributes pre_dir_attr)"
    for dirid name createhow target_attributes pre_dir_attr
    unfolding create_and_reply_def by (intro calm_intros; simp (no_asm) add: vfs_boundedD(1) [OF assms])
  then show ?thesis
    unfolding nfsproc3_create_def by (intro calm_intros) (simp_all (no_asm_simp))
qed

lemma calm_nfs:
  assumes "vfs_bounded (ctx_vfs ctx)"
  shows "calm (handle_nfs False xid call ctx)"
proof -
  have "calm (nfs_proc False xid ctx prog)" for prog
    unfolding nfs_proc_def accepted_messages
    by (cases prog) (simp_all add: calm_reading_simple [OF assms] calm_reading_data [OF assms]
      calm_reading_dirs [OF assms] calm_writing [OF assms]
      calm_create [OF assms] calm_basic)
  then show ?thesis
    unfolding handle_nfs_def accepted_messages by (intro calm_intros) simp_all
qed

lemma calm_mount:
  assumes "vfs_bounded (ctx_vfs ctx)" and "length (as_bytes (ctx_export_name ctx)) < u32_max"
  shows "calm (handle_mount xid call ctx)"
proof -
  have "calm (mountproc3_null xid :: ('a, unit) hm)" "calm (mountproc3_mnt xid ctx)" "calm (mountproc3_umnt xid ctx)"
    "calm (mountproc3_umnt_all xid ctx)" "calm (mountproc3_export xid ctx)"
    unfolding mountproc3_null_def mountproc3_mnt_def mountproc3_umnt_def mountproc3_umnt_all_def
      mountproc3_export_def mountres3_ok_serialize_def
    using vfs_boundedD(1) [OF assms(1)] assms(2)
    by (intro calm_intros; simp add: infallible_struct nfs_fh3_ok_def)+
  then show ?thesis
    unfolding handle_mount_def accepted_messages
    by (simp add: calm_basic split: MountProgram.splits)
qed

lemma calm_reader_mapping: "calm_reader mapping_deserialize"
  by (auto simp: mapping_deserialize_def intro!: calm_reader_bind)

lemma calm_portmap: "calm (handle_portmap xid call ctx)"
  unfolding handle_portmap_def accepted_messages pmapproc_null_def pmapproc_getport_def
  by (auto intro!: calm_intros calm_reader_mapping split: PortmapProgram.splits)

end
