(* ===== verification/Legacy_Behaviour.thy ===== *)
theory Legacy_Behaviour
  imports Legacy_Replies
begin

text \<open>
  The behaviour of single procedures of the demo stack: when a call is answered, what a read-only
  file system is protected from, how a listing is cut into a page, and three places where the
  procedures depart from what their client asks for (the guard of \<open>SETATTR\<close>, the cookie and the
  byte limit of \<open>READDIR\<close>).
\<close>

section \<open>Wire forms of replies and listings\<close>

definition success_wire :: "u32 \<Rightarrow> nfsstat3 \<Rightarrow> bytes" where
  "success_wire xid stat = rpc_msg_wire (accepted_message xid Accept_SUCCESS) @ be32 (nfsstat3_code stat)"

definition plus_wire :: "(fileid3 \<Rightarrow> nfs_fh3) \<Rightarrow> LegacyDirEntry \<Rightarrow> bytes" where
  "plus_wire id_to_fh e =
     bool_bytes True @ be64 (lde_fileid e) @ opaque_bytes (lde_name e) @ be64 (lde_fileid e) @
     optional_wire fattr3_wire (Some (lde_attr e)) @
     optional_wire nfs_fh3_wire (Some (id_to_fh (lde_fileid e)))"

definition listing_header :: "u32 \<Rightarrow> nfsstat3 + fattr3 \<Rightarrow> bytes" where
  "listing_header xid dir_attr =
     success_wire xid NFS3_OK @ optional_wire fattr3_wire (post_attr dir_attr) @ dirversion dir_attr"

text \<open>The first \<open>k\<close> entries fit into the two limits of a page that starts with \<open>start\<close> bytes.\<close>

definition page_fits :: "(fileid3 \<Rightarrow> nfs_fh3) \<Rightarrow> usize \<Rightarrow> usize \<Rightarrow> usize \<Rightarrow> usize \<Rightarrow> LegacyDirEntry list \<Rightarrow> nat \<Rightarrow> bool" where
  "page_fits id_to_fh max_bytes max_dircount start acc entries k \<longleftrightarrow>
     start + length (concat (map (plus_wire id_to_fh) (take k entries))) < max_bytes \<and>
     acc + (\<Sum>e\<leftarrow>take k entries. dircount_of (lde_name e)) < max_dircount"

text \<open>
  A file system for concrete runs: its state counts the changes it was asked for, its only
  directory has one entry, and its attributes tell the number of changes.
\<close>

definition sample_attr :: "nat \<Rightarrow> fattr3" where
  "sample_attr n =
     (let zero = \<lparr>t3_seconds = 0, t3_nseconds = 0\<rparr> in
      \<lparr>f3_ftype = NF3DIR, f3_mode = 493, f3_nlink = 1, f3_uid = 0, f3_gid = 0, f3_size = of_nat n, f3_used = 0,
       f3_rdev = \<lparr>specdata1 = 0, specdata2 = 0\<rparr>, f3_fsid = 0, f3_fileid = 1,
       f3_atime = zero, f3_mtime = zero, f3_ctime = zero\<rparr>)"

definition sample_entries :: "LegacyDirEntry list" where
  "sample_entries = [\<lparr>lde_fileid = 2, lde_name = [97], lde_attr = sample_attr 0\<rparr>]"

definition sample_fs :: "VFSCapabilities \<Rightarrow> nat NFSFileSystem" where
  "sample_fs capabilities =
     \<lparr>l_capabilities = (\<lambda>_. capabilities), l_root_dir = (\<lambda>_. 1),
      l_lookup = (\<lambda>_ name fs. (if name = [97] then Inr 2 else Inl NFS3ERR_NOENT, fs)),
      l_getattr = (\<lambda>_ fs. (Inr (sample_attr fs), fs)),
      l_setattr = (\<lambda>_ _ fs. (Inr (sample_attr (Suc fs)), Suc fs)),
      l_read = (\<lambda>_ _ _ fs. (Inr ([1, 2, 3], True), fs)),
      l_write = (\<lambda>_ _ _ fs. (Inr (sample_attr (Suc fs)), Suc fs)),
      l_create = (\<lambda>_ _ _ fs. (Inr (2, sample_attr (Suc fs)), Suc fs)),
      l_create_exclusive = (\<lambda>_ _ fs. (Inr 2, Suc fs)),
      l_mkdir = (\<lambda>_ _ fs. (Inr (2, sample_attr (Suc fs)), Suc fs)),
      l_remove = (\<lambda>_ _ fs. (Inr (), Suc fs)), l_rename = (\<lambda>_ _ _ _ fs. (Inr (), Suc fs)),
      l_readdir = (\<lambda>_ _ _ fs. (Inr \<lparr>rdr_entries = sample_entries, rdr_end = True\<rparr>, fs)),
      l_readdir_simple = default_readdir_simple (\<lambda>_ _ _ fs. (Inr \<lparr>rdr_entries = sample_entries, rdr_end = True\<rparr>, fs)),
      l_symlink = (\<lambda>_ _ _ _ fs. (Inr (2, sample_attr (Suc fs)), Suc fs)),
      l_readlink = (\<lambda>_ fs. (Inl NFS3ERR_INVAL, fs)),
      l_fsinfo = default_fsinfo (\<lambda>_ fs. (Inr (sample_attr fs), fs)),
      l_id_to_fh = default_id_to_fh 1, l_fh_to_id = default_fh_to_id 1,
      l_path_to_id = default_path_to_id (\<lambda>_. 1) (\<lambda>_ name fs. (if name = [97] then Inr 2 else Inl NFS3ERR_NOENT, fs)),
      l_serverid = default_serverid 1\<rparr>"

definition legacy_context :: "VFSCapabilities \<Rightarrow> nat RPCContext" where
  "legacy_context capabilities =
     \<lparr>ctx_local_port = 2049, ctx_client_addr = [], ctx_auth = auth_unix_default,
      ctx_vfs = sample_fs capabilities, ctx_mount_signal = False, ctx_export_name = [47]\<rparr>"

definition sample_call :: "u32 \<Rightarrow> call_body" where
  "sample_call procedure =
     \<lparr>cb_rpcvers = 2, cb_prog = 100003, cb_vers = 3, cb_proc = procedure,
      cb_cred = opaque_auth_default, cb_verf = opaque_auth_default\<rparr>"

definition legacy_state :: "bytes \<Rightarrow> nat hs" where
  "legacy_state input = \<lparr>hs_input = input, hs_output = [], hs_fs = 0, hs_signals = []\<rparr>"

text \<open>The arguments of a guarded \<open>SETATTR\<close> and of a \<open>READDIR\<close>.\<close>

definition sample_setattr :: SETATTR3args where
  "sample_setattr =
     \<lparr>sg_object = default_id_to_fh 1 1, sg_new_attribute = sattr3_default,
      sg_guard = Some \<lparr>t3_seconds = 5, t3_nseconds = 0\<rparr>\<rparr>"

definition setattr_args_wire :: "SETATTR3args \<Rightarrow> bytes" where
  "setattr_args_wire a = nfs_fh3_wire (sg_object a) @ sattr3_wire (sg_new_attribute a) @
     optional_wire nfstime3_wire (sg_guard a)"

definition readdir_args_wire :: "READDIR3args \<Rightarrow> bytes" where
  "readdir_args_wire a = nfs_fh3_wire (rd_dir a) @ be64 (rd_cookie a) @ rd_cookieverf a @ be32 (rd_dircount a)"

section \<open>Lemmas\<close>

lemma h_bind_writable:
  "h_bind (h_writable ctx) k s = k (l_capabilities (ctx_vfs ctx) (hs_fs s) = VfsReadWrite) s"
  by (simp add: h_bind_def h_writable_def)

lemma with_mutators_reads [simp]:
  "l_capabilities (with_mutators vfs other) = l_capabilities vfs"
  "l_lookup (with_mutators vfs other) = l_lookup vfs" "l_getattr (with_mutators vfs other) = l_getattr vfs"
  "l_read (with_mutators vfs other) = l_read vfs" "l_readdir (with_mutators vfs other) = l_readdir vfs"
  "l_readdir_simple (with_mutators vfs other) = l_readdir_simple vfs"
  "l_readlink (with_mutators vfs other) = l_readlink vfs" "l_fsinfo (with_mutators vfs other) = l_fsinfo vfs"
  "l_id_to_fh (with_mutators vfs other) = l_id_to_fh vfs" "l_fh_to_id (with_mutators vfs other) = l_fh_to_id vfs"
  by (simp_all add: with_mutators_def)

lemma read_only_reading:
  fixes ctx :: "'fs RPCContext"
  assumes ctx': "ctx' = ctx\<lparr>ctx_vfs := with_mutators (ctx_vfs ctx) other\<rparr>"
  shows "nfsproc3_getattr xid ctx' = nfsproc3_getattr xid ctx" "nfsproc3_lookup xid ctx' = nfsproc3_lookup xid ctx"
    "nfsproc3_read xid ctx' = nfsproc3_read xid ctx" "nfsproc3_fsinfo xid ctx' = nfsproc3_fsinfo xid ctx"
    "nfsproc3_access xid ctx' = nfsproc3_access xid ctx" "nfsproc3_pathconf xid ctx' = nfsproc3_pathconf xid ctx"
    "nfsproc3_fsstat xid ctx' = nfsproc3_fsstat xid ctx" "nfsproc3_readlink xid ctx' = nfsproc3_readlink xid ctx"
    "nfsproc3_readdirplus checks xid ctx' = nfsproc3_readdirplus checks xid ctx"
    "nfsproc3_readdir checks xid ctx' = nfsproc3_readdir checks xid ctx"
proof -
  have vfs: "ctx_vfs ctx' = with_mutators (ctx_vfs ctx) other" using ctx' by simp
  then have "h_writable ctx' = h_writable ctx" by (simp add: h_writable_def fun_eq_iff)
  note same = this vfs with_mutators_reads refl
  show "nfsproc3_getattr xid ctx' = nfsproc3_getattr xid ctx" "nfsproc3_lookup xid ctx' = nfsproc3_lookup xid ctx"
    "nfsproc3_read xid ctx' = nfsproc3_read xid ctx" "nfsproc3_fsinfo xid ctx' = nfsproc3_fsinfo xid ctx"
    "nfsproc3_access xid ctx' = nfsproc3_access xid ctx" "nfsproc3_pathconf xid ctx' = nfsproc3_pathconf xid ctx"
    "nfsproc3_fsstat xid ctx' = nfsproc3_fsstat xid ctx" "nfsproc3_readlink xid ctx' = nfsproc3_readlink xid ctx"
    "nfsproc3_readdirplus checks xid ctx' = nfsproc3_readdirplus checks xid ctx"
    "nfsproc3_readdir checks xid ctx' = nfsproc3_readdir checks xid ctx"
    unfolding nfsproc3_getattr_def nfsproc3_lookup_def nfsproc3_read_def nfsproc3_fsinfo_def nfsproc3_access_def
      nfsproc3_pathconf_def nfsproc3_fsstat_def nfsproc3_readlink_def nfsproc3_readdirplus_def nfsproc3_readdir_def
    by (simp_all only: same)
qed

lemma read_only_writing:
  assumes "l_capabilities (ctx_vfs ctx) (hs_fs s) = VfsReadOnly"
  shows "nfsproc3_write xid ctx s = rofs_reply xid s" "nfsproc3_create xid ctx s = rofs_reply xid s"
    "nfsproc3_setattr xid ctx s = rofs_reply xid s" "nfsproc3_remove xid ctx s = rofs_reply xid s"
    "nfsproc3_rename xid ctx s = rofs_reply xid s" "nfsproc3_mkdir xid ctx s = rofs_reply xid s"
    "nfsproc3_symlink xid ctx s = rofs_reply xid s"
  unfolding nfsproc3_write_def nfsproc3_create_def nfsproc3_setattr_def nfsproc3_remove_def nfsproc3_rename_def
    nfsproc3_mkdir_def nfsproc3_symlink_def
  by (simp_all only: h_bind_writable assms VFSCapabilities.distinct if_True not_False_eq_True)

lemma read_only_procedures:
  assumes "l_capabilities (ctx_vfs ctx) (hs_fs s) = VfsReadOnly"
    and "ctx' = ctx\<lparr>ctx_vfs := with_mutators (ctx_vfs ctx) other\<rparr>"
  shows "nfs_proc checks xid ctx' prog s = nfs_proc checks xid ctx prog s"
proof -
  have "l_capabilities (ctx_vfs ctx') (hs_fs s) = VfsReadOnly" using assms by simp
  then show ?thesis
    by (cases prog)
      (simp_all only: nfs_proc_def NFSProgram.case read_only_reading [OF assms(2)] read_only_writing assms(1))
qed

lemma h_write_writes:
  "writes (xdr_struct sers) w \<Longrightarrow> h_write sers s = (Inr (), s\<lparr>hs_output := hs_output s @ w\<rparr>)"
  by (simp add: h_write_def writes_def)

lemma wcc_failure_writes:
  "wcc_failure xid stat s =
     (Inr (), s\<lparr>hs_output := hs_output s @ success_wire xid stat @ wcc_data_wire wcc_data_default3\<rparr>)"
proof -
  have "writes (xdr_struct [success xid, nfsstat3_serialize stat, wcc_data_serialize wcc_data_default3])
      (rpc_msg_wire (accepted_message xid Accept_SUCCESS) @ be32 (nfsstat3_code stat) @ wcc_data_wire wcc_data_default3)"
    by (intro writes_intros writes_success)
  then show ?thesis by (simp add: wcc_failure_def h_write_writes success_wire_def)
qed

section \<open>Pages of a listing\<close>

lemma plus_wire_writes:
  assumes "length (lde_name e) < u32_max" and "nfs_fh3_ok (id_to_fh (lde_fileid e))"
  shows "writes (xdr_struct [bool_serialize True, entryplus3_serialize (make_entryplus id_to_fh e)]) (plus_wire id_to_fh e)"
  unfolding plus_wire_def entryplus3_serialize_def make_entryplus_def entryplus3.simps
    post_op_attr_serialize_def post_op_fh3_serialize_def
  using assms by (intro writes_intros x_fattr3.union_ser x_nfs_fh3.union_ser) simp_all

lemma plus_entries_page:
  assumes "\<forall>e \<in> set entries. length (lde_name e) < u32_max" and "\<forall>i. nfs_fh3_ok (id_to_fh i)"
  shows "\<exists>k \<le> length entries.
    plus_entries id_to_fh max_bytes max_dircount entries w acc =
      Inr (counter_write (concat (map (plus_wire id_to_fh) (take k entries))) w, k = length entries) \<and>
    (\<forall>j. 0 < j \<and> j \<le> k \<longrightarrow> page_fits id_to_fh max_bytes max_dircount (wc_count w) acc entries j) \<and>
    (k < length entries \<longrightarrow> \<not> page_fits id_to_fh max_bytes max_dircount (wc_count w) acc entries (Suc k))"
  using assms(1)
proof (induction entries arbitrary: w acc)
  case Nil
  then show ?case by simp
next
  case (Cons e entries)
  let ?b = "plus_wire id_to_fh e" and ?d = "dircount_of (lde_name e)"
  have wire: "xdr_struct [bool_serialize True, entryplus3_serialize (make_entryplus id_to_fh e)] [] = Inr ?b"
    using writesD [OF plus_wire_writes, of e id_to_fh "[]"] Cons.prems assms(2) by simp
  have fits: "page_fits id_to_fh max_bytes max_dircount (wc_count w) acc (e # entries) (Suc j) \<longleftrightarrow>
      page_fits id_to_fh max_bytes max_dircount (wc_count (counter_write ?b w)) (acc + ?d) entries j" for j
    by (simp add: page_fits_def add.assoc)
  show ?case
  proof (cases "page_fits id_to_fh max_bytes max_dircount (wc_count w) acc (e # entries) (Suc 0)")
    case True
    from Cons.IH [of "counter_write ?b w" "acc + ?d"] Cons.prems obtain k where k: "k \<le> length entries"
      "plus_entries id_to_fh max_bytes max_dircount entries (counter_write ?b w) (acc + ?d) =
        Inr (counter_write (concat (map (plus_wire id_to_fh) (take k entries))) (counter_write ?b w), k = length entries)"
      "\<And>j. 0 < j \<Longrightarrow> j \<le> k \<Longrightarrow> page_fits id_to_fh max_bytes max_dircount (wc_count (counter_write ?b w)) (acc + ?d) entries j"
      "k < length entries \<Longrightarrow> \<not> page_fits id_to_fh max_bytes max_dircount (wc_count (counter_write ?b w)) (acc + ?d) entries (Suc k)"
      by auto
    have "page_fits id_to_fh max_bytes max_dircount (wc_count w) acc (e # entries) j" if "0 < j" "j \<le> Suc k" for j
      using that k(3) True fits by (cases j; cases "j - 1") auto
    with True k wire fits show ?thesis
      by (intro exI [of _ "Suc k"]) (simp add: page_fits_def Let_def bytes_written_def add.commute)
  next
    case False
    with wire show ?thesis
      by (intro exI [of _ 0]) (auto simp: page_fits_def Let_def bytes_written_def add.commute)
  qed
qed

lemma listing_header_writes:
  "writes (xdr_struct [success xid, nfsstat3_serialize NFS3_OK, post_op_attr_serialize (post_attr dir_attr),
     array_u8_serialize (dirversion dir_attr)]) (listing_header xid dir_attr)"
  unfolding listing_header_def success_wire_def append_assoc
  by (intro writes_intros writes_success)

section \<open>The sample file system\<close>

lemma sample_fs_bounded: "vfs_bounded (sample_fs capabilities)"
  by (auto simp: vfs_bounded_def sample_fs_def sample_entries_def default_readdir_simple_def
      from_readdir_result_def default_id_to_fh_ok)

lemma setattr_args_read:
  "nfs_fh3_ok (sg_object a) \<Longrightarrow> SETATTR3args_deserialize (setattr_args_wire a @ rest) = Inr (a, rest)"
  by (simp add: SETATTR3args_deserialize_def setattr_args_wire_def rd_bind_def legacy_simps
      x_nfstime3.union_de pred_option_True)

lemma readdir_args_read:
  "nfs_fh3_ok (rd_dir a) \<Longrightarrow> length (rd_cookieverf a) = 8 \<Longrightarrow>
     READDIR3args_deserialize (readdir_args_wire a @ rest) = Inr (a, rest)"
  by (simp add: READDIR3args_deserialize_def readdir_args_wire_def rd_bind_def legacy_simps
      array_u8_deserialize_def rd_exact_append)

section \<open>Properties\<close>



text \<open>
  C20: a file system that says it is read only is never asked to change anything: for every call,
  replacing all of its changing methods by arbitrary other ones changes neither the reply nor the
  state.
\<close>

theorem read_only_noninterference:
  assumes "l_capabilities (ctx_vfs ctx) (hs_fs s) = VfsReadOnly"
  shows "handle_nfs checks xid call (ctx\<lparr>ctx_vfs := with_mutators (ctx_vfs ctx) other\<rparr>) s =
    handle_nfs checks xid call ctx s"
  unfolding handle_nfs_def using read_only_procedures [OF assms refl] by simp

theorem read_only_noninterference_witness:
  "handle_nfs True 7 (sample_call 7)
     ((legacy_context VfsReadOnly)\<lparr>ctx_vfs := with_mutators (ctx_vfs (legacy_context VfsReadOnly)) (sample_fs VfsReadWrite)\<rparr>)
     (legacy_state []) =
   handle_nfs True 7 (sample_call 7) (legacy_context VfsReadOnly) (legacy_state [])"
  by (rule read_only_noninterference) (simp add: legacy_context_def sample_fs_def)

text \<open>
  C22: the guard of \<open>SETATTR\<close> is not enforced.  When the client's guard differs from the change time
  of the file, the procedure appends a \<open>NFS3ERR_NOT_SYNC\<close> reply, changes the attributes all the
  same and appends a second reply with the outcome: one transaction gets two replies.
\<close>

theorem setattr_guard_ignored:
  assumes "l_capabilities (ctx_vfs ctx) (hs_fs s) = VfsReadWrite"
    and "SETATTR3args_deserialize (hs_input s) = Inr (args, rest)"
    and "l_fh_to_id (ctx_vfs ctx) (sg_object args) = Inr fid"
    and "l_getattr (ctx_vfs ctx) fid (hs_fs s) = (Inr v, fs)"
    and "sg_guard args = Some guard" and "guard \<noteq> f3_ctime v"
    and "l_setattr (ctx_vfs ctx) fid (sg_new_attribute args) fs = (Inr attr, fs')"
  shows "nfsproc3_setattr xid ctx s = (Inr (), s
    \<lparr>hs_input := rest, hs_fs := fs',
     hs_output := hs_output s @
       (success_wire xid NFS3ERR_NOT_SYNC @ wcc_data_wire wcc_data_default3) @
       (success_wire xid NFS3_OK @ wcc_data_wire \<lparr>wd_before = Some (wcc_of_attr v), wd_after = Some attr\<rparr>)\<rparr>)"
proof -
  let ?wcc = "\<lparr>wd_before = Some (wcc_of_attr v), wd_after = Some attr\<rparr>"
  have "writes (xdr_struct [success xid, nfsstat3_serialize NFS3_OK, wcc_data_serialize ?wcc])
      (rpc_msg_wire (accepted_message xid Accept_SUCCESS) @ be32 (nfsstat3_code NFS3_OK) @ wcc_data_wire ?wcc)"
    by (intro writes_intros writes_success)
  note reply = h_write_writes [OF this]
  have differ: "t3_seconds guard \<noteq> t3_seconds (f3_ctime v) \<or> t3_nseconds guard \<noteq> t3_nseconds (f3_ctime v)"
    using assms(6) by (auto simp: nfstime3.equality)
  show ?thesis
    unfolding nfsproc3_setattr_def h_bind_writable using assms differ
    by (simp add: h_bind_def h_read_def h_vfs_def wcc_failure_writes reply success_wire_def del: fattr3.simps)
qed

theorem setattr_guard_ignored_witness:
  "nfsproc3_setattr 7 (legacy_context VfsReadWrite) (legacy_state (setattr_args_wire sample_setattr)) =
     (Inr (), (legacy_state (setattr_args_wire sample_setattr))
       \<lparr>hs_input := [], hs_fs := 1,
        hs_output := hs_output (legacy_state (setattr_args_wire sample_setattr)) @
          (success_wire 7 NFS3ERR_NOT_SYNC @ wcc_data_wire wcc_data_default3) @
          (success_wire 7 NFS3_OK @
           wcc_data_wire \<lparr>wd_before = Some (wcc_of_attr (sample_attr 0)), wd_after = Some (sample_attr 1)\<rparr>)\<rparr>)"
proof (rule setattr_guard_ignored [where args = sample_setattr and fid = 1 and fs = 0
      and guard = "\<lparr>t3_seconds = 5, t3_nseconds = 0\<rparr>"])
  show "SETATTR3args_deserialize (hs_input (legacy_state (setattr_args_wire sample_setattr))) = Inr (sample_setattr, [])"
    using setattr_args_read [of sample_setattr "[]"]
    by (simp add: legacy_state_def sample_setattr_def default_id_to_fh_ok)
  show "l_fh_to_id (ctx_vfs (legacy_context VfsReadWrite)) (sg_object sample_setattr) = Inr 1"
    by (simp add: legacy_context_def sample_fs_def sample_setattr_def default_fh_to_id_Inr)
qed (simp_all add: legacy_context_def sample_fs_def legacy_state_def sample_setattr_def sample_attr_def Let_def)

text \<open>
  C21: a \<open>READDIRPLUS\<close> reply is the longest page that fits.  It lists a prefix of the entries that
  the file system returned, every prefix it passed through is below both limits, one more entry
  would not be, and its end-of-list flag is set exactly when the prefix is the whole result and
  the file system said that the result ends the directory.
\<close>

theorem readdirplus_page:
  assumes "\<forall>e \<in> set (rdr_entries result). length (lde_name e) < u32_max" and "\<forall>i. nfs_fh3_ok (id_to_fh i)"
  shows "\<exists>k \<le> length (rdr_entries result).
    readdirplus_reply xid id_to_fh dir_attr max_bytes max_dircount result w =
      Inr (counter_write
        (listing_header xid dir_attr @ concat (map (plus_wire id_to_fh) (take k (rdr_entries result))) @
         bool_bytes False @ bool_bytes (k = length (rdr_entries result) \<and> rdr_end result)) w) \<and>
    (\<forall>j. 0 < j \<and> j \<le> k \<longrightarrow>
       page_fits id_to_fh max_bytes max_dircount (wc_count w + length (listing_header xid dir_attr)) 0
         (rdr_entries result) j) \<and>
    (k < length (rdr_entries result) \<longrightarrow>
       \<not> page_fits id_to_fh max_bytes max_dircount (wc_count w + length (listing_header xid dir_attr)) 0
         (rdr_entries result) (Suc k))"
proof -
  let ?w = "counter_write (listing_header xid dir_attr) w"
  obtain k where k: "k \<le> length (rdr_entries result)"
    "plus_entries id_to_fh max_bytes max_dircount (rdr_entries result) ?w 0 =
       Inr (counter_write (concat (map (plus_wire id_to_fh) (take k (rdr_entries result)))) ?w, k = length (rdr_entries result))"
    "\<forall>j. 0 < j \<and> j \<le> k \<longrightarrow> page_fits id_to_fh max_bytes max_dircount (wc_count ?w) 0 (rdr_entries result) j"
    "k < length (rdr_entries result) \<longrightarrow>
       \<not> page_fits id_to_fh max_bytes max_dircount (wc_count ?w) 0 (rdr_entries result) (Suc k)"
    using plus_entries_page [OF assms] by blast
  have "writes (xdr_struct [bool_serialize False, bool_serialize b]) (bool_bytes False @ bool_bytes b)" for b
    by (intro writes_intros)
  note flags = writesD [OF this, where dest = "[]"]
  have "readdirplus_reply xid id_to_fh dir_attr max_bytes max_dircount result w =
      Inr (counter_write
        (listing_header xid dir_attr @ concat (map (plus_wire id_to_fh) (take k (rdr_entries result))) @
         bool_bytes False @ bool_bytes (k = length (rdr_entries result) \<and> rdr_end result)) w)"
    using writesD [OF listing_header_writes, of xid dir_attr "[]"] k(2)
    by (simp add: readdirplus_reply_def counted_def flags)
  with k show ?thesis by (auto intro!: exI [of _ k])
qed

theorem readdirplus_page_witness:
  "\<exists>k \<le> 1. readdirplus_reply 7 (default_id_to_fh 1) (Inr (sample_attr 0)) 4000 512
      \<lparr>rdr_entries = sample_entries, rdr_end = True\<rparr> (write_counter_new []) =
    Inr (counter_write
      (listing_header 7 (Inr (sample_attr 0)) @ concat (map (plus_wire (default_id_to_fh 1)) (take k sample_entries)) @
       bool_bytes False @ bool_bytes (k = 1)) (write_counter_new []))"
  using readdirplus_page [of "\<lparr>rdr_entries = sample_entries, rdr_end = True\<rparr>" "default_id_to_fh 1" 7
      "Inr (sample_attr 0)" 4000 512 "write_counter_new []"]
  by (auto simp: sample_entries_def default_id_to_fh_ok)

text \<open>
  C23: \<open>READDIR\<close> does not page.  Its reply and its effect are the same for every cookie and every
  cookie verifier, so a client that continues a listing gets the first page again.
\<close>

theorem readdir_ignores_cookie:
  assumes "nfs_fh3_ok dir" and "length verf = 8" and "length verf' = 8"
  shows "nfsproc3_readdir checks xid ctx (s\<lparr>hs_input :=
      readdir_args_wire \<lparr>rd_dir = dir, rd_cookie = cookie, rd_cookieverf = verf, rd_dircount = count\<rparr> @ rest\<rparr>) =
    nfsproc3_readdir checks xid ctx (s\<lparr>hs_input :=
      readdir_args_wire \<lparr>rd_dir = dir, rd_cookie = cookie', rd_cookieverf = verf', rd_dircount = count\<rparr> @ rest\<rparr>)"
  using assms by (simp add: nfsproc3_readdir_def h_bind_def [where m = "h_read READDIR3args_deserialize"]
      h_read_def readdir_args_read split: sum.split)

theorem readdir_ignores_cookie_witness:
  "nfsproc3_readdir False 7 (legacy_context VfsReadWrite) ((legacy_state [])\<lparr>hs_input :=
      readdir_args_wire \<lparr>rd_dir = default_id_to_fh 1 1, rd_cookie = 0, rd_cookieverf = replicate 8 0, rd_dircount = 512\<rparr> @ []\<rparr>) =
   nfsproc3_readdir False 7 (legacy_context VfsReadWrite) ((legacy_state [])\<lparr>hs_input :=
      readdir_args_wire \<lparr>rd_dir = default_id_to_fh 1 1, rd_cookie = 2, rd_cookieverf = replicate 8 1, rd_dircount = 512\<rparr> @ []\<rparr>)"
  by (rule readdir_ignores_cookie) (simp_all add: default_id_to_fh_ok)

text \<open>
  \<open>READDIR\<close> subtracts 128 from the byte limit of the client without a check.  With overflow
  checks a limit below 128 panics in the middle of the call; without them the subtraction wraps and
  the limit becomes larger than any limit that can be asked for.
\<close>

theorem readdir_small_count:
  assumes "READDIR3args_deserialize (hs_input s) = Inr (args, rest)" and "unat (rd_dircount args) < 128"
    and "l_fh_to_id (ctx_vfs ctx) (rd_dir args) = Inr dirid"
  shows "fst (nfsproc3_readdir True xid ctx s) = Inl Panicked \<and>
    (\<exists>limit. usize_sub False (unat (rd_dircount args)) 128 = Inr limit \<and> u32_max < limit)"
  using assms
  by (simp add: nfsproc3_readdir_def h_bind_def h_read_def h_vfs_def h_lift_def usize_sub_def Let_def split_beta)

theorem readdir_small_count_witness:
  "fst (nfsproc3_readdir True 7 (legacy_context VfsReadWrite) (legacy_state
      (readdir_args_wire \<lparr>rd_dir = default_id_to_fh 1 1, rd_cookie = 0, rd_cookieverf = replicate 8 0, rd_dircount = 100\<rparr>))) =
     Inl Panicked"
proof -
  let ?args = "\<lparr>rd_dir = default_id_to_fh 1 1, rd_cookie = 0, rd_cookieverf = replicate 8 0, rd_dircount = 100\<rparr>"
  have "READDIR3args_deserialize (hs_input (legacy_state (readdir_args_wire ?args))) = Inr (?args, [])"
    using readdir_args_read [of ?args "[]"] by (simp add: legacy_state_def default_id_to_fh_ok)
  moreover have "l_fh_to_id (ctx_vfs (legacy_context VfsReadWrite)) (rd_dir ?args) = Inr 1"
    by (simp add: legacy_context_def sample_fs_def default_fh_to_id_Inr)
  ultimately show ?thesis
    using readdir_small_count [of "legacy_state (readdir_args_wire ?args)" ?args "[]" "legacy_context VfsReadWrite" 1 7]
    by simp
qed

end
