(* ===== verification/Legacy_Wire.thy ===== *)
theory Legacy_Wire
  imports Legacy_Behaviour Legacy_Tracker Record_Marking
begin

text \<open>
  The message layer of the demo stack, \<^verbatim>\<open>src/rpcwire.rs\<close>: the handling of one RPC record, the
  retransmission check around it, and the marking of a reply.

  The tracker that the context of the source shares is passed beside the state of the handlers.  A
  message asks the tracker once before and once after its procedure; the two clock readings are
  arguments.  \<open>rpc_begin\<close> and \<open>rpc_finish\<close> are the parts before and after the point where the
  procedure starts to wait for the file system, and \<open>handle_rpc\<close> is one after the other.
\<close>

section \<open>Programs\<close>

definition NFS_ACL_PROGRAM :: u32 where "NFS_ACL_PROGRAM = 100227"
definition NFS_ID_MAP_PROGRAM :: u32 where "NFS_ID_MAP_PROGRAM = 100270"
definition NFS_METADATA_PROGRAM :: u32 where "NFS_METADATA_PROGRAM = 200024"

definition handle_program :: "bool \<Rightarrow> u32 \<Rightarrow> call_body \<Rightarrow> 'fs RPCContext \<Rightarrow> ('fs, unit) hm" where
  "handle_program checks xid call ctx =
     (if cb_prog call = NFS_PROGRAM then handle_nfs checks xid call ctx
      else if cb_prog call = PORTMAP_PROGRAM then handle_portmap xid call ctx
      else if cb_prog call = MOUNT_PROGRAM then handle_mount xid call ctx
      else if cb_prog call = NFS_ACL_PROGRAM \<or> cb_prog call = NFS_ID_MAP_PROGRAM \<or>
              cb_prog call = NFS_METADATA_PROGRAM
      then h_write [rpc_msg_serialize (prog_unavail_reply_message xid)]
      else h_write [rpc_msg_serialize (prog_unavail_reply_message xid)])"

section \<open>One message\<close>

text \<open>The context of a call: the credentials of the system flavor replace the default ones.\<close>

definition call_context :: "call_body \<Rightarrow> 'fs RPCContext \<Rightarrow> LegacyError + 'fs RPCContext" where
  "call_context call ctx =
     (if oa_flavor (cb_cred call) = AUTH_UNIX
      then r_bind (auth_unix_deserialize (oa_body (cb_cred call))) (\<lambda>(auth, _). Inr (ctx\<lparr>ctx_auth := auth\<rparr>))
      else Inr ctx)"

datatype 'fs rpc_start =
    Answered "LegacyError + bool"
  | Execute u32 call_body "'fs RPCContext"

definition rpc_begin ::
  "'fs RPCContext \<Rightarrow> nat \<Rightarrow> 'fs hs \<Rightarrow> TransactionTracker \<Rightarrow> 'fs rpc_start \<times> 'fs hs \<times> TransactionTracker" where
  "rpc_begin ctx now s tracker =
     (case h_read rpc_msg_deserialize s of
        (Inl e, s) \<Rightarrow> (Answered (Inl e), s, tracker)
      | (Inr recv, s) \<Rightarrow>
          let xid = rm_xid recv in
          case rm_body recv of
            REPLY _ \<Rightarrow> (Answered (Inl (LegacyMessage ''Bad RPC Call format'')), s, tracker)
          | CALL call \<Rightarrow>
              (case call_context call ctx of
                 Inl e \<Rightarrow> (Answered (Inl e), s, tracker)
               | Inr ctx \<Rightarrow>
                   if cb_rpcvers call \<noteq> 2 then
                     (case h_write [rpc_msg_serialize (rpc_vers_mismatch xid)] s of
                        (Inl e, s) \<Rightarrow> (Answered (Inl e), s, tracker)
                      | (Inr _, s) \<Rightarrow> (Answered (Inr True), s, tracker))
                   else
                     let (retransmission, tracker) = is_retransmission now xid (ctx_client_addr ctx) tracker in
                     if retransmission then (Answered (Inr False), s, tracker)
                     else (Execute xid call ctx, s, tracker)))"

text \<open>A panic of the procedure ends the task of the message before the tracker is told.\<close>

definition rpc_finish ::
  "bool \<Rightarrow> u32 \<Rightarrow> call_body \<Rightarrow> 'fs RPCContext \<Rightarrow> nat \<Rightarrow> 'fs hs \<Rightarrow> TransactionTracker \<Rightarrow>
   (LegacyError + bool) \<times> 'fs hs \<times> TransactionTracker" where
  "rpc_finish checks xid call ctx now s tracker =
     (case handle_program checks xid call ctx s of
        (Inl Panicked, s) \<Rightarrow> (Inl Panicked, s, tracker)
      | (Inl e, s) \<Rightarrow> (Inl e, s, mark_processed now xid (ctx_client_addr ctx) tracker)
      | (Inr _, s) \<Rightarrow> (Inr True, s, mark_processed now xid (ctx_client_addr ctx) tracker))"

definition handle_rpc ::
  "bool \<Rightarrow> 'fs RPCContext \<Rightarrow> nat \<Rightarrow> nat \<Rightarrow> 'fs hs \<Rightarrow> TransactionTracker \<Rightarrow>
   (LegacyError + bool) \<times> 'fs hs \<times> TransactionTracker" where
  "handle_rpc checks ctx now completed_at s tracker =
     (case rpc_begin ctx now s tracker of
        (Answered r, s, tracker) \<Rightarrow> (r, s, tracker)
      | (Execute xid call ctx, s, tracker) \<Rightarrow> rpc_finish checks xid call ctx completed_at s tracker)"

section \<open>Marking a reply\<close>

text \<open>An error of the socket; \<open>io_write_all\<close> has no other.\<close>

fun socket_error :: "RecordError \<Rightarrow> LegacyError" where
  "socket_error (RecIo k) = LegacyIo k"
| "socket_error _ = LegacyMessage []"

definition write_fragment :: "bytes \<Rightarrow> writer \<Rightarrow> (LegacyError + unit) \<times> writer" where
  "write_fragment buf socket =
     (if 2 ^ 31 \<le> length buf then (Inl Panicked, socket)
      else
        let fragment_header = of_nat (length buf) + (2 ^ 31 :: u32) in
        case io_write_all (be32 fragment_header) socket of
          (Inl e, socket) \<Rightarrow> (Inl (socket_error e), socket)
        | (Inr _, socket) \<Rightarrow>
            (case io_write_all buf socket of
               (Inl e, socket) \<Rightarrow> (Inl (socket_error e), socket)
             | (Inr _, socket) \<Rightarrow> (Inr (), socket)))"

section \<open>The answer of a task\<close>

type_synonym SocketMessageType = "LegacyError + bytes"

text \<open>What the task of a message sends to the reply channel, if anything.  A task that panics sends nothing.\<close>

fun task_answer :: "LegacyError + bool \<Rightarrow> bytes \<Rightarrow> SocketMessageType option" where
  "task_answer (Inl Panicked) write_buf = None"
| "task_answer (Inl e) write_buf = Some (Inl e)"
| "task_answer (Inr True) write_buf = Some (Inr write_buf)"
| "task_answer (Inr False) write_buf = None"

text \<open>A \<open>NULL\<close> call of the NFS program, for concrete runs.\<close>

definition sample_record :: bytes where
  "sample_record = rpc_msg_wire \<lparr>rm_xid = 7, rm_body = CALL (sample_call 0)\<rparr>"

text \<open>The reply to a call: accepted, or denied because of the version of the protocol.\<close>

definition rpc_reply_to :: "u32 \<Rightarrow> bytes \<Rightarrow> bool" where
  "rpc_reply_to xid w \<longleftrightarrow> reply_to xid w \<or> w = rpc_msg_wire (rpc_vers_mismatch xid)"

section \<open>Lemmas\<close>

lemma fragment_header_last: "n < 2 ^ 31 \<Longrightarrow> be32 (of_nat n + 2 ^ 31) = fragment_header True n"
proof -
  assume "n < 2 ^ 31"
  then have "of_nat n AND (0x80000000 :: u32) = 0"
    using header_of_length(1) [of n False] by (simp add: header_last_def)
  then have "of_nat n + (0x80000000 :: u32) = of_nat n OR 0x80000000" by (rule disjunctive_add_eq_or)
  then show ?thesis by (simp add: fragment_header_def)
qed

lemma answers_program: "answers xid (handle_program checks xid call ctx)"
  unfolding handle_program_def prog_unavail_reply_message_def
  by (simp add: answers_nfs answers_mount answers_portmap answers_message)

lemma wrote_write_fragment:
  assumes "length buf < 2 ^ 31"
  shows "wrote w (fragments_bytes [buf]) (case write_fragment buf w of (r, w') \<Rightarrow>
     (case r of Inl (LegacyIo k) \<Rightarrow> Inl (RecIo k) | Inl _ \<Rightarrow> Inl BudgetClosed | Inr _ \<Rightarrow> Inr (), w'))"
proof -
  obtain r1 w1 where first: "io_write_all (be32 (of_nat (length buf) + 2 ^ 31)) w = (r1, w1)" by fastforce
  note header = fragment_header_last [OF assms]
  have wrote1: "wrote w (fragment_header True (length buf)) (r1, w1)"
    using wrote_io_write_all [of w "be32 (of_nat (length buf) + 2 ^ 31)"] unfolding first unfolding header .
  show ?thesis
  proof (cases r1)
    case (Inl e)
    with wrote1 obtain k where "e = RecIo k" by (auto simp: wrote_def)
    with wrote1 Inl assms first show ?thesis
      by (auto simp: write_fragment_def wrote_def Let_def intro: prefix_order.trans)
  next
    case (Inr u)
    obtain r2 w2 where second: "io_write_all buf w1 = (r2, w2)" by fastforce
    have wrote2: "wrote w1 buf (r2, w2)" using wrote_io_write_all [of w1 buf] second by simp
    have both: "wrote w (fragment_header True (length buf) @ buf) (r2, w2)"
      using wrote_then [OF _ wrote2, of w] wrote1 Inr by simp
    show ?thesis
    proof (cases r2)
      case Inl2: (Inl e)
      with wrote2 obtain k where "e = RecIo k" by (auto simp: wrote_def)
      with both Inl2 assms first second Inr show ?thesis by (simp add: write_fragment_def Let_def)
    next
      case Inr2: (Inr v)
      with both assms first second Inr show ?thesis by (simp add: write_fragment_def Let_def)
    qed
  qed
qed

lemma u32_deserialize_reads: "u32_deserialize src = Inr (v, rest) \<Longrightarrow> src = be32 v @ rest"
  by (auto simp: u32_deserialize_def rd_bind_def rd_exact_def be32_u32_of_be split: if_splits)

lemma rpc_msg_reads: "rpc_msg_deserialize src = Inr (m, rest) \<Longrightarrow> prefix (be32 (rm_xid m)) src"
  by (auto simp: rpc_msg_deserialize_def rd_bind_def dest!: u32_deserialize_reads split: sum.splits)

lemma h_read_cases:
  obtains (fails) e where "h_read d s = (Inl e, s)" "d (hs_input s) = Inl e"
  | (reads) a rest where "h_read d s = (Inr a, s\<lparr>hs_input := rest\<rparr>)" "d (hs_input s) = Inr (a, rest)"
  by (cases "d (hs_input s)") (auto simp: h_read_def)

lemma writes_vers_mismatch: "writes (rpc_msg_serialize (rpc_vers_mismatch xid)) (rpc_msg_wire (rpc_vers_mismatch xid))"
  by (rule x_rpc_msg.ser_wire) (simp add: rpc_msg_ok_def rpc_vers_mismatch_def)

lemma h_write_vers_mismatch:
  "h_write [rpc_msg_serialize (rpc_vers_mismatch xid)] s =
     (Inr (), s\<lparr>hs_output := hs_output s @ rpc_msg_wire (rpc_vers_mismatch xid)\<rparr>)"
  using writesD [OF xdr_struct_last [OF writes_vers_mismatch]] by (simp add: h_write_def)

lemma call_context_Inr:
  "call_context call ctx = Inr ctx' \<Longrightarrow> \<exists>auth. ctx' = ctx\<lparr>ctx_auth := auth\<rparr>"
  by (auto simp: call_context_def split: if_splits prod.splits intro: exI [of _ "ctx_auth ctx"])

text \<open>The ways in which the first part of a message can end.\<close>

lemma rpc_begin_cases:
  obtains (bad) e s1 where "rpc_begin ctx now s tracker = (Answered (Inl e), s1, tracker)"
  | (version) xid rest where "prefix (be32 xid) (hs_input s)"
      "rpc_begin ctx now s tracker = (Answered (Inr True),
         s\<lparr>hs_input := rest, hs_output := hs_output s @ rpc_msg_wire (rpc_vers_mismatch xid)\<rparr>, tracker)"
  | (again) xid rest tracker1 where "prefix (be32 xid) (hs_input s)"
      "is_retransmission now xid (ctx_client_addr ctx) tracker = (True, tracker1)"
      "rpc_begin ctx now s tracker = (Answered (Inr False), s\<lparr>hs_input := rest\<rparr>, tracker1)"
  | (execute) xid rest call auth tracker1 where "prefix (be32 xid) (hs_input s)"
      "is_retransmission now xid (ctx_client_addr ctx) tracker = (False, tracker1)"
      "rpc_begin ctx now s tracker = (Execute xid call (ctx\<lparr>ctx_auth := auth\<rparr>), s\<lparr>hs_input := rest\<rparr>, tracker1)"
      "rpc_msg_deserialize (hs_input s) = Inr (\<lparr>rm_xid = xid, rm_body = CALL call\<rparr>, rest)"
proof (cases rule: h_read_cases [of rpc_msg_deserialize s])
  case (fails e)
  then show ?thesis by (auto simp: rpc_begin_def intro: bad)
next
  case (reads m rest)
  note xid = rpc_msg_reads [OF reads(2)]
  show ?thesis
  proof (cases "rm_body m")
    case (REPLY r)
    with reads show ?thesis by (auto simp: rpc_begin_def Let_def intro: bad)
  next
    case (CALL call)
    show ?thesis
    proof (cases "call_context call ctx")
      case (Inl e)
      with reads CALL show ?thesis by (auto simp: rpc_begin_def Let_def intro: bad)
    next
      case (Inr ctx')
      then obtain auth where ctx': "ctx' = ctx\<lparr>ctx_auth := auth\<rparr>" by (blast dest: call_context_Inr)
      note started = rpc_begin_def [of ctx now s tracker, unfolded Let_def, unfolded reads(1), simplified,
          unfolded CALL, simplified, unfolded Inr, simplified]
      show ?thesis
      proof (cases "cb_rpcvers call = 2")
        case False
        with started show ?thesis
          by (intro version [OF xid]) (simp add: h_write_vers_mismatch)
      next
        case True
        obtain r tracker1 where check: "is_retransmission now (rm_xid m) (ctx_client_addr ctx) tracker = (r, tracker1)"
          by fastforce
        have "m = \<lparr>rm_xid = rm_xid m, rm_body = CALL call\<rparr>" using CALL by simp
        with started True check ctx' reads(2) show ?thesis
          by (cases r) (auto intro: again [OF xid] execute [OF xid])
      qed
    qed
  qed
qed

lemma rpc_finish_cases:
  obtains (panicked) s1 where "rpc_finish checks xid call ctx now s tracker = (Inl Panicked, s1, tracker)"
  | (failed) e s1 where "e \<noteq> Panicked"
      "rpc_finish checks xid call ctx now s tracker = (Inl e, s1, mark_processed now xid (ctx_client_addr ctx) tracker)"
  | (replied) s1 w where "hs_output s1 = hs_output s @ w" "reply_to xid w"
      "rpc_finish checks xid call ctx now s tracker = (Inr True, s1, mark_processed now xid (ctx_client_addr ctx) tracker)"
proof -
  obtain r s1 where run: "handle_program checks xid call ctx s = (r, s1)" by fastforce
  show ?thesis
  proof (cases r)
    case (Inl e)
    with run show ?thesis by (cases e) (auto simp: rpc_finish_def intro: panicked failed)
  next
    case (Inr u)
    with answers_program [of xid checks call ctx] run obtain w where "hs_output s1 = hs_output s @ w" "reply_to xid w"
      unfolding answers_def by blast
    with run Inr show ?thesis by (auto simp: rpc_finish_def intro: replied)
  qed
qed

lemma is_retransmission_remembered:
  assumes "tracker_inv now' tracker" and "tracker_view tracker (client, xid) = Some (Completed t)"
    and "now - t < tt_retention_period tracker"
  shows "fst (is_retransmission now xid client tracker)"
  using assms(2,3) by (simp add: is_retransmission_view [OF assms(1)] forget_expired_def)

text \<open>The same record again, when its transaction is remembered.\<close>

lemma rpc_begin_again:
  assumes "rpc_begin ctx now s tracker = (Execute xid call ctx', s1, tracker1)" and "hs_input s3 = hs_input s"
    and "is_retransmission later xid (ctx_client_addr ctx) tracker2 = (True, tracker3)"
  shows "rpc_begin ctx later s3 tracker2 = (Answered (Inr False), s3\<lparr>hs_input := hs_input s1\<rparr>, tracker3)"
proof (cases rule: h_read_cases [of rpc_msg_deserialize s])
  case (fails e)
  with assms(1) show ?thesis by (simp add: rpc_begin_def)
next
  case (reads m rest)
  with assms(1) obtain ctx'' where m: "rm_body m = CALL call" "call_context call ctx = Inr ctx''" "cb_rpcvers call = 2"
    "rm_xid m = xid" "s1 = s\<lparr>hs_input := rest\<rparr>"
    by (auto simp: rpc_begin_def Let_def h_write_vers_mismatch
        split: rpc_body.splits sum.splits if_splits prod.splits)
  moreover from m(2) have "ctx_client_addr ctx'' = ctx_client_addr ctx" by (auto dest!: call_context_Inr)
  ultimately show ?thesis
    using reads(2) assms(2,3) by (simp add: rpc_begin_def h_read_def)
qed

lemma sample_begin:
  "rpc_begin (legacy_context capabilities) now (legacy_state sample_record) (tracker_new retention) =
     (Execute 7 (sample_call 0) (legacy_context capabilities), legacy_state [],
      snd (is_retransmission now 7 [] (tracker_new retention)))"
proof -
  have "rpc_msg_deserialize sample_record = Inr (\<lparr>rm_xid = 7, rm_body = CALL (sample_call 0)\<rparr>, [])"
    using x_rpc_msg.de_wire [of "\<lparr>rm_xid = 7, rm_body = CALL (sample_call 0)\<rparr>" "[]"]
    by (simp add: sample_record_def rpc_msg_ok_def call_body_ok_def opaque_auth_ok_def sample_call_def
        opaque_auth_default_def)
  moreover have "call_context (sample_call 0) (legacy_context capabilities) = Inr (legacy_context capabilities)"
    by (simp add: call_context_def sample_call_def opaque_auth_default_def)
  moreover have "\<not> fst (is_retransmission now 7 [] (tracker_new retention))"
    by (simp add: is_retransmission_def tracker_new_def housekeeping_def)
  ultimately show ?thesis
    by (simp add: rpc_begin_def h_read_def legacy_state_def legacy_context_def split_beta) (simp add: sample_call_def)
qed

lemma sample_finish:
  "rpc_finish checks 7 (sample_call 0) (legacy_context capabilities) now (legacy_state []) tracker =
     (Inr True, (legacy_state [])\<lparr>hs_output := rpc_msg_wire (accepted_message 7 Accept_SUCCESS)\<rparr>,
      mark_processed now 7 [] tracker)"
  using h_write_writes [OF xdr_struct_last [OF writes_success], of 7 "legacy_state []"]
  by (simp add: rpc_finish_def handle_program_def handle_nfs_def nfs_proc_def nth_variant_def NFSProgram_variants_def
      sample_call_def NFS_PROGRAM_def NFS_VERSION_def nfsproc3_null_def legacy_state_def legacy_context_def)

section \<open>Properties\<close>


text \<open>
  A reply can be read back.  On a socket that takes bytes, the fragment that is written for a
  reply is read by the record reader as exactly that reply, whatever follows it.
\<close>

theorem fragment_round_trip:
  assumes "length buf < 2 ^ 31" and "progressive w" and "alloc_ok try_alloc limits"
    and "max_record_size limits < usize_bound" and "0 < max_fragments limits"
    and "length buf \<le> max_fragment_size limits" and "length buf \<le> max_record_size limits"
  shows "\<exists>stream. fst (write_fragment buf w) = Inr () \<and>
    wr_out (snd (write_fragment buf w)) = wr_out w @ stream \<and>
    read_record try_alloc limits \<lparr>rd_bytes = stream @ rest, rd_end = e\<rparr> = Inr (buf, \<lparr>rd_bytes = rest, rd_end = e\<rparr>)"
proof -
  obtain r w' where run: "write_fragment buf w = (r, w')" by fastforce
  have "fst (write_fragment buf w) = Inr () \<and> wr_out (snd (write_fragment buf w)) = wr_out w @ fragments_bytes [buf]"
    using wrote_write_fragment [OF assms(1), of w] assms(2) run
    by (auto simp: wrote_def split: sum.splits LegacyError.splits)
  moreover have "fragments_ok limits [buf]"
    using assms by (simp add: fragments_ok_def)
  then have "read_record try_alloc limits \<lparr>rd_bytes = fragments_bytes [buf] @ rest, rd_end = e\<rparr> =
      Inr (buf, \<lparr>rd_bytes = rest, rd_end = e\<rparr>)"
    by (subst read_record_Inr [OF assms(3,4)]) (auto intro!: exI [of _ "[buf]"])
  ultimately show ?thesis by blast
qed

theorem fragment_round_trip_witness:
  "\<exists>stream. read_record Some \<lparr>max_record_size = 8, max_fragment_size = 4, max_fragments = 1\<rparr>
     \<lparr>rd_bytes = stream @ [9], rd_end = UnexpectedEof\<rparr> = Inr ([1, 2, 3], \<lparr>rd_bytes = [9], rd_end = UnexpectedEof\<rparr>)"
  using fragment_round_trip [of "[1, 2, 3]" "sample_writer False" Some
      "\<lparr>max_record_size = 8, max_fragment_size = 4, max_fragments = 1\<rparr>" "[9]" UnexpectedEof]
  by (auto simp: progressive_def sample_writer_def alloc_ok_def)

text \<open>
  What a message does.  When it is to be answered, the output is a reply to the transaction
  that the first four bytes of the record name; when it is dropped as a retransmission, nothing is
  written and neither the file system nor the mount signals change.
\<close>

theorem handle_rpc_outcome:
  assumes "handle_rpc checks ctx now completed_at s tracker = (Inr replies, s', tracker')"
  shows "if replies
    then \<exists>xid w. prefix (be32 xid) (hs_input s) \<and> hs_output s' = hs_output s @ w \<and> rpc_reply_to xid w
    else \<exists>rest. s' = s\<lparr>hs_input := rest\<rparr>"
proof (cases rule: rpc_begin_cases [of ctx now s tracker])
  case (bad e s1)
  with assms show ?thesis by (simp add: handle_rpc_def)
next
  case (version xid rest)
  with assms have "replies" "hs_output s' = hs_output s @ rpc_msg_wire (rpc_vers_mismatch xid)"
    by (auto simp: handle_rpc_def)
  with version(1) show ?thesis by (auto simp: rpc_reply_to_def)
next
  case (again xid rest tracker1)
  with assms show ?thesis by (auto simp: handle_rpc_def)
next
  case (execute xid rest call auth tracker1)
  let ?s = "s\<lparr>hs_input := rest\<rparr>" and ?ctx = "ctx\<lparr>ctx_auth := auth\<rparr>"
  have "rpc_finish checks xid call ?ctx completed_at ?s tracker1 = (Inr replies, s', tracker')"
    using assms execute by (simp add: handle_rpc_def)
  then obtain w where "replies" "hs_output s' = hs_output s @ w" "reply_to xid w"
    by (cases rule: rpc_finish_cases [of checks xid call ?ctx completed_at ?s tracker1]) auto
  with execute(1) show ?thesis by (auto simp: rpc_reply_to_def)
qed

theorem handle_rpc_outcome_witness:
  "fst (handle_rpc False (legacy_context VfsReadWrite) 0 1 (legacy_state sample_record) (tracker_new 60)) = Inr True \<and>
   (\<exists>xid. prefix (be32 xid) sample_record \<and> rpc_reply_to xid (rpc_msg_wire (accepted_message 7 Accept_SUCCESS)))"
  using handle_rpc_outcome [of False "legacy_context VfsReadWrite" 0 1 "legacy_state sample_record" "tracker_new 60"
      True "(legacy_state [])\<lparr>hs_output := rpc_msg_wire (accepted_message 7 Accept_SUCCESS)\<rparr>"]
  by (simp add: handle_rpc_def sample_begin sample_finish) (auto simp: legacy_state_def)

text \<open>
  A record that was executed is not executed again.  When the same record arrives again from
  the same client within the retention period after its completion, it is dropped, whatever its
  outcome was, unless the first execution panicked.
\<close>

theorem retransmission_dropped:
  assumes "tracker_inv now tracker" and "now \<le> completed_at" and "completed_at \<le> later"
    and "later < completed_at + tt_retention_period tracker"
    and "rpc_begin ctx now s tracker = (Execute xid call ctx', s1, tracker1)"
    and "handle_rpc checks ctx now completed_at s tracker = (r, s2, tracker2)" and "r \<noteq> Inl Panicked"
    and "hs_input s3 = hs_input s"
  shows "\<exists>tracker3. handle_rpc checks ctx later later' s3 tracker2 = (Inr False, s3\<lparr>hs_input := hs_input s1\<rparr>, tracker3)"
proof (cases rule: rpc_begin_cases [of ctx now s tracker])
  case (execute xid0 rest call0 auth tracker0)
  note started = execute(3) [unfolded assms(5)]
  have same: "xid0 = xid" "s1 = s\<lparr>hs_input := rest\<rparr>" "tracker0 = tracker1" "ctx' = ctx\<lparr>ctx_auth := auth\<rparr>"
    using started by simp_all
  have "tracker_view tracker1 (ctx_client_addr ctx, xid) \<noteq> None"
    using is_retransmission_view [OF assms(1), of now xid "ctx_client_addr ctx"] execute(2) same
    by (auto simp: Let_def split: if_splits)
  moreover have "tracker2 = mark_processed completed_at xid (ctx_client_addr ctx) tracker1"
    using assms(5,6,7) same
    by (cases rule: rpc_finish_cases [of checks xid call ctx' completed_at s1 tracker1]) (auto simp: handle_rpc_def)
  ultimately have view: "tracker_view tracker2 (ctx_client_addr ctx, xid) = Some (Completed completed_at)"
    by (simp add: mark_processed_view)
  have "tracker_inv now tracker1" and "tt_retention_period tracker1 = tt_retention_period tracker"
    using is_retransmission_inv [OF assms(1), of xid "ctx_client_addr ctx"] execute(2) same
    by (simp, metis retention_kept(1) snd_conv)
  then have "tracker_inv completed_at tracker2" "tt_retention_period tracker2 = tt_retention_period tracker"
    using \<open>tracker2 = _\<close> tracker_inv_mono [OF _ assms(2)] mark_processed_inv by simp_all
  with view assms(3,4) have "fst (is_retransmission later xid (ctx_client_addr ctx) tracker2)"
    by (intro is_retransmission_remembered) auto
  moreover obtain tracker3 where "snd (is_retransmission later xid (ctx_client_addr ctx) tracker2) = tracker3" by blast
  ultimately have check: "is_retransmission later xid (ctx_client_addr ctx) tracker2 = (True, tracker3)"
    by (simp add: prod_eq_iff)
  from rpc_begin_again [OF assms(5,8) check] show ?thesis by (simp add: handle_rpc_def)
qed (use assms(5) in simp_all)

theorem retransmission_dropped_witness:
  "\<exists>tracker2 tracker3. handle_rpc False (legacy_context VfsReadWrite) 0 1 (legacy_state sample_record) (tracker_new 60) =
     (Inr True, (legacy_state [])\<lparr>hs_output := rpc_msg_wire (accepted_message 7 Accept_SUCCESS)\<rparr>, tracker2) \<and>
   handle_rpc False (legacy_context VfsReadWrite) 30 31 (legacy_state sample_record) tracker2 =
     (Inr False, (legacy_state sample_record)\<lparr>hs_input := []\<rparr>, tracker3)"
  using retransmission_dropped [of 0 "tracker_new 60" 1 30 "legacy_context VfsReadWrite" "legacy_state sample_record"
      7 "sample_call 0" "legacy_context VfsReadWrite" "legacy_state []" _ False "Inr True" _ _ "legacy_state sample_record" 31]
  by (simp add: handle_rpc_def sample_begin sample_finish tracker_inv_new)
    (simp add: tracker_new_def legacy_state_def)

end
