(* ===== verification/Legacy_Server.thy ===== *)
theory Legacy_Server
  imports Legacy_Wire
begin

text \<open>
  The listener of the demo stack, \<^verbatim>\<open>src/tcp.rs\<close>, with the tasks that \<^verbatim>\<open>src/rpcwire.rs\<close> spawns.

  A connection is served by a pump (the loop of \<open>process_socket\<close>), a record reader (the loop around
  \<open>SocketMessageHandler::read\<close>) and one task per message.  They share a duplex pipe, a bounded reply
  channel, and with all other connections the file system, the transaction tracker and the byte
  budget of the listener.  The scheduler chooses which of them moves next: an action names the
  task that takes one step, and a run is a list of actions.  An action that is not enabled has no
  result.  The clock is part of the shared state; the record timeout may fire whenever a record is
  being read.
\<close>

section \<open>Constants\<close>

definition MAX_LEGACY_CONNECTIONS :: usize where "MAX_LEGACY_CONNECTIONS = 1024"
definition MAX_LEGACY_BUFFERED_REQUEST_BYTES :: usize where
  "MAX_LEGACY_BUFFERED_REQUEST_BYTES = 64 * 1024 * 1024"
definition MAX_IN_FLIGHT_MESSAGES :: usize where "MAX_IN_FLIGHT_MESSAGES = 64"
definition MAX_QUEUED_REPLIES :: usize where "MAX_QUEUED_REPLIES = 64"
definition PIPE_CAPACITY :: usize where "PIPE_CAPACITY = 256000"
definition PUMP_BUFFER :: usize where "PUMP_BUFFER = 128000"

definition RPC_RECORD_LIMITS :: RecordLimits where
  "RPC_RECORD_LIMITS =
     \<lparr>max_record_size = 2 * 1024 * 1024, max_fragment_size = 1024 * 1024, max_fragments = 16\<rparr>"

definition RETENTION_SECONDS :: nat where "RETENTION_SECONDS = 60"

section \<open>Binding\<close>

record 'fs NFSTcpListener =
  tl_address :: str
  tl_port :: u16
  tl_arcfs :: "'fs NFSFileSystem"
  tl_mount_signal :: bool
  tl_export_name :: str
  tl_transaction_tracker :: TransactionTracker
  tl_connections :: usize
  tl_request_buffers :: Semaphore

definition str_of :: "string \<Rightarrow> str" where
  "str_of s = map of_char s"

definition generate_host_ip :: "u16 \<Rightarrow> str" where
  "generate_host_ip hostnum =
     str_of ''127.88.'' @ decimal (unat (drop_bit 8 hostnum AND 0xFF)) @ str_of ''.'' @
     decimal (unat (hostnum AND 0xFF))"

text \<open>
  The operating system's \<open>bind\<close> is a parameter: for an address of the form \<open>ip:port\<close> it gives the
  port that the listener got, or an error.
\<close>

type_synonym os_bind = "str \<Rightarrow> IoErrorKind + u16"

definition bind_internal :: "os_bind \<Rightarrow> str \<Rightarrow> u16 \<Rightarrow> 'fs NFSFileSystem \<Rightarrow> IoErrorKind + 'fs NFSTcpListener" where
  "bind_internal os ip port arcfs =
     (let ipstr = ip @ str_of '':'' @ decimal (unat port) in
      case os ipstr of
        Inl e \<Rightarrow> Inl e
      | Inr bound_port \<Rightarrow>
          Inr \<lparr>tl_address = ipstr, tl_port = bound_port, tl_arcfs = arcfs, tl_mount_signal = False,
               tl_export_name = str_of ''/'',
               tl_transaction_tracker = tracker_new RETENTION_SECONDS,
               tl_connections = MAX_LEGACY_CONNECTIONS,
               tl_request_buffers =
                 \<lparr>sem_permits = MAX_LEGACY_BUFFERED_REQUEST_BYTES, sem_closed = False\<rparr>\<rparr>)"

text \<open>The loop over the addresses; \<open>num_tries_left\<close> bounds it.\<close>

fun bind_auto ::
  "os_bind \<Rightarrow> nat \<Rightarrow> u16 \<Rightarrow> u16 \<Rightarrow> 'fs NFSFileSystem \<Rightarrow> IoErrorKind + 'fs NFSTcpListener" where
  "bind_auto os 0 try_ip port arcfs = bind_internal os (generate_host_ip try_ip) port arcfs"
| "bind_auto os (Suc num_tries_left) try_ip port arcfs =
     (case bind_internal os (generate_host_ip try_ip) port arcfs of
        Inl _ \<Rightarrow> bind_auto os num_tries_left (try_ip + 1) port arcfs
      | Inr listener \<Rightarrow> Inr listener)"

definition bind_listener :: "os_bind \<Rightarrow> str \<Rightarrow> 'fs NFSFileSystem \<Rightarrow> IoErrorKind + 'fs NFSTcpListener" where
  "bind_listener os ipstr fs =
     (case split_once 58 ipstr of
        None \<Rightarrow> Inl AddrNotAvailable
      | Some (ip, port) \<Rightarrow>
          (case parse_u16 port of
             None \<Rightarrow> Inl AddrNotAvailable
           | Some port \<Rightarrow>
               if ip = str_of ''auto'' then bind_auto os 32 1 port fs
               else bind_internal os ip port fs))"

definition with_export_name :: "str \<Rightarrow> 'fs NFSTcpListener \<Rightarrow> 'fs NFSTcpListener" where
  "with_export_name export_name listener =
     listener\<lparr>tl_export_name :=
       str_of ''/'' @ trim_start_matches is_slash (trim_end_matches is_slash export_name)\<rparr>"

definition set_mount_listener :: "'fs NFSTcpListener \<Rightarrow> 'fs NFSTcpListener" where
  "set_mount_listener listener = listener\<lparr>tl_mount_signal := True\<rparr>"

definition get_listen_port :: "'fs NFSTcpListener \<Rightarrow> u16" where
  "get_listen_port listener = tl_port listener"

section \<open>State of the connections\<close>

text \<open>
  A task of a message: its record has been received; its procedure is being executed, with the
  context, the call and the unread arguments; or its answer, if any, is to be sent.
\<close>

datatype 'fs task =
    Spawned bytes
  | Executing u32 call_body "'fs RPCContext" bytes
  | Replying "SocketMessageType option"

record 'fs SocketState =
  so_context :: "'fs RPCContext"
  so_incoming :: bytes
  so_held :: bytes
  so_pipe :: bytes
  so_partial :: bytes
  so_reserved :: bool
  so_reading :: bool
  so_tasks :: "'fs task list"
  so_replies :: "SocketMessageType list"
  so_socket :: writer
  so_result :: "(LegacyError + unit) option"

record 'fs SharedState =
  sh_clock :: nat
  sh_fs :: 'fs
  sh_signals :: "bool list"
  sh_tracker :: TransactionTracker
  sh_request_buffers :: Semaphore

definition socket_new :: "'fs RPCContext \<Rightarrow> writer \<Rightarrow> 'fs SocketState" where
  "socket_new ctx socket =
     \<lparr>so_context = ctx, so_incoming = [], so_held = [], so_pipe = [], so_partial = [], so_reserved = False,
      so_reading = True, so_tasks = [], so_replies = [], so_socket = socket, so_result = None\<rparr>"

section \<open>The pump\<close>

text \<open>The loop of \<open>process_socket\<close> runs until it has a result, and waits while it writes to the pipe.\<close>

definition selecting :: "'fs SocketState \<Rightarrow> bool" where
  "selecting so \<longleftrightarrow> so_result so = None \<and> so_held so = []"

definition pump_reads :: "nat \<Rightarrow> 'fs SocketState \<Rightarrow> 'fs SocketState option" where
  "pump_reads n so =
     (if selecting so \<and> 0 < n \<and> n \<le> PUMP_BUFFER \<and> n \<le> length (so_incoming so)
      then Some (so\<lparr>so_incoming := drop n (so_incoming so), so_held := take n (so_incoming so)\<rparr>)
      else None)"

definition pump_eof :: "'fs SocketState \<Rightarrow> 'fs SocketState option" where
  "pump_eof so =
     (if selecting so \<and> so_incoming so = [] then Some (so\<lparr>so_result := Some (Inr ())\<rparr>) else None)"

definition pump_fails :: "IoErrorKind \<Rightarrow> 'fs SocketState \<Rightarrow> 'fs SocketState option" where
  "pump_fails k so =
     (if selecting so
      then if k = WouldBlock then Some so else Some (so\<lparr>so_result := Some (Inl (LegacyIo k))\<rparr>)
      else None)"

text \<open>
  \<open>write_all\<close> into the pipe: it takes what fits, and gives up when the reader is gone.  Its outcome is
  ignored.
\<close>

definition pump_writes :: "nat \<Rightarrow> 'fs SocketState \<Rightarrow> 'fs SocketState option" where
  "pump_writes n so =
     (if so_result so = None \<and> so_reading so \<and> 0 < n \<and> n \<le> length (so_held so) \<and>
         length (so_pipe so) + n \<le> PIPE_CAPACITY
      then Some (so\<lparr>so_held := drop n (so_held so), so_pipe := so_pipe so @ take n (so_held so)\<rparr>)
      else None)"

definition pump_broken :: "'fs SocketState \<Rightarrow> 'fs SocketState option" where
  "pump_broken so =
     (if so_result so = None \<and> \<not> so_reading so \<and> so_held so \<noteq> [] then Some (so\<lparr>so_held := []\<rparr>) else None)"

definition pump_replies :: "'fs SocketState \<Rightarrow> 'fs SocketState option" where
  "pump_replies so =
     (if selecting so
      then
        (case so_replies so of
           Inl e # replies \<Rightarrow> Some (so\<lparr>so_replies := replies, so_result := Some (Inl e)\<rparr>)
         | Inr msg # replies \<Rightarrow>
             (case write_fragment msg (so_socket so) of
                (Inl Panicked, socket) \<Rightarrow>
                  Some (so\<lparr>so_replies := replies, so_socket := socket, so_result := Some (Inl Panicked)\<rparr>)
              | (_, socket) \<Rightarrow> Some (so\<lparr>so_replies := replies, so_socket := socket\<rparr>))
         | [] \<Rightarrow>
             if \<not> so_reading so \<and> so_tasks so = []
             then Some (so\<lparr>so_result := Some (Inl (LegacyMessage ''Unexpected socket context termination''))\<rparr>)
             else None)
      else None)"

section \<open>The record reader\<close>

definition record_so_far :: "allocator \<Rightarrow> 'fs SocketState \<Rightarrow> RecordError + (bytes \<times> reader)" where
  "record_so_far try_alloc so =
     read_record try_alloc RPC_RECORD_LIMITS \<lparr>rd_bytes = so_partial so, rd_end = UnexpectedEof\<rparr>"

definition needs_more :: "allocator \<Rightarrow> 'fs SocketState \<Rightarrow> bool" where
  "needs_more try_alloc so \<longleftrightarrow> record_so_far try_alloc so = Inl (RecIo UnexpectedEof)"

text \<open>A byte is taken from the pipe while the record is incomplete; after the header, only under the budget.\<close>

definition reader_takes :: "allocator \<Rightarrow> 'fs SocketState \<Rightarrow> 'fs SocketState option" where
  "reader_takes try_alloc so =
     (if so_reading so \<and> needs_more try_alloc so \<and> (length (so_partial so) < 4 \<or> so_reserved so)
      then
        (case so_pipe so of
           [] \<Rightarrow> None
         | b # bs \<Rightarrow> Some (so\<lparr>so_pipe := bs, so_partial := so_partial so @ [b]\<rparr>))
      else None)"

text \<open>The reservation of the whole limit, once the first header is read and is valid.\<close>

definition reader_reserves ::
  "allocator \<Rightarrow> 'fs SharedState \<Rightarrow> 'fs SocketState \<Rightarrow> ('fs SharedState \<times> 'fs SocketState) option" where
  "reader_reserves try_alloc sh so =
     (if so_reading so \<and> length (so_partial so) = 4 \<and> \<not> so_reserved so \<and>
         (case record_so_far try_alloc so of Inl e \<Rightarrow> e = RecIo UnexpectedEof | Inr _ \<Rightarrow> True)
      then
        (case acquire_many (max_record_size RPC_RECORD_LIMITS) (sh_request_buffers sh) of
           Some (Inr budget) \<Rightarrow> Some (sh\<lparr>sh_request_buffers := budget\<rparr>, so\<lparr>so_reserved := True\<rparr>)
         | Some (Inl e) \<Rightarrow> Some (sh, so\<lparr>so_reading := False\<rparr>)
         | None \<Rightarrow> None)
      else None)"

definition give_back3 :: "'fs SharedState \<Rightarrow> 'fs SharedState" where
  "give_back3 sh = sh\<lparr>sh_request_buffers := (sh_request_buffers sh)
     \<lparr>sem_permits := sem_permits (sh_request_buffers sh) + max_record_size RPC_RECORD_LIMITS\<rparr>\<rparr>"

definition reader_stop :: "'fs SharedState \<Rightarrow> 'fs SocketState \<Rightarrow> 'fs SharedState \<times> 'fs SocketState" where
  "reader_stop sh so =
     (if so_reserved so then give_back3 sh else sh, so\<lparr>so_reading := False, so_reserved := False\<rparr>)"

definition reader_spawns :: "allocator \<Rightarrow> 'fs SocketState \<Rightarrow> 'fs SocketState option" where
  "reader_spawns try_alloc so =
     (if so_reading so \<and> so_reserved so \<and> length (so_tasks so) < MAX_IN_FLIGHT_MESSAGES
      then
        (case record_so_far try_alloc so of
           Inr (record_bytes, _) \<Rightarrow>
             Some (so\<lparr>so_tasks := so_tasks so @ [Spawned record_bytes], so_partial := [], so_reserved := False\<rparr>)
         | Inl _ \<Rightarrow> None)
      else None)"

text \<open>The loop ends on a malformed record, at the end of the pipe, or when the timeout fires.\<close>

definition reader_fails ::
  "allocator \<Rightarrow> 'fs SharedState \<Rightarrow> 'fs SocketState \<Rightarrow> ('fs SharedState \<times> 'fs SocketState) option" where
  "reader_fails try_alloc sh so =
     (if so_reading so
      then
        (case record_so_far try_alloc so of
           Inl e \<Rightarrow>
             if e \<noteq> RecIo UnexpectedEof \<or> so_result so \<noteq> None \<and> so_pipe so = []
             then Some (reader_stop sh so) else None
         | Inr _ \<Rightarrow> None)
      else None)"

definition reader_times_out ::
  "allocator \<Rightarrow> 'fs SharedState \<Rightarrow> 'fs SocketState \<Rightarrow> ('fs SharedState \<times> 'fs SocketState) option" where
  "reader_times_out try_alloc sh so =
     (if so_reading so \<and> (needs_more try_alloc so \<or> \<not> so_reserved so) then Some (reader_stop sh so) else None)"

section \<open>The tasks of the messages\<close>

definition handler_state :: "'fs SharedState \<Rightarrow> bytes \<Rightarrow> 'fs hs" where
  "handler_state sh input =
     \<lparr>hs_input = input, hs_output = [], hs_fs = sh_fs sh, hs_signals = sh_signals sh\<rparr>"

definition put_back :: "'fs hs \<Rightarrow> TransactionTracker \<Rightarrow> 'fs SharedState \<Rightarrow> 'fs SharedState" where
  "put_back s tracker sh = sh\<lparr>sh_fs := hs_fs s, sh_signals := hs_signals s, sh_tracker := tracker\<rparr>"

text \<open>One step of a task, and the execution that starts with it: the instant, the client and the transaction.\<close>

type_synonym execution = "nat \<times> string \<times> u32"

definition task_starts ::
  "nat \<Rightarrow> 'fs SharedState \<Rightarrow> 'fs SocketState \<Rightarrow> (execution list \<times> 'fs SharedState \<times> 'fs SocketState) option" where
  "task_starts i sh so =
     (if i < length (so_tasks so)
      then
        (case so_tasks so ! i of
           Spawned record_bytes \<Rightarrow>
             (case rpc_begin (so_context so) (sh_clock sh) (handler_state sh record_bytes) (sh_tracker sh) of
                (Answered r, s, tracker) \<Rightarrow>
                  Some ([], put_back s tracker sh,
                    so\<lparr>so_tasks := (so_tasks so)[i := Replying (task_answer r (hs_output s))]\<rparr>)
              | (Execute xid call ctx, s, tracker) \<Rightarrow>
                  Some ([(sh_clock sh, ctx_client_addr (so_context so), xid)], put_back s tracker sh,
                    so\<lparr>so_tasks := (so_tasks so)[i := Executing xid call ctx (hs_input s)]\<rparr>))
         | _ \<Rightarrow> None)
      else None)"

definition task_runs ::
  "bool \<Rightarrow> nat \<Rightarrow> 'fs SharedState \<Rightarrow> 'fs SocketState \<Rightarrow> ('fs SharedState \<times> 'fs SocketState) option" where
  "task_runs checks i sh so =
     (if i < length (so_tasks so)
      then
        (case so_tasks so ! i of
           Executing xid call ctx input \<Rightarrow>
             (case rpc_finish checks xid call ctx (sh_clock sh) (handler_state sh input) (sh_tracker sh) of
                (r, s, tracker) \<Rightarrow>
                  Some (put_back s tracker sh,
                    so\<lparr>so_tasks := (so_tasks so)[i := Replying (task_answer r (hs_output s))]\<rparr>))
         | _ \<Rightarrow> None)
      else None)"

text \<open>
  The end of a task: its answer goes to the channel when there is room for it, or nowhere when the
  pump is gone; then its permits are dropped.
\<close>

definition drop_nth :: "nat \<Rightarrow> 'a list \<Rightarrow> 'a list" where
  "drop_nth i xs = take i xs @ drop (Suc i) xs"

definition task_ends ::
  "nat \<Rightarrow> 'fs SharedState \<Rightarrow> 'fs SocketState \<Rightarrow> ('fs SharedState \<times> 'fs SocketState) option" where
  "task_ends i sh so =
     (if i < length (so_tasks so)
      then
        (case so_tasks so ! i of
           Replying None \<Rightarrow> Some (give_back3 sh, so\<lparr>so_tasks := drop_nth i (so_tasks so)\<rparr>)
         | Replying (Some answer) \<Rightarrow>
             if so_result so \<noteq> None
             then Some (give_back3 sh, so\<lparr>so_tasks := drop_nth i (so_tasks so)\<rparr>)
             else if length (so_replies so) < MAX_QUEUED_REPLIES
             then Some (give_back3 sh,
               so\<lparr>so_tasks := drop_nth i (so_tasks so), so_replies := so_replies so @ [answer]\<rparr>)
             else None
         | _ \<Rightarrow> None)
      else None)"

section \<open>Runs of a listener\<close>

datatype socket_action =
    Peer_Sends bytes
  | Pump_Reads nat
  | Pump_Eof
  | Pump_Fails IoErrorKind
  | Pump_Writes nat
  | Pump_Broken
  | Pump_Replies
  | Reader_Takes
  | Reader_Reserves
  | Reader_Spawns
  | Reader_Fails
  | Reader_Times_Out
  | Task_Starts nat
  | Task_Runs nat
  | Task_Ends nat

definition quiet :: "'b option \<Rightarrow> (execution list \<times> 'b) option" where
  "quiet r = map_option (\<lambda>b. ([], b)) r"

definition alone :: "'sh \<Rightarrow> 'so option \<Rightarrow> (execution list \<times> 'sh \<times> 'so) option" where
  "alone sh r = map_option (\<lambda>so. ([], sh, so)) r"

fun socket_step ::
  "bool \<Rightarrow> allocator \<Rightarrow> socket_action \<Rightarrow> 'fs SharedState \<Rightarrow> 'fs SocketState \<Rightarrow>
   (execution list \<times> 'fs SharedState \<times> 'fs SocketState) option" where
  "socket_step checks try_alloc (Peer_Sends bs) sh so = Some ([], sh, so\<lparr>so_incoming := so_incoming so @ bs\<rparr>)"
| "socket_step checks try_alloc (Pump_Reads n) sh so = alone sh (pump_reads n so)"
| "socket_step checks try_alloc Pump_Eof sh so = alone sh (pump_eof so)"
| "socket_step checks try_alloc (Pump_Fails k) sh so = alone sh (pump_fails k so)"
| "socket_step checks try_alloc (Pump_Writes n) sh so = alone sh (pump_writes n so)"
| "socket_step checks try_alloc Pump_Broken sh so = alone sh (pump_broken so)"
| "socket_step checks try_alloc Pump_Replies sh so = alone sh (pump_replies so)"
| "socket_step checks try_alloc Reader_Takes sh so = alone sh (reader_takes try_alloc so)"
| "socket_step checks try_alloc Reader_Reserves sh so = quiet (reader_reserves try_alloc sh so)"
| "socket_step checks try_alloc Reader_Spawns sh so = alone sh (reader_spawns try_alloc so)"
| "socket_step checks try_alloc Reader_Fails sh so = quiet (reader_fails try_alloc sh so)"
| "socket_step checks try_alloc Reader_Times_Out sh so = quiet (reader_times_out try_alloc sh so)"
| "socket_step checks try_alloc (Task_Starts i) sh so = task_starts i sh so"
| "socket_step checks try_alloc (Task_Runs i) sh so = quiet (task_runs checks i sh so)"
| "socket_step checks try_alloc (Task_Ends i) sh so = quiet (task_ends i sh so)"

text \<open>
  The listener: its connections hold a permit until both the pump and the reader have ended.
\<close>

record 'fs ListenerState =
  ls_listener :: "'fs NFSTcpListener"
  ls_shared :: "'fs SharedState"
  ls_sockets :: "'fs SocketState list"
  ls_failed :: "IoErrorKind option"

definition listener_start :: "'fs NFSTcpListener \<Rightarrow> 'fs \<Rightarrow> 'fs ListenerState" where
  "listener_start listener fs =
     \<lparr>ls_listener = listener,
      ls_shared = \<lparr>sh_clock = 0, sh_fs = fs, sh_signals = [], sh_tracker = tl_transaction_tracker listener,
        sh_request_buffers = tl_request_buffers listener\<rparr>,
      ls_sockets = [], ls_failed = None\<rparr>"

definition holds_permit :: "'fs SocketState \<Rightarrow> bool" where
  "holds_permit so \<longleftrightarrow> so_result so = None \<or> so_reading so"

definition connection_context :: "'fs NFSTcpListener \<Rightarrow> string \<Rightarrow> 'fs RPCContext" where
  "connection_context listener peer_addr =
     \<lparr>ctx_local_port = tl_port listener, ctx_client_addr = peer_addr, ctx_auth = auth_unix_default,
      ctx_vfs = tl_arcfs listener, ctx_mount_signal = tl_mount_signal listener,
      ctx_export_name = tl_export_name listener\<rparr>"

datatype listener_action =
    Tick nat
  | Accepts_Peer string writer
  | Accept_Fails IoErrorKind
  | Socket nat socket_action

fun listener_step ::
  "bool \<Rightarrow> allocator \<Rightarrow> listener_action \<Rightarrow> 'fs ListenerState \<Rightarrow> (execution list \<times> 'fs ListenerState) option" where
  "listener_step checks try_alloc (Tick n) ls =
     Some ([], ls\<lparr>ls_shared := (ls_shared ls)\<lparr>sh_clock := sh_clock (ls_shared ls) + n\<rparr>\<rparr>)"
| "listener_step checks try_alloc (Accepts_Peer peer_addr socket) ls =
     (if ls_failed ls = None \<and>
         length (filter holds_permit (ls_sockets ls)) < tl_connections (ls_listener ls)
      then Some ([], ls\<lparr>ls_sockets := ls_sockets ls @
             [socket_new (connection_context (ls_listener ls) peer_addr) socket]\<rparr>)
      else None)"
| "listener_step checks try_alloc (Accept_Fails k) ls =
     (if ls_failed ls = None then Some ([], ls\<lparr>ls_failed := Some k\<rparr>) else None)"
| "listener_step checks try_alloc (Socket i action) ls =
     (if i < length (ls_sockets ls)
      then
        (case socket_step checks try_alloc action (ls_shared ls) (ls_sockets ls ! i) of
           Some (executions, sh, so) \<Rightarrow>
             Some (executions, ls\<lparr>ls_shared := sh, ls_sockets := (ls_sockets ls)[i := so]\<rparr>)
         | None \<Rightarrow> None)
      else None)"

fun listener_run ::
  "bool \<Rightarrow> allocator \<Rightarrow> listener_action list \<Rightarrow> 'fs ListenerState \<Rightarrow> (execution list \<times> 'fs ListenerState) option" where
  "listener_run checks try_alloc [] ls = Some ([], ls)"
| "listener_run checks try_alloc (action # actions) ls =
     (case listener_step checks try_alloc action ls of
        Some (executions, ls) \<Rightarrow>
          map_option (\<lambda>(later, ls). (executions @ later, ls)) (listener_run checks try_alloc actions ls)
      | None \<Rightarrow> None)"

section \<open>Invariants\<close>

definition socket_inv :: "'fs SocketState \<Rightarrow> bool" where
  "socket_inv so \<longleftrightarrow>
     length (so_pipe so) \<le> PIPE_CAPACITY \<and> length (so_held so) \<le> PUMP_BUFFER \<and>
     length (so_replies so) \<le> MAX_QUEUED_REPLIES \<and> length (so_tasks so) \<le> MAX_IN_FLIGHT_MESSAGES"

text \<open>The reservations that a connection holds: one per task, and one for a record that is being read.\<close>

definition charge :: "'fs SocketState \<Rightarrow> nat" where
  "charge so = length (so_tasks so) + of_bool (so_reserved so)"

definition listener_inv :: "'fs ListenerState \<Rightarrow> bool" where
  "listener_inv ls \<longleftrightarrow>
     (\<forall>so \<in> set (ls_sockets ls). socket_inv so) \<and>
     length (filter holds_permit (ls_sockets ls)) \<le> MAX_LEGACY_CONNECTIONS \<and>
     tl_connections (ls_listener ls) = MAX_LEGACY_CONNECTIONS \<and>
     \<not> sem_closed (sh_request_buffers (ls_shared ls)) \<and>
     sem_permits (sh_request_buffers (ls_shared ls)) +
       max_record_size RPC_RECORD_LIMITS * sum_list (map charge (ls_sockets ls)) =
       MAX_LEGACY_BUFFERED_REQUEST_BYTES"

text \<open>The answers that wait in a connection, and what has been written to its peer.\<close>

definition answer_ok :: "SocketMessageType \<Rightarrow> bool" where
  "answer_ok answer \<longleftrightarrow> (case answer of Inl _ \<Rightarrow> True | Inr msg \<Rightarrow> \<exists>xid. rpc_reply_to xid msg)"

fun task_ok :: "'fs task \<Rightarrow> bool" where
  "task_ok (Replying (Some answer)) \<longleftrightarrow> answer_ok answer"
| "task_ok _ \<longleftrightarrow> True"

definition reply_stream :: "bytes \<Rightarrow> bool" where
  "reply_stream out \<longleftrightarrow>
     (\<exists>msgs. out = concat (map (\<lambda>msg. fragments_bytes [msg]) msgs) \<and> (\<forall>msg \<in> set msgs. \<exists>xid. rpc_reply_to xid msg))"

definition stream_inv :: "'fs SocketState \<Rightarrow> bool" where
  "stream_inv so \<longleftrightarrow>
     (\<forall>answer \<in> set (so_replies so). answer_ok answer) \<and> (\<forall>t \<in> set (so_tasks so). task_ok t) \<and>
     (progressive (so_socket so) \<longrightarrow> reply_stream (wr_out (so_socket so)))"

text \<open>A step moves reservations between the budget and the connection, and loses none.\<close>

definition balanced :: "'fs SharedState \<Rightarrow> 'fs SocketState \<Rightarrow> 'fs SharedState \<Rightarrow> 'fs SocketState \<Rightarrow> bool" where
  "balanced sh so sh' so' \<longleftrightarrow>
     sem_closed (sh_request_buffers sh') = sem_closed (sh_request_buffers sh) \<and>
     sem_permits (sh_request_buffers sh') + max_record_size RPC_RECORD_LIMITS * charge so' =
       sem_permits (sh_request_buffers sh) + max_record_size RPC_RECORD_LIMITS * charge so"

text \<open>The calls of the tracker that a step makes, at the instant of the step.\<close>

definition tracked ::
  "nat \<Rightarrow> execution list \<Rightarrow> TransactionTracker \<Rightarrow> TransactionTracker \<Rightarrow> bool" where
  "tracked now executions tracker tracker' \<longleftrightarrow>
     (\<exists>calls. (\<forall>c \<in> set calls. fst c = now) \<and> tracker' = snd (tracker_calls calls tracker) \<and>
       executions = executed calls tracker)"

text \<open>Every peer is accepted with a socket to which nothing has been written.\<close>

fun fresh_socket :: "listener_action \<Rightarrow> bool" where
  "fresh_socket (Accepts_Peer peer_addr socket) \<longleftrightarrow> wr_out socket = []"
| "fresh_socket _ \<longleftrightarrow> True"

section \<open>Bounds\<close>

lemmas socket_operations = pump_reads_def pump_eof_def pump_fails_def pump_writes_def pump_broken_def
  pump_replies_def reader_takes_def reader_reserves_def reader_spawns_def reader_fails_def
  reader_times_out_def reader_stop_def task_starts_def task_runs_def task_ends_def alone_def quiet_def

lemma length_drop_nth [simp]: "i < length xs \<Longrightarrow> length (drop_nth i xs) = length xs - 1"
  by (simp add: drop_nth_def)

lemma set_drop_nth: "set (drop_nth i xs) \<subseteq> set xs"
  unfolding drop_nth_def by (auto dest: in_set_takeD in_set_dropD)

lemma acquire_many_Inr:
  "acquire_many n sem = Some (Inr sem') \<Longrightarrow>
     n \<le> sem_permits sem \<and> sem' = sem\<lparr>sem_permits := sem_permits sem - n\<rparr>"
  by (auto simp: acquire_many_def split: if_splits)

lemma put_back_fields [simp]:
  "sh_request_buffers (put_back s tracker sh) = sh_request_buffers sh" "sh_clock (put_back s tracker sh) = sh_clock sh"
  "sh_tracker (put_back s tracker sh) = tracker"
  by (simp_all add: put_back_def)

lemma give_back3_fields [simp]:
  "sh_clock (give_back3 sh) = sh_clock sh" "sh_tracker (give_back3 sh) = sh_tracker sh"
  "sem_permits (sh_request_buffers (give_back3 sh)) =
     sem_permits (sh_request_buffers sh) + max_record_size RPC_RECORD_LIMITS"
  "sem_closed (sh_request_buffers (give_back3 sh)) = sem_closed (sh_request_buffers sh)"
  by (simp_all add: give_back3_def)

lemma pump_replies_kept:
  assumes "pump_replies so = Some so'"
  shows "so_tasks so' = so_tasks so" "so_reserved so' = so_reserved so" "so_pipe so' = so_pipe so"
    "so_held so' = so_held so" "so_reading so' = so_reading so" "length (so_replies so') \<le> length (so_replies so)"
  using assms by (auto simp: pump_replies_def split: list.splits sum.splits prod.splits LegacyError.splits if_splits)

lemma pump_inv:
  "pump_reads n so = Some so' \<Longrightarrow> socket_inv so \<Longrightarrow> socket_inv so' \<and> charge so' = charge so"
  "pump_eof so = Some so' \<Longrightarrow> socket_inv so \<Longrightarrow> socket_inv so' \<and> charge so' = charge so"
  "pump_fails k so = Some so' \<Longrightarrow> socket_inv so \<Longrightarrow> socket_inv so' \<and> charge so' = charge so"
  "pump_writes n so = Some so' \<Longrightarrow> socket_inv so \<Longrightarrow> socket_inv so' \<and> charge so' = charge so"
  "pump_broken so = Some so' \<Longrightarrow> socket_inv so \<Longrightarrow> socket_inv so' \<and> charge so' = charge so"
  "pump_replies so = Some so' \<Longrightarrow> socket_inv so \<Longrightarrow> socket_inv so' \<and> charge so' = charge so"
  "reader_takes try_alloc so = Some so' \<Longrightarrow> socket_inv so \<Longrightarrow> socket_inv so' \<and> charge so' = charge so"
  "reader_spawns try_alloc so = Some so' \<Longrightarrow> socket_inv so \<Longrightarrow> socket_inv so' \<and> charge so' = charge so"
  subgoal by (auto simp: socket_inv_def charge_def pump_reads_def split: if_splits)
  subgoal by (auto simp: socket_inv_def charge_def pump_eof_def split: if_splits)
  subgoal by (auto simp: socket_inv_def charge_def pump_fails_def split: if_splits)
  subgoal by (auto simp: socket_inv_def charge_def pump_writes_def split: if_splits)
  subgoal by (auto simp: socket_inv_def charge_def pump_broken_def split: if_splits)
  subgoal using pump_replies_kept [of so so'] by (auto simp: socket_inv_def charge_def)
  subgoal by (auto simp: socket_inv_def charge_def reader_takes_def split: if_splits list.splits)
  subgoal by (auto simp: socket_inv_def charge_def reader_spawns_def split: if_splits sum.splits)
  done

lemma reader_inv:
  "reader_reserves try_alloc sh so = Some (sh', so') \<Longrightarrow> \<not> sem_closed (sh_request_buffers sh) \<Longrightarrow> socket_inv so \<Longrightarrow>
     socket_inv so' \<and> balanced sh so sh' so'"
  "reader_fails try_alloc sh so = Some (sh', so') \<Longrightarrow> socket_inv so \<Longrightarrow> socket_inv so' \<and> balanced sh so sh' so'"
  "reader_times_out try_alloc sh so = Some (sh', so') \<Longrightarrow> socket_inv so \<Longrightarrow> socket_inv so' \<and> balanced sh so sh' so'"
  subgoal by (auto simp: socket_inv_def charge_def balanced_def reader_reserves_def acquire_many_def algebra_simps
        split: if_splits option.splits sum.splits)
  subgoal by (auto simp: socket_inv_def charge_def balanced_def reader_fails_def reader_stop_def algebra_simps
        split: if_splits sum.splits)
  subgoal by (auto simp: socket_inv_def charge_def balanced_def reader_times_out_def reader_stop_def algebra_simps
        split: if_splits)
  done

lemma balance_end: "i < n \<Longrightarrow> m + m * (n - Suc 0) = m * n" for n :: nat
  by (cases n) simp_all

lemma task_inv:
  "task_starts i sh so = Some (executions, sh', so') \<Longrightarrow> socket_inv so \<Longrightarrow> socket_inv so' \<and> balanced sh so sh' so'"
  "task_runs checks i sh so = Some (sh', so') \<Longrightarrow> socket_inv so \<Longrightarrow> socket_inv so' \<and> balanced sh so sh' so'"
  "task_ends i sh so = Some (sh', so') \<Longrightarrow> socket_inv so \<Longrightarrow> socket_inv so' \<and> balanced sh so sh' so'"
  subgoal by (auto simp: socket_inv_def charge_def balanced_def task_starts_def
        split: if_splits task.splits prod.splits rpc_start.splits)
  subgoal by (auto simp: socket_inv_def charge_def balanced_def task_runs_def split: if_splits task.splits prod.splits)
  subgoal using balance_end [of i "length (so_tasks so)" "max_record_size RPC_RECORD_LIMITS"]
    by (auto simp: socket_inv_def charge_def balanced_def task_ends_def split: if_splits task.splits option.splits)
  done

lemma socket_step_inv:
  assumes "socket_step checks try_alloc action sh so = Some (executions, sh', so')"
    and "socket_inv so" and "\<not> sem_closed (sh_request_buffers sh)"
  shows "socket_inv so' \<and> balanced sh so sh' so'"
proof -
  have same: "socket_inv so'' \<and> charge so'' = charge so \<Longrightarrow> socket_inv so'' \<and> balanced sh so sh so''" for so''
    by (simp add: balanced_def)
  show ?thesis
    using assms by (cases action)
      (auto simp: alone_def quiet_def dest: pump_inv reader_inv task_inv intro: same simp: socket_inv_def charge_def balanced_def)
qed

lemma holds_permit_step:
  assumes "socket_step checks try_alloc action sh so = Some (executions, sh', so')" and "holds_permit so'"
  shows "holds_permit so"
  using assms
  by (cases action)
    (auto simp: alone_def quiet_def holds_permit_def socket_operations selecting_def
      split: if_splits option.splits sum.splits list.splits task.splits prod.splits rpc_start.splits LegacyError.splits)

lemma filter_update_length:
  assumes "P b \<Longrightarrow> P (xs ! i)"
  shows "length (filter P (xs[i := b])) \<le> length (filter P xs)"
proof (cases "i < length xs")
  case True
  have "length (filter P (xs[i := b])) = length (filter P (take i xs)) + length (filter P (b # drop (Suc i) xs))"
    using True by (simp add: upd_conv_take_nth_drop)
  also have "\<dots> \<le> length (filter P (take i xs)) + length (filter P (xs ! i # drop (Suc i) xs))"
    using assms by auto
  also have "\<dots> = length (filter P xs)"
    by (subst (3) id_take_nth_drop [OF True]) simp
  finally show ?thesis .
qed (simp add: list_update_beyond)

lemma sum_list_update_nth:
  fixes f :: "'a \<Rightarrow> nat"
  assumes "i < length xs"
  shows "sum_list (map f (xs[i := b])) + f (xs ! i) = sum_list (map f xs) + f b"
  using assms by (induction xs arbitrary: i) (auto split: nat.splits)

lemma listener_step_inv:
  assumes "listener_step checks try_alloc action ls = Some (executions, ls')" and "listener_inv ls"
  shows "listener_inv ls'"
proof (cases action)
  case (Socket i act)
  with assms(1) obtain sh so where i: "i < length (ls_sockets ls)"
    and step: "socket_step checks try_alloc act (ls_shared ls) (ls_sockets ls ! i) = Some (executions, sh, so)"
    and ls': "ls' = ls\<lparr>ls_shared := sh, ls_sockets := (ls_sockets ls)[i := so]\<rparr>"
    by (auto split: if_splits option.splits)
  have old: "socket_inv (ls_sockets ls ! i)" "\<not> sem_closed (sh_request_buffers (ls_shared ls))"
    using assms(2) i by (auto simp: listener_inv_def)
  note new = socket_step_inv [OF step old]
  have "length (filter holds_permit ((ls_sockets ls)[i := so])) \<le> length (filter holds_permit (ls_sockets ls))"
    using holds_permit_step [OF step] by (rule filter_update_length)
  moreover have "sum_list (map charge ((ls_sockets ls)[i := so])) + charge (ls_sockets ls ! i) =
      sum_list (map charge (ls_sockets ls)) + charge so"
    using i by (rule sum_list_update_nth)
  then have "max_record_size RPC_RECORD_LIMITS * sum_list (map charge ((ls_sockets ls)[i := so])) +
      max_record_size RPC_RECORD_LIMITS * charge (ls_sockets ls ! i) =
      max_record_size RPC_RECORD_LIMITS * sum_list (map charge (ls_sockets ls)) +
      max_record_size RPC_RECORD_LIMITS * charge so"
    by (metis distrib_left)
  ultimately show ?thesis
    using assms(2) new unfolding ls' listener_inv_def balanced_def
    by (auto dest!: set_update_subset_insert [THEN subsetD])
next
  case (Accepts_Peer peer_addr socket)
  with assms show ?thesis
    by (auto simp: listener_inv_def socket_new_def socket_inv_def charge_def PIPE_CAPACITY_def split: if_splits)
qed (use assms in \<open>auto simp: listener_inv_def split: if_splits\<close>)

lemma listener_run_inv:
  "listener_run checks try_alloc actions ls = Some (executions, ls') \<Longrightarrow> listener_inv ls \<Longrightarrow> listener_inv ls'"
proof (induction actions arbitrary: ls executions)
  case (Cons action actions)
  from Cons.prems(1) obtain ex1 ls1 ex2 where "listener_step checks try_alloc action ls = Some (ex1, ls1)"
    "listener_run checks try_alloc actions ls1 = Some (ex2, ls')"
    by (auto split: option.splits)
  then show ?case using Cons.IH listener_step_inv Cons.prems(2) by blast
qed simp

lemma bind_internal_fields:
  assumes "bind_internal os ip port arcfs = Inr listener"
  shows "tl_connections listener = MAX_LEGACY_CONNECTIONS \<and> tl_arcfs listener = arcfs \<and>
    tl_transaction_tracker listener = tracker_new RETENTION_SECONDS \<and>
    tl_request_buffers listener = \<lparr>sem_permits = MAX_LEGACY_BUFFERED_REQUEST_BYTES, sem_closed = False\<rparr>"
  using assms by (auto simp: bind_internal_def Let_def split: sum.splits)

lemma bind_auto_fields:
  "bind_auto os n try_ip port arcfs = Inr listener \<Longrightarrow> \<exists>ip. bind_internal os ip port arcfs = Inr listener"
  by (induction n arbitrary: try_ip) (auto split: sum.splits)

lemma bind_listener_internal:
  "bind_listener os ipstr fs = Inr listener \<Longrightarrow> \<exists>ip port. bind_internal os ip port fs = Inr listener"
  by (auto simp: bind_listener_def split: option.splits prod.splits if_splits) (blast dest: bind_auto_fields)

lemma listener_start_inv:
  assumes "bind_listener os ipstr arcfs = Inr listener"
  shows "listener_inv (listener_start listener fs)"
  using bind_listener_internal [OF assms] bind_internal_fields
  by (fastforce simp: listener_inv_def listener_start_def)

section \<open>The tracker along a run\<close>

lemma tracker_calls_append:
  "snd (tracker_calls (a @ b) tracker) = snd (tracker_calls b (snd (tracker_calls a tracker)))"
proof (induction a arbitrary: tracker)
  case (Cons c a)
  obtain now call where "c = (now, call)" by fastforce
  with Cons show ?case by (cases call) (simp_all add: split_beta Let_def)
qed simp

lemma executed_append:
  "executed (a @ b) tracker = executed a tracker @ executed b (snd (tracker_calls a tracker))"
proof (induction a arbitrary: tracker)
  case (Cons c a)
  obtain now call where "c = (now, call)" by fastforce
  with Cons show ?case by (cases call) (simp_all add: split_beta Let_def)
qed simp

lemma tracked_none: "tracked now [] tracker tracker"
  unfolding tracked_def by (intro exI [of _ "[]"]) simp

lemma tracked_start:
  assumes "task_starts i sh so = Some (executions, sh', so')"
  shows "tracked (sh_clock sh) executions (sh_tracker sh) (sh_tracker sh') \<and> sh_clock sh' = sh_clock sh"
proof -
  let ?client = "ctx_client_addr (so_context so)"
  from assms obtain record_bytes where task: "so_tasks so ! i = Spawned record_bytes"
    by (auto simp: task_starts_def split: if_splits task.splits)
  show ?thesis
  proof (cases rule: rpc_begin_cases [of "so_context so" "sh_clock sh" "handler_state sh record_bytes" "sh_tracker sh"])
    case (again xid rest tracker1)
    with assms task show ?thesis
      unfolding tracked_def
      by (auto simp: task_starts_def split: if_splits intro!: exI [of _ "[(sh_clock sh, Check xid ?client)]"])
  next
    case (execute xid rest call auth tracker1)
    with assms task show ?thesis
      unfolding tracked_def
      by (auto simp: task_starts_def split: if_splits intro!: exI [of _ "[(sh_clock sh, Check xid ?client)]"])
  qed (use assms task in \<open>auto simp: task_starts_def tracked_none split: if_splits\<close>)
qed

lemma tracked_run:
  assumes "task_runs checks i sh so = Some (sh', so')"
  shows "tracked (sh_clock sh) [] (sh_tracker sh) (sh_tracker sh') \<and> sh_clock sh' = sh_clock sh"
proof -
  from assms obtain xid call ctx input where task: "so_tasks so ! i = Executing xid call ctx input"
    by (auto simp: task_runs_def split: if_splits task.splits)
  have "tracked (sh_clock sh) [] (sh_tracker sh) (mark_processed (sh_clock sh) xid (ctx_client_addr ctx) (sh_tracker sh))"
    unfolding tracked_def by (intro exI [of _ "[(sh_clock sh, Done xid (ctx_client_addr ctx))]"]) simp
  with assms task show ?thesis
    by (cases rule: rpc_finish_cases [of checks xid call ctx "sh_clock sh" "handler_state sh input" "sh_tracker sh"])
      (auto simp: task_runs_def tracked_none split: if_splits)
qed

lemma socket_step_tracked:
  assumes "socket_step checks try_alloc action sh so = Some (executions, sh', so')"
  shows "tracked (sh_clock sh) executions (sh_tracker sh) (sh_tracker sh') \<and> sh_clock sh' = sh_clock sh"
proof (cases action)
  case (Task_Starts i)
  with assms show ?thesis by (simp add: tracked_start)
next
  case (Task_Runs i)
  with assms show ?thesis by (auto simp: quiet_def dest: tracked_run)
qed (use assms in \<open>auto simp: alone_def quiet_def reader_reserves_def reader_fails_def reader_times_out_def
      reader_stop_def task_ends_def tracked_none
      split: if_splits option.splits sum.splits task.splits\<close>)

lemma listener_step_tracked:
  assumes "listener_step checks try_alloc action ls = Some (executions, ls')"
  shows "tracked (sh_clock (ls_shared ls)) executions (sh_tracker (ls_shared ls)) (sh_tracker (ls_shared ls')) \<and>
    sh_clock (ls_shared ls) \<le> sh_clock (ls_shared ls')"
proof (cases action)
  case (Socket i act)
  with assms show ?thesis by (auto dest: socket_step_tracked split: if_splits option.splits)
qed (use assms in \<open>auto simp: tracked_none split: if_splits\<close>)

lemma listener_run_tracked:
  assumes "listener_run checks try_alloc actions ls = Some (executions, ls')"
  shows "\<exists>calls. sorted (map fst calls) \<and> (\<forall>c \<in> set calls. sh_clock (ls_shared ls) \<le> fst c) \<and>
    executions = executed calls (sh_tracker (ls_shared ls))"
  using assms
proof (induction actions arbitrary: ls executions)
  case Nil
  then show ?case by (intro exI [of _ "[]"]) simp
next
  case (Cons action actions)
  from Cons.prems obtain ex1 ls1 ex2 where step: "listener_step checks try_alloc action ls = Some (ex1, ls1)"
    and run: "listener_run checks try_alloc actions ls1 = Some (ex2, ls')" and ex: "executions = ex1 @ ex2"
    by (auto split: option.splits)
  from listener_step_tracked [OF step] obtain first where first: "\<forall>c \<in> set first. fst c = sh_clock (ls_shared ls)"
    "sh_tracker (ls_shared ls1) = snd (tracker_calls first (sh_tracker (ls_shared ls)))"
    "ex1 = executed first (sh_tracker (ls_shared ls))" and clock: "sh_clock (ls_shared ls) \<le> sh_clock (ls_shared ls1)"
    by (auto simp: tracked_def)
  from Cons.IH [OF run] obtain later where later: "sorted (map fst later)"
    "\<forall>c \<in> set later. sh_clock (ls_shared ls1) \<le> fst c" "ex2 = executed later (sh_tracker (ls_shared ls1))"
    by blast
  have "map fst first = replicate (length first) (sh_clock (ls_shared ls))"
    using first(1) by (intro replicate_eqI) auto
  then have "sorted (map fst (first @ later))"
    using later(1,2) first(1) clock by (fastforce simp: sorted_append)
  moreover have "executions = executed (first @ later) (sh_tracker (ls_shared ls))"
    using first(2,3) later(3) ex by (simp add: executed_append)
  moreover have "\<forall>c \<in> set (first @ later). sh_clock (ls_shared ls) \<le> fst c"
    using first(1) later(2) clock by (auto intro: order_trans)
  ultimately show ?case by blast
qed

section \<open>The stream of replies\<close>

lemma reply_stream_Nil: "reply_stream []"
  unfolding reply_stream_def by (intro exI [of _ "[]"]) simp

lemma reply_stream_append: "reply_stream out \<Longrightarrow> rpc_reply_to xid msg \<Longrightarrow> reply_stream (out @ fragments_bytes [msg])"
  unfolding reply_stream_def
proof (elim exE conjE)
  fix msgs
  assume "rpc_reply_to xid msg" "out = concat (map (\<lambda>msg. fragments_bytes [msg]) msgs)"
    "\<forall>msg \<in> set msgs. \<exists>xid. rpc_reply_to xid msg"
  then show "\<exists>msgs. out @ fragments_bytes [msg] = concat (map (\<lambda>msg. fragments_bytes [msg]) msgs) \<and>
      (\<forall>msg \<in> set msgs. \<exists>xid. rpc_reply_to xid msg)"
    by (intro exI [of _ "msgs @ [msg]"]) auto
qed

lemma write_fragment_stream:
  assumes "write_fragment msg w = (r, w')" and "rpc_reply_to xid msg" and "progressive w \<longrightarrow> reply_stream (wr_out w)"
  shows "progressive w' \<longrightarrow> reply_stream (wr_out w')"
proof (cases "length msg < 2 ^ 31")
  case True
  note wrote = wrote_write_fragment [OF True, of w, unfolded assms(1), simplified]
  then have "progressive w' = progressive w" by (intro progressive_schedule) (simp add: wrote_def)
  moreover from wrote have "progressive w \<longrightarrow> wr_out w' = wr_out w @ fragments_bytes [msg]" by (simp add: wrote_def)
  ultimately show ?thesis using assms(2,3) reply_stream_append by metis
next
  case False
  with assms show ?thesis by (simp add: write_fragment_def)
qed

lemma task_answer_ok: "(r = Inr True \<Longrightarrow> \<exists>xid. rpc_reply_to xid out) \<Longrightarrow> task_ok (Replying (task_answer r out))"
  by (cases "(r, out)" rule: task_answer.cases) (auto simp: answer_ok_def)

lemma stream_update: "stream_inv so \<Longrightarrow> task_ok t \<Longrightarrow> stream_inv (so\<lparr>so_tasks := (so_tasks so)[i := t]\<rparr>)"
  by (auto simp: stream_inv_def dest!: set_update_subset_insert [THEN subsetD])

lemma task_starts_stream:
  assumes "task_starts i sh so = Some (executions, sh', so')" and "stream_inv so"
  shows "stream_inv so'"
proof -
  from assms obtain record_bytes where task: "i < length (so_tasks so)" "so_tasks so ! i = Spawned record_bytes"
    by (auto simp: task_starts_def split: if_splits task.splits)
  note step = assms(1) [unfolded task_starts_def if_P [OF task(1)] task(2) task.case]
  show ?thesis
  proof (cases rule: rpc_begin_cases [of "so_context so" "sh_clock sh" "handler_state sh record_bytes" "sh_tracker sh"])
    case (bad e s1)
    with step assms(2) show ?thesis using task_answer_ok [of "Inl e" "hs_output s1"] by (auto intro: stream_update)
  next
    case (version xid rest)
    with step assms(2) show ?thesis
      by (auto simp: answer_ok_def rpc_reply_to_def handler_state_def intro!: stream_update)
  qed (use step assms(2) in \<open>auto intro!: stream_update\<close>)
qed

lemma task_runs_stream:
  assumes "task_runs checks i sh so = Some (sh', so')" and "stream_inv so"
  shows "stream_inv so'"
proof -
  from assms obtain xid call ctx input where task: "i < length (so_tasks so)" "so_tasks so ! i = Executing xid call ctx input"
    by (auto simp: task_runs_def split: if_splits task.splits)
  note step = assms(1) [unfolded task_runs_def if_P [OF task(1)] task(2) task.case]
  show ?thesis
  proof (cases rule: rpc_finish_cases [of checks xid call ctx "sh_clock sh" "handler_state sh input" "sh_tracker sh"])
    case (failed e s1)
    with step assms(2) show ?thesis using task_answer_ok [of "Inl e" "hs_output s1"] by (auto intro: stream_update)
  next
    case (replied s1 w)
    with step assms(2) show ?thesis
      by (auto simp: answer_ok_def rpc_reply_to_def handler_state_def intro!: stream_update)
  qed (use step assms(2) in \<open>auto intro!: stream_update\<close>)
qed

lemma task_ends_stream:
  assumes "task_ends i sh so = Some (sh', so')" and "stream_inv so"
  shows "stream_inv so'"
proof -
  have ok: "answer_ok answer" if "i < length (so_tasks so)" "so_tasks so ! i = Replying (Some answer)" for answer
    using assms(2) nth_mem [OF that(1)] that(2) by (metis stream_inv_def task_ok.simps(1))
  have "\<forall>t \<in> set (drop_nth i (so_tasks so)). task_ok t"
    using assms(2) set_drop_nth [of i "so_tasks so"] by (auto simp: stream_inv_def)
  with assms ok show ?thesis
    by (auto simp: stream_inv_def task_ends_def split: if_splits task.splits option.splits)
qed

lemma pump_replies_stream:
  assumes "pump_replies so = Some so'" and "stream_inv so"
  shows "stream_inv so'"
proof (cases "so_replies so")
  case Nil
  with assms show ?thesis by (auto simp: stream_inv_def pump_replies_def split: if_splits)
next
  case (Cons answer replies)
  show ?thesis
  proof (cases answer)
    case (Inl e)
    with Cons assms show ?thesis by (auto simp: stream_inv_def pump_replies_def split: if_splits)
  next
    case (Inr msg)
    obtain r w' where run: "write_fragment msg (so_socket so) = (r, w')" by fastforce
    from assms(2) Cons Inr obtain xid where "rpc_reply_to xid msg" by (auto simp: stream_inv_def answer_ok_def)
    then have "progressive w' \<longrightarrow> reply_stream (wr_out w')"
      using write_fragment_stream [OF run] assms(2) by (auto simp: stream_inv_def)
    moreover have "so_replies so' = replies" "so_tasks so' = so_tasks so" "so_socket so' = w'"
      using assms(1) Cons Inr run
      by (auto simp: pump_replies_def split: if_splits sum.splits LegacyError.splits)
    ultimately show ?thesis using assms(2) Cons by (simp add: stream_inv_def)
  qed
qed

lemma socket_step_stream:
  assumes "socket_step checks try_alloc action sh so = Some (executions, sh', so')" and "stream_inv so"
  shows "stream_inv so'"
proof (cases action)
  case (Task_Starts i)
  with assms show ?thesis by (auto dest: task_starts_stream)
next
  case (Task_Runs i)
  with assms show ?thesis by (auto simp: quiet_def dest: task_runs_stream)
next
  case (Task_Ends i)
  with assms show ?thesis by (auto simp: quiet_def dest: task_ends_stream)
next
  case Pump_Replies
  with assms show ?thesis by (auto simp: alone_def dest: pump_replies_stream)
qed (use assms in \<open>auto simp: stream_inv_def alone_def quiet_def pump_reads_def pump_eof_def pump_fails_def
      pump_writes_def pump_broken_def reader_takes_def reader_reserves_def reader_spawns_def reader_fails_def
      reader_times_out_def reader_stop_def
      split: if_splits option.splits sum.splits list.splits\<close>)

lemma listener_run_stream:
  "listener_run checks try_alloc actions ls = Some (executions, ls') \<Longrightarrow> list_all fresh_socket actions \<Longrightarrow>
     \<forall>so \<in> set (ls_sockets ls). stream_inv so \<Longrightarrow> \<forall>so \<in> set (ls_sockets ls'). stream_inv so"
proof (induction actions arbitrary: ls executions)
  case (Cons action actions)
  from Cons.prems(1) obtain ex1 ls1 ex2 where step: "listener_step checks try_alloc action ls = Some (ex1, ls1)"
    and run: "listener_run checks try_alloc actions ls1 = Some (ex2, ls')"
    by (auto split: option.splits)
  have "\<forall>so \<in> set (ls_sockets ls1). stream_inv so"
  proof (cases action)
    case (Socket i act)
    with step obtain sh so where i: "i < length (ls_sockets ls)" "ls_sockets ls1 = (ls_sockets ls)[i := so]"
      and act: "socket_step checks try_alloc act (ls_shared ls) (ls_sockets ls ! i) = Some (ex1, sh, so)"
      by (auto split: if_splits option.splits)
    from socket_step_stream [OF act] Cons.prems(3) i(1) have "stream_inv so" by simp
    with i(2) Cons.prems(3) show ?thesis by (auto dest!: set_update_subset_insert [THEN subsetD])
  next
    case (Accepts_Peer peer_addr socket)
    with step Cons.prems(2,3) show ?thesis
      by (auto simp: stream_inv_def socket_new_def reply_stream_Nil split: if_splits)
  qed (use step Cons.prems(3) in \<open>auto split: if_splits\<close>)
  then show ?case using Cons.IH [OF run] Cons.prems(2) by simp
qed simp

end
