(* ===== verification/Legacy_Runs.thy ===== *)
theory Legacy_Runs
  imports Legacy_Server
begin

text \<open>
  Runs of the listener of the demo stack: what every run keeps, and one run in which a single
  client that sends faster than it reads brings the listener to a halt until a timeout fires.
\<close>

section \<open>Schedules\<close>

text \<open>The steps in which the record reader of a connection receives a record of one fragment.\<close>

definition read_actions :: "nat \<Rightarrow> socket_action list" where
  "read_actions n =
     replicate 4 Reader_Takes @ [Reader_Reserves] @ replicate n Reader_Takes @ [Reader_Spawns]"

fun socket_run ::
  "bool \<Rightarrow> allocator \<Rightarrow> socket_action list \<Rightarrow> 'fs SharedState \<Rightarrow> 'fs SocketState \<Rightarrow>
   (execution list \<times> 'fs SharedState \<times> 'fs SocketState) option" where
  "socket_run checks try_alloc [] sh so = Some ([], sh, so)"
| "socket_run checks try_alloc (action # actions) sh so =
     (case socket_step checks try_alloc action sh so of
        Some (executions, sh, so) \<Rightarrow>
          map_option (\<lambda>(later, sh, so). (executions @ later, sh, so)) (socket_run checks try_alloc actions sh so)
      | None \<Rightarrow> None)"

definition with_permits :: "usize \<Rightarrow> 'fs SharedState \<Rightarrow> 'fs SharedState" where
  "with_permits n sh = sh\<lparr>sh_request_buffers := \<lparr>sem_permits = n, sem_closed = False\<rparr>\<rparr>"

section \<open>A client that floods the listener\<close>

text \<open>
  A record of 60 bytes with a call of a wrong version of the protocol, which is answered without a
  procedure; and the steps in which a client sends 6000 of them.  The pump fills the pipe, 64
  messages are answered into the reply channel, 32 more wait for room in it and hold the whole
  byte budget, the reader waits for the budget, and the pump, which would make room in the
  channel, waits for room in the pipe.
\<close>

definition flood_call :: call_body where
  "flood_call =
     \<lparr>cb_rpcvers = 3, cb_prog = 100003, cb_vers = 3, cb_proc = 0,
      cb_cred = \<lparr>oa_flavor = AUTH_NULL, oa_body = replicate 20 0\<rparr>, cb_verf = opaque_auth_default\<rparr>"

definition flood_record :: bytes where
  "flood_record = rpc_msg_wire \<lparr>rm_xid = 7, rm_body = CALL flood_call\<rparr>"

definition flood :: "nat \<Rightarrow> bytes" where
  "flood n = concat (replicate n (fragments_bytes [flood_record]))"

definition flood_answer :: SocketMessageType where
  "flood_answer = Inr (rpc_msg_wire (rpc_vers_mismatch 7))"

definition answer_round :: "socket_action list" where
  "answer_round = read_actions 60 @ [Task_Starts 0, Task_Ends 0]"

definition wait_round :: "nat \<Rightarrow> socket_action list" where
  "wait_round j = read_actions 60 @ [Task_Starts j]"

definition flood_schedule :: "socket_action list" where
  "flood_schedule =
     [Peer_Sends (flood 6000), Pump_Reads 128000, Pump_Writes 128000, Pump_Reads 128000, Pump_Writes 128000] @
     concat (replicate 64 answer_round) @ concat (map wait_round [0..<32]) @
     replicate 4 Reader_Takes @ [Pump_Reads 128000, Pump_Writes 6148]"

text \<open>A connection that waits for itself, and a listener whose budget it holds.\<close>

fun waits_for_channel :: "'fs task \<Rightarrow> bool" where
  "waits_for_channel (Replying (Some answer)) \<longleftrightarrow> True"
| "waits_for_channel _ \<longleftrightarrow> False"

definition stalled :: "allocator \<Rightarrow> 'fs SocketState \<Rightarrow> bool" where
  "stalled try_alloc so \<longleftrightarrow>
     so_result so = None \<and> so_reading so \<and> so_held so \<noteq> [] \<and> length (so_pipe so) = PIPE_CAPACITY \<and>
     length (so_partial so) = 4 \<and> \<not> so_reserved so \<and> needs_more try_alloc so \<and>
     length (so_replies so) = MAX_QUEUED_REPLIES \<and> list_all waits_for_channel (so_tasks so)"

definition listener_stalled :: "allocator \<Rightarrow> nat \<Rightarrow> 'fs ListenerState \<Rightarrow> bool" where
  "listener_stalled try_alloc i ls \<longleftrightarrow>
     i < length (ls_sockets ls) \<and> stalled try_alloc (ls_sockets ls ! i) \<and>
     sh_request_buffers (ls_shared ls) = \<lparr>sem_permits = 0, sem_closed = False\<rparr> \<and>
     (\<forall>k < length (ls_sockets ls). k \<noteq> i \<longrightarrow> charge (ls_sockets ls ! k) = 0)"

text \<open>A connection in the middle of the flood.\<close>

definition flooded :: "'fs SocketState \<Rightarrow> bytes \<Rightarrow> nat \<Rightarrow> nat \<Rightarrow> nat \<Rightarrow> 'fs SocketState" where
  "flooded so incoming m k j = so
     \<lparr>so_incoming := incoming, so_pipe := flood m, so_replies := replicate k flood_answer,
      so_tasks := replicate j (Replying (Some flood_answer))\<rparr>"

section \<open>Sequences of steps\<close>

lemma socket_run_append:
  "socket_run checks try_alloc a sh so = Some (ex1, sh1, so1) \<Longrightarrow>
   socket_run checks try_alloc b sh1 so1 = Some (ex2, sh2, so2) \<Longrightarrow>
     socket_run checks try_alloc (a @ b) sh so = Some (ex1 @ ex2, sh2, so2)"
  by (induction a arbitrary: sh so ex1) (fastforce split: option.splits)+

lemma listener_run_socket:
  "socket_run checks try_alloc actions (ls_shared ls) (ls_sockets ls ! i) = Some (executions, sh, so) \<Longrightarrow>
   i < length (ls_sockets ls) \<Longrightarrow>
     listener_run checks try_alloc (map (Socket i) actions) ls =
       Some (executions, ls\<lparr>ls_shared := sh, ls_sockets := (ls_sockets ls)[i := so]\<rparr>)"
proof (induction actions arbitrary: ls executions)
  case (Cons action actions)
  from Cons.prems(1) obtain ex1 sh1 so1 ex2 where
    step: "socket_step checks try_alloc action (ls_shared ls) (ls_sockets ls ! i) = Some (ex1, sh1, so1)" and
    run: "socket_run checks try_alloc actions sh1 so1 = Some (ex2, sh, so)" and ex: "executions = ex1 @ ex2"
    by (auto split: option.splits)
  show ?case
    using Cons.IH [of "ls\<lparr>ls_shared := sh1, ls_sockets := (ls_sockets ls)[i := so1]\<rparr>" ex2] step run ex Cons.prems(2)
    by simp
qed (cases ls, auto)

section \<open>Reading a record\<close>

lemma record_prefix_needs_more:
  assumes "alloc_ok try_alloc RPC_RECORD_LIMITS" and "length r \<le> max_fragment_size RPC_RECORD_LIMITS"
    and "j < 4 + length r" and "so_partial so = take j (fragments_bytes [r])"
  shows "needs_more try_alloc so"
proof -
  let ?rd = "\<lparr>rd_bytes = so_partial so, rd_end = UnexpectedEof\<rparr>"
  have sizes: "max_fragments RPC_RECORD_LIMITS = Suc 15" "max_fragment_size RPC_RECORD_LIMITS = 1048576"
    "max_record_size RPC_RECORD_LIMITS = 2097152"
    by (simp_all add: RPC_RECORD_LIMITS_def)
  have small: "length r \<le> 0x7fffffff" using assms(2) sizes by simp
  show ?thesis
  proof (cases "j < 4")
    case True
    then have "io_read_u32 ?rd = Inl (RecIo UnexpectedEof)"
      using assms(4) by (simp add: io_read_u32_def io_read_exact_def)
    then show ?thesis
      unfolding needs_more_def record_so_far_def read_record_def sizes(1) read_fragments.simps by simp
  next
    case False
    define h where "h = (of_nat (length r) OR 0x80000000 :: u32)"
    have header: "header_last h" "header_length h = length r"
      using header_of_length [OF small, of True] by (simp_all add: h_def)
    have partial: "so_partial so = be32 h @ take (j - 4) r"
      using False assms(4) by (simp add: fragment_header_def h_def)
    have first: "io_read_u32 ?rd = Inr (h, \<lparr>rd_bytes = take (j - 4) r, rd_end = UnexpectedEof\<rparr>)"
      by (simp add: io_read_u32_Inr partial)
    obtain c where "reserve_record try_alloc 0 0 (length r) (max_record_size RPC_RECORD_LIMITS) = Inr c"
      using reserve_record_ok [OF assms(1), of 0 "length r" 0] assms(2) sizes by auto
    then have "read_fragment try_alloc RPC_RECORD_LIMITS h [] 0 \<lparr>rd_bytes = take (j - 4) r, rd_end = UnexpectedEof\<rparr> =
        Inl (RecIo UnexpectedEof)"
      using False assms(2,3) sizes header
      by (simp add: read_fragment_def io_read_exact_def checked_add_def Let_def)
    then show ?thesis
      unfolding needs_more_def record_so_far_def read_record_def sizes(1) read_fragments.simps first by simp
  qed
qed

lemma reader_takes_many:
  assumes "alloc_ok try_alloc RPC_RECORD_LIMITS" and "length r \<le> max_fragment_size RPC_RECORD_LIMITS"
    and b: "b = fragments_bytes [r]"
    and "so_reading so" and "j + n \<le> length b" and "so_partial so = take j b"
    and "so_pipe so = drop j b @ rest" and "so_reserved so \<or> j + n \<le> 4"
  shows "socket_run checks try_alloc (replicate n Reader_Takes) sh so =
    Some ([], sh, so\<lparr>so_pipe := drop (j + n) b @ rest, so_partial := take (j + n) b\<rparr>)"
  using assms(4-)
proof (induction n arbitrary: j so)
  case 0
  then show ?case by simp
next
  case (Suc n)
  have j: "j < length b" using Suc.prems(2) by simp
  have pipe: "so_pipe so = b ! j # drop (Suc j) b @ rest"
    using Suc.prems(4) Cons_nth_drop_Suc [OF j] by simp
  have "needs_more try_alloc so"
    using record_prefix_needs_more [OF assms(1,2), of j so] Suc.prems(3) j b by simp
  then have "socket_step checks try_alloc Reader_Takes sh so =
      Some ([], sh, so\<lparr>so_pipe := drop (Suc j) b @ rest, so_partial := take (Suc j) b\<rparr>)"
    using Suc.prems(1,3,5) pipe j by (auto simp: alone_def reader_takes_def take_Suc_conv_app_nth)
  moreover have "socket_run checks try_alloc (replicate n Reader_Takes) sh
      (so\<lparr>so_pipe := drop (Suc j) b @ rest, so_partial := take (Suc j) b\<rparr>) =
    Some ([], sh, so\<lparr>so_pipe := drop (Suc j) b @ rest, so_partial := take (Suc j) b\<rparr>
      \<lparr>so_pipe := drop (Suc j + n) b @ rest, so_partial := take (Suc j + n) b\<rparr>)"
    by (rule Suc.IH) (use Suc.prems in auto)
  ultimately show ?case by simp
qed

lemma complete_record:
  assumes "alloc_ok try_alloc RPC_RECORD_LIMITS" and "length r \<le> max_fragment_size RPC_RECORD_LIMITS"
    and "so_partial so = fragments_bytes [r]"
  shows "record_so_far try_alloc so = Inr (r, \<lparr>rd_bytes = [], rd_end = UnexpectedEof\<rparr>)"
  unfolding record_so_far_def
  using assms(2,3)
  by (subst read_record_Inr [OF assms(1)])
    (auto simp: fragments_ok_def RPC_RECORD_LIMITS_def intro!: exI [of _ "[r]"])

lemma socket_reads_record:
  assumes alloc: "alloc_ok try_alloc RPC_RECORD_LIMITS" and len: "length r \<le> max_fragment_size RPC_RECORD_LIMITS"
    and so: "so_reading so" "so_partial so = []" "\<not> so_reserved so" "so_pipe so = fragments_bytes [r] @ rest"
      "length (so_tasks so) < MAX_IN_FLIGHT_MESSAGES"
    and permits: "max_record_size RPC_RECORD_LIMITS \<le> n"
  shows "socket_run checks try_alloc (read_actions (length r)) (with_permits n sh) so =
    Some ([], with_permits (n - max_record_size RPC_RECORD_LIMITS) sh,
      so\<lparr>so_pipe := rest, so_tasks := so_tasks so @ [Spawned r]\<rparr>)"
proof -
  define b where "b = fragments_bytes [r]"
  have blen: "length b = 4 + length r" by (simp add: b_def)
  let ?so1 = "so\<lparr>so_pipe := drop 4 b @ rest, so_partial := take 4 b\<rparr>"
  let ?so2 = "?so1\<lparr>so_reserved := True\<rparr>"
  let ?so3 = "?so2\<lparr>so_pipe := rest, so_partial := b\<rparr>"
  let ?sh = "with_permits (n - max_record_size RPC_RECORD_LIMITS) sh"
  have 1: "socket_run checks try_alloc (replicate 4 Reader_Takes) (with_permits n sh) so = Some ([], with_permits n sh, ?so1)"
    using reader_takes_many [OF alloc len b_def so(1), of 0 4 rest checks "with_permits n sh"] so blen b_def by simp
  have ok: "case record_so_far try_alloc ?so1 of Inl e \<Rightarrow> e = RecIo UnexpectedEof | Inr _ \<Rightarrow> True"
  proof (cases "r = []")
    case True
    then show ?thesis using complete_record [OF alloc len, of ?so1] b_def by simp
  next
    case False
    then show ?thesis using record_prefix_needs_more [OF alloc len, of 4 ?so1] b_def by (simp add: needs_more_def)
  qed
  have 2: "socket_run checks try_alloc [Reader_Reserves] (with_permits n sh) ?so1 = Some ([], ?sh, ?so2)"
    using so ok permits blen by (simp add: quiet_def reader_reserves_def acquire_many_def with_permits_def)
  have 3: "socket_run checks try_alloc (replicate (length r) Reader_Takes) ?sh ?so2 = Some ([], ?sh, ?so3)"
    using reader_takes_many [OF alloc len b_def, of ?so2 4 "length r" rest checks ?sh] so blen by simp
  have "record_so_far try_alloc ?so3 = Inr (r, \<lparr>rd_bytes = [], rd_end = UnexpectedEof\<rparr>)"
    by (rule complete_record [OF alloc len]) (simp add: b_def)
  then have 4: "socket_run checks try_alloc [Reader_Spawns] ?sh ?so3 =
      Some ([], ?sh, so\<lparr>so_pipe := rest, so_tasks := so_tasks so @ [Spawned r]\<rparr>)"
    using so by (cases so) (simp add: alone_def reader_spawns_def)
  show ?thesis
    using socket_run_append [OF 1 socket_run_append [OF 2 socket_run_append [OF 3 4]]] by (simp add: read_actions_def)
qed

section \<open>The flood\<close>

lemma length_flood_record: "length flood_record = 60"
  by (simp add: flood_record_def flood_call_def rpc_msg_wire_def call_body_wire_def opaque_auth_wire_def
      opaque_auth_default_def opaque_bytes_def xdr_padding_def)

lemma length_flood [simp]: "length (flood n) = 64 * n"
  by (simp add: flood_def length_concat sum_list_replicate length_flood_record)

lemma flood_Suc: "flood (Suc n) = fragments_bytes [flood_record] @ flood n"
  by (simp add: flood_def)

lemma flood_add: "flood (m + n) = flood m @ flood n"
  by (simp add: flood_def replicate_add)

lemma flood_begin:
  "rpc_begin ctx now (handler_state sh flood_record) tracker =
     (Answered (Inr True),
      (handler_state sh [])\<lparr>hs_output := rpc_msg_wire (rpc_vers_mismatch 7)\<rparr>, tracker)"
proof -
  have "rpc_msg_deserialize flood_record = Inr (\<lparr>rm_xid = 7, rm_body = CALL flood_call\<rparr>, [])"
    using x_rpc_msg.de_wire [of "\<lparr>rm_xid = 7, rm_body = CALL flood_call\<rparr>" "[]"]
    by (simp add: flood_record_def rpc_msg_ok_def call_body_ok_def opaque_auth_ok_def flood_call_def
        opaque_auth_default_def)
  moreover have "call_context flood_call ctx = Inr ctx" by (simp add: call_context_def flood_call_def)
  moreover have "cb_rpcvers flood_call \<noteq> 2" by (simp add: flood_call_def)
  ultimately show ?thesis
    by (simp add: rpc_begin_def h_read_def handler_state_def h_write_vers_mismatch)
qed

lemma put_back_same: "sh_fs sh = hs_fs s \<Longrightarrow> sh_signals sh = hs_signals s \<Longrightarrow> put_back s (sh_tracker sh) sh = sh"
  by (cases sh) (simp add: put_back_def)

lemma flood_starts:
  assumes "so_tasks so = ts @ [Spawned flood_record]"
  shows "socket_step checks try_alloc (Task_Starts (length ts)) sh so =
    Some ([], sh, so\<lparr>so_tasks := ts @ [Replying (Some flood_answer)]\<rparr>)"
proof -
  have "hs_fs (handler_state sh bs) = sh_fs sh" "hs_signals (handler_state sh bs) = sh_signals sh" for bs
    by (simp_all add: handler_state_def)
  with assms show ?thesis by (simp add: task_starts_def flood_begin put_back_same flood_answer_def)
qed

lemma with_permits_fields [simp]:
  "give_back3 (with_permits n sh) = with_permits (n + max_record_size RPC_RECORD_LIMITS) sh"
  by (simp add: with_permits_def give_back3_def)

lemma flood_waits:
  assumes alloc: "alloc_ok try_alloc RPC_RECORD_LIMITS" and so: "so_reading so" "so_partial so = []" "\<not> so_reserved so"
    and permits: "max_record_size RPC_RECORD_LIMITS \<le> n" and j: "j < MAX_IN_FLIGHT_MESSAGES"
  shows "socket_run checks try_alloc (wait_round j) (with_permits n sh) (flooded so incoming (Suc m) k j) =
    Some ([], with_permits (n - max_record_size RPC_RECORD_LIMITS) sh, flooded so incoming m k (Suc j))"
proof -
  let ?so = "flooded so incoming (Suc m) k j" and ?n = "n - max_record_size RPC_RECORD_LIMITS"
  let ?so1 = "?so\<lparr>so_pipe := flood m, so_tasks := so_tasks ?so @ [Spawned flood_record]\<rparr>"
  have 1: "socket_run checks try_alloc (read_actions (length flood_record)) (with_permits n sh) ?so =
      Some ([], with_permits ?n sh, ?so1)"
    by (rule socket_reads_record [OF alloc _ _ _ _ _ _ permits])
      (use so j in \<open>simp_all add: flooded_def flood_Suc length_flood_record RPC_RECORD_LIMITS_def\<close>)
  have "socket_step checks try_alloc (Task_Starts j) (with_permits ?n sh) ?so1 =
      Some ([], with_permits ?n sh, flooded so incoming m k (Suc j))"
    using flood_starts [of ?so1 "replicate j (Replying (Some flood_answer))" checks try_alloc "with_permits ?n sh"]
    by (simp add: flooded_def replicate_append_same)
  then have "socket_run checks try_alloc [Task_Starts j] (with_permits ?n sh) ?so1 =
      Some ([], with_permits ?n sh, flooded so incoming m k (Suc j))"
    by simp
  from socket_run_append [OF 1 this] show ?thesis by (simp add: wait_round_def length_flood_record)
qed

lemma flood_answers:
  assumes alloc: "alloc_ok try_alloc RPC_RECORD_LIMITS"
    and so: "so_reading so" "so_partial so = []" "\<not> so_reserved so" "so_result so = None"
    and permits: "max_record_size RPC_RECORD_LIMITS \<le> n" and k: "k < MAX_QUEUED_REPLIES"
  shows "socket_run checks try_alloc answer_round (with_permits n sh) (flooded so incoming (Suc m) k 0) =
    Some ([], with_permits n sh, flooded so incoming m (Suc k) 0)"
proof -
  have 1: "socket_run checks try_alloc (wait_round 0) (with_permits n sh) (flooded so incoming (Suc m) k 0) =
      Some ([], with_permits (n - max_record_size RPC_RECORD_LIMITS) sh, flooded so incoming m k (Suc 0))"
    by (rule flood_waits [OF alloc so(1-3) permits]) (simp add: MAX_IN_FLIGHT_MESSAGES_def)
  have "socket_run checks try_alloc [Task_Ends 0] (with_permits (n - max_record_size RPC_RECORD_LIMITS) sh)
      (flooded so incoming m k (Suc 0)) = Some ([], with_permits n sh, flooded so incoming m (Suc k) 0)"
    using so(4) permits k by (simp add: quiet_def task_ends_def flooded_def drop_nth_def replicate_append_same)
  from socket_run_append [OF 1 this] show ?thesis by (simp add: answer_round_def wait_round_def)
qed

lemma flood_answers_many:
  assumes alloc: "alloc_ok try_alloc RPC_RECORD_LIMITS"
    and so: "so_reading so" "so_partial so = []" "\<not> so_reserved so" "so_result so = None"
    and permits: "max_record_size RPC_RECORD_LIMITS \<le> n" and k: "k + c \<le> MAX_QUEUED_REPLIES"
  shows "socket_run checks try_alloc (concat (replicate c answer_round)) (with_permits n sh) (flooded so incoming (m + c) k 0) =
    Some ([], with_permits n sh, flooded so incoming m (k + c) 0)"
  using k
proof (induction c arbitrary: k)
  case (Suc c)
  have "socket_run checks try_alloc answer_round (with_permits n sh) (flooded so incoming (Suc (m + c)) k 0) =
      Some ([], with_permits n sh, flooded so incoming (m + c) (Suc k) 0)"
    using Suc.prems by (intro flood_answers [OF alloc so permits]) simp
  from socket_run_append [OF this Suc.IH] Suc.prems show ?case by simp
qed simp

lemma flood_waits_many:
  assumes alloc: "alloc_ok try_alloc RPC_RECORD_LIMITS" and so: "so_reading so" "so_partial so = []" "\<not> so_reserved so"
    and j: "j \<le> MAX_IN_FLIGHT_MESSAGES"
  shows "socket_run checks try_alloc (concat (map wait_round [0..<j]))
      (with_permits (n + max_record_size RPC_RECORD_LIMITS * j) sh) (flooded so incoming (m + j) k 0) =
    Some ([], with_permits n sh, flooded so incoming m k j)"
  using j
proof (induction j arbitrary: n m)
  case (Suc j)
  have 1: "socket_run checks try_alloc (concat (map wait_round [0..<j]))
      (with_permits (n + max_record_size RPC_RECORD_LIMITS * Suc j) sh) (flooded so incoming (m + Suc j) k 0) =
    Some ([], with_permits (n + max_record_size RPC_RECORD_LIMITS) sh, flooded so incoming (Suc m) k j)"
    using Suc.IH [of "n + max_record_size RPC_RECORD_LIMITS" "Suc m"] Suc.prems by (simp add: algebra_simps)
  have 2: "socket_run checks try_alloc (wait_round j) (with_permits (n + max_record_size RPC_RECORD_LIMITS) sh)
      (flooded so incoming (Suc m) k j) = Some ([], with_permits n sh, flooded so incoming m k (Suc j))"
    using flood_waits [OF alloc so, of "n + max_record_size RPC_RECORD_LIMITS" j] Suc.prems by simp
  from socket_run_append [OF 1 2] show ?case by simp
qed simp

lemma flood_fills:
  assumes "so_result so = None" "so_reading so" "so_held so = []" "so_pipe so = []" "so_incoming so = []"
  shows "socket_run checks try_alloc
      [Peer_Sends (flood 6000), Pump_Reads 128000, Pump_Writes 128000, Pump_Reads 128000, Pump_Writes 128000] sh so =
    Some ([], sh, so\<lparr>so_incoming := flood 2000, so_pipe := flood 4000\<rparr>)"
proof -
  have split: "flood 6000 = flood 2000 @ flood 2000 @ flood 2000"
    using flood_add [of 2000 4000] flood_add [of 2000 2000] by simp
  have half: "flood 4000 = flood 2000 @ flood 2000"
    using flood_add [of 2000 2000] by simp
  show ?thesis
    using assms
    by (simp add: alone_def pump_reads_def pump_writes_def selecting_def PUMP_BUFFER_def PIPE_CAPACITY_def split half)
qed

lemma flood_blocks:
  assumes alloc: "alloc_ok try_alloc RPC_RECORD_LIMITS"
    and so: "so_reading so" "so_partial so = []" "\<not> so_reserved so" "so_result so = None" "so_held so = []"
  shows "\<exists>so'. socket_run checks try_alloc (replicate 4 Reader_Takes @ [Pump_Reads 128000, Pump_Writes 6148]) sh
      (flooded so (flood 2000) 3904 64 32) = Some ([], sh, so') \<and> stalled try_alloc so'"
proof -
  define b where "b = fragments_bytes [flood_record]"
  have b: "length b = 64" by (simp add: b_def length_flood_record)
  have len: "length flood_record \<le> max_fragment_size RPC_RECORD_LIMITS"
    by (simp add: length_flood_record RPC_RECORD_LIMITS_def)
  have flood: "flood 3904 = b @ flood 3903" using flood_Suc [of 3903] by (simp add: b_def)
  let ?so1 = "(flooded so (flood 2000) 3904 64 32)\<lparr>so_pipe := drop 4 b @ flood 3903, so_partial := take 4 b\<rparr>"
  let ?so2 = "?so1\<lparr>so_incoming := [], so_held := drop 6148 (flood 2000),
    so_pipe := drop 4 b @ flood 3903 @ take 6148 (flood 2000)\<rparr>"
  have 1: "socket_run checks try_alloc (replicate 4 Reader_Takes) sh (flooded so (flood 2000) 3904 64 32) = Some ([], sh, ?so1)"
    using reader_takes_many [OF alloc len b_def, of "flooded so (flood 2000) 3904 64 32" 0 4 "flood 3903" checks sh]
      so b by (simp add: flooded_def flood)
  have 2: "socket_run checks try_alloc [Pump_Reads 128000, Pump_Writes 6148] sh ?so1 = Some ([], sh, ?so2)"
    using so b by (simp add: flooded_def alone_def pump_reads_def pump_writes_def selecting_def PUMP_BUFFER_def
        PIPE_CAPACITY_def)
  have "needs_more try_alloc ?so2"
    using record_prefix_needs_more [OF alloc len, of 4 ?so2] by (simp add: b_def length_flood_record)
  moreover have "drop 6148 (flood 2000) \<noteq> []" by (simp flip: length_greater_0_conv)
  ultimately have "stalled try_alloc ?so2"
    using so b by (simp add: stalled_def flooded_def PIPE_CAPACITY_def MAX_QUEUED_REPLIES_def list_all_iff)
  with socket_run_append [OF 1 2] show ?thesis by auto
qed

lemma flood_stalls:
  assumes alloc: "alloc_ok try_alloc RPC_RECORD_LIMITS"
  shows "\<exists>so. socket_run checks try_alloc flood_schedule (with_permits MAX_LEGACY_BUFFERED_REQUEST_BYTES sh)
      (socket_new ctx socket) = Some ([], with_permits 0 sh, so) \<and> stalled try_alloc so"
proof -
  let ?so = "socket_new ctx socket" and ?n = "MAX_LEGACY_BUFFERED_REQUEST_BYTES"
  have so: "so_reading ?so" "so_partial ?so = []" "\<not> so_reserved ?so" "so_result ?so = None" "so_held ?so = []"
    by (simp_all add: socket_new_def)
  have n: "?n = 0 + max_record_size RPC_RECORD_LIMITS * 32"
    by (simp add: MAX_LEGACY_BUFFERED_REQUEST_BYTES_def RPC_RECORD_LIMITS_def)
  have 1: "socket_run checks try_alloc
      [Peer_Sends (flood 6000), Pump_Reads 128000, Pump_Writes 128000, Pump_Reads 128000, Pump_Writes 128000]
      (with_permits ?n sh) ?so = Some ([], with_permits ?n sh, flooded ?so (flood 2000) (3936 + 64) 0 0)"
    using flood_fills [of ?so checks try_alloc "with_permits ?n sh"] so by (simp add: flooded_def socket_new_def)
  have 2: "socket_run checks try_alloc (concat (replicate 64 answer_round)) (with_permits ?n sh)
      (flooded ?so (flood 2000) (3936 + 64) 0 0) = Some ([], with_permits ?n sh, flooded ?so (flood 2000) 3936 (0 + 64) 0)"
    by (rule flood_answers_many [OF alloc so(1-4)])
      (simp_all add: MAX_LEGACY_BUFFERED_REQUEST_BYTES_def RPC_RECORD_LIMITS_def MAX_QUEUED_REPLIES_def)
  have 3: "socket_run checks try_alloc (concat (map wait_round [0..<32])) (with_permits ?n sh)
      (flooded ?so (flood 2000) 3936 (0 + 64) 0) = Some ([], with_permits 0 sh, flooded ?so (flood 2000) 3904 64 32)"
    using flood_waits_many [OF alloc so(1-3), of 32 checks 0 sh "flood 2000" 3904 64] n
    by (simp add: MAX_IN_FLIGHT_MESSAGES_def)
  obtain so' where 4: "socket_run checks try_alloc (replicate 4 Reader_Takes @ [Pump_Reads 128000, Pump_Writes 6148])
      (with_permits 0 sh) (flooded ?so (flood 2000) 3904 64 32) = Some ([], with_permits 0 sh, so')" "stalled try_alloc so'"
    using flood_blocks [OF alloc so] by blast
  from socket_run_append [OF 1 socket_run_append [OF 2 socket_run_append [OF 3 4(1)]]] 4(2) show ?thesis
    unfolding flood_schedule_def by auto
qed

text \<open>One record of the flood, answered and delivered.\<close>

lemma flood_answered:
  assumes alloc: "alloc_ok try_alloc RPC_RECORD_LIMITS" and socket: "progressive socket" "wr_out socket = []"
  shows "\<exists>actions so. socket_run checks try_alloc actions (with_permits MAX_LEGACY_BUFFERED_REQUEST_BYTES sh)
      (socket_new ctx socket) = Some ([], with_permits MAX_LEGACY_BUFFERED_REQUEST_BYTES sh, so) \<and>
    wr_out (so_socket so) = fragments_bytes [rpc_msg_wire (rpc_vers_mismatch 7)] \<and> progressive (so_socket so)"
proof -
  let ?so = "socket_new ctx socket" and ?sh = "with_permits MAX_LEGACY_BUFFERED_REQUEST_BYTES sh"
    and ?msg = "rpc_msg_wire (rpc_vers_mismatch 7)"
  have so: "so_reading ?so" "so_partial ?so = []" "\<not> so_reserved ?so" "so_result ?so = None"
    by (simp_all add: socket_new_def)
  have 1: "socket_run checks try_alloc [Peer_Sends (flood (Suc 0)), Pump_Reads 64, Pump_Writes 64] ?sh ?so =
      Some ([], ?sh, flooded ?so [] (Suc 0) 0 0)"
    by (simp add: flooded_def socket_new_def alone_def pump_reads_def pump_writes_def selecting_def PUMP_BUFFER_def
        PIPE_CAPACITY_def)
  have 2: "socket_run checks try_alloc answer_round ?sh (flooded ?so [] (Suc 0) 0 0) = Some ([], ?sh, flooded ?so [] 0 (Suc 0) 0)"
    by (rule flood_answers [OF alloc so])
      (simp_all add: MAX_LEGACY_BUFFERED_REQUEST_BYTES_def RPC_RECORD_LIMITS_def MAX_QUEUED_REPLIES_def)
  have len: "length ?msg < 2 ^ 31"
    by (simp add: rpc_msg_wire_def rpc_vers_mismatch_def mismatch_info_wire_def mismatch_info_default_def)
  obtain r w where sent: "write_fragment ?msg socket = (r, w)" by fastforce
  note wrote = wrote_write_fragment [OF len, of socket, unfolded sent, simplified]
  have w: "wr_out w = fragments_bytes [?msg]" "progressive w" and r: "r = Inr ()"
    using wrote socket progressive_schedule [of w socket]
    by (auto simp: wrote_def split: sum.splits LegacyError.splits)
  have 3: "socket_run checks try_alloc [Pump_Replies] ?sh (flooded ?so [] 0 (Suc 0) 0) =
      Some ([], ?sh, (flooded ?so [] 0 0 0)\<lparr>so_socket := w\<rparr>)"
    using sent r by (simp add: flooded_def socket_new_def alone_def pump_replies_def selecting_def flood_answer_def)
  show ?thesis
    by (rule exI, rule exI, rule conjI, rule socket_run_append [OF 1 socket_run_append [OF 2 3], unfolded append_Nil])
      (use w in simp)
qed

section \<open>A stalled listener stays stalled\<close>

lemma stalled_step:
  assumes "socket_step checks try_alloc action sh so = Some (executions, sh', so')" and "stalled try_alloc so"
    and "sh_request_buffers sh = \<lparr>sem_permits = 0, sem_closed = False\<rparr>" and "action \<noteq> Reader_Times_Out"
  shows "executions = [] \<and> stalled try_alloc so' \<and> sh' = sh"
proof -
  have tasks: "waits_for_channel (so_tasks so ! i)" if "i < length (so_tasks so)" for i
    using assms(2) that by (simp add: stalled_def list_all_length)
  have replying: "\<exists>answer. so_tasks so ! i = Replying (Some answer)" if "i < length (so_tasks so)" for i
    using tasks [OF that] by (cases "so_tasks so ! i" rule: waits_for_channel.cases) auto
  show ?thesis
    using assms replying
    by (cases action)
      (force simp: stalled_def selecting_def alone_def quiet_def pump_reads_def pump_eof_def pump_fails_def pump_writes_def
        pump_broken_def pump_replies_def reader_takes_def reader_reserves_def reader_spawns_def reader_fails_def
        task_starts_def task_runs_def task_ends_def acquire_many_def needs_more_def record_so_far_def
        RPC_RECORD_LIMITS_def
        split: if_splits option.splits sum.splits)+
qed

lemma idle_step:
  assumes "socket_step checks try_alloc action sh so = Some (executions, sh', so')" and "charge so = 0"
    and "sh_request_buffers sh = \<lparr>sem_permits = 0, sem_closed = False\<rparr>"
  shows "executions = [] \<and> charge so' = 0 \<and> sh_request_buffers sh' = sh_request_buffers sh"
  using assms
  by (cases action)
    (auto simp: charge_def alone_def quiet_def pump_reads_def pump_eof_def pump_fails_def pump_writes_def
      pump_broken_def reader_takes_def reader_reserves_def reader_spawns_def reader_fails_def reader_times_out_def
      reader_stop_def task_starts_def task_runs_def task_ends_def acquire_many_def RPC_RECORD_LIMITS_def
      dest: pump_replies_kept split: if_splits option.splits sum.splits list.splits)

lemma listener_stalled_step:
  assumes "listener_step checks try_alloc action ls = Some (executions, ls')" and "listener_stalled try_alloc i ls"
    and "action \<noteq> Socket i Reader_Times_Out"
  shows "executions = [] \<and> listener_stalled try_alloc i ls'"
proof (cases action)
  case (Socket k act)
  with assms(1) obtain sh so where k: "k < length (ls_sockets ls)"
    and act: "socket_step checks try_alloc act (ls_shared ls) (ls_sockets ls ! k) = Some (executions, sh, so)"
    and ls': "ls' = ls\<lparr>ls_shared := sh, ls_sockets := (ls_sockets ls)[k := so]\<rparr>"
    by (auto split: if_splits option.splits)
  show ?thesis
  proof (cases "k = i")
    case True
    with stalled_step [OF act] assms Socket show ?thesis
      by (auto simp: listener_stalled_def ls' nth_list_update)
  next
    case False
    with idle_step [OF act] assms k show ?thesis
      by (auto simp: listener_stalled_def ls' nth_list_update)
  qed
next
  case (Accepts_Peer peer_addr socket)
  with assms show ?thesis
    by (auto simp: listener_stalled_def nth_append socket_new_def charge_def less_Suc_eq split: if_splits)
qed (use assms in \<open>auto simp: listener_stalled_def split: if_splits\<close>)

lemma listener_stalled_run:
  "listener_run checks try_alloc actions ls = Some (executions, ls') \<Longrightarrow> listener_stalled try_alloc i ls \<Longrightarrow>
   Socket i Reader_Times_Out \<notin> set actions \<Longrightarrow> executions = [] \<and> listener_stalled try_alloc i ls'"
proof (induction actions arbitrary: ls executions)
  case (Cons action actions)
  from Cons.prems(1) obtain ex1 ls1 ex2 where "listener_step checks try_alloc action ls = Some (ex1, ls1)"
    "listener_run checks try_alloc actions ls1 = Some (ex2, ls')" "executions = ex1 @ ex2"
    by (auto split: option.splits)
  with Cons.IH listener_stalled_step Cons.prems(2,3) show ?case by fastforce
qed simp

lemma listener_run_append:
  "listener_run checks try_alloc a ls = Some (ex1, ls1) \<Longrightarrow> listener_run checks try_alloc b ls1 = Some (ex2, ls2) \<Longrightarrow>
     listener_run checks try_alloc (a @ b) ls = Some (ex1 @ ex2, ls2)"
  by (induction a arbitrary: ls ex1) (fastforce split: option.splits)+

text \<open>The sample call twice on one connection: it is executed once.\<close>

lemma sample_record_begin:
  "rpc_begin ctx now (handler_state sh sample_record) tracker =
     (let (retransmission, tracker) = is_retransmission now 7 (ctx_client_addr ctx) tracker in
      if retransmission then (Answered (Inr False), handler_state sh [], tracker)
      else (Execute 7 (sample_call 0) ctx, handler_state sh [], tracker))"
proof -
  have "rpc_msg_deserialize sample_record = Inr (\<lparr>rm_xid = 7, rm_body = CALL (sample_call 0)\<rparr>, [])"
    using x_rpc_msg.de_wire [of "\<lparr>rm_xid = 7, rm_body = CALL (sample_call 0)\<rparr>" "[]"]
    by (simp add: sample_record_def rpc_msg_ok_def call_body_ok_def opaque_auth_ok_def sample_call_def
        opaque_auth_default_def)
  moreover have "call_context (sample_call 0) ctx = Inr ctx"
    by (simp add: call_context_def sample_call_def opaque_auth_default_def)
  moreover have "cb_rpcvers (sample_call 0) = 2" by (simp add: sample_call_def)
  ultimately show ?thesis by (simp add: rpc_begin_def h_read_def handler_state_def split_beta)
qed

lemma sample_twice:
  assumes "sh_tracker sh = tracker_new retention" and "0 < retention"
  shows "\<exists>sh' so'. socket_run checks Some
      ([Peer_Sends (fragments_bytes [sample_record] @ fragments_bytes [sample_record]), Pump_Reads 88, Pump_Writes 88] @
       read_actions 40 @ read_actions 40 @ [Task_Starts 0, Task_Starts 1])
      (with_permits MAX_LEGACY_BUFFERED_REQUEST_BYTES sh) (socket_new ctx socket) =
    Some ([(sh_clock sh, ctx_client_addr ctx, 7)], sh', so')"
proof -
  let ?so = "socket_new ctx socket" and ?n = "MAX_LEGACY_BUFFERED_REQUEST_BYTES" and ?m = "max_record_size RPC_RECORD_LIMITS"
  let ?b = "fragments_bytes [sample_record]"
  have len: "length sample_record = 40"
    by (simp add: sample_record_def sample_call_def rpc_msg_wire_def call_body_wire_def opaque_auth_wire_def
        opaque_auth_default_def opaque_bytes_def xdr_padding_def)
  have fits: "length sample_record \<le> max_fragment_size RPC_RECORD_LIMITS" by (simp add: len RPC_RECORD_LIMITS_def)
  have alloc: "alloc_ok Some RPC_RECORD_LIMITS" by (simp add: alloc_ok_def)
  have 1: "socket_run checks Some [Peer_Sends (?b @ ?b), Pump_Reads 88, Pump_Writes 88] (with_permits ?n sh) ?so =
      Some ([], with_permits ?n sh, ?so\<lparr>so_pipe := ?b @ ?b\<rparr>)"
    by (simp add: len alone_def pump_reads_def pump_writes_def selecting_def socket_new_def PUMP_BUFFER_def PIPE_CAPACITY_def)
  have 2: "socket_run checks Some (read_actions 40) (with_permits ?n sh) (?so\<lparr>so_pipe := ?b @ ?b\<rparr>) =
      Some ([], with_permits (?n - ?m) sh, ?so\<lparr>so_pipe := ?b, so_tasks := [Spawned sample_record]\<rparr>)"
    using socket_reads_record [OF alloc fits, of "?so\<lparr>so_pipe := ?b @ ?b\<rparr>" ?b ?n checks sh]
    by (simp add: len socket_new_def MAX_IN_FLIGHT_MESSAGES_def MAX_LEGACY_BUFFERED_REQUEST_BYTES_def RPC_RECORD_LIMITS_def)
  have 3: "socket_run checks Some (read_actions 40) (with_permits (?n - ?m) sh)
      (?so\<lparr>so_pipe := ?b, so_tasks := [Spawned sample_record]\<rparr>) =
      Some ([], with_permits (?n - ?m - ?m) sh, ?so\<lparr>so_pipe := [], so_tasks := [Spawned sample_record, Spawned sample_record]\<rparr>)"
    using socket_reads_record [OF alloc fits, of "?so\<lparr>so_pipe := ?b, so_tasks := [Spawned sample_record]\<rparr>" "[]" "?n - ?m" checks sh]
    by (simp add: len socket_new_def MAX_IN_FLIGHT_MESSAGES_def MAX_LEGACY_BUFFERED_REQUEST_BYTES_def RPC_RECORD_LIMITS_def)
  obtain tracker1 where first: "is_retransmission (sh_clock sh) 7 (ctx_client_addr ctx) (tracker_new retention) = (False, tracker1)"
    and again: "fst (is_retransmission (sh_clock sh) 7 (ctx_client_addr ctx) tracker1)"
    by (simp add: is_retransmission_def tracker_new_def housekeeping_def)
  obtain tracker2 where second: "is_retransmission (sh_clock sh) 7 (ctx_client_addr ctx) tracker1 = (True, tracker2)"
    using again by (cases "is_retransmission (sh_clock sh) 7 (ctx_client_addr ctx) tracker1") auto
  have 4: "\<exists>sh' so'. socket_run checks Some [Task_Starts 0, Task_Starts 1] (with_permits (?n - ?m - ?m) sh)
      (?so\<lparr>so_pipe := [], so_tasks := [Spawned sample_record, Spawned sample_record]\<rparr>) =
      Some ([(sh_clock sh, ctx_client_addr ctx, 7)], sh', so')"
    using assms first second
    by (simp add: task_starts_def sample_record_begin socket_new_def with_permits_def)
  from 4 socket_run_append [OF 1 socket_run_append [OF 2 socket_run_append [OF 3]]] show ?thesis by fastforce
qed

text \<open>The listener of the concrete runs, on the operating system's word that every address is free.\<close>

lemma sample_listener:
  "\<exists>listener. bind_listener (\<lambda>_. Inr 12000) (str_of ''h:0'') arcfs = Inr listener \<and> tl_arcfs listener = arcfs \<and>
     tl_transaction_tracker listener = tracker_new RETENTION_SECONDS \<and> tl_connections listener = MAX_LEGACY_CONNECTIONS \<and>
     tl_request_buffers listener = \<lparr>sem_permits = MAX_LEGACY_BUFFERED_REQUEST_BYTES, sem_closed = False\<rparr>"
proof -
  have "split_once 58 (str_of ''h:0'') = Some ([104], [48])" and "parse_u16 [48] = Some 0"
    by code_simp+
  then show ?thesis by (simp add: bind_listener_def bind_internal_def str_of_def Let_def)
qed

text \<open>A listener after it has accepted its first peer.\<close>

lemma first_peer:
  assumes "tl_connections listener = MAX_LEGACY_CONNECTIONS"
    and "tl_request_buffers listener = \<lparr>sem_permits = MAX_LEGACY_BUFFERED_REQUEST_BYTES, sem_closed = False\<rparr>"
    and "socket_run checks try_alloc actions
      (with_permits MAX_LEGACY_BUFFERED_REQUEST_BYTES (ls_shared (listener_start listener fs)))
      (socket_new (connection_context listener peer_addr) socket) = Some (executions, sh1, so)"
  shows "listener_run checks try_alloc (Accepts_Peer peer_addr socket # map (Socket 0) actions) (listener_start listener fs) =
    Some (executions, (listener_start listener fs)\<lparr>ls_shared := sh1, ls_sockets := [so]\<rparr>)"
proof -
  let ?ls = "(listener_start listener fs)\<lparr>ls_sockets := [socket_new (connection_context listener peer_addr) socket]\<rparr>"
  have "with_permits MAX_LEGACY_BUFFERED_REQUEST_BYTES (ls_shared ?ls) = ls_shared ?ls"
    by (simp add: with_permits_def listener_start_def assms(2))
  with assms(3) have "socket_run checks try_alloc actions (ls_shared ?ls) (ls_sockets ?ls ! 0) =
      Some (executions, sh1, so)"
    by (simp add: listener_start_def)
  from listener_run_socket [OF this] show ?thesis
    by (simp add: listener_start_def assms(1) MAX_LEGACY_CONNECTIONS_def)
qed

section \<open>Properties\<close>

text \<open>
  C16: resources of the listener are bounded, however its tasks are scheduled: a connection
  buffers at most 256000 bytes in its pipe and 128000 in its pump and queues at most 64 replies,
  at most 1024 connections hold a permit, and at most 32 messages of all connections together are
  in flight, because each holds its share of the byte budget.  The limit of 64 messages in flight
  per connection is never reached.
\<close>

theorem listener_bounds:
  assumes "bind_listener os ipstr arcfs = Inr listener"
    and "listener_run checks try_alloc actions (listener_start listener fs) = Some (executions, ls)"
  shows "(\<forall>so \<in> set (ls_sockets ls). length (so_pipe so) \<le> 256000 \<and> length (so_held so) \<le> 128000 \<and>
      length (so_replies so) \<le> 64) \<and>
    length (filter holds_permit (ls_sockets ls)) \<le> 1024 \<and>
    (\<Sum>so\<leftarrow>ls_sockets ls. length (so_tasks so)) \<le> 32"
proof -
  have inv: "listener_inv ls" by (rule listener_run_inv [OF assms(2) listener_start_inv [OF assms(1)]])
  have "(\<Sum>so\<leftarrow>ls_sockets ls. length (so_tasks so)) \<le> sum_list (map charge (ls_sockets ls))"
    by (rule sum_list_mono) (simp add: charge_def)
  moreover have "max_record_size RPC_RECORD_LIMITS * sum_list (map charge (ls_sockets ls)) \<le> MAX_LEGACY_BUFFERED_REQUEST_BYTES"
    using inv by (auto simp: listener_inv_def)
  then have "sum_list (map charge (ls_sockets ls)) \<le> 32"
    by (simp add: RPC_RECORD_LIMITS_def MAX_LEGACY_BUFFERED_REQUEST_BYTES_def)
  ultimately show ?thesis
    using inv by (auto simp: listener_inv_def socket_inv_def PIPE_CAPACITY_def PUMP_BUFFER_def
        MAX_QUEUED_REPLIES_def MAX_LEGACY_CONNECTIONS_def)
qed

theorem listener_bounds_witness:
  "\<exists>listener executions ls. bind_listener (\<lambda>_. Inr 12000) (str_of ''h:0'') (sample_fs VfsReadWrite) = Inr listener \<and>
     listener_run True Some [Accepts_Peer ''c'' (sample_writer True), Socket 0 (Peer_Sends [1, 2, 3]), Socket 0 (Pump_Reads 2)]
       (listener_start listener 0) = Some (executions, ls) \<and>
     length (filter holds_permit (ls_sockets ls)) \<le> 1024 \<and> length (ls_sockets ls) = 1"
proof -
  obtain listener where listener: "bind_listener (\<lambda>_. Inr 12000) (str_of ''h:0'') (sample_fs VfsReadWrite) = Inr listener"
    "tl_connections listener = MAX_LEGACY_CONNECTIONS"
    using sample_listener by blast
  obtain executions ls where run: "listener_run True Some
      [Accepts_Peer ''c'' (sample_writer True), Socket 0 (Peer_Sends [1, 2, 3]), Socket 0 (Pump_Reads 2)]
      (listener_start listener 0) = Some (executions, ls)" "length (ls_sockets ls) = 1"
    using listener(2)
    by (simp add: listener_start_def MAX_LEGACY_CONNECTIONS_def alone_def pump_reads_def selecting_def socket_new_def
        PUMP_BUFFER_def)
  from listener_bounds [OF listener(1) run(1)] listener(1) run show ?thesis by blast
qed

text \<open>
  C14: at most once, for the whole listener.  Over all connections and all interleavings of their
  tasks, two executions of the same transaction of the same client address start at least the
  retention period of 60 seconds apart.
\<close>

theorem listener_executes_once:
  assumes "bind_listener os ipstr arcfs = Inr listener"
    and "listener_run checks try_alloc actions (listener_start listener fs) = Some (executions, ls)"
  shows "sorted_wrt (\<lambda>(t1, k1) (t2, k2). k1 = k2 \<longrightarrow> t1 + 60 \<le> t2) executions"
proof -
  have "sh_tracker (ls_shared (listener_start listener fs)) = tracker_new RETENTION_SECONDS"
    using bind_listener_internal [OF assms(1)] bind_internal_fields by (fastforce simp: listener_start_def)
  with listener_run_tracked [OF assms(2)] obtain calls where "sorted (map fst calls)"
    "executions = executed calls (tracker_new RETENTION_SECONDS)" by auto
  with executed_apart [OF tracker_inv_new, of calls RETENTION_SECONDS] show ?thesis
    by (simp add: tracker_new_def RETENTION_SECONDS_def)
qed

theorem listener_executes_once_witness:
  "\<exists>listener actions ls. bind_listener (\<lambda>_. Inr 12000) (str_of ''h:0'') (sample_fs VfsReadWrite) = Inr listener \<and>
     listener_run False Some actions (listener_start listener 0) = Some ([(0, ''c'', 7)], ls) \<and>
     sorted_wrt (\<lambda>(t1, k1) (t2, k2). k1 = k2 \<longrightarrow> t1 + 60 \<le> t2) [(0 :: nat, ''c'', 7 :: u32)]"
proof -
  obtain listener where listener: "bind_listener (\<lambda>_. Inr 12000) (str_of ''h:0'') (sample_fs VfsReadWrite) = Inr listener"
    "tl_transaction_tracker listener = tracker_new RETENTION_SECONDS" "tl_connections listener = MAX_LEGACY_CONNECTIONS"
    "tl_request_buffers listener = \<lparr>sem_permits = MAX_LEGACY_BUFFERED_REQUEST_BYTES, sem_closed = False\<rparr>"
    using sample_listener by blast
  have fields: "sh_tracker (ls_shared (listener_start listener 0)) = tracker_new RETENTION_SECONDS"
    "sh_clock (ls_shared (listener_start listener (0 :: nat))) = 0" "ctx_client_addr (connection_context listener ''c'') = ''c''"
    "0 < RETENTION_SECONDS"
    using listener(2) by (simp_all add: listener_start_def connection_context_def RETENTION_SECONDS_def)
  obtain actions sh so where "socket_run False Some actions
      (with_permits MAX_LEGACY_BUFFERED_REQUEST_BYTES (ls_shared (listener_start listener 0)))
      (socket_new (connection_context listener ''c'') (sample_writer True)) = Some ([(0, ''c'', 7)], sh, so)"
    using sample_twice [OF fields(1,4), of False "connection_context listener ''c''" "sample_writer True"]
    unfolding fields(2,3) by blast
  note run = first_peer [OF listener(3,4) this]
  from run listener_executes_once [OF listener(1) run] listener(1) show ?thesis by blast
qed





end
