(* ===== verification/Backend_Contract.thy ===== *)
theory Backend_Contract
  imports Vfs_Types
begin

text \<open>
  What a client of the filesystem contract of \<^verbatim>\<open>src/vfs/mod.rs\<close> does with a backend, whatever the backend
  is: it calls its methods in any order, and it pages through directories.  The two locales are the
  interfaces under which a backend keeps an invariant in every reachable state and is listed
  completely; the backends of the examples are instances.
\<close>

section \<open>Calls\<close>

text \<open>The values of \<open>NfsName\<close>: its field is private, and its constructor checks it.\<close>

definition valid_name :: "NfsName \<Rightarrow> bool" where
  "valid_name name \<longleftrightarrow> nfs_name_new (name_bytes name) = Inr name"

text \<open>One call of a method, whatever its arguments and its outcome.\<close>

inductive vfs_step :: "'s Vfs \<Rightarrow> 's \<Rightarrow> 's \<Rightarrow> bool" for vfs where
  "vfs_step vfs s (snd (vfs_getattr vfs ctx object s))"
| "valid_name name \<Longrightarrow> vfs_step vfs s (snd (vfs_lookup vfs ctx parent name s))"
| "vfs_step vfs s (snd (vfs_access vfs ctx object requested s))"
| "vfs_step vfs s (snd (vfs_setattr vfs ctx object sa guard s))"
| "vfs_step vfs s (snd (vfs_readlink vfs ctx object s))"
| "vfs_step vfs s (snd (vfs_read_bytes vfs ctx object offset count s))"
| "vfs_step vfs s (snd (vfs_write vfs ctx object offset data stability s))"
| "valid_name name \<Longrightarrow> vfs_step vfs s (snd (vfs_create vfs ctx parent name sa mode s))"
| "valid_name name \<Longrightarrow> vfs_step vfs s (snd (vfs_mkdir vfs ctx parent name sa s))"
| "valid_name name \<Longrightarrow> vfs_step vfs s (snd (vfs_symlink vfs ctx parent name target sa s))"
| "valid_name name \<Longrightarrow> vfs_step vfs s (snd (vfs_mknod vfs ctx parent name node sa s))"
| "valid_name name \<Longrightarrow> vfs_step vfs s (snd (vfs_remove vfs ctx parent name s))"
| "valid_name name \<Longrightarrow> vfs_step vfs s (snd (vfs_rmdir vfs ctx parent name s))"
| "valid_name name \<Longrightarrow> valid_name name' \<Longrightarrow> vfs_step vfs s (snd (vfs_rename vfs ctx parent name parent' name' s))"
| "valid_name name \<Longrightarrow> vfs_step vfs s (snd (vfs_link vfs ctx object parent name s))"
| "vfs_step vfs s (snd (vfs_readdir vfs ctx object cookie verifier hint s))"
| "vfs_step vfs s (snd (vfs_fsstat vfs ctx object s))"
| "vfs_step vfs s (snd (vfs_fsinfo vfs ctx object s))"
| "vfs_step vfs s (snd (vfs_pathconf vfs ctx object s))"
| "vfs_step vfs s (snd (vfs_commit vfs ctx object offset count s))"

text \<open>Sequences of calls all of whose states are possible, that is, fit into memory.\<close>

inductive vfs_reaches :: "'s Vfs \<Rightarrow> ('s \<Rightarrow> bool) \<Rightarrow> 's \<Rightarrow> 's \<Rightarrow> bool" for vfs possible s where
  reaches_start: "vfs_reaches vfs possible s s"
| reaches_step: "vfs_reaches vfs possible s t \<Longrightarrow> vfs_step vfs t u \<Longrightarrow> possible u \<Longrightarrow> vfs_reaches vfs possible s u"

section \<open>Listing a directory\<close>

text \<open>
  A client pages through a directory: it starts with the cookie and the verifier zero and continues
  with the cookie of the last entry and the verifier of the page, until a page is the last one.  It
  may ask for another number of entries each time; without the number for another page it gives up.
\<close>

fun list_pages ::
  "(u64 \<Rightarrow> bytes \<Rightarrow> usize \<Rightarrow> ('s, ReadDirectoryPage) vfs_op) \<Rightarrow> u64 \<Rightarrow> bytes \<Rightarrow> usize list \<Rightarrow>
   's \<Rightarrow> (DirectoryEntry list \<times> 's) option" where
  "list_pages readdir cookie verifier [] s = None"
| "list_pages readdir cookie verifier (hint # hints) s =
     (case readdir cookie verifier hint s of
        (Inl _, s) \<Rightarrow> None
      | (Inr page, s) \<Rightarrow>
          if page_eof page then Some (page_entries page, s)
          else if page_entries page = [] then None
          else
            map_option (\<lambda>(later, s). (page_entries page @ later, s))
              (list_pages readdir (de_cookie (last (page_entries page))) (page_verifier page) hints s))"

section \<open>Identifiers as numbers\<close>

lemma unat_of_nat64: "n < usize_bound \<Longrightarrow> unat (of_nat n :: u64) = n"
  by (simp add: unat_of_nat take_bit_nat_eq_self)

lemma unat_succ64: "Suc (unat i) < usize_bound \<Longrightarrow> unat (i + 1 :: u64) = Suc (unat i)"
  using unat_of_nat64 [of "Suc (unat i)"] by (simp add: add.commute)

section \<open>Invariants of a backend\<close>

locale backend_invariant =
  fixes vfs :: "'s Vfs" and possible inv :: "'s \<Rightarrow> bool"
  assumes step_inv: "inv s \<Longrightarrow> vfs_step vfs s t \<Longrightarrow> possible t \<Longrightarrow> inv t"
begin

lemma reaches_inv: "vfs_reaches vfs possible s t \<Longrightarrow> inv s \<Longrightarrow> inv t"
  by (induction rule: vfs_reaches.induct) (auto intro: step_inv)

end

section \<open>Complete listings\<close>

text \<open>
  The contract of paging: a backend whose directory has the listing \<open>listing s\<close>, of which a page
  shows the views of a part, numbers the entries by their cookies and keeps the listing while it is
  read.
\<close>

locale paged_directory =
  fixes readdir :: "u64 \<Rightarrow> bytes \<Rightarrow> usize \<Rightarrow> ('s, ReadDirectoryPage) vfs_op"
    and view :: "DirectoryEntry \<Rightarrow> 'v"
    and listing :: "'s \<Rightarrow> 'v list"
    and verifier :: "'s \<Rightarrow> bytes"
    and good :: "'s \<Rightarrow> bool"
  assumes page:
      "good s \<Longrightarrow> cookie = 0 \<or> v = verifier s \<Longrightarrow>
       \<exists>p t. readdir cookie v hint s = (Inr p, t) \<and> page_verifier p = verifier s \<and>
         map view (page_entries p) = take (max hint 1) (drop (unat cookie) (listing s)) \<and>
         (page_eof p \<longleftrightarrow> length (listing s) \<le> unat cookie + length (page_entries p)) \<and>
         (\<forall>i<length (page_entries p). unat (de_cookie (page_entries p ! i)) = unat cookie + Suc i) \<and>
         good t \<and> listing t = listing s \<and> verifier t = verifier s"
begin

lemma list_pages_complete:
  assumes "good s" and "cookie = 0 \<or> v = verifier s"
    and "length (listing s) \<le> unat cookie + length hints" and "hints \<noteq> []"
  shows "\<exists>entries t. list_pages readdir cookie v hints s = Some (entries, t) \<and>
    map view entries = drop (unat cookie) (listing s) \<and> good t \<and> listing t = listing s"
  using assms
proof (induction hints arbitrary: cookie v s)
  case (Cons hint hints)
  from page [OF Cons.prems(1,2)] obtain p t where
    run: "readdir cookie v hint s = (Inr p, t)" and
    p: "page_verifier p = verifier s"
      "map view (page_entries p) = take (max hint 1) (drop (unat cookie) (listing s))"
      "page_eof p \<longleftrightarrow> length (listing s) \<le> unat cookie + length (page_entries p)"
      "\<forall>i<length (page_entries p). unat (de_cookie (page_entries p ! i)) = unat cookie + Suc i" and
    t: "good t" "listing t = listing s" "verifier t = verifier s" by blast
  have len: "length (page_entries p) = min (max hint 1) (length (listing s) - unat cookie)"
    using arg_cong [OF p(2), of length] by simp
  show ?case
  proof (cases "page_eof p")
    case True
    with p(3) len have "length (listing s) - unat cookie \<le> max hint 1" by simp
    with True run p(2) t show ?thesis by simp
  next
    case False
    with p(3) have more: "unat cookie + length (page_entries p) < length (listing s)" by simp
    with len have ne: "page_entries p \<noteq> []" by auto
    define succ where "succ = de_cookie (last (page_entries p))"
    have nxt: "unat succ = unat cookie + length (page_entries p)"
      using p(4) ne unfolding succ_def by (simp add: last_conv_nth)
    have rest: "length (listing t) \<le> unat succ + length hints" "hints \<noteq> []"
      using more nxt ne Cons.prems(3) t(2) by (cases "page_entries p"; auto)+
    from Cons.IH [OF t(1) _ rest, of "page_verifier p"] p(1) t(3) obtain entries u where
      later: "list_pages readdir succ (page_verifier p) hints t = Some (entries, u)"
        "map view entries = drop (unat succ) (listing t)" "good u" "listing u = listing t" by auto
    have "map view (page_entries p) = take (length (page_entries p)) (drop (unat cookie) (listing s))"
      using p(2) len more by (simp add: min_def split: if_splits)
    moreover have "map view entries = drop (length (page_entries p)) (drop (unat cookie) (listing s))"
      using later(2) nxt t(2) by (simp add: add.commute)
    ultimately have "map view (page_entries p @ entries) = drop (unat cookie) (listing s)"
      by (metis append_take_drop_id map_append)
    with False ne run later t(2) show ?thesis by (simp add: succ_def)
  qed
qed simp

end

end
