(* ===== verification/Demo_Fs.thy ===== *)
theory Demo_Fs
  imports Backend_Contract Xdr_Codec
begin

text \<open>
  The demonstration backend, \<^verbatim>\<open>examples/demo.rs\<close>: a file system in memory whose objects are the
  positions of a vector, as an instance of the filesystem contract.

  The vector behind the mutex is the state; an operation holds the lock from its first access to
  its end.  The clock is part of the state: a function from the number of a reading to the time it
  gave, and the number of readings so far.  The growth of a vector is taken to succeed.
\<close>

section \<open>State\<close>

definition ROOT_ID :: u64 where "ROOT_ID = 1"
definition GENERATION :: u64 where "GENERATION = 1"

text \<open>The bytes of \<^verbatim>\<open>DEMODIR1\<close>.\<close>

definition READDIR_VERIFIER :: bytes where
  "READDIR_VERIFIER = [68, 69, 77, 79, 68, 73, 82, 49]"

datatype Contents = File bytes | Directory "u64 list"

record DemoEntry =
  en_id :: u64
  en_attributes :: FileAttributes
  en_name :: bytes
  en_parent :: u64
  en_contents :: Contents
  en_exclusive_verifier :: "bytes option"

record DemoFs =
  df_entries :: "DemoEntry list"
  df_clock :: "nat \<Rightarrow> NfsTime"
  df_readings :: nat

definition demo_now :: "DemoFs \<Rightarrow> NfsTime \<times> DemoFs" where
  "demo_now s = (df_clock s (df_readings s), s\<lparr>df_readings := Suc (df_readings s)\<rparr>)"

definition make_file :: "bytes \<Rightarrow> u64 \<Rightarrow> u64 \<Rightarrow> bytes \<Rightarrow> NfsTime \<Rightarrow> DemoEntry" where
  "make_file name i parent contents time =
     \<lparr>en_id = i,
      en_attributes =
        \<lparr>fa_file_type = FT_Regular, fa_mode = 493, fa_links = 1, fa_uid = 507, fa_gid = 507,
         fa_size = of_nat (length contents), fa_used = of_nat (length contents), fa_device = None,
         fa_fs_id = 0, fa_file_id = i, fa_access_time = time, fa_modify_time = time, fa_change_time = time\<rparr>,
      en_name = name, en_parent = parent, en_contents = File contents, en_exclusive_verifier = None\<rparr>"

definition make_directory :: "bytes \<Rightarrow> u64 \<Rightarrow> u64 \<Rightarrow> u64 list \<Rightarrow> NfsTime \<Rightarrow> DemoEntry" where
  "make_directory name i parent children time =
     \<lparr>en_id = i,
      en_attributes =
        \<lparr>fa_file_type = FT_Directory, fa_mode = 511, fa_links = 2, fa_uid = 507, fa_gid = 507,
         fa_size = 0, fa_used = 0, fa_device = None,
         fa_fs_id = 0, fa_file_id = i, fa_access_time = time, fa_modify_time = time, fa_change_time = time\<rparr>,
      en_name = name, en_parent = parent, en_contents = Directory children, en_exclusive_verifier = None\<rparr>"

text \<open>Byte strings of the source.\<close>

definition byte_string :: "string \<Rightarrow> bytes" where
  "byte_string s = map of_char s"

text \<open>The six entries of the default file system read the clock one after the other.\<close>

definition demo_default :: "(nat \<Rightarrow> NfsTime) \<Rightarrow> DemoFs" where
  "demo_default clock =
     \<lparr>df_entries =
        [make_file [] 0 0 [] (clock 0),
         make_directory (byte_string ''/'') ROOT_ID ROOT_ID [2, 3, 4] (clock 1),
         make_file (byte_string ''a.txt'') 2 ROOT_ID (byte_string ''hello world'' @ [10]) (clock 2),
         make_file (byte_string ''b.txt'') 3 ROOT_ID (byte_string ''Greetings to xet data'' @ [10]) (clock 3),
         make_directory (byte_string ''another_dir'') 4 ROOT_ID [5] (clock 4),
         make_file (byte_string ''thisworks.txt'') 5 4 (byte_string ''i hope'' @ [10]) (clock 5)],
      df_clock = clock, df_readings = 6\<rparr>"

section \<open>Helpers\<close>

definition demo_key :: "u64 \<Rightarrow> ObjectKey" where
  "demo_key i = \<lparr>obj_file_id = i, obj_generation = GENERATION\<rparr>"

definition demo_id :: "ObjectKey \<Rightarrow> NfsError + u64" where
  "demo_id object = (if obj_generation object = GENERATION then Inr (obj_file_id object) else Inl Err_Stale)"

definition demo_wcc :: "FileAttributes \<Rightarrow> WccAttributes" where
  "demo_wcc attributes =
     \<lparr>wcc_size = fa_size attributes, wcc_modify_time = fa_modify_time attributes,
      wcc_change_time = fa_change_time attributes\<rparr>"

definition demo_created :: "DemoEntry \<Rightarrow> CreatedObject" where
  "demo_created e = \<lparr>co_object = demo_key (en_id e), co_attributes = Some (en_attributes e)\<rparr>"

text \<open>\<open>entries.get(id as usize)\<close>.\<close>

definition entries_get :: "DemoEntry list \<Rightarrow> u64 \<Rightarrow> DemoEntry option" where
  "entries_get entries i = (if unat i < length entries then Some (entries ! unat i) else None)"

text \<open>The children of a directory that exist, and the first of them that has a name.\<close>

definition child_entries :: "DemoEntry list \<Rightarrow> u64 list \<Rightarrow> DemoEntry list" where
  "child_entries entries children = List.map_filter (entries_get entries) children"

definition find_child :: "DemoEntry list \<Rightarrow> u64 list \<Rightarrow> bytes \<Rightarrow> DemoEntry option" where
  "find_child entries children name = find (\<lambda>e. en_name e = name) (child_entries entries children)"

section \<open>Setting attributes\<close>

text \<open>
  The entry is changed in place, so that what was changed before an error stays changed.  The
  result is the outcome, the entry and the file system with the clock that was read.
\<close>

definition set_plain :: "SetAttributes \<Rightarrow> FileAttributes \<Rightarrow> FileAttributes" where
  "set_plain sa a =
     (let a = (case sa_mode sa of Some mode \<Rightarrow> a\<lparr>fa_mode := mode\<rparr> | None \<Rightarrow> a);
          a = (case sa_uid sa of Some uid \<Rightarrow> a\<lparr>fa_uid := uid\<rparr> | None \<Rightarrow> a) in
      case sa_gid sa of Some gid \<Rightarrow> a\<lparr>fa_gid := gid\<rparr> | None \<Rightarrow> a)"

definition set_size :: "u64 option \<Rightarrow> DemoEntry \<Rightarrow> (NfsError + unit) \<times> DemoEntry" where
  "set_size new_size e =
     (case new_size of
        None \<Rightarrow> (Inr (), e)
      | Some n \<Rightarrow>
          (case en_contents e of
             Directory _ \<Rightarrow> (Inl Err_Invalid, e)
           | File bs \<Rightarrow>
               (Inr (), e\<lparr>en_contents := File (vec_resize (unat n) bs),
                          en_attributes := (en_attributes e)\<lparr>fa_size := n, fa_used := n\<rparr>\<rparr>)))"

definition pick_time :: "SetTime option \<Rightarrow> NfsTime \<Rightarrow> DemoFs \<Rightarrow> NfsTime \<times> DemoFs" where
  "pick_time choice current s =
     (case choice of
        Some ServerTime \<Rightarrow> demo_now s
      | Some (ClientTime time) \<Rightarrow> (time, s)
      | None \<Rightarrow> (current, s))"

definition apply_attributes ::
  "DemoEntry \<Rightarrow> SetAttributes \<Rightarrow> DemoFs \<Rightarrow> (NfsError + unit) \<times> DemoEntry \<times> DemoFs" where
  "apply_attributes e sa s =
     (let e = e\<lparr>en_attributes := set_plain sa (en_attributes e)\<rparr> in
      case set_size (sa_size sa) e of
        (Inl err, e) \<Rightarrow> (Inl err, e, s)
      | (Inr _, e) \<Rightarrow>
          (let (access, s) = pick_time (sa_access_time sa) (fa_access_time (en_attributes e)) s;
               (modify, s) = pick_time (sa_modify_time sa) (fa_modify_time (en_attributes e)) s;
               (change, s) = demo_now s in
           (Inr (),
            e\<lparr>en_attributes := (en_attributes e)
               \<lparr>fa_access_time := access, fa_modify_time := modify, fa_change_time := change\<rparr>\<rparr>,
            s)))"

section \<open>Operations\<close>

definition demo_capabilities :: "DemoFs \<Rightarrow> VfsCapabilities" where
  "demo_capabilities s = CAPABILITIES_READ_WRITE
     \<lparr>cap_hard_links := False, cap_symbolic_links := False, cap_mknod := False\<rparr>"

definition demo_root :: "DemoFs \<Rightarrow> ObjectKey" where
  "demo_root s = demo_key ROOT_ID"

text \<open>The entry of an object.\<close>

definition demo_entry :: "DemoFs \<Rightarrow> ObjectKey \<Rightarrow> NfsError + DemoEntry" where
  "demo_entry s object = r_bind (demo_id object) (\<lambda>i. ok_or Err_Stale (entries_get (df_entries s) i))"

definition demo_getattr :: "RequestContext \<Rightarrow> ObjectKey \<Rightarrow> (DemoFs, FileAttributes) vfs_op" where
  "demo_getattr ctx object s = (r_bind (demo_entry s object) (\<lambda>e. Inr (en_attributes e)), s)"

definition demo_lookup :: "RequestContext \<Rightarrow> ObjectKey \<Rightarrow> NfsName \<Rightarrow> (DemoFs, CreatedObject) vfs_op" where
  "demo_lookup ctx parent name s =
     (r_bind (demo_entry s parent) (\<lambda>directory.
      case en_contents directory of
        File _ \<Rightarrow> Inl Err_NotDirectory
      | Directory children \<Rightarrow>
          if name_bytes name = byte_string ''.'' then Inr (demo_created directory)
          else if name_bytes name = byte_string ''..''
          then ok_or Err_Stale (map_option demo_created (entries_get (df_entries s) (en_parent directory)))
          else ok_or Err_NotFound (map_option demo_created (find_child (df_entries s) children (name_bytes name)))), s)"

definition demo_access :: "RequestContext \<Rightarrow> ObjectKey \<Rightarrow> u32 \<Rightarrow> (DemoFs, u32) vfs_op" where
  "demo_access ctx object requested s = (Inr requested, s)"

text \<open>The position of an object that exists.\<close>

definition put_entry :: "ObjectKey \<Rightarrow> DemoEntry \<Rightarrow> DemoFs \<Rightarrow> DemoFs" where
  "put_entry object e s = s\<lparr>df_entries := (df_entries s)[unat (obj_file_id object) := e]\<rparr>"

definition demo_setattr ::
  "RequestContext \<Rightarrow> ObjectKey \<Rightarrow> SetAttributes \<Rightarrow> NfsTime option \<Rightarrow> (DemoFs, unit MutationResult) vfs_op" where
  "demo_setattr ctx object sa guard s =
     (case demo_entry s object of
        Inl err \<Rightarrow> (Inl err, s)
      | Inr e \<Rightarrow>
          if (case guard of Some g \<Rightarrow> g \<noteq> fa_change_time (en_attributes e) | None \<Rightarrow> False)
          then (Inl Err_NotSynchronized, s)
          else
            let before = Some (demo_wcc (en_attributes e)) in
            case apply_attributes e sa s of
              (Inl err, e, s) \<Rightarrow> (Inl err, put_entry object e s)
            | (Inr _, e, s) \<Rightarrow>
                (Inr \<lparr>mr_value = (), mr_before = before, mr_after = Some (en_attributes e)\<rparr>, put_entry object e s))"

definition demo_read :: "RequestContext \<Rightarrow> ObjectKey \<Rightarrow> u64 \<Rightarrow> u32 \<Rightarrow> (DemoFs, VfsReadResult) vfs_op" where
  "demo_read ctx object offset count s =
     (r_bind (demo_entry s object) (\<lambda>e.
      case en_contents e of
        Directory _ \<Rightarrow> Inl Err_IsDirectory
      | File bs \<Rightarrow>
          let start = min (unat offset) (length bs);
              end_pos = min (saturating_add start (unat count)) (length bs) in
          Inr \<lparr>vr_data = take (end_pos - start) (drop start bs), vr_eof = (end_pos = length bs),
               vr_attributes = Some (en_attributes e)\<rparr>), s)"

definition copy_from_slice :: "nat \<Rightarrow> bytes \<Rightarrow> bytes \<Rightarrow> bytes" where
  "copy_from_slice start data bs = take start bs @ data @ drop (start + length data) bs"

definition demo_write ::
  "RequestContext \<Rightarrow> ObjectKey \<Rightarrow> u64 \<Rightarrow> bytes \<Rightarrow> WriteStability \<Rightarrow> (DemoFs, VfsWriteResult MutationResult) vfs_op" where
  "demo_write ctx object offset data requested s =
     (case demo_entry s object of
        Inl err \<Rightarrow> (Inl err, s)
      | Inr e \<Rightarrow>
          let before = Some (demo_wcc (en_attributes e)) in
          case en_contents e of
            Directory _ \<Rightarrow> (Inl Err_IsDirectory, s)
          | File bs \<Rightarrow>
              (case checked_add (unat offset) (length data) of
                 None \<Rightarrow> (Inl Err_FileTooLarge, s)
               | Some end_pos \<Rightarrow>
                   let bs = (if length bs < end_pos then vec_resize end_pos bs else bs);
                       bs = copy_from_slice (unat offset) data bs;
                       (time, s) = demo_now s;
                       e = e\<lparr>en_contents := File bs,
                             en_attributes := (en_attributes e)
                               \<lparr>fa_size := of_nat (length bs), fa_used := of_nat (length bs),
                                fa_modify_time := time, fa_change_time := time\<rparr>\<rparr> in
                   (Inr \<lparr>mr_value = \<lparr>vw_count = of_nat (length data), vw_committed = requested\<rparr>,
                         mr_before = before, mr_after = Some (en_attributes e)\<rparr>,
                    put_entry object e s)))"

text \<open>The second half of \<open>create\<close>: the name is not in the directory yet.\<close>

definition create_entry ::
  "ObjectKey \<Rightarrow> DemoEntry \<Rightarrow> u64 list \<Rightarrow> NfsName \<Rightarrow> SetAttributes \<Rightarrow> CreateMode \<Rightarrow>
   (DemoFs, CreatedObject MutationResult) vfs_op" where
  "create_entry parent directory children name sa mode s =
     (let before = Some (demo_wcc (en_attributes directory));
          i = of_nat (length (df_entries s));
          (time, s) = demo_now s;
          e = make_file (name_bytes name) i (obj_file_id parent) [] time;
          e = (case mode of Exclusive verifier \<Rightarrow> e\<lparr>en_exclusive_verifier := Some verifier\<rparr> | _ \<Rightarrow> e) in
      case apply_attributes e sa s of
        (Inl err, _, s) \<Rightarrow> (Inl err, s)
      | (Inr _, e, s) \<Rightarrow>
          let s = s\<lparr>df_entries := df_entries s @ [e]\<rparr>;
              (change, s) = demo_now s;
              directory = directory\<lparr>en_contents := Directory (children @ [i]),
                                    en_attributes := (en_attributes directory)\<lparr>fa_change_time := change\<rparr>\<rparr> in
          (Inr \<lparr>mr_value = demo_created e, mr_before = before, mr_after = Some (en_attributes directory)\<rparr>,
           put_entry parent directory s))"

definition demo_create ::
  "RequestContext \<Rightarrow> ObjectKey \<Rightarrow> NfsName \<Rightarrow> SetAttributes \<Rightarrow> CreateMode \<Rightarrow>
   (DemoFs, CreatedObject MutationResult) vfs_op" where
  "demo_create ctx parent name sa mode s =
     (case demo_entry s parent of
        Inl err \<Rightarrow> (Inl err, s)
      | Inr directory \<Rightarrow>
          (case en_contents directory of
             File _ \<Rightarrow> (Inl Err_NotDirectory, s)
           | Directory children \<Rightarrow>
               (case find_child (df_entries s) children (name_bytes name) of
                  Some existing \<Rightarrow>
                    let replayed_exclusive =
                          (case mode of
                             Exclusive verifier \<Rightarrow> en_exclusive_verifier existing = Some verifier
                           | _ \<Rightarrow> False) in
                    if mode = Unchecked \<or> replayed_exclusive
                    then (Inr \<lparr>mr_value = demo_created existing,
                               mr_before = Some (demo_wcc (en_attributes directory)),
                               mr_after = Some (en_attributes directory)\<rparr>, s)
                    else (Inl Err_Exists, s)
                | None \<Rightarrow> create_entry parent directory children name sa mode s)))"

text \<open>
  A name that was accepted is accepted again: the \<open>unwrap\<close> of the source is the constructor here,
  and the invariant below shows that it cannot fail.
\<close>

definition demo_directory_entry :: "DemoEntry list \<Rightarrow> nat \<times> u64 \<Rightarrow> DirectoryEntry option" where
  "demo_directory_entry entries child =
     map_option (\<lambda>e.
       \<lparr>de_object = demo_key (en_id e), de_file_id = en_id e, de_name = NfsName (en_name e),
        de_cookie = of_nat (fst child) + 1, de_attributes = Some (en_attributes e)\<rparr>)
       (entries_get entries (snd child))"

definition demo_readdir ::
  "RequestContext \<Rightarrow> ObjectKey \<Rightarrow> u64 \<Rightarrow> bytes \<Rightarrow> usize \<Rightarrow> (DemoFs, ReadDirectoryPage) vfs_op" where
  "demo_readdir ctx directory cookie verifier backend_hint s =
     (if cookie \<noteq> 0 \<and> verifier \<noteq> READDIR_VERIFIER then (Inl Err_BadCookie, s)
      else
        (r_bind (demo_entry s directory) (\<lambda>directory.
         case en_contents directory of
           File _ \<Rightarrow> Inl Err_NotDirectory
         | Directory children \<Rightarrow>
             let start = unat cookie;
                 page = List.map_filter (demo_directory_entry (df_entries s))
                          (take (max backend_hint 1) (drop start (enumerate 0 children))) in
             Inr \<lparr>page_verifier = READDIR_VERIFIER, page_entries = page,
                  page_eof = (length children \<le> saturating_add start (length page))\<rparr>), s))"

definition demo_fsstat :: "RequestContext \<Rightarrow> ObjectKey \<Rightarrow> (DemoFs, FsStat) vfs_op" where
  "demo_fsstat ctx object s =
     (Inr \<lparr>fs_total_bytes = 2 ^ 30, fs_free_bytes = 2 ^ 29, fs_available_bytes = 2 ^ 29,
           fs_total_files = 1000000, fs_free_files = 999000, fs_available_files = 999000,
           fs_invariant_seconds = 1\<rparr>, s)"

definition default_fs_info :: FsInfo where
  "default_fs_info =
     \<lparr>fi_max_read = 1024 * 1024, fi_preferred_read = 128 * 1024, fi_read_multiple = 4096,
      fi_max_write = 1024 * 1024, fi_preferred_write = 128 * 1024, fi_write_multiple = 4096,
      fi_preferred_readdir = 32 * 1024, fi_max_file_size = 128 * 1024 * 1024 * 1024,
      fi_time_granularity = \<lparr>time_seconds = 0, time_nanoseconds = 1000000\<rparr>\<rparr>"

definition default_path_conf :: PathConf where
  "default_path_conf =
     \<lparr>pc_max_links = 4294967295, pc_max_name_length = of_nat NFS_NAME_MAX_LEN, pc_no_truncation = True,
      pc_chown_restricted = True, pc_case_insensitive = False, pc_case_preserving = True\<rparr>"

text \<open>The backend: every other method is the default of the trait.\<close>

definition demo_fs :: "DemoFs Vfs" where
  "demo_fs =
     (vfs_with_defaults demo_capabilities demo_root demo_getattr demo_lookup)
       \<lparr>vfs_access := demo_access, vfs_setattr := demo_setattr, vfs_read_bytes := demo_read,
        vfs_write := demo_write, vfs_create := demo_create, vfs_readdir := demo_readdir,
        vfs_fsstat := demo_fsstat,
        vfs_fsinfo := (\<lambda>_ _ s. (Inr default_fs_info, s)),
        vfs_pathconf := (\<lambda>_ _ s. (Inr default_path_conf, s))\<rparr>"

section \<open>Well-formed file systems\<close>

text \<open>
  The shape of a file system: for every entry its name, its parent and, if it is a directory, its
  children.  The entries form a tree below the root: a child comes after its parent in the vector,
  the children of a directory are distinct and have distinct, valid names, and every entry after
  the root is a child of its parent.
\<close>

type_synonym shape = "bytes \<times> u64 \<times> u64 list option"

definition entry_shape :: "DemoEntry \<Rightarrow> shape" where
  "entry_shape e =
     (en_name e, en_parent e, case en_contents e of Directory children \<Rightarrow> Some children | File _ \<Rightarrow> None)"

definition child_ok :: "shape list \<Rightarrow> nat \<Rightarrow> u64 \<Rightarrow> bool" where
  "child_ok sh d c \<longleftrightarrow>
     1 < unat c \<and> d < unat c \<and> unat c < length sh \<and> unat (fst (snd (sh ! unat c))) = d \<and>
     valid_name (NfsName (fst (sh ! unat c)))"

definition children_ok :: "shape list \<Rightarrow> nat \<Rightarrow> u64 list \<Rightarrow> bool" where
  "children_ok sh d children \<longleftrightarrow>
     distinct (map (\<lambda>c. fst (sh ! unat c)) children) \<and> list_all (child_ok sh d) children"

definition is_child :: "shape list \<Rightarrow> nat \<Rightarrow> bool" where
  "is_child sh i \<longleftrightarrow>
     unat (fst (snd (sh ! i))) < length sh \<and>
     (case snd (snd (sh ! unat (fst (snd (sh ! i))))) of
        Some children \<Rightarrow> of_nat i \<in> set children
      | None \<Rightarrow> False)"

definition tree_ok :: "shape list \<Rightarrow> bool" where
  "tree_ok sh \<longleftrightarrow>
     1 < length sh \<and> snd (snd (sh ! 0)) = None \<and> snd (snd (sh ! 1)) \<noteq> None \<and> unat (fst (snd (sh ! 1))) = 1 \<and>
     (\<forall>d<length sh. case snd (snd (sh ! d)) of Some children \<Rightarrow> children_ok sh d children | None \<Rightarrow> True) \<and>
     (\<forall>i<length sh. 1 < i \<longrightarrow> is_child sh i)"

definition entry_ok :: "nat \<Rightarrow> DemoEntry \<Rightarrow> bool" where
  "entry_ok i e \<longleftrightarrow>
     en_id e = of_nat i \<and> fa_file_id (en_attributes e) = of_nat i \<and>
     (case en_contents e of
        File bs \<Rightarrow>
          fa_file_type (en_attributes e) = FT_Regular \<and> fa_size (en_attributes e) = of_nat (length bs) \<and>
          fa_used (en_attributes e) = of_nat (length bs)
      | Directory _ \<Rightarrow> fa_file_type (en_attributes e) = FT_Directory)"

definition demo_inv :: "DemoFs \<Rightarrow> bool" where
  "demo_inv s \<longleftrightarrow>
     length (df_entries s) < usize_bound \<and> tree_ok (map entry_shape (df_entries s)) \<and>
     (\<forall>i<length (df_entries s). entry_ok i (df_entries s ! i))"

text \<open>The vectors of a state that exists in memory.\<close>

definition demo_possible :: "DemoFs \<Rightarrow> bool" where
  "demo_possible s \<longleftrightarrow>
     length (df_entries s) < usize_bound \<and>
     list_all (\<lambda>e. case en_contents e of File bs \<Rightarrow> length bs < usize_bound | Directory _ \<Rightarrow> True) (df_entries s)"

text \<open>The bytes of a file after a write: the new ones, the old ones around them, zeros in a gap.\<close>

definition written :: "bytes \<Rightarrow> nat \<Rightarrow> bytes \<Rightarrow> bytes" where
  "written bs start data =
     map (\<lambda>i. if start \<le> i \<and> i < start + length data then data ! (i - start)
              else if i < length bs then bs ! i else 0)
       [0..<max (length bs) (start + length data)]"

definition dot_name :: "NfsName \<Rightarrow> bool" where
  "dot_name name \<longleftrightarrow> name_bytes name = byte_string ''.'' \<or> name_bytes name = byte_string ''..''"

text \<open>The entries of a directory, in the order of its children.\<close>

definition demo_listing :: "ObjectKey \<Rightarrow> DemoFs \<Rightarrow> DirectoryEntry list" where
  "demo_listing directory s =
     (case demo_entry s directory of
        Inl _ \<Rightarrow> []
      | Inr e \<Rightarrow>
          (case en_contents e of
             File _ \<Rightarrow> []
           | Directory children \<Rightarrow> List.map_filter (demo_directory_entry (df_entries s)) (enumerate 0 children)))"

definition is_directory :: "DemoFs \<Rightarrow> ObjectKey \<Rightarrow> bool" where
  "is_directory s object \<longleftrightarrow>
     (case demo_entry s object of
        Inl _ \<Rightarrow> False
      | Inr e \<Rightarrow> (case en_contents e of File _ \<Rightarrow> False | Directory _ \<Rightarrow> True))"

text \<open>A new leaf is appended and becomes the last child of a directory.\<close>

definition grow :: "shape list \<Rightarrow> nat \<Rightarrow> u64 list \<Rightarrow> bytes \<Rightarrow> shape list" where
  "grow sh d children name =
     sh[d := (fst (sh ! d), fst (snd (sh ! d)), Some (children @ [of_nat (length sh)]))] @
     [(name, of_nat d, None)]"

text \<open>The default file system with a clock that counts its readings, and a request for it.\<close>

definition demo_sample :: DemoFs where
  "demo_sample = demo_default (\<lambda>n. \<lparr>time_seconds = of_nat n, time_nanoseconds = 0\<rparr>)"

definition demo_ctx :: RequestContext where
  "demo_ctx = \<lparr>ctx_principal = Anonymous, ctx_client_addr = \<lparr>sock_ip = V4 127 0 0 1, sock_port = 700\<rparr>,
     ctx_export_id = 1\<rparr>"

definition new_name :: NfsName where
  "new_name = NfsName (byte_string ''new'')"

section \<open>The tree\<close>

lemma children_okD:
  assumes "children_ok sh d children" and "c \<in> set children"
  shows "1 < unat c" "d < unat c" "unat c < length sh" "unat (fst (snd (sh ! unat c))) = d"
    "valid_name (NfsName (fst (sh ! unat c)))"
  using assms by (auto simp: children_ok_def child_ok_def list_all_iff)

lemma tree_children:
  "tree_ok sh \<Longrightarrow> d < length sh \<Longrightarrow> snd (snd (sh ! d)) = Some children \<Longrightarrow> children_ok sh d children"
  unfolding tree_ok_def by (auto split: option.splits)

lemma children_ok_distinct: "children_ok sh d children \<Longrightarrow> distinct children"
  by (auto simp: children_ok_def distinct_map)

lemma grow_nth:
  assumes "i \<le> length sh"
  shows "grow sh d children name ! i =
    (if i = length sh then (name, of_nat d, None)
     else if i = d then (fst (sh ! d), fst (snd (sh ! d)), Some (children @ [of_nat (length sh)]))
     else sh ! i)"
  using assms by (auto simp: grow_def nth_append nth_list_update)

lemma length_grow [simp]: "length (grow sh d children name) = Suc (length sh)"
  by (simp add: grow_def)

lemma grow_child_ok:
  assumes "child_ok sh e c"
  shows "child_ok (grow sh d children name) e c"
  using assms by (auto simp: child_ok_def grow_nth)

lemma grow_children:
  assumes tree: "tree_ok sh" and d: "d < length sh" "snd (snd (sh ! d)) = Some children"
    and fits: "Suc (length sh) < usize_bound" and name: "valid_name (NfsName name)"
    and fresh: "name \<notin> (\<lambda>c. fst (sh ! unat c)) ` set children"
    and e: "e < Suc (length sh)" "snd (snd (grow sh d children name ! e)) = Some cs"
  shows "children_ok (grow sh d children name) e cs"
proof -
  let ?sh = "grow sh d children name"
  have old: "map (\<lambda>c. fst (?sh ! unat c)) ys = map (\<lambda>c. fst (sh ! unat c)) ys"
    "list_all (child_ok ?sh f) ys" if "children_ok sh f ys" for f ys
  proof -
    show "map (\<lambda>c. fst (?sh ! unat c)) ys = map (\<lambda>c. fst (sh ! unat c)) ys"
    proof (rule map_cong [OF refl])
      fix c assume "c \<in> set ys"
      from children_okD(3) [OF that this] show "fst (?sh ! unat c) = fst (sh ! unat c)" by (simp add: grow_nth)
    qed
    show "list_all (child_ok ?sh f) ys"
      using that grow_child_ok by (auto simp: children_ok_def list_all_iff)
  qed
  have root: "1 < length sh" using tree by (simp add: tree_ok_def)
  have len: "unat (of_nat (length sh) :: u64) = length sh" "unat (of_nat d :: u64) = d"
    using fits d(1) by (simp_all add: unat_of_nat64)
  show ?thesis
  proof (cases "e = d")
    case True
    with d(1) e(2) have cs: "cs = children @ [of_nat (length sh)]" by (simp add: grow_nth)
    have kids: "children_ok sh d children" using tree d by (rule tree_children)
    have "child_ok ?sh d (of_nat (length sh))"
      using root d(1) len name by (simp add: child_ok_def grow_nth)
    then have "list_all (child_ok ?sh d) cs" using old(2) [OF kids] cs by simp
    moreover have "map (\<lambda>c. fst (?sh ! unat c)) cs = map (\<lambda>c. fst (sh ! unat c)) children @ [name]"
      unfolding cs map_append old(1) [OF kids] using len(1) by (simp add: grow_nth)
    moreover have "distinct (map (\<lambda>c. fst (sh ! unat c)) children @ [name])"
      using kids fresh by (simp add: children_ok_def)
    ultimately show ?thesis unfolding children_ok_def True by (simp only: simp_thms)
  next
    case False
    with e have "e < length sh" "snd (snd (sh ! e)) = Some cs"
      by (auto simp: grow_nth split: if_splits)
    from tree_children [OF tree this] have "children_ok sh e cs" .
    note kids = this
    with old(2) [OF kids] show ?thesis unfolding children_ok_def old(1) [OF kids] by simp
  qed
qed

lemma grow_is_child:
  assumes tree: "tree_ok sh" and d: "d < length sh" "snd (snd (sh ! d)) = Some children"
    and fits: "Suc (length sh) < usize_bound" and i: "1 < i" "i < Suc (length sh)"
  shows "is_child (grow sh d children name) i"
proof (cases "i = length sh")
  case True
  have "unat (of_nat d :: u64) = d" using fits d(1) by (simp add: unat_of_nat64)
  with True d show ?thesis by (simp add: is_child_def grow_nth)
next
  case False
  with i tree have "is_child sh i" by (simp add: tree_ok_def)
  with False i d show ?thesis
    by (auto simp: is_child_def grow_nth split: option.splits)
qed

lemma tree_ok_grow:
  assumes tree: "tree_ok sh" and d: "d < length sh" "snd (snd (sh ! d)) = Some children"
    and fits: "Suc (length sh) < usize_bound" and name: "valid_name (NfsName name)"
    and fresh: "name \<notin> (\<lambda>c. fst (sh ! unat c)) ` set children"
  shows "tree_ok (grow sh d children name)"
proof -
  let ?sh = "grow sh d children name"
  have "1 < length sh" "snd (snd (sh ! 0)) = None" "snd (snd (sh ! 1)) \<noteq> None" "unat (fst (snd (sh ! 1))) = 1"
    using tree by (auto simp: tree_ok_def)
  with d have root: "1 < length ?sh" "snd (snd (?sh ! 0)) = None" "snd (snd (?sh ! 1)) \<noteq> None"
    "unat (fst (snd (?sh ! 1))) = 1"
    by (auto simp: grow_nth)
  have "case snd (snd (?sh ! e)) of Some cs \<Rightarrow> children_ok ?sh e cs | None \<Rightarrow> True" if "e < length ?sh" for e
    using grow_children [OF assms, of e] that by (auto split: option.split)
  moreover have "is_child ?sh i" if "i < length ?sh" "1 < i" for i
    using grow_is_child [OF tree d fits that(2)] that(1) by simp
  ultimately show ?thesis using root by (simp add: tree_ok_def)
qed

section \<open>Entries\<close>

lemma entries_get_Some: "entries_get es i = Some e \<longleftrightarrow> unat i < length es \<and> e = es ! unat i"
  by (auto simp: entries_get_def)

lemma demo_entry_Inr:
  "demo_entry s object = Inr e \<longleftrightarrow>
     obj_generation object = GENERATION \<and> unat (obj_file_id object) < length (df_entries s) \<and>
     e = df_entries s ! unat (obj_file_id object)"
  by (auto simp: demo_entry_def demo_id_def entries_get_def)

lemma child_entries_eq:
  assumes "children_ok (map entry_shape es) d children"
  shows "child_entries es children = map (\<lambda>c. es ! unat c) children"
proof -
  have "\<forall>c\<in>set children. entries_get es c = Some (es ! unat c)"
    using children_okD(3) [OF assms] by (auto simp: entries_get_def)
  then show ?thesis
    unfolding child_entries_def List.map_filter_def by (induction children) auto
qed

lemma child_name:
  assumes "children_ok (map entry_shape es) d children" and "c \<in> set children"
  shows "fst (map entry_shape es ! unat c) = en_name (es ! unat c)"
  using children_okD(3) [OF assms] by (simp add: entry_shape_def)

lemma find_child_None:
  assumes "children_ok (map entry_shape es) d children" and "find_child es children name = None"
  shows "name \<notin> (\<lambda>c. fst (map entry_shape es ! unat c)) ` set children"
  using assms child_name [OF assms(1)]
  by (auto simp: find_child_def child_entries_eq find_None_iff)

text \<open>Updating an entry in place keeps the shape when its name, its parent and its children stay.\<close>

lemma shape_put:
  assumes "i < length es" and "entry_shape e = entry_shape (es ! i)"
  shows "map entry_shape (es[i := e]) = map entry_shape es"
  using assms by (simp add: map_update list_update_same_conv)

lemma demo_inv_put:
  assumes "demo_inv s" and "unat (obj_file_id object) < length (df_entries s)"
    and "entry_shape e = entry_shape (df_entries s ! unat (obj_file_id object))"
    and "entry_ok (unat (obj_file_id object)) e"
    and "df_entries t = df_entries s"
  shows "demo_inv (put_entry object e t)"
  using assms by (auto simp: demo_inv_def put_entry_def shape_put nth_list_update)

lemma demo_now_entries [simp]: "df_entries (snd (demo_now s)) = df_entries s"
  by (simp add: demo_now_def)

lemma pick_time_entries [simp]: "df_entries (snd (pick_time choice current s)) = df_entries s"
  by (auto simp: pick_time_def split: option.split SetTime.split)

lemma clock_entries:
  "demo_now s = (time, t) \<Longrightarrow> df_entries t = df_entries s"
  "pick_time choice current s = (time, t) \<Longrightarrow> df_entries t = df_entries s"
  by (metis demo_now_entries snd_conv) (metis pick_time_entries snd_conv)

lemma set_plain_keeps [simp]:
  "fa_file_id (set_plain sa a) = fa_file_id a" "fa_file_type (set_plain sa a) = fa_file_type a"
  "fa_size (set_plain sa a) = fa_size a" "fa_used (set_plain sa a) = fa_used a"
  by (auto simp: set_plain_def split: option.split)

lemma length_vec_resize [simp]: "length (vec_resize n bs) = n"
  by (simp add: vec_resize_def)

lemma apply_attributes_keeps:
  assumes "apply_attributes e sa s = (r, e', s')"
  shows "df_entries s' = df_entries s" "entry_shape e' = entry_shape e" "entry_ok i e \<Longrightarrow> entry_ok i e'"
    "en_id e' = en_id e" "en_exclusive_verifier e' = en_exclusive_verifier e"
  using assms
  by (auto simp: apply_attributes_def set_size_def entry_shape_def entry_ok_def Let_def
      split: option.splits Contents.splits prod.splits dest!: clock_entries)

section \<open>Every operation keeps the file system well-formed\<close>

lemma demo_inv_entry:
  "demo_inv s \<Longrightarrow> demo_entry s object = Inr e \<Longrightarrow> entry_ok (unat (obj_file_id object)) e"
  by (auto simp: demo_inv_def demo_entry_Inr)

lemma demo_setattr_inv:
  assumes "demo_inv s"
  shows "demo_inv (snd (demo_setattr ctx object sa guard s))"
proof (cases "demo_entry s object")
  case (Inr e)
  obtain r e' t where run: "apply_attributes e sa s = (r, e', t)" by (metis prod_cases3)
  note keeps = apply_attributes_keeps [OF run]
  have "demo_inv (put_entry object e' t)"
    by (rule demo_inv_put [OF assms]) (use Inr keeps demo_inv_entry [OF assms Inr] in \<open>auto simp: demo_entry_Inr\<close>)
  with Inr run assms show ?thesis
    by (simp add: demo_setattr_def Let_def split: sum.split)
qed (simp add: demo_setattr_def assms)

lemma length_copy_from_slice:
  "start + length data \<le> length bs \<Longrightarrow> length (copy_from_slice start data bs) = length bs"
  by (simp add: copy_from_slice_def)

text \<open>The state and the result of a successful write.\<close>

lemma demo_write_Inr:
  assumes "demo_write ctx object offset data requested s = (Inr r, s')"
  obtains e bs e' t where "demo_entry s object = Inr e" "en_contents e = File bs"
    "unat offset + length data < usize_bound"
    "e' = e\<lparr>en_contents := File (copy_from_slice (unat offset) data
              (vec_resize (max (length bs) (unat offset + length data)) bs)),
            en_attributes := (en_attributes e)
              \<lparr>fa_size := of_nat (max (length bs) (unat offset + length data)),
               fa_used := of_nat (max (length bs) (unat offset + length data)),
               fa_modify_time := fst (demo_now s), fa_change_time := fst (demo_now s)\<rparr>\<rparr>"
    "t = snd (demo_now s)" "s' = put_entry object e' t"
    "mr_value r = \<lparr>vw_count = of_nat (length data), vw_committed = requested\<rparr>"
    "mr_after r = Some (en_attributes e')"
proof -
  from assms obtain e bs where e: "demo_entry s object = Inr e" "en_contents e = File bs"
    "unat offset + length data < usize_bound"
    by (auto simp: demo_write_def Let_def split: sum.splits Contents.splits option.splits prod.splits)
  let ?n = "max (length bs) (unat offset + length data)"
  have grown: "(if length bs < unat offset + length data then vec_resize (unat offset + length data) bs else bs) =
      vec_resize ?n bs"
    by (auto simp: vec_resize_def max_def)
  have len: "length (copy_from_slice (unat offset) data (vec_resize ?n bs)) = ?n"
    by (simp add: length_copy_from_slice)
  have sum: "checked_add (unat offset) (length data) = Some (unat offset + length data)" using e(3) by simp
  show ?thesis
    using assms [unfolded demo_write_def e(1) Let_def sum sum.case option.case e(2) Contents.case grown len]
    by (intro that [OF e refl refl]) (auto simp: case_prod_beta)
qed

lemma demo_write_inv:
  assumes "demo_inv s"
  shows "demo_inv (snd (demo_write ctx object offset data requested s))"
proof -
  obtain r s' where run: "demo_write ctx object offset data requested s = (r, s')" by fastforce
  show ?thesis
  proof (cases r)
    case (Inl err)
    with run have "s' = s"
      by (auto simp: demo_write_def Let_def split: sum.splits Contents.splits option.splits prod.splits)
    with run assms show ?thesis by simp
  next
    case (Inr v)
    from run [unfolded Inr] obtain e bs e' t where e: "demo_entry s object = Inr e" "en_contents e = File bs"
      and s': "s' = put_entry object e' t" "t = snd (demo_now s)"
      and e': "e' = e\<lparr>en_contents := File (copy_from_slice (unat offset) data
              (vec_resize (max (length bs) (unat offset + length data)) bs)),
            en_attributes := (en_attributes e)
              \<lparr>fa_size := of_nat (max (length bs) (unat offset + length data)),
               fa_used := of_nat (max (length bs) (unat offset + length data)),
               fa_modify_time := fst (demo_now s), fa_change_time := fst (demo_now s)\<rparr>\<rparr>"
      by (rule demo_write_Inr)
    have "entry_shape e' = entry_shape e" "entry_ok (unat (obj_file_id object)) e'"
      using e(2) demo_inv_entry [OF assms e(1)]
      by (simp_all add: e' entry_shape_def entry_ok_def length_copy_from_slice)
    with run s' e(1) show ?thesis
      by (auto intro!: demo_inv_put [OF assms] simp: demo_entry_Inr)
  qed
qed

text \<open>A new entry, and the directory that it is created in.\<close>

lemma create_entry_cases:
  assumes "create_entry parent directory children name sa mode s = (r, s')"
  obtains (failed) err where "r = Inl err" "df_entries s' = df_entries s"
  | (created) e change v where "r = Inr v" "mr_value v = demo_created e"
      "df_entries s' = (df_entries s @ [e])[unat (obj_file_id parent) := directory
         \<lparr>en_contents := Directory (children @ [of_nat (length (df_entries s))]),
          en_attributes := (en_attributes directory)\<lparr>fa_change_time := change\<rparr>\<rparr>]"
      "entry_shape e = (name_bytes name, obj_file_id parent, None)" "entry_ok (length (df_entries s)) e"
      "\<And>verifier. mode = Exclusive verifier \<Longrightarrow> en_exclusive_verifier e = Some verifier"
proof -
  let ?n = "length (df_entries s)"
  define blank where "blank = make_file (name_bytes name) (of_nat ?n) (obj_file_id parent) [] (fst (demo_now s))"
  define new where
    "new = (case mode of Exclusive verifier \<Rightarrow> blank\<lparr>en_exclusive_verifier := Some verifier\<rparr> | _ \<Rightarrow> blank)"
  obtain res e t where run: "apply_attributes new sa (snd (demo_now s)) = (res, e, t)" by (metis prod_cases3)
  note keeps = apply_attributes_keeps [OF run]
  have new: "entry_shape new = (name_bytes name, obj_file_id parent, None)" "entry_ok ?n new"
    "mode = Exclusive verifier \<Longrightarrow> en_exclusive_verifier new = Some verifier" for verifier
    by (auto simp: new_def blank_def make_file_def entry_shape_def entry_ok_def split: CreateMode.split)
  from assms have eq: "(case (res, e, t) of
        (Inl err, _, s) \<Rightarrow> (Inl err, s)
      | (Inr _, e, s) \<Rightarrow>
          let s = s\<lparr>df_entries := df_entries s @ [e]\<rparr>;
              (change, s) = demo_now s;
              directory' = directory\<lparr>en_contents := Directory (children @ [of_nat ?n]),
                                    en_attributes := (en_attributes directory)\<lparr>fa_change_time := change\<rparr>\<rparr> in
          (Inr \<lparr>mr_value = demo_created e, mr_before = Some (demo_wcc (en_attributes directory)),
                mr_after = Some (en_attributes directory')\<rparr>,
           put_entry parent directory' s)) = (r, s')"
    unfolding create_entry_def Let_def case_prod_beta [of _ "demo_now s"] run [unfolded new_def blank_def, symmetric]
    by simp
  show ?thesis
  proof (cases res)
    case (Inl err)
    with eq keeps(1) show ?thesis by (intro failed) auto
  next
    case (Inr u)
    show ?thesis
      by (rule created [where e = e and change = "fst (demo_now (t\<lparr>df_entries := df_entries t @ [e]\<rparr>))" and v = "projr r"])
        (use eq Inr keeps new in \<open>auto simp: Let_def put_entry_def demo_now_def\<close>)
  qed
qed

lemma demo_create_inv:
  assumes inv: "demo_inv s" and name: "valid_name name"
    and fits: "demo_possible (snd (demo_create ctx parent name sa mode s))"
  shows "demo_inv (snd (demo_create ctx parent name sa mode s))"
proof (cases "\<exists>directory children. demo_entry s parent = Inr directory \<and> en_contents directory = Directory children \<and>
    find_child (df_entries s) children (name_bytes name) = None")
  case True
  then obtain directory children where dir: "demo_entry s parent = Inr directory"
    "en_contents directory = Directory children" "find_child (df_entries s) children (name_bytes name) = None" by blast
  let ?d = "unat (obj_file_id parent)" and ?es = "df_entries s"
  obtain r s' where run: "create_entry parent directory children name sa mode s = (r, s')" by fastforce
  with dir have s': "snd (demo_create ctx parent name sa mode s) = s'" by (simp add: demo_create_def)
  from dir(1) have d: "?d < length ?es" "directory = ?es ! ?d" by (auto simp: demo_entry_Inr)
  have tree: "tree_ok (map entry_shape ?es)" using inv by (simp add: demo_inv_def)
  have shape: "snd (snd (map entry_shape ?es ! ?d)) = Some children"
    using d dir(2) by (simp add: entry_shape_def)
  from run show ?thesis
  proof (cases rule: create_entry_cases)
    case (failed err)
    with inv s' show ?thesis by (simp add: demo_inv_def)
  next
    case (created e change v)
    have bound: "Suc (length ?es) < usize_bound" using fits created(3) by (simp add: s' demo_possible_def)
    have "tree_ok (grow (map entry_shape ?es) ?d children (name_bytes name))"
      by (rule tree_ok_grow [OF tree])
        (use d shape bound name find_child_None [OF tree_children [OF tree _ shape] dir(3)] in simp_all)
    moreover have "map entry_shape (df_entries s') = grow (map entry_shape ?es) ?d children (name_bytes name)"
      using d created(3,4) dir(2)
      by (simp add: grow_def map_update list_update_append entry_shape_def)
    moreover have "entry_ok ?d (directory\<lparr>en_contents := Directory (children @ [of_nat (length ?es)]),
        en_attributes := (en_attributes directory)\<lparr>fa_change_time := change\<rparr>\<rparr>)"
      using demo_inv_entry [OF inv dir(1)] dir(2) by (simp add: entry_ok_def)
    then have "entry_ok i (df_entries s' ! i)" if "i < length (df_entries s')" for i
      using that inv created(3,5) d(1) by (auto simp: demo_inv_def nth_list_update nth_append less_Suc_eq)
    ultimately show ?thesis using bound created(3) by (simp add: s' demo_inv_def)
  qed
next
  case False
  then have "snd (demo_create ctx parent name sa mode s) = s"
    by (auto simp: demo_create_def Let_def split: sum.split Contents.split option.split)
  with inv show ?thesis by simp
qed

lemma demo_read_only_calls [simp]:
  "snd (demo_getattr ctx object s) = s" "snd (demo_lookup ctx object name s) = s"
  "snd (demo_access ctx object requested s) = s" "snd (demo_read ctx object offset count s) = s"
  "snd (demo_readdir ctx object cookie verifier hint s) = s" "snd (demo_fsstat ctx object s) = s"
  by (simp_all add: demo_getattr_def demo_lookup_def demo_access_def demo_read_def demo_readdir_def demo_fsstat_def)

lemma demo_step_inv:
  assumes "demo_inv s" and "vfs_step demo_fs s t" and "demo_possible t"
  shows "demo_inv t"
  using assms(2,1,3) demo_create_inv
  by cases (simp_all add: demo_fs_def vfs_with_defaults_def demo_setattr_inv demo_write_inv)

interpretation demo: backend_invariant demo_fs demo_possible demo_inv
  by unfold_locales (rule demo_step_inv)

lemma demo_default_shape:
  "map entry_shape (df_entries (demo_default clock)) =
     [([], 0, None), (byte_string ''/'', 1, Some [2, 3, 4]), (byte_string ''a.txt'', 1, None),
      (byte_string ''b.txt'', 1, None), (byte_string ''another_dir'', 1, Some [5]),
      (byte_string ''thisworks.txt'', 4, None)]"
  by (simp add: demo_default_def entry_shape_def make_file_def make_directory_def ROOT_ID_def)

lemma demo_default_inv: "demo_inv (demo_default clock)"
proof -
  have "tree_ok (map entry_shape (df_entries (demo_default clock)))"
    unfolding demo_default_shape by code_simp
  moreover have "\<forall>i<6. entry_ok i (df_entries (demo_default clock) ! i)"
    by (simp add: demo_default_def entry_ok_def make_file_def make_directory_def ROOT_ID_def eval_nat_numeral
        All_less_Suc)
  ultimately show ?thesis by (simp add: demo_inv_def demo_default_def)
qed

section \<open>Directories\<close>

lemma directory_children:
  assumes "demo_inv s" and "demo_entry s object = Inr e" "en_contents e = Directory children"
  shows "children_ok (map entry_shape (df_entries s)) (unat (obj_file_id object)) children"
proof -
  from assms have d: "unat (obj_file_id object) < length (map entry_shape (df_entries s))"
    "snd (snd (map entry_shape (df_entries s) ! unat (obj_file_id object))) = Some children"
    by (auto simp: demo_entry_Inr entry_shape_def)
  from assms(1) have "tree_ok (map entry_shape (df_entries s))" by (simp add: demo_inv_def)
  from tree_children [OF this d] show ?thesis .
qed

lemma is_directoryE:
  assumes "demo_inv s" and "is_directory s object"
  obtains e children where "demo_entry s object = Inr e" "en_contents e = Directory children"
    "children_ok (map entry_shape (df_entries s)) (unat (obj_file_id object)) children"
    "length children < usize_bound"
proof -
  from assms(2) obtain e children where e: "demo_entry s object = Inr e" "en_contents e = Directory children"
    by (auto simp: is_directory_def split: sum.splits Contents.splits)
  note kids = directory_children [OF assms(1) e]
  have "unat ` set children \<subseteq> {..<length (df_entries s)}" using children_okD(3) [OF kids] by auto
  then have "card (unat ` set children) \<le> card {..<length (df_entries s)}" by (rule card_mono [OF finite_lessThan])
  then have "card (unat ` set children) \<le> length (df_entries s)" by simp
  moreover have "inj_on unat (set children)" by (simp add: inj_on_def word_unat_eq_iff)
  ultimately have "length children \<le> length (df_entries s)"
    using distinct_card [OF children_ok_distinct [OF kids]] by (simp add: card_image)
  then show ?thesis using assms(1) that [OF e kids] by (simp add: demo_inv_def)
qed

lemma directory_entries_eq:
  assumes "children_ok (map entry_shape es) d children"
  shows "List.map_filter (demo_directory_entry es) (take n (drop k (enumerate 0 children))) =
    take n (drop k (map (\<lambda>x. the (demo_directory_entry es x)) (enumerate 0 children)))"
proof -
  have "List.map_filter f xs = map (\<lambda>x. the (f x)) xs" if "\<forall>x\<in>set xs. f x \<noteq> None" for f :: "'a \<Rightarrow> 'b option" and xs
    using that by (induction xs) (auto simp: List.map_filter_def)
  moreover have "\<forall>x\<in>set (take n (drop k (enumerate 0 children))). demo_directory_entry es x \<noteq> None"
  proof
    fix x assume "x \<in> set (take n (drop k (enumerate 0 children)))"
    then have "x \<in> set (enumerate 0 children)" by (rule in_set_dropD [OF in_set_takeD])
    then have "snd x \<in> set children" by (auto simp: in_set_enumerate_eq dest: nth_mem)
    from children_okD(3) [OF assms this] show "demo_directory_entry es x \<noteq> None"
      by (simp add: demo_directory_entry_def entries_get_def)
  qed
  ultimately show ?thesis by (simp add: take_map drop_map)
qed

lemma demo_listing_eq:
  assumes "demo_entry s object = Inr e" "en_contents e = Directory children"
    and "children_ok (map entry_shape (df_entries s)) d children"
  shows "demo_listing object s =
    map (\<lambda>x. the (demo_directory_entry (df_entries s) x)) (enumerate 0 children)"
  using directory_entries_eq [OF assms(3), of "length children" 0] assms(1,2) by (simp add: demo_listing_def)

lemma demo_listing_nth:
  assumes "demo_entry s object = Inr e" "en_contents e = Directory children"
    and "children_ok (map entry_shape (df_entries s)) d children" and "i < length children"
  shows "demo_listing object s ! i =
    \<lparr>de_object = demo_key (en_id (df_entries s ! unat (children ! i))), de_file_id = en_id (df_entries s ! unat (children ! i)),
     de_name = NfsName (en_name (df_entries s ! unat (children ! i))), de_cookie = of_nat i + 1,
     de_attributes = Some (en_attributes (df_entries s ! unat (children ! i)))\<rparr>"
  using children_okD(3) [OF assms(3), of "children ! i"] assms(4)
  by (simp add: demo_listing_eq [OF assms(1-3)] nth_enumerate_eq demo_directory_entry_def entries_get_def)

lemma demo_readdir_page:
  fixes hint :: usize
  assumes "demo_inv s" and "is_directory s object" and "cookie = 0 \<or> v = READDIR_VERIFIER"
  defines "shown \<equiv> take (max hint 1) (drop (unat cookie) (demo_listing object s))"
  shows "demo_readdir ctx object cookie v hint s =
      (Inr \<lparr>page_verifier = READDIR_VERIFIER, page_entries = shown,
            page_eof = (length (demo_listing object s) \<le> unat cookie + length shown)\<rparr>, s)"
    and "i < length shown \<Longrightarrow> unat (de_cookie (shown ! i)) = unat cookie + Suc i"
proof -
  from assms(1,2) obtain e children where e: "demo_entry s object = Inr e" "en_contents e = Directory children"
    and kids: "children_ok (map entry_shape (df_entries s)) (unat (obj_file_id object)) children"
    and bound: "length children < usize_bound" by (rule is_directoryE)
  note all = demo_listing_eq [OF e kids]
  have len: "length (demo_listing object s) = length children" by (simp add: all)
  have shown: "shown = List.map_filter (demo_directory_entry (df_entries s))
      (take (max hint 1) (drop (unat cookie) (enumerate 0 children)))"
    unfolding shown_def all directory_entries_eq [OF kids] ..
  have "length shown = min (max hint 1) (length children - unat cookie)" by (simp add: shown_def len)
  then have "unat cookie + length shown < usize_bound"
    using bound unat_u64_less [of cookie] by (cases "unat cookie < length children") (auto simp: min_def)
  then have sat: "saturating_add (unat cookie) (length shown) = unat cookie + length shown"
    by (rule saturating_add_eq)
  have guard: "(cookie \<noteq> 0 \<and> v \<noteq> READDIR_VERIFIER) = False" using assms(3) by blast
  show "demo_readdir ctx object cookie v hint s =
      (Inr \<lparr>page_verifier = READDIR_VERIFIER, page_entries = shown,
            page_eof = (length (demo_listing object s) \<le> unat cookie + length shown)\<rparr>, s)"
    by (simp only: demo_readdir_def guard if_False e r_bind.simps Contents.case Let_def len sat shown [symmetric])
  assume "i < length shown"
  then have i: "unat cookie + i < length children" by (auto simp: shown_def len)
  have "unat (of_nat (unat cookie + i) + 1 :: u64) = unat cookie + Suc i"
    using i bound unat_of_nat64 [of "Suc (unat cookie + i)"] by (simp add: add.commute)
  moreover have "shown ! i = demo_listing object s ! (unat cookie + i)"
    using \<open>i < length shown\<close> i len by (simp add: shown_def)
  ultimately show "unat (de_cookie (shown ! i)) = unat cookie + Suc i"
    using i by (simp add: demo_listing_nth [OF e kids])
qed

interpretation demo_dir: paged_directory "demo_readdir ctx object" "\<lambda>e. e" "demo_listing object" "\<lambda>_. READDIR_VERIFIER"
    "\<lambda>s. demo_inv s \<and> is_directory s object" for ctx object
proof
  fix s :: DemoFs and cookie :: u64 and v hint
  assume good: "demo_inv s \<and> is_directory s object" and cookie: "cookie = 0 \<or> v = READDIR_VERIFIER"
  note run = demo_readdir_page [OF conjunct1 [OF good] conjunct2 [OF good] cookie, where hint = hint]
  show "\<exists>p t. demo_readdir ctx object cookie v hint s = (Inr p, t) \<and> page_verifier p = READDIR_VERIFIER \<and>
      map (\<lambda>e. e) (page_entries p) = take (max hint 1) (drop (unat cookie) (demo_listing object s)) \<and>
      (page_eof p \<longleftrightarrow> length (demo_listing object s) \<le> unat cookie + length (page_entries p)) \<and>
      (\<forall>i<length (page_entries p). unat (de_cookie (page_entries p ! i)) = unat cookie + Suc i) \<and>
      (demo_inv t \<and> is_directory t object) \<and> demo_listing object t = demo_listing object s \<and>
      READDIR_VERIFIER = READDIR_VERIFIER"
    by (rule exI, rule exI, rule conjI, rule run(1)) (use run(2) good in \<open>auto simp del: nth_take nth_drop\<close>)
qed

section \<open>Names\<close>

lemma find_child_Some:
  assumes kids: "children_ok (map entry_shape es) d children" and c: "c \<in> set children"
  shows "find_child es children (en_name (es ! unat c)) = Some (es ! unat c)"
proof -
  have same: "es ! unat c' = es ! unat c" if "c' \<in> set children" "en_name (es ! unat c') = en_name (es ! unat c)" for c'
  proof -
    have "inj_on (\<lambda>c. fst (map entry_shape es ! unat c)) (set children)"
      using kids by (simp add: children_ok_def distinct_map)
    with that c child_name [OF kids that(1)] child_name [OF kids c] have "c' = c" by (simp add: inj_on_def)
    then show ?thesis by simp
  qed
  have "\<exists>e. find (\<lambda>e. en_name e = en_name (es ! unat c)) (child_entries es children) = Some e"
    using c by (auto simp: child_entries_eq [OF kids] find_None_iff simp flip: not_None_eq)
  then obtain e where e: "find (\<lambda>e. en_name e = en_name (es ! unat c)) (child_entries es children) = Some e" by blast
  then have "en_name e = en_name (es ! unat c)" "e \<in> (\<lambda>c. es ! unat c) ` set children"
    by (auto simp: find_Some_iff child_entries_eq [OF kids])
  with same e show ?thesis by (auto simp: find_child_def)
qed

lemma find_child_member:
  assumes "children_ok (map entry_shape es) d children" and "find_child es children name = Some e"
  obtains c where "c \<in> set children" "e = es ! unat c" "en_name e = name"
  using assms(2) by (auto simp: find_child_def find_Some_iff child_entries_eq [OF assms(1)] intro: that nth_mem)

lemma lookup_plain:
  assumes "demo_entry s parent = Inr e" "en_contents e = Directory children" and "\<not> dot_name name"
    and "find_child (df_entries s) children (name_bytes name) = Some child"
  shows "demo_lookup ctx parent name s = (Inr (demo_created child), s)"
  using assms by (auto simp: demo_lookup_def dot_name_def)

text \<open>What a lookup of one of the two special names returns precedes every child of the directory.\<close>

lemma lookup_dot:
  assumes "demo_inv s" and e: "demo_entry s parent = Inr e" "en_contents e = Directory children" and "dot_name name"
    and lookup: "demo_lookup ctx parent name s = (Inr found, t)" and "c \<in> set children"
  shows "unat (obj_file_id (co_object found)) < unat c"
proof -
  let ?d = "unat (obj_file_id parent)" and ?sh = "map entry_shape (df_entries s)"
  from e have d: "?d < length (df_entries s)" "e = df_entries s ! ?d" by (auto simp: demo_entry_Inr)
  have tree: "tree_ok ?sh" and ok: "\<And>i. i < length (df_entries s) \<Longrightarrow> entry_ok i (df_entries s ! i)"
    and fits: "length (df_entries s) < usize_bound"
    using assms(1) by (auto simp: demo_inv_def)
  have kids: "children_ok ?sh ?d children" by (rule tree_children [OF tree]) (use d e in \<open>auto simp: entry_shape_def\<close>)
  have number: "unat (en_id (df_entries s ! i)) = i" if "i < length (df_entries s)" for i
    using ok [OF that] that fits by (simp add: entry_ok_def unat_of_nat64)
  have "?d \<noteq> 0"
  proof
    assume "?d = 0"
    with tree d e(2) show False by (simp add: tree_ok_def entry_shape_def)
  qed
  then have below: "unat (en_parent e) \<le> ?d"
  proof (cases "1 < ?d")
    case True
    with tree d have "is_child ?sh ?d" by (simp add: tree_ok_def)
    with d obtain siblings where "unat (en_parent e) < length ?sh"
      "snd (snd (?sh ! unat (en_parent e))) = Some siblings" "of_nat ?d \<in> set siblings"
      by (auto simp: is_child_def entry_shape_def split: option.splits)
    from children_okD(2) [OF tree_children [OF tree this(1,2)] this(3)] d(1) fits show ?thesis
      by (simp add: unat_of_nat64)
  next
    case False
    with \<open>?d \<noteq> 0\<close> have "?d = 1" by simp
    with tree d show ?thesis by (simp add: tree_ok_def entry_shape_def)
  qed
  show ?thesis
    using children_okD(1,2) [OF kids assms(6)] lookup assms(4) e d below number
    by (auto simp: demo_lookup_def dot_name_def demo_created_def demo_key_def entries_get_Some split: if_splits)
qed

lemma demo_listing_valid:
  assumes "demo_inv s" and "is_directory s object" and "e \<in> set (demo_listing object s)"
  shows "valid_name (de_name e)"
proof -
  from assms(1,2) obtain d children where e: "demo_entry s object = Inr d" "en_contents d = Directory children"
    and kids: "children_ok (map entry_shape (df_entries s)) (unat (obj_file_id object)) children"
    by (rule is_directoryE)
  from assms(3) obtain i where i: "i < length children" "e = demo_listing object s ! i"
    by (auto simp: in_set_conv_nth demo_listing_eq [OF e kids])
  then have c: "children ! i \<in> set children" by simp
  from children_okD(5) [OF kids c] child_name [OF kids c] i show ?thesis
    by (simp add: demo_listing_nth [OF e kids])
qed

lemma demo_readdir_Inr:
  "demo_readdir ctx object cookie v hint s = (Inr page, t) \<Longrightarrow>
    is_directory s object \<and> (cookie = 0 \<or> v = READDIR_VERIFIER)"
  by (cases "demo_entry s object")
    (auto simp: demo_readdir_def is_directory_def split: if_splits Contents.splits)

lemma children_distinct_names:
  assumes "children_ok (map entry_shape es) d children"
  shows "distinct (map (\<lambda>c. en_name (es ! unat c)) children)"
proof -
  have "map (\<lambda>c. fst (map entry_shape es ! unat c)) children = map (\<lambda>c. en_name (es ! unat c)) children"
    using child_name [OF assms] by (intro map_cong [OF refl])
  with assms show ?thesis unfolding children_ok_def by argo
qed

lemma list_pages_state:
  assumes "list_pages (demo_readdir ctx directory) cookie verifier hints s = Some (entries, t)"
  shows "t = s"
  using assms
proof (induction hints arbitrary: cookie verifier entries t)
  case (Cons hint hints)
  obtain r where run: "demo_readdir ctx directory cookie verifier hint s = (r, s)"
    by (metis demo_read_only_calls(5) prod.collapse)
  with Cons show ?case by (auto split: sum.splits if_splits)
qed simp

section \<open>Files\<close>

lemma copy_resize_written:
  "copy_from_slice start data (vec_resize (max (length bs) (start + length data)) bs) = written bs start data"
  by (rule nth_equalityI)
    (auto simp: copy_from_slice_def vec_resize_def written_def nth_append min_def max_def)

lemma read_window:
  assumes "length bs < usize_bound"
  shows "take (min (saturating_add (min offset (length bs)) count) (length bs) - min offset (length bs))
      (drop (min offset (length bs)) bs) = take count (drop offset bs)"
    and "min (saturating_add (min offset (length bs)) count) (length bs) = length bs \<longleftrightarrow>
      length bs \<le> offset + count"
  using assms by (auto simp: saturating_add_def min_def take_Cons')

lemma demo_read_file:
  assumes "demo_entry s object = Inr e" "en_contents e = File bs" and "length bs < usize_bound"
  shows "demo_read ctx object offset count s =
    (Inr \<lparr>vr_data = take (unat count) (drop (unat offset) bs), vr_eof = (length bs \<le> unat offset + unat count),
          vr_attributes = Some (en_attributes e)\<rparr>, s)"
  using assms by (simp add: demo_read_def Let_def read_window)

lemma demo_entry_put:
  assumes "demo_entry s object = Inr e" and "df_entries t = df_entries s"
  shows "demo_entry (put_entry object e' t) object = Inr e'"
    and "obj_file_id other \<noteq> obj_file_id object \<Longrightarrow> demo_entry (put_entry object e' t) other = demo_entry s other"
proof -
  show "demo_entry (put_entry object e' t) object = Inr e'"
    using assms by (simp add: demo_entry_Inr put_entry_def)
  assume "obj_file_id other \<noteq> obj_file_id object"
  then have "unat (obj_file_id object) \<noteq> unat (obj_file_id other)" by (simp add: word_unat_eq_iff)
  then have "entries_get (df_entries (put_entry object e' t)) (obj_file_id other) =
      entries_get (df_entries s) (obj_file_id other)"
    using assms(2) by (simp add: entries_get_def put_entry_def)
  then show "demo_entry (put_entry object e' t) other = demo_entry s other"
    by (auto simp: demo_entry_def demo_id_def)
qed

text \<open>After a successful \<open>create\<close> the directory has a child of that name, which is the result.\<close>

lemma demo_create_child:
  assumes inv: "demo_inv s" "demo_inv s'" and run: "demo_create ctx parent name sa mode s = (Inr r, s')"
  obtains directory children c where "demo_entry s' parent = Inr directory" "en_contents directory = Directory children"
    "c \<in> set children" "find_child (df_entries s') children (name_bytes name) = Some (df_entries s' ! unat c)"
    "mr_value r = demo_created (df_entries s' ! unat c)" "unat (en_id (df_entries s' ! unat c)) = unat c"
    "\<And>v. mode = Exclusive v \<Longrightarrow> en_exclusive_verifier (df_entries s' ! unat c) = Some v"
proof -
  let ?d = "unat (obj_file_id parent)" and ?n = "length (df_entries s)"
  from run obtain directory children where dir: "demo_entry s parent = Inr directory"
    "en_contents directory = Directory children"
    by (auto simp: demo_create_def split: sum.splits Contents.splits)
  note kids = directory_children [where object = parent]
  have number: "unat (en_id (df_entries t ! unat c)) = unat c" if "demo_inv t" "unat c < length (df_entries t)" for t and c :: u64
    using that by (simp add: demo_inv_def entry_ok_def)
  show ?thesis
  proof (cases "find_child (df_entries s) children (name_bytes name)")
    case (Some existing)
    with run dir have s': "s' = s" "mr_value r = demo_created existing"
      "\<And>v. mode = Exclusive v \<Longrightarrow> en_exclusive_verifier existing = Some v"
      by (auto simp: demo_create_def Let_def split: if_splits)
    from Some obtain c where c: "c \<in> set children" "existing = df_entries s ! unat c"
      by (rule find_child_member [OF kids [OF inv(1) dir]])
    then have "unat c < length (df_entries s)" using children_okD(3) [OF kids [OF inv(1) dir] c(1)] by simp
    with c Some s' number [OF inv(1)] show ?thesis by (intro that [of directory children c]) (auto simp: dir)
  next
    case None
    with run dir have "create_entry parent directory children name sa mode s = (Inr r, s')"
      by (simp add: demo_create_def)
    then show ?thesis
    proof (cases rule: create_entry_cases)
      case (created e change v)
      let ?children = "children @ [of_nat ?n]"
      have d: "?d < ?n" "obj_generation parent = GENERATION" using dir(1) by (auto simp: demo_entry_Inr)
      then obtain directory' where dir': "demo_entry s' parent = Inr directory'" "en_contents directory' = Directory ?children"
        using created(3) by (auto simp: demo_entry_Inr nth_list_update)
      have n: "unat (of_nat ?n :: u64) = ?n" using inv(1) by (simp add: demo_inv_def unat_of_nat64)
      then have e: "df_entries s' ! unat (of_nat ?n :: u64) = e" using created(3) d(1) by (simp add: nth_list_update)
      moreover have "en_name e = name_bytes name" using created(4) by (simp add: entry_shape_def)
      ultimately show ?thesis
        using dir' created find_child_Some [OF kids [OF inv(2) dir'], of "of_nat ?n"] n number [OF inv(2), of "of_nat ?n"]
        by (intro that [of directory' ?children "of_nat ?n"]) auto
    qed simp
  qed
qed

section \<open>Properties\<close>

text \<open>
  Every file system that a client can reach is well-formed, whatever methods it calls in whatever
  order: the objects are numbered by their positions, sizes are the lengths of the contents, and the
  entries form a tree in which every object but the first two is a child of its parent and the
  children of a directory have different, valid names.  So the \<open>unwrap\<close> in \<open>readdir\<close> cannot fail.
\<close>

theorem demo_well_formed:
  assumes "vfs_reaches demo_fs demo_possible (demo_default clock) s"
  shows "demo_inv s \<and>
    (case demo_readdir ctx directory cookie verifier hint s of
       (Inl _, _) \<Rightarrow> True
     | (Inr page, _) \<Rightarrow> list_all (\<lambda>e. valid_name (de_name e)) (page_entries page))"
proof
  show inv: "demo_inv s" using demo.reaches_inv [OF assms demo_default_inv] .
  obtain r t where run: "demo_readdir ctx directory cookie verifier hint s = (r, t)" by fastforce
  show "case demo_readdir ctx directory cookie verifier hint s of
       (Inl _, _) \<Rightarrow> True
     | (Inr page, _) \<Rightarrow> list_all (\<lambda>e. valid_name (de_name e)) (page_entries page)"
  proof (cases r)
    case (Inr page)
    from demo_readdir_Inr [OF run [unfolded Inr]]
    have dir: "is_directory s directory" "cookie = 0 \<or> verifier = READDIR_VERIFIER" by auto
    have "page_entries page = take (max hint 1) (drop (unat cookie) (demo_listing directory s))"
      using run demo_readdir_page(1) [OF inv dir, of ctx hint] Inr by auto
    then have "set (page_entries page) \<subseteq> set (demo_listing directory s)"
      by (metis in_set_dropD in_set_takeD subsetI)
    with demo_listing_valid [OF inv dir(1)] show ?thesis by (auto simp: run Inr list_all_iff)
  qed (simp add: run)
qed

lemma sample_possible: "demo_possible demo_sample"
  by code_simp

lemma sample_create_possible:
  "demo_possible (snd (demo_create demo_ctx (demo_key 1) new_name set_attributes_default (Exclusive [7]) demo_sample))"
  by code_simp

theorem demo_well_formed_witness:
  "demo_inv (snd (vfs_create demo_fs demo_ctx (demo_key 1) new_name set_attributes_default (Exclusive [7]) demo_sample)) \<and>
   (case demo_readdir demo_ctx (demo_key 1) 0 [] 10
      (snd (vfs_create demo_fs demo_ctx (demo_key 1) new_name set_attributes_default (Exclusive [7]) demo_sample)) of
       (Inl _, _) \<Rightarrow> True
     | (Inr page, _) \<Rightarrow> list_all (\<lambda>e. valid_name (de_name e)) (page_entries page))"
proof -
  have "valid_name new_name" by code_simp
  moreover have "demo_possible (snd (vfs_create demo_fs demo_ctx (demo_key 1) new_name set_attributes_default
      (Exclusive [7]) demo_sample))"
    using sample_create_possible by (simp add: demo_fs_def vfs_with_defaults_def)
  ultimately have "vfs_reaches demo_fs demo_possible demo_sample
      (snd (vfs_create demo_fs demo_ctx (demo_key 1) new_name set_attributes_default (Exclusive [7]) demo_sample))"
    by (rule reaches_step [OF reaches_start vfs_step.intros(8)])
  from demo_well_formed [OF this [unfolded demo_sample_def]] show ?thesis
    unfolding demo_sample_def .
qed

text \<open>
  What is written is read.  After a successful write, every read of the file returns the window of
  the contents with the new bytes in place, the old bytes around them and zeros in a gap, and
  reports the end exactly when the window reaches it; reads of other objects return what they
  returned before.
\<close>

theorem demo_read_after_write:
  assumes e: "demo_entry s object = Inr e" "en_contents e = File bs" and "demo_possible s"
    and run: "demo_write ctx object offset data requested s = (Inr r, s')"
  shows "mr_value r = \<lparr>vw_count = of_nat (length data), vw_committed = requested\<rparr> \<and>
    (\<forall>ctx at count. demo_read ctx object at count s' =
       (Inr \<lparr>vr_data = take (unat count) (drop (unat at) (written bs (unat offset) data)),
             vr_eof = (length (written bs (unat offset) data) \<le> unat at + unat count),
             vr_attributes = mr_after r\<rparr>, s')) \<and>
    (\<forall>ctx other at count. obj_file_id other \<noteq> obj_file_id object \<longrightarrow>
       fst (demo_read ctx other at count s') = fst (demo_read ctx other at count s))"
proof -
  from run e obtain e' t where fits: "unat offset + length data < usize_bound"
    and e': "e' = e\<lparr>en_contents := File (copy_from_slice (unat offset) data
              (vec_resize (max (length bs) (unat offset + length data)) bs)),
            en_attributes := (en_attributes e)
              \<lparr>fa_size := of_nat (max (length bs) (unat offset + length data)),
               fa_used := of_nat (max (length bs) (unat offset + length data)),
               fa_modify_time := fst (demo_now s), fa_change_time := fst (demo_now s)\<rparr>\<rparr>"
    and t: "t = snd (demo_now s)" and s': "s' = put_entry object e' t"
    and r: "mr_value r = \<lparr>vw_count = of_nat (length data), vw_committed = requested\<rparr>"
      "mr_after r = Some (en_attributes e')"
    by (auto elim!: demo_write_Inr)
  have len: "length bs < usize_bound"
    using assms(3) e by (auto simp: demo_possible_def list_all_length demo_entry_Inr split: Contents.splits)
  have new: "demo_entry s' object = Inr e'" "en_contents e' = File (written bs (unat offset) data)"
    using demo_entry_put(1) [OF e(1)] by (simp_all add: s' t e' copy_resize_written)
  have new_len: "length (written bs (unat offset) data) < usize_bound" using len fits by (simp add: written_def)
  have other: "fst (demo_read ctx other at count s') = fst (demo_read ctx other at count s)"
    if "obj_file_id other \<noteq> obj_file_id object" for ctx other at count
    using demo_entry_put(2) [OF e(1), of t other e'] that by (simp add: demo_read_def s' t)
  show ?thesis using other r by (simp add: demo_read_file [OF new new_len])
qed

theorem demo_read_after_write_witness:
  "\<exists>r s'. demo_write demo_ctx (demo_key 2) 14 [1, 2] FileSync demo_sample = (Inr r, s') \<and>
     fst (demo_read demo_ctx (demo_key 2) 11 10 s') = Inr \<lparr>vr_data = [10, 0, 0, 1, 2], vr_eof = True, vr_attributes = mr_after r\<rparr>"
proof -
  let ?bs = "byte_string ''hello world'' @ [10]"
  obtain e where e: "demo_entry demo_sample (demo_key 2) = Inr e" "en_contents e = File ?bs"
    by (simp add: demo_entry_Inr demo_key_def demo_sample_def demo_default_def make_file_def)
  have "\<not> isl (fst (demo_write demo_ctx (demo_key 2) 14 [1, 2] FileSync demo_sample))" by code_simp
  then obtain r s' where run: "demo_write demo_ctx (demo_key 2) 14 [1, 2] FileSync demo_sample = (Inr r, s')"
    by (metis isl_def obj_sumE prod.collapse)
  have "written ?bs 14 [1, 2] = ?bs @ [0, 0, 1, 2]" by code_simp
  with run demo_read_after_write [OF e sample_possible run] show ?thesis
    by (simp add: byte_string_def)
qed

text \<open>
  What is created is found.  After a successful \<open>create\<close>, a lookup of the name returns the created
  object, and repeating an exclusive \<open>create\<close> returns it again with the same verifier and fails with
  every other one, without a change.  The names \<^verbatim>\<open>.\<close> and \<^verbatim>\<open>..\<close> are the exception: they can be created,
  too, but a lookup returns another object.
\<close>

theorem demo_create_lookup:
  assumes inv: "demo_inv s" and "demo_possible s'" and "valid_name name"
    and run: "demo_create ctx parent name sa mode s = (Inr r, s')"
  shows "(if dot_name name
       then \<forall>ctx found t. demo_lookup ctx parent name s' = (Inr found, t) \<longrightarrow> co_object found \<noteq> co_object (mr_value r)
       else \<forall>ctx. demo_lookup ctx parent name s' = (Inr (mr_value r), s')) \<and>
    (\<forall>v. mode = Exclusive v \<longrightarrow>
       (\<forall>ctx sa v'. snd (demo_create ctx parent name sa (Exclusive v') s') = s' \<and>
          map_sum id mr_value (fst (demo_create ctx parent name sa (Exclusive v') s')) =
            (if v' = v then Inr (mr_value r) else Inl Err_Exists)))"
proof -
  have inv': "demo_inv s'" using demo_create_inv [OF inv assms(3), of ctx parent sa mode] run assms(2) by simp
  from inv inv' run obtain directory children c where dir: "demo_entry s' parent = Inr directory"
      "en_contents directory = Directory children"
    and c: "c \<in> set children" "find_child (df_entries s') children (name_bytes name) = Some (df_entries s' ! unat c)"
    and r: "mr_value r = demo_created (df_entries s' ! unat c)" "unat (en_id (df_entries s' ! unat c)) = unat c"
    and exclusive: "\<And>v. mode = Exclusive v \<Longrightarrow> en_exclusive_verifier (df_entries s' ! unat c) = Some v"
    by (rule demo_create_child) blast
  have "co_object found \<noteq> co_object (mr_value r)"
    if "dot_name name" "demo_lookup ctx parent name s' = (Inr found, t)" for ctx found t
    using lookup_dot [OF inv' dir that c(1)] r by (auto simp: demo_created_def demo_key_def)
  moreover have "demo_lookup ctx parent name s' = (Inr (mr_value r), s')" if "\<not> dot_name name" for ctx
    using lookup_plain [OF dir that c(2)] r(1) by simp
  moreover have "snd (demo_create ctx parent name sa (Exclusive v') s') = s' \<and>
      map_sum id mr_value (fst (demo_create ctx parent name sa (Exclusive v') s')) =
        (if v' = v then Inr (mr_value r) else Inl Err_Exists)" if "mode = Exclusive v" for v ctx sa v'
    using exclusive [OF that] by (simp add: demo_create_def dir c(2) r(1))
  ultimately show ?thesis by simp
qed

theorem demo_create_lookup_witness:
  "\<exists>r s'. demo_create demo_ctx (demo_key 1) new_name set_attributes_default (Exclusive [7]) demo_sample = (Inr r, s') \<and>
     demo_lookup demo_ctx (demo_key 1) new_name s' = (Inr (mr_value r), s') \<and>
     snd (demo_create demo_ctx (demo_key 1) new_name set_attributes_default (Exclusive [8]) s') = s'"
proof -
  let ?run = "demo_create demo_ctx (demo_key 1) new_name set_attributes_default (Exclusive [7]) demo_sample"
  have "\<not> isl (fst ?run)" by code_simp
  then obtain r s' where run: "?run = (Inr r, s')" by (metis isl_def obj_sumE prod.collapse)
  have "demo_inv demo_sample" unfolding demo_sample_def by (rule demo_default_inv)
  moreover have "demo_possible s'" using sample_create_possible run by simp
  moreover have "valid_name new_name" "\<not> dot_name new_name" by code_simp+
  ultimately show ?thesis using demo_create_lookup [OF _ _ _ run] run by simp
qed

text \<open>
  A directory is listed completely.  A client that pages through a directory, with any number of
  entries per page, and asks for at least as many pages as there are children gets each of them once,
  in order, and then the end; and a lookup of a listed name returns the listed object and attributes.
\<close>

theorem demo_listing_complete:
  assumes inv: "demo_inv s" and e: "demo_entry s directory = Inr e" "en_contents e = Directory children"
    and "length children \<le> length hints" and "hints \<noteq> []"
  shows "\<exists>entries. list_pages (demo_readdir ctx directory) 0 verifier hints s = Some (entries, s) \<and>
    map de_file_id entries = children \<and> distinct (map de_name entries) \<and>
    (\<forall>x\<in>set entries. \<not> dot_name (de_name x) \<longrightarrow>
       demo_lookup ctx directory (de_name x) s = (Inr \<lparr>co_object = de_object x, co_attributes = de_attributes x\<rparr>, s))"
proof -
  note kids = directory_children [OF inv e]
  have dir: "is_directory s directory" using e by (simp add: is_directory_def)
  have len: "length (demo_listing directory s) = length children" by (simp add: demo_listing_eq [OF e kids])
  have number: "en_id (df_entries s ! unat c) = c" if "c \<in> set children" for c
    using inv children_okD(3) [OF kids that] by (simp add: demo_inv_def entry_ok_def)
  from demo_dir.list_pages_complete [of s directory 0 verifier hints ctx] inv dir len assms(4,5)
  obtain entries t where pages: "list_pages (demo_readdir ctx directory) 0 verifier hints s = Some (entries, t)"
    "entries = demo_listing directory s" by auto
  have "t = s" using list_pages_state [OF pages(1)] by simp
  have ids: "map de_file_id (demo_listing directory s) = children"
    by (rule nth_equalityI) (simp_all add: len demo_listing_nth [OF e kids] number)
  have names: "map de_name (demo_listing directory s) = map (\<lambda>c. NfsName (en_name (df_entries s ! unat c))) children"
    by (rule nth_equalityI) (simp_all add: len demo_listing_nth [OF e kids])
  have "demo_lookup ctx directory (de_name x) s = (Inr \<lparr>co_object = de_object x, co_attributes = de_attributes x\<rparr>, s)"
    if x: "x \<in> set (demo_listing directory s)" and "\<not> dot_name (de_name x)" for x
  proof -
    from x obtain i where i: "i < length children" "x = demo_listing directory s ! i" by (auto simp: in_set_conv_nth len)
    note entry = demo_listing_nth [OF e kids i(1)]
    have "find_child (df_entries s) children (name_bytes (de_name x)) = Some (df_entries s ! unat (children ! i))"
      using find_child_Some [OF kids nth_mem [OF i(1)]] i(2) entry by simp
    from lookup_plain [OF e that(2) this] show ?thesis by (simp add: i(2) entry demo_created_def)
  qed
  moreover have "distinct (map de_name (demo_listing directory s))"
    unfolding names using children_distinct_names [OF kids] by (simp add: distinct_map inj_on_def)
  ultimately show ?thesis using pages ids \<open>t = s\<close> by auto
qed

theorem demo_listing_complete_witness:
  "\<exists>entries. list_pages (demo_readdir demo_ctx (demo_key 1)) 0 [] [1, 1, 5] demo_sample = Some (entries, demo_sample) \<and>
     map de_file_id entries = [2, 3, 4] \<and> distinct (map de_name entries)"
proof -
  obtain e where e: "demo_entry demo_sample (demo_key 1) = Inr e" "en_contents e = Directory [2, 3, 4]"
    by (simp add: demo_entry_Inr demo_key_def demo_sample_def demo_default_def make_directory_def)
  have "demo_inv demo_sample" unfolding demo_sample_def by (rule demo_default_inv)
  from demo_listing_complete [OF this e, of "[1, 1, 5]" demo_ctx "[]"] show ?thesis by auto
qed

end
