(* ===== verification/Mirror_Map.thy ===== *)
theory Mirror_Map
  imports Backend_Contract "HOL-Library.AList" "HOL-Library.Sublist"
begin

text \<open>
  The map between file identifiers and paths of the mirror backend, \<open>FsMap\<close> in
  \<^verbatim>\<open>examples/mirrorfs.rs\<close>, for Unix hosts: a path relative to the root of the mirror is a list of
  components, which is its own key.

  Association lists stand for the hash maps, in the order in which they happen to be iterated over.
  The specification is a partial map from identifiers to paths; the map with its reverse index is
  shown to implement it.
\<close>

section \<open>State\<close>

type_synonym relative = "bytes list"

text \<open>The type \<open>RelativeKey\<close>, and the functions on relative paths, for Unix.\<close>

definition relative_key :: "relative \<Rightarrow> NfsError + relative" where
  "relative_key relative = Inr relative"

definition relative_eq :: "relative \<Rightarrow> relative \<Rightarrow> bool" where
  "relative_eq left right \<longleftrightarrow> left = right"

definition relative_starts_with :: "relative \<Rightarrow> relative \<Rightarrow> bool" where
  "relative_starts_with relative prefix_path \<longleftrightarrow> prefix prefix_path relative"

definition MIRROR_ROOT_ID :: u64 where "MIRROR_ROOT_ID = 1"
definition MIRROR_GENERATION :: u64 where "MIRROR_GENERATION = 1"

record FsMap =
  fm_root :: relative
  fm_next_file_id :: u64
  fm_id_to_relative :: "(u64 \<times> relative) list"
  fm_id_to_key :: "(u64 \<times> relative) list"
  fm_relative_to_id :: "(relative \<times> u64 list) list"
  fm_exclusive_verifiers :: "(relative \<times> (relative \<times> bytes) list) list"

definition fsmap_new :: "relative \<Rightarrow> FsMap" where
  "fsmap_new root =
     \<lparr>fm_root = root, fm_next_file_id = MIRROR_ROOT_ID + 1, fm_id_to_relative = [(MIRROR_ROOT_ID, [])],
      fm_id_to_key = [(MIRROR_ROOT_ID, [])], fm_relative_to_id = [([], [MIRROR_ROOT_ID])],
      fm_exclusive_verifiers = []\<rparr>"

section \<open>Operations\<close>

definition fm_relative :: "FsMap \<Rightarrow> ObjectKey \<Rightarrow> NfsError + relative" where
  "fm_relative m object =
     (if obj_generation object \<noteq> MIRROR_GENERATION then Inl Err_Stale
      else ok_or Err_Stale (map_of (fm_id_to_relative m) (obj_file_id object)))"

text \<open>
  A host path is the list of its components: a component of a relative path is not absolute, so
  that \<open>PathBuf::extend\<close> appends it.
\<close>

definition fm_path :: "FsMap \<Rightarrow> relative \<Rightarrow> relative" where
  "fm_path m relative = fm_root m @ relative"

definition nfs_name_to_os_string :: "NfsName \<Rightarrow> NfsError + bytes" where
  "nfs_name_to_os_string name = Inr (name_bytes name)"

definition child_relative :: "FsMap \<Rightarrow> ObjectKey \<Rightarrow> NfsName \<Rightarrow> NfsError + relative" where
  "child_relative m parent name =
     r_bind (fm_relative m parent) (\<lambda>relative.
     r_bind (nfs_name_to_os_string name) (\<lambda>component. Inr (relative @ [component])))"

definition bucket_of :: "(relative \<times> 'a list) list \<Rightarrow> relative \<Rightarrow> 'a list" where
  "bucket_of index key = (case map_of index key of Some xs \<Rightarrow> xs | None \<Rightarrow> [])"

definition intern :: "relative \<Rightarrow> FsMap \<Rightarrow> (NfsError + u64) \<times> FsMap" where
  "intern relative m =
     (case relative_key relative of
        Inl e \<Rightarrow> (Inl e, m)
      | Inr key \<Rightarrow>
          (case find (\<lambda>i. case map_of (fm_id_to_relative m) i of
                            Some candidate \<Rightarrow> relative_eq candidate relative | None \<Rightarrow> False)
                  (bucket_of (fm_relative_to_id m) key) of
             Some i \<Rightarrow> (Inr i, m)
           | None \<Rightarrow>
               let i = fm_next_file_id m in
               (Inr i,
                m\<lparr>fm_next_file_id := i + 1,
                  fm_id_to_relative := AList.update i relative (fm_id_to_relative m),
                  fm_id_to_key := AList.update i key (fm_id_to_key m),
                  fm_relative_to_id :=
                    AList.update key (bucket_of (fm_relative_to_id m) key @ [i]) (fm_relative_to_id m)\<rparr>)))"

definition remove_indexed_id :: "relative \<Rightarrow> u64 \<Rightarrow> FsMap \<Rightarrow> FsMap" where
  "remove_indexed_id key i m =
     (case map_of (fm_relative_to_id m) key of
        None \<Rightarrow> m
      | Some ids \<Rightarrow>
          let ids = filter (\<lambda>candidate. candidate \<noteq> i) ids in
          m\<lparr>fm_relative_to_id :=
              (if ids = [] then AList.delete key (fm_relative_to_id m)
               else AList.update key ids (fm_relative_to_id m))\<rparr>)"

text \<open>The identifiers whose path starts with a prefix, with their keys.\<close>

definition below :: "relative \<Rightarrow> relative \<Rightarrow> FsMap \<Rightarrow> (u64 \<times> relative) list" where
  "below prefix_key prefix_path m =
     filter (\<lambda>(i, key). prefix prefix_key key \<and>
        (case map_of (fm_id_to_relative m) i of
           Some relative \<Rightarrow> relative_starts_with relative prefix_path | None \<Rightarrow> False))
       (fm_id_to_key m)"

definition forget_id :: "u64 \<Rightarrow> FsMap \<Rightarrow> FsMap" where
  "forget_id i m =
     (let m = m\<lparr>fm_id_to_relative := AList.delete i (fm_id_to_relative m)\<rparr> in
      case map_of (fm_id_to_key m) i of
        Some key \<Rightarrow> remove_indexed_id key i (m\<lparr>fm_id_to_key := AList.delete i (fm_id_to_key m)\<rparr>)
      | None \<Rightarrow> m)"

definition retain_verifiers :: "relative \<Rightarrow> relative \<Rightarrow> FsMap \<Rightarrow> FsMap" where
  "retain_verifiers prefix_key prefix_path m =
     m\<lparr>fm_exclusive_verifiers :=
        filter (\<lambda>(key, verifiers). verifiers \<noteq> [])
          (map (\<lambda>(key, verifiers).
             (key, if prefix prefix_key key
                   then filter (\<lambda>(relative, _). \<not> relative_starts_with relative prefix_path) verifiers
                   else verifiers)) (fm_exclusive_verifiers m))\<rparr>"

definition forget_prefix :: "relative \<Rightarrow> FsMap \<Rightarrow> (NfsError + unit) \<times> FsMap" where
  "forget_prefix prefix_path m =
     (case relative_key prefix_path of
        Inl e \<Rightarrow> (Inl e, m)
      | Inr prefix_key \<Rightarrow>
          (Inr (), retain_verifiers prefix_key prefix_path
             (fold forget_id (map fst (below prefix_key prefix_path m)) m)))"

definition exclusive_verifier_of :: "FsMap \<Rightarrow> relative \<Rightarrow> NfsError + bytes option" where
  "exclusive_verifier_of m relative =
     r_bind (relative_key relative) (\<lambda>key.
       Inr (map_option snd
         (find (\<lambda>(candidate, _). relative_eq candidate relative) (bucket_of (fm_exclusive_verifiers m) key))))"

definition remember_exclusive_verifier :: "relative \<Rightarrow> bytes \<Rightarrow> FsMap \<Rightarrow> (NfsError + unit) \<times> FsMap" where
  "remember_exclusive_verifier relative verifier m =
     (case relative_key relative of
        Inl e \<Rightarrow> (Inl e, m)
      | Inr key \<Rightarrow>
          (Inr (), m\<lparr>fm_exclusive_verifiers :=
             AList.update key
               (filter (\<lambda>(candidate, _). \<not> relative_eq candidate relative) (bucket_of (fm_exclusive_verifiers m) key) @
                [(relative, verifier)])
               (fm_exclusive_verifiers m)\<rparr>))"

text \<open>Of several matching verifiers, \<open>retain\<close> leaves the last one in the variable.\<close>

definition take_exclusive_verifier :: "relative \<Rightarrow> relative \<Rightarrow> FsMap \<Rightarrow> bytes option \<times> FsMap" where
  "take_exclusive_verifier key relative m =
     (case map_of (fm_exclusive_verifiers m) key of
        None \<Rightarrow> (None, m)
      | Some verifiers \<Rightarrow>
          let taken = filter (\<lambda>(candidate, _). relative_eq candidate relative) verifiers;
              rest = filter (\<lambda>(candidate, _). \<not> relative_eq candidate relative) verifiers in
          (if taken = [] then None else Some (snd (last taken)),
           m\<lparr>fm_exclusive_verifiers :=
               (if rest = [] then AList.delete key (fm_exclusive_verifiers m)
                else AList.update key rest (fm_exclusive_verifiers m))\<rparr>))"

definition move_id :: "relative \<Rightarrow> relative \<Rightarrow> relative \<Rightarrow> u64 \<Rightarrow> relative \<Rightarrow> FsMap \<Rightarrow> FsMap" where
  "move_id old_relative new_relative old_key i new_key m =
     (let m = m\<lparr>fm_id_to_relative := AList.update i new_relative (fm_id_to_relative m),
                fm_id_to_key := AList.update i new_key (fm_id_to_key m)\<rparr>;
          m = remove_indexed_id old_key i m;
          m = m\<lparr>fm_relative_to_id :=
                  AList.update new_key (bucket_of (fm_relative_to_id m) new_key @ [i]) (fm_relative_to_id m)\<rparr>;
          (verifier, m) = take_exclusive_verifier old_key old_relative m in
      case verifier of
        None \<Rightarrow> m
      | Some v \<Rightarrow>
          m\<lparr>fm_exclusive_verifiers :=
              AList.update new_key (bucket_of (fm_exclusive_verifiers m) new_key @ [(new_relative, v)])
                (fm_exclusive_verifiers m)\<rparr>)"

fun move_ids ::
  "relative \<Rightarrow> relative \<Rightarrow> relative \<Rightarrow> relative \<Rightarrow> (u64 \<times> relative) list \<Rightarrow> FsMap \<Rightarrow> (NfsError + unit) \<times> FsMap" where
  "move_ids from to from_key to_key [] m = (Inr (), m)"
| "move_ids from to from_key to_key ((i, old_key) # moved) m =
     (case map_of (fm_id_to_relative m) i of
        None \<Rightarrow> (Inl Err_Stale, m)
      | Some old_relative \<Rightarrow>
          move_ids from to from_key to_key moved
            (move_id old_relative (to @ drop (length from) old_relative) old_key i
               (to_key @ drop (length from_key) old_key) m))"

definition move_prefix :: "relative \<Rightarrow> relative \<Rightarrow> FsMap \<Rightarrow> (NfsError + unit) \<times> FsMap" where
  "move_prefix from to m =
     (case (relative_key from, relative_key to) of
        (Inr from_key, Inr to_key) \<Rightarrow>
          (case (if relative_eq from to then (Inr (), m) else forget_prefix to m) of
             (Inl e, m) \<Rightarrow> (Inl e, m)
           | (Inr _, m) \<Rightarrow> move_ids from to from_key to_key (below from_key from m) m)
      | (Inl e, _) \<Rightarrow> (Inl e, m)
      | (_, Inl e) \<Rightarrow> (Inl e, m))"

section \<open>Specification\<close>

text \<open>
  What the map means: which path each identifier stands for, and the next identifier.  Interning
  finds the identifier of a path or gives it a new one; forgetting and moving act on all paths
  below another.
\<close>

type_synonym paths = "u64 \<rightharpoonup> relative"

datatype map_call =
    Intern relative
  | Forget relative
  | Move relative relative
  | Remember relative bytes

fun spec_call :: "map_call \<Rightarrow> paths \<times> u64 \<Rightarrow> paths \<times> u64" where
  "spec_call (Intern p) (a, n) = (if p \<in> ran a then (a, n) else (a(n \<mapsto> p), n + 1))"
| "spec_call (Forget q) (a, n) =
     (\<lambda>i. case a i of None \<Rightarrow> None | Some p \<Rightarrow> if prefix q p then None else Some p, n)"
| "spec_call (Move from to) (a, n) =
     (\<lambda>i. case a i of
            None \<Rightarrow> None
          | Some p \<Rightarrow>
              if from \<noteq> to \<and> prefix to p then None
              else if prefix from p then Some (to @ drop (length from) p)
              else Some p, n)"
| "spec_call (Remember p v) (a, n) = (a, n)"

fun fsmap_call :: "map_call \<Rightarrow> FsMap \<Rightarrow> (NfsError + u64 option) \<times> FsMap" where
  "fsmap_call (Intern p) m = apfst (map_sum id Some) (intern p m)"
| "fsmap_call (Forget q) m = apfst (map_sum id (\<lambda>_. None)) (forget_prefix q m)"
| "fsmap_call (Move from to) m = apfst (map_sum id (\<lambda>_. None)) (move_prefix from to m)"
| "fsmap_call (Remember p v) m = apfst (map_sum id (\<lambda>_. None)) (remember_exclusive_verifier p v m)"

definition fsmap_abs :: "FsMap \<Rightarrow> paths \<times> u64" where
  "fsmap_abs m = (map_of (fm_id_to_relative m), fm_next_file_id m)"

text \<open>
  The reverse index lists exactly one identifier for each path that has one; both maps from
  identifiers agree; identifiers are below the next one; a verifier is stored under its own path.
\<close>

definition index_ok :: "paths \<Rightarrow> (relative \<rightharpoonup> u64 list) \<Rightarrow> bool" where
  "index_ok a x \<longleftrightarrow>
     (\<forall>i p. a i = Some p \<longrightarrow> x p = Some [i]) \<and> (\<forall>p ids. x p = Some ids \<longrightarrow> (\<exists>i. ids = [i] \<and> a i = Some p))"

definition verifiers_ok :: "(relative \<rightharpoonup> (relative \<times> bytes) list) \<Rightarrow> bool" where
  "verifiers_ok v \<longleftrightarrow> (\<forall>p verifiers. v p = Some verifiers \<longrightarrow> (\<exists>w. verifiers = [(p, w)]))"

definition fsmap_ok :: "FsMap \<Rightarrow> bool" where
  "fsmap_ok m \<longleftrightarrow>
     distinct (map fst (fm_id_to_relative m)) \<and> fm_id_to_key m = fm_id_to_relative m \<and>
     distinct (map fst (fm_relative_to_id m)) \<and> distinct (map fst (fm_exclusive_verifiers m)) \<and>
     index_ok (map_of (fm_id_to_relative m)) (map_of (fm_relative_to_id m)) \<and>
     (\<forall>i p. map_of (fm_id_to_relative m) i = Some p \<longrightarrow> 0 < i \<and> i < fm_next_file_id m) \<and>
     0 < fm_next_file_id m \<and> verifiers_ok (map_of (fm_exclusive_verifiers m))"

text \<open>The verifier of a path that is moved.\<close>

definition moved_verifiers ::
  "relative \<Rightarrow> relative \<Rightarrow> (relative \<rightharpoonup> (relative \<times> bytes) list) \<Rightarrow> (relative \<rightharpoonup> (relative \<times> bytes) list)" where
  "moved_verifiers old new v =
     (case v old of None \<Rightarrow> v | Some verifiers \<Rightarrow> (v(old := None))(new \<mapsto> [(new, snd (hd verifiers))]))"

text \<open>The path of a moved object.\<close>

definition rebase :: "relative \<Rightarrow> relative \<Rightarrow> relative \<Rightarrow> relative" where
  "rebase from to p = to @ drop (length from) p"

text \<open>
  The state in which the remaining identifiers can be moved: their new paths are not taken, neither
  by an identifier that stays nor by a verifier.
\<close>

definition movable :: "relative \<Rightarrow> relative \<Rightarrow> (u64 \<times> relative) list \<Rightarrow> FsMap \<Rightarrow> bool" where
  "movable from to moved m \<longleftrightarrow>
     fsmap_ok m \<and> distinct (map fst moved) \<and>
     (\<forall>(i, p)\<in>set moved. map_of (fm_id_to_relative m) i = Some p \<and> prefix from p \<and>
        (from = to \<or> \<not> prefix to p \<and> map_of (fm_exclusive_verifiers m) (rebase from to p) = None) \<and>
        (\<forall>j. map_of (fm_id_to_relative m) j = Some (rebase from to p) \<longrightarrow> j \<in> fst ` set moved))"

text \<open>The answer to a call: interning gives an identifier that now stands for the path.\<close>

fun call_answered :: "map_call \<Rightarrow> NfsError + u64 option \<Rightarrow> paths \<Rightarrow> bool" where
  "call_answered (Intern p) r a \<longleftrightarrow> (\<exists>i. r = Inr (Some i) \<and> a i = Some p)"
| "call_answered _ r a \<longleftrightarrow> r = Inr None"

fun spec_run :: "map_call list \<Rightarrow> (NfsError + u64 option) list \<Rightarrow> paths \<times> u64 \<Rightarrow> paths \<times> u64 \<Rightarrow> bool" where
  "spec_run [] rs a b \<longleftrightarrow> rs = [] \<and> a = b"
| "spec_run (call # calls) rs a b \<longleftrightarrow>
     (\<exists>r rest. rs = r # rest \<and> call_answered call r (fst (spec_call call a)) \<and> spec_run calls rest (spec_call call a) b)"

fun fsmap_run :: "map_call list \<Rightarrow> FsMap \<Rightarrow> (NfsError + u64 option) list \<times> FsMap" where
  "fsmap_run [] m = ([], m)"
| "fsmap_run (call # calls) m =
     (let (r, m) = fsmap_call call m; (rs, m) = fsmap_run calls m in (r # rs, m))"

section \<open>The reverse index\<close>

lemmas relative_simps [simp] = relative_key_def relative_eq_def relative_starts_with_def

lemma map_of_update [simp]: "map_of (AList.update k v al) = (map_of al)(k \<mapsto> v)"
  by (rule AList.update_conv')

lemma map_of_delete [simp]: "map_of (AList.delete k al) = (map_of al)(k := None)"
  by (rule AList.delete_conv')

lemma index_okD:
  assumes "index_ok a x"
  shows "a i = Some p \<Longrightarrow> x p = Some [i]" "x p = Some ids \<Longrightarrow> \<exists>i. ids = [i] \<and> a i = Some p"
    "a i = Some p \<Longrightarrow> a j = Some p \<Longrightarrow> i = j" "p \<notin> ran a \<Longrightarrow> x p = None"
proof -
  show one: "x p = Some [i]" if "a i = Some p" for i p using assms that by (auto simp: index_ok_def)
  show two: "\<exists>i. ids = [i] \<and> a i = Some p" if "x p = Some ids" for p ids using assms that by (auto simp: index_ok_def)
  show "i = j" if "a i = Some p" "a j = Some p" using one [OF that(1)] one [OF that(2)] by simp
  show "x p = None" if "p \<notin> ran a"
  proof (cases "x p")
    case (Some ids)
    from two [OF this] that show ?thesis by (auto simp: ran_def)
  qed simp
qed

lemma index_add:
  assumes "index_ok a x" and "p \<notin> ran a" and "a i = None"
  shows "index_ok (a(i \<mapsto> p)) (x(p \<mapsto> [i]))"
  using assms unfolding index_ok_def ran_def by (auto split: if_splits) (metis option.distinct(1))

lemma index_remove:
  assumes "index_ok a x" and "a i = Some p"
  shows "index_ok (a(i := None)) (x(p := None))"
  unfolding index_ok_def
proof (intro conjI allI impI)
  fix j q assume "(a(i := None)) j = Some q"
  then have j: "j \<noteq> i" "a j = Some q" by (auto split: if_splits)
  with index_okD(3) [OF assms(1), of i p j] assms(2) have "q \<noteq> p" by auto
  with index_okD(1) [OF assms(1) j(2)] show "(x(p := None)) q = Some [j]" by simp
next
  fix q ids assume "(x(p := None)) q = Some ids"
  then have q: "q \<noteq> p" "x q = Some ids" by (auto split: if_splits)
  from index_okD(2) [OF assms(1) q(2)] obtain j where "ids = [j]" "a j = Some q" by blast
  with q(1) assms(2) show "\<exists>j. ids = [j] \<and> (a(i := None)) j = Some q" by auto
qed

lemma index_move:
  assumes "index_ok a x" and "a i = Some p" and "\<forall>j. a j = Some p' \<longrightarrow> j = i"
  shows "index_ok (a(i \<mapsto> p')) ((x(p := None))(p' \<mapsto> [i]))" and "(x(p := None)) p' = None"
proof -
  let ?a = "a(i := None)" and ?x = "x(p := None)"
  note removed = index_remove [OF assms(1,2)]
  have free: "p' \<notin> ran ?a" using assms(3) by (auto simp: ran_def split: if_splits)
  have "index_ok (?a(i \<mapsto> p')) (?x(p' \<mapsto> [i]))" by (rule index_add [OF removed free]) simp
  then show "index_ok (a(i \<mapsto> p')) (?x(p' \<mapsto> [i]))" by simp
  show "?x p' = None" by (rule index_okD(4) [OF removed free])
qed

section \<open>Every operation implements its specification\<close>

lemma fsmap_okD:
  assumes "fsmap_ok m"
  shows "distinct (map fst (fm_id_to_relative m))" "fm_id_to_key m = fm_id_to_relative m"
    "distinct (map fst (fm_relative_to_id m))" "distinct (map fst (fm_exclusive_verifiers m))"
    "index_ok (map_of (fm_id_to_relative m)) (map_of (fm_relative_to_id m))"
    "map_of (fm_id_to_relative m) i = Some p \<Longrightarrow> 0 < i \<and> i < fm_next_file_id m"
    "verifiers_ok (map_of (fm_exclusive_verifiers m))" "0 < fm_next_file_id m"
  using assms unfolding fsmap_ok_def by blast+

lemma fsmap_new_ok: "fsmap_ok (fsmap_new root)"
  by (auto simp: fsmap_ok_def fsmap_new_def index_ok_def verifiers_ok_def MIRROR_ROOT_ID_def split: if_splits)

lemma intern_known:
  assumes "fsmap_ok m" and "map_of (fm_id_to_relative m) i = Some p"
  shows "intern p m = (Inr i, m)"
  using index_okD(1) [OF fsmap_okD(5) [OF assms(1)] assms(2)] assms(2) by (simp add: intern_def bucket_of_def)

lemma intern_fresh:
  assumes ok: "fsmap_ok m" and fresh: "p \<notin> ran (map_of (fm_id_to_relative m))"
    and fits: "Suc (unat (fm_next_file_id m)) < usize_bound"
  shows "\<exists>m'. intern p m = (Inr (fm_next_file_id m), m') \<and> fsmap_ok m' \<and>
    map_of (fm_id_to_relative m') = (map_of (fm_id_to_relative m))(fm_next_file_id m \<mapsto> p) \<and>
    fm_next_file_id m' = fm_next_file_id m + 1 \<and> fm_root m' = fm_root m \<and>
    fm_exclusive_verifiers m' = fm_exclusive_verifiers m"
proof -
  let ?n = "fm_next_file_id m" and ?a = "map_of (fm_id_to_relative m)" and ?x = "map_of (fm_relative_to_id m)"
  have none: "?x p = None" using index_okD(4) [OF fsmap_okD(5) [OF ok] fresh] .
  have unused: "?a ?n = None"
  proof (cases "?a ?n")
    case (Some q)
    with fsmap_okD(6) [OF ok] show ?thesis by blast
  qed simp
  have less: "0 < i \<and> i < ?n + 1" if "(?a(?n \<mapsto> p)) i = Some q" for i q
    using that fsmap_okD(6) [OF ok, of i q] unat_succ64 [OF fits] fsmap_okD(8) [OF ok]
    by (auto simp: word_less_nat_alt split: if_splits)
  have run: "intern p m = (Inr ?n, m\<lparr>fm_next_file_id := ?n + 1,
      fm_id_to_relative := AList.update ?n p (fm_id_to_relative m),
      fm_id_to_key := AList.update ?n p (fm_id_to_key m),
      fm_relative_to_id := AList.update p [?n] (fm_relative_to_id m)\<rparr>)"
    by (simp add: intern_def bucket_of_def none Let_def)
  have "fsmap_ok (snd (intern p m))"
    unfolding run fsmap_ok_def
    using fsmap_okD(1-4,7) [OF ok] index_add [OF fsmap_okD(5) [OF ok] fresh unused] less unat_succ64 [OF fits]
    by (simp add: AList.distinct_update word_less_nat_alt)
  with run show ?thesis by auto
qed

lemma remove_indexed_single:
  "map_of (fm_relative_to_id m) p = Some [i] \<Longrightarrow>
    remove_indexed_id p i m = m\<lparr>fm_relative_to_id := AList.delete p (fm_relative_to_id m)\<rparr>"
  by (simp add: remove_indexed_id_def)

lemma forget_id_ok:
  assumes ok: "fsmap_ok m" and i: "map_of (fm_id_to_relative m) i = Some p"
  shows "fsmap_ok (forget_id i m)"
    and "map_of (fm_id_to_relative (forget_id i m)) = (map_of (fm_id_to_relative m))(i := None)"
    and "fm_next_file_id (forget_id i m) = fm_next_file_id m" "fm_root (forget_id i m) = fm_root m"
proof -
  have run: "forget_id i m = m\<lparr>fm_id_to_relative := AList.delete i (fm_id_to_relative m),
      fm_id_to_key := AList.delete i (fm_id_to_key m), fm_relative_to_id := AList.delete p (fm_relative_to_id m)\<rparr>"
    using i index_okD(1) [OF fsmap_okD(5) [OF ok] i]
    by (simp add: forget_id_def fsmap_okD(2) [OF ok] Let_def remove_indexed_single)
  show "fsmap_ok (forget_id i m)"
    unfolding run fsmap_ok_def
    using fsmap_okD(1-4,6,7,8) [OF ok] index_remove [OF fsmap_okD(5) [OF ok] i]
    by (auto simp: AList.distinct_delete split: if_splits)
  show "map_of (fm_id_to_relative (forget_id i m)) = (map_of (fm_id_to_relative m))(i := None)"
    "fm_next_file_id (forget_id i m) = fm_next_file_id m" "fm_root (forget_id i m) = fm_root m"
    by (simp_all add: run)
qed

lemma forget_ids_ok:
  assumes "fsmap_ok m" and "distinct ids" and "set ids \<subseteq> dom (map_of (fm_id_to_relative m))"
  shows "fsmap_ok (fold forget_id ids m) \<and>
    map_of (fm_id_to_relative (fold forget_id ids m)) = (map_of (fm_id_to_relative m)) |` (- set ids) \<and>
    fm_next_file_id (fold forget_id ids m) = fm_next_file_id m \<and> fm_root (fold forget_id ids m) = fm_root m"
  using assms
proof (induction ids arbitrary: m)
  case (Cons i ids)
  then obtain p where i: "map_of (fm_id_to_relative m) i = Some p" by auto
  note one = forget_id_ok [OF Cons.prems(1) i]
  have "set ids \<subseteq> dom (map_of (fm_id_to_relative (forget_id i m)))" using Cons.prems(2,3) by (auto simp: one(2))
  from Cons.IH [OF one(1) _ this] Cons.prems(2) one(2-4) show ?case
    by (auto simp: restrict_map_def fun_eq_iff)
qed (simp add: restrict_map_def)

lemma below_eq:
  assumes "fsmap_ok m"
  shows "below q q m = filter (\<lambda>(i, p). prefix q p) (fm_id_to_relative m)"
proof -
  have "map_of (fm_id_to_relative m) i = Some p" if "(i, p) \<in> set (fm_id_to_relative m)" for i p
    using that fsmap_okD(1) [OF assms] by simp
  then show ?thesis
    unfolding below_def fsmap_okD(2) [OF assms] by (intro filter_cong) auto
qed

lemma below_set:
  assumes "fsmap_ok m"
  shows "set (below q q m) = {(i, p). map_of (fm_id_to_relative m) i = Some p \<and> prefix q p}"
    and "distinct (map fst (below q q m))"
  using fsmap_okD(1) [OF assms]
  by (auto simp: below_eq [OF assms] distinct_map_filter)

lemma retain_verifiers_ok:
  assumes "fsmap_ok m"
  shows "fsmap_ok (retain_verifiers q q m)"
    and "map_of (fm_exclusive_verifiers (retain_verifiers q q m)) p =
      (if prefix q p then None else map_of (fm_exclusive_verifiers m) p)"
proof -
  let ?v = "fm_exclusive_verifiers m"
  have single: "\<forall>(p, verifiers)\<in>set ?v. \<exists>w. verifiers = [(p, w)]"
    using fsmap_okD(4,7) [OF assms] by (auto simp: verifiers_ok_def)
  have kept: "filter (\<lambda>(key, verifiers). verifiers \<noteq> [])
      (map (\<lambda>(key, verifiers). (key, if prefix q key
         then filter (\<lambda>(relative, _). \<not> relative_starts_with relative q) verifiers else verifiers)) vs) =
      filter (\<lambda>(p, _). \<not> prefix q p) vs"
    if "\<forall>(p, verifiers)\<in>set vs. \<exists>w. verifiers = [(p, w)]" for vs :: "(relative \<times> (relative \<times> bytes) list) list"
    using that by (induction vs) auto
  have shown: "map_of (filter (\<lambda>(p, _). \<not> prefix q p) vs) p = (if prefix q p then None else map_of vs p)"
    for vs :: "(relative \<times> (relative \<times> bytes) list) list" and p
    by (induction vs) auto
  have run: "retain_verifiers q q m = m\<lparr>fm_exclusive_verifiers := filter (\<lambda>(p, _). \<not> prefix q p) ?v\<rparr>"
    unfolding retain_verifiers_def kept [OF single] ..
  show "map_of (fm_exclusive_verifiers (retain_verifiers q q m)) p =
      (if prefix q p then None else map_of ?v p)"
    by (simp add: run shown)
  have "verifiers_ok (map_of (filter (\<lambda>(p, _). \<not> prefix q p) ?v))"
    using fsmap_okD(7) [OF assms] by (simp add: verifiers_ok_def shown)
  then show "fsmap_ok (retain_verifiers q q m)"
    unfolding run fsmap_ok_def using fsmap_okD [OF assms] by (simp add: distinct_map_filter)
qed

lemma forget_prefix_ok:
  assumes ok: "fsmap_ok m"
  shows "\<exists>m'. forget_prefix q m = (Inr (), m') \<and> fsmap_ok m' \<and> fsmap_abs m' = spec_call (Forget q) (fsmap_abs m) \<and>
    fm_root m' = fm_root m \<and>
    (\<forall>p. map_of (fm_exclusive_verifiers m') p = (if prefix q p then None else map_of (fm_exclusive_verifiers m) p))"
proof -
  let ?ids = "map fst (below q q m)" and ?a = "map_of (fm_id_to_relative m)"
  let ?m = "fold forget_id ?ids m"
  have "set ?ids \<subseteq> dom ?a" using below_set(1) [OF ok, of q] by auto
  note folded = forget_ids_ok [OF ok below_set(2) [OF ok] this]
  have verifiers: "fm_exclusive_verifiers (fold forget_id ids m) = fm_exclusive_verifiers m" for ids
    by (induction ids arbitrary: m) (auto simp: forget_id_def remove_indexed_id_def Let_def split: option.split)
  have "?a |` (- set ?ids) = (\<lambda>i. case ?a i of None \<Rightarrow> None | Some p \<Rightarrow> if prefix q p then None else Some p)"
    using below_set(1) [OF ok, of q] by (force simp: restrict_map_def fun_eq_iff split: option.split)
  then have "fsmap_abs (retain_verifiers q q ?m) = spec_call (Forget q) (fsmap_abs m)"
    using folded by (simp add: fsmap_abs_def retain_verifiers_def)
  then show ?thesis
    using retain_verifiers_ok [of ?m q] folded
    by (simp add: forget_prefix_def verifiers) (simp add: retain_verifiers_def)
qed

text \<open>Moving one identifier, to a path that no other one has.\<close>

lemma verifiers_ok_moved:
  "verifiers_ok v \<Longrightarrow> verifiers_ok (moved_verifiers old new v)"
  by (auto simp: verifiers_ok_def moved_verifiers_def split: option.splits if_splits)

lemma move_id_ok:
  assumes ok: "fsmap_ok m" and i: "map_of (fm_id_to_relative m) i = Some old"
    and free: "\<forall>j. map_of (fm_id_to_relative m) j = Some new \<longrightarrow> j = i"
    and fresh: "new = old \<or> map_of (fm_exclusive_verifiers m) new = None"
  shows "fsmap_ok (move_id old new old i new m)"
    and "map_of (fm_id_to_relative (move_id old new old i new m)) = (map_of (fm_id_to_relative m))(i \<mapsto> new)"
    and "fm_next_file_id (move_id old new old i new m) = fm_next_file_id m"
    and "fm_root (move_id old new old i new m) = fm_root m"
    and "map_of (fm_exclusive_verifiers (move_id old new old i new m)) =
      moved_verifiers old new (map_of (fm_exclusive_verifiers m))"
proof -
  let ?x = "map_of (fm_relative_to_id m)" and ?v = "fm_exclusive_verifiers m"
  define m1 where "m1 = m\<lparr>fm_id_to_relative := AList.update i new (fm_id_to_relative m),
      fm_id_to_key := AList.update i new (fm_id_to_key m),
      fm_relative_to_id := AList.update new [i] (AList.delete old (fm_relative_to_id m))\<rparr>"
  note index = index_move [OF fsmap_okD(5) [OF ok] i free]
  have unmoved: "move_id old new old i new m =
      (let (verifier, m) = take_exclusive_verifier old old m1 in
       case verifier of None \<Rightarrow> m
       | Some w \<Rightarrow> m\<lparr>fm_exclusive_verifiers :=
           AList.update new (bucket_of (fm_exclusive_verifiers m) new @ [(new, w)]) (fm_exclusive_verifiers m)\<rparr>)"
    using index(2) index_okD(1) [OF fsmap_okD(5) [OF ok] i]
    by (simp add: move_id_def m1_def remove_indexed_single bucket_of_def fsmap_okD(2) [OF ok] Let_def)
  obtain v where run: "move_id old new old i new m = m1\<lparr>fm_exclusive_verifiers := v\<rparr>"
    and v: "map_of v = moved_verifiers old new (map_of ?v)" "distinct (map fst v)"
  proof (cases "map_of ?v old")
    case None
    then have "move_id old new old i new m = m1" by (simp add: unmoved take_exclusive_verifier_def m1_def)
    with None show ?thesis
      using fsmap_okD(4) [OF ok] by (intro that [of ?v]) (simp_all add: m1_def moved_verifiers_def)
  next
    case (Some verifiers)
    then obtain w where w: "verifiers = [(old, w)]" using fsmap_okD(7) [OF ok] by (auto simp: verifiers_ok_def)
    have "bucket_of (AList.delete old ?v) new = []" using fresh by (auto simp: bucket_of_def)
    with Some w have "move_id old new old i new m =
        m1\<lparr>fm_exclusive_verifiers := AList.update new [(new, w)] (AList.delete old ?v)\<rparr>"
      by (simp add: unmoved take_exclusive_verifier_def m1_def)
    with Some w show ?thesis
      using fsmap_okD(4) [OF ok]
      by (intro that [of "AList.update new [(new, w)] (AList.delete old ?v)"])
        (simp_all add: moved_verifiers_def AList.distinct_update AList.distinct_delete)
  qed
  have "0 < j \<and> j < fm_next_file_id m" if "((map_of (fm_id_to_relative m))(i \<mapsto> new)) j = Some q" for j q
    using fsmap_okD(6) [OF ok i] fsmap_okD(6) [OF ok, of j q] that by (auto split: if_splits)
  then show "fsmap_ok (move_id old new old i new m)"
    unfolding run fsmap_ok_def
    using fsmap_okD(1-3,8) [OF ok] index(1) v verifiers_ok_moved [OF fsmap_okD(7) [OF ok]]
    by (simp add: m1_def AList.distinct_update AList.distinct_delete)
  show "map_of (fm_id_to_relative (move_id old new old i new m)) = (map_of (fm_id_to_relative m))(i \<mapsto> new)"
    "fm_next_file_id (move_id old new old i new m) = fm_next_file_id m"
    "fm_root (move_id old new old i new m) = fm_root m"
    "map_of (fm_exclusive_verifiers (move_id old new old i new m)) = moved_verifiers old new (map_of ?v)"
    using v by (simp_all add: run m1_def)
qed

lemma rebase_same: "prefix from p \<Longrightarrow> rebase from from p = p"
  by (auto simp: rebase_def prefix_def)

lemma rebase_inject: "prefix from p \<Longrightarrow> prefix from p' \<Longrightarrow> rebase from to p = rebase from to p' \<longleftrightarrow> p = p'"
  by (auto simp: rebase_def prefix_def)

lemma prefix_rebase [simp]: "prefix to (rebase from to p)"
  by (simp add: rebase_def)

lemma movable_free:
  assumes "movable from to ((i, p) # moved) m" and "map_of (fm_id_to_relative m) j = Some (rebase from to p)"
  shows "j = i"
proof -
  have ok: "fsmap_ok m" and i: "map_of (fm_id_to_relative m) i = Some p" "prefix from p"
    using assms(1) by (auto simp: movable_def)
  from assms obtain q where q: "(j, q) \<in> set ((i, p) # moved)" by (fastforce simp: movable_def)
  with assms have "q = rebase from to p" "from = to \<or> \<not> prefix to q" by (auto simp: movable_def)
  then have "from = to" by auto
  with assms(2) i index_okD(3) [OF fsmap_okD(5) [OF ok], of i p j] show ?thesis by (simp add: rebase_same)
qed

lemma movable_step:
  assumes "movable from to ((i, p) # moved) m"
  shows "movable from to moved (move_id p (rebase from to p) p i (rebase from to p) m)"
    and "map_of (fm_id_to_relative (move_id p (rebase from to p) p i (rebase from to p) m)) =
      (map_of (fm_id_to_relative m))(i \<mapsto> rebase from to p)"
    and "fm_next_file_id (move_id p (rebase from to p) p i (rebase from to p) m) = fm_next_file_id m"
    and "fm_root (move_id p (rebase from to p) p i (rebase from to p) m) = fm_root m"
proof -
  let ?new = "rebase from to p" and ?a = "map_of (fm_id_to_relative m)"
  have ok: "fsmap_ok m" and i: "?a i = Some p" "prefix from p" and rest: "i \<notin> fst ` set moved"
    using assms by (auto simp: movable_def)
  have fresh: "?new = p \<or> map_of (fm_exclusive_verifiers m) ?new = None"
    using assms by (auto simp: movable_def rebase_same)
  have free: "\<forall>j. ?a j = Some ?new \<longrightarrow> j = i" using movable_free [OF assms] by blast
  note one = move_id_ok [OF ok i(1) free fresh]
  show "map_of (fm_id_to_relative (move_id p ?new p i ?new m)) = ?a(i \<mapsto> ?new)"
    "fm_next_file_id (move_id p ?new p i ?new m) = fm_next_file_id m"
    "fm_root (move_id p ?new p i ?new m) = fm_root m" using one by simp_all
  have other: "q \<noteq> p" if "(k, q) \<in> set moved" for k q
  proof
    assume "q = p"
    with that assms have "?a k = Some p" by (auto simp: movable_def)
    with index_okD(3) [OF fsmap_okD(5) [OF ok] this i(1)] rest that show False by force
  qed
  have "(?a(i \<mapsto> ?new)) k = Some q \<and> prefix from q \<and>
      (from = to \<or> \<not> prefix to q \<and>
         moved_verifiers p ?new (map_of (fm_exclusive_verifiers m)) (rebase from to q) = None) \<and>
      (\<forall>j. (?a(i \<mapsto> ?new)) j = Some (rebase from to q) \<longrightarrow> j \<in> fst ` set moved)"
    if x: "(k, q) \<in> set moved" for k q
  proof -
    from x assms have q: "?a k = Some q" "prefix from q"
      "from = to \<or> \<not> prefix to q \<and> map_of (fm_exclusive_verifiers m) (rebase from to q) = None"
      "\<forall>j. ?a j = Some (rebase from to q) \<longrightarrow> j = i \<or> j \<in> fst ` set moved"
      by (auto simp: movable_def)
    have new: "rebase from to q \<noteq> ?new" using other [OF x] q(2) i(2) by (simp add: rebase_inject)
    have "k \<noteq> i" using rest x by force
    moreover have "moved_verifiers p ?new (map_of (fm_exclusive_verifiers m)) (rebase from to q) = None"
      if "map_of (fm_exclusive_verifiers m) (rebase from to q) = None"
      using that new by (auto simp: moved_verifiers_def split: option.split)
    ultimately show ?thesis using q new by auto
  qed
  moreover have "distinct (map fst moved)" using assms by (simp add: movable_def)
  ultimately show "movable from to moved (move_id p ?new p i ?new m)"
    unfolding movable_def one(2,5) using one(1) by (intro conjI ballI) (simp_all only: split_paired_all prod.case, blast)
qed

lemma move_ids_ok:
  assumes "movable from to moved m"
  shows "\<exists>m'. move_ids from to from to moved m = (Inr (), m') \<and> fsmap_ok m' \<and>
    map_of (fm_id_to_relative m') = (\<lambda>j. if j \<in> fst ` set moved
      then map_option (rebase from to) (map_of (fm_id_to_relative m) j) else map_of (fm_id_to_relative m) j) \<and>
    fm_next_file_id m' = fm_next_file_id m \<and> fm_root m' = fm_root m"
  using assms
proof (induction moved arbitrary: m)
  case Nil
  then show ?case by (simp add: movable_def)
next
  case (Cons x moved)
  obtain i p where [simp]: "x = (i, p)" by fastforce
  note step = movable_step [OF Cons.prems [simplified]]
  have i: "map_of (fm_id_to_relative m) i = Some p" "i \<notin> fst ` set moved" using Cons.prems by (auto simp: movable_def)
  from Cons.IH [OF step(1)] obtain m' where m': "move_ids from to from to moved
        (move_id p (rebase from to p) p i (rebase from to p) m) = (Inr (), m')" "fsmap_ok m'"
      "map_of (fm_id_to_relative m') = (\<lambda>j. if j \<in> fst ` set moved
        then map_option (rebase from to) (((map_of (fm_id_to_relative m))(i \<mapsto> rebase from to p)) j)
        else ((map_of (fm_id_to_relative m))(i \<mapsto> rebase from to p)) j)"
      "fm_next_file_id m' = fm_next_file_id m" "fm_root m' = fm_root m"
    unfolding step(2-4) by blast
  show ?case
    by (rule exI [of _ m']) (use m' i in \<open>auto simp: rebase_def fun_eq_iff\<close>)
qed

lemma move_prefix_ok:
  assumes ok: "fsmap_ok m"
  shows "\<exists>m'. move_prefix from to m = (Inr (), m') \<and> fsmap_ok m' \<and>
    fsmap_abs m' = spec_call (Move from to) (fsmap_abs m) \<and> fm_root m' = fm_root m"
proof -
  define cleared where "cleared = (if from = to then (Inr (), m) else forget_prefix to m)"
  obtain m1 where m1: "cleared = (Inr (), m1)" "fsmap_ok m1" "fm_root m1 = fm_root m"
    "fsmap_abs m1 = (if from = to then fsmap_abs m else spec_call (Forget to) (fsmap_abs m))"
    "from \<noteq> to \<Longrightarrow> prefix to q \<Longrightarrow> map_of (fm_exclusive_verifiers m1) q = None" for q
    using forget_prefix_ok [OF ok, of to] ok by (cases "from = to") (auto simp: cleared_def)
  let ?a = "map_of (fm_id_to_relative m)" and ?a1 = "map_of (fm_id_to_relative m1)"
  have a1: "?a1 = (if from = to then ?a else (\<lambda>i. case ?a i of None \<Rightarrow> None | Some p \<Rightarrow> if prefix to p then None else Some p))"
    "fm_next_file_id m1 = fm_next_file_id m"
    using m1(4) by (auto simp: fsmap_abs_def split: if_splits)
  have clear: "\<not> prefix to p" if "from \<noteq> to" "?a1 i = Some p" for i p
    using that by (auto simp: a1(1) split: option.splits if_splits)
  note chosen = below_set [OF m1(2), of "from"]
  have "movable from to (below from from m1) m1"
    unfolding movable_def chosen(1)
  proof (intro conjI ballI)
    show "fsmap_ok m1" "distinct (map fst (below from from m1))" by (fact m1(2), fact chosen(2))
    fix x assume "x \<in> {(i, p). ?a1 i = Some p \<and> prefix from p}"
    then obtain i p where x: "x = (i, p)" "?a1 i = Some p" "prefix from p" by auto
    have "from = to \<or> \<not> prefix to p \<and> map_of (fm_exclusive_verifiers m1) (rebase from to p) = None"
      using clear [OF _ x(2)] m1(5) by auto
    moreover have "j \<in> fst ` {(i, p). ?a1 i = Some p \<and> prefix from p}" if "?a1 j = Some (rebase from to p)" for j
    proof -
      have "from = to" using clear [OF _ that] by auto
      with that x(3) show ?thesis by (force simp: rebase_same)
    qed
    ultimately show "case x of (i, p) \<Rightarrow> ?a1 i = Some p \<and> prefix from p \<and>
        (from = to \<or> \<not> prefix to p \<and> map_of (fm_exclusive_verifiers m1) (rebase from to p) = None) \<and>
        (\<forall>j. ?a1 j = Some (rebase from to p) \<longrightarrow> j \<in> fst ` {(i, p). ?a1 i = Some p \<and> prefix from p})"
      using x by simp
  qed
  from move_ids_ok [OF this] obtain m' where m': "move_ids from to from to (below from from m1) m1 = (Inr (), m')"
    "fsmap_ok m'" "fm_next_file_id m' = fm_next_file_id m1" "fm_root m' = fm_root m1"
    "map_of (fm_id_to_relative m') = (\<lambda>j. if j \<in> fst ` set (below from from m1)
       then map_option (rebase from to) (?a1 j) else ?a1 j)" by blast
  have "(if j \<in> fst ` set (below from from m1) then map_option (rebase from to) (?a1 j) else ?a1 j) =
      fst (spec_call (Move from to) (fsmap_abs m)) j" for j
    unfolding chosen(1) by (force simp: a1(1) fsmap_abs_def rebase_def image_iff split: option.split)
  then have "fsmap_abs m' = spec_call (Move from to) (fsmap_abs m)"
    using m'(3,5) a1(2) by (auto simp: fsmap_abs_def fun_eq_iff)
  moreover have "move_prefix from to m = (Inr (), m')"
    using m1(1) m'(1) by (simp add: move_prefix_def cleared_def)
  ultimately show ?thesis using m' m1(3) by auto
qed

lemma remember_ok:
  assumes "fsmap_ok m"
  shows "\<exists>m'. remember_exclusive_verifier p v m = (Inr (), m') \<and> fsmap_ok m' \<and> fsmap_abs m' = fsmap_abs m \<and>
    fm_root m' = fm_root m \<and> exclusive_verifier_of m' p = Inr (Some v)"
proof -
  let ?ev = "fm_exclusive_verifiers m"
  have "filter (\<lambda>(candidate, _). candidate \<noteq> p) (bucket_of ?ev p) = []"
  proof (cases "map_of ?ev p")
    case (Some verifiers)
    with fsmap_okD(7) [OF assms] obtain w where "verifiers = [(p, w)]" by (auto simp: verifiers_ok_def)
    with Some show ?thesis by (simp add: bucket_of_def)
  qed (simp add: bucket_of_def)
  then have run: "remember_exclusive_verifier p v m =
      (Inr (), m\<lparr>fm_exclusive_verifiers := AList.update p [(p, v)] ?ev\<rparr>)"
    by (simp add: remember_exclusive_verifier_def)
  have "verifiers_ok ((map_of ?ev)(p \<mapsto> [(p, v)]))"
    using fsmap_okD(7) [OF assms] by (auto simp: verifiers_ok_def)
  then have "fsmap_ok (m\<lparr>fm_exclusive_verifiers := AList.update p [(p, v)] ?ev\<rparr>)"
    using fsmap_okD [OF assms] by (simp add: fsmap_ok_def AList.distinct_update)
  then show ?thesis
    by (simp add: run fsmap_abs_def exclusive_verifier_of_def bucket_of_def)
qed

lemma fsmap_call_ok:
  assumes ok: "fsmap_ok m" and fits: "Suc (unat (fm_next_file_id m)) < usize_bound"
    and run: "fsmap_call call m = (r, m')"
  shows "fsmap_ok m' \<and> fsmap_abs m' = spec_call call (fsmap_abs m) \<and> fm_root m' = fm_root m \<and>
    call_answered call r (fst (fsmap_abs m')) \<and> unat (fm_next_file_id m') \<le> Suc (unat (fm_next_file_id m))"
proof (cases call)
  case (Intern p)
  show ?thesis
  proof (cases "p \<in> ran (map_of (fm_id_to_relative m))")
    case True
    then obtain i where "map_of (fm_id_to_relative m) i = Some p" by (auto simp: ran_def)
    with intern_known [OF ok this] run Intern True ok show ?thesis by (auto simp: fsmap_abs_def)
  next
    case False
    from intern_fresh [OF ok False fits] run Intern False unat_succ64 [OF fits] show ?thesis
      by (auto simp: fsmap_abs_def)
  qed
next
  case (Forget q)
  with forget_prefix_ok [OF ok, of q] run show ?thesis by (auto simp: fsmap_abs_def)
next
  case (Move source target)
  with move_prefix_ok [OF ok, of source target] run show ?thesis by (auto simp: fsmap_abs_def)
next
  case (Remember p v)
  with remember_ok [OF ok, of p v] run show ?thesis by (auto simp: fsmap_abs_def)
qed

lemma fsmap_run_ok:
  assumes "fsmap_ok m" and "unat (fm_next_file_id m) + length calls < usize_bound - 1"
    and "fsmap_run calls m = (rs, m')"
  shows "spec_run calls rs (fsmap_abs m) (fsmap_abs m') \<and> fsmap_ok m' \<and> fm_root m' = fm_root m"
  using assms
proof (induction calls arbitrary: m rs)
  case (Cons call calls)
  obtain r m1 where call: "fsmap_call call m = (r, m1)" by fastforce
  obtain rest m2 where later: "fsmap_run calls m1 = (rest, m2)" by fastforce
  have "Suc (unat (fm_next_file_id m)) < usize_bound" using Cons.prems(2) by simp
  from fsmap_call_ok [OF Cons.prems(1) this call] have one: "fsmap_ok m1" "fsmap_abs m1 = spec_call call (fsmap_abs m)"
    "call_answered call r (fst (fsmap_abs m1))" "unat (fm_next_file_id m1) \<le> Suc (unat (fm_next_file_id m))"
    "fm_root m1 = fm_root m" by auto
  from Cons.prems(3) call later have "rs = r # rest" "m2 = m'" by auto
  moreover from one(4) Cons.prems(2) have "unat (fm_next_file_id m1) + length calls < usize_bound - 1" by simp
  ultimately show ?case using Cons.IH [OF one(1)] later one by auto
qed auto

text \<open>
  The map implements its specification.  On every sequence of calls, starting from a new map and as
  long as there are identifiers left, all calls succeed, interning returns the identifier that stands
  for the path, and the identifiers and the paths they stand for are those of the specification: the
  reverse index and the verifiers never make a difference, whatever the order of the hash maps.
\<close>

theorem fsmap_refines_spec:
  assumes "fsmap_run calls (fsmap_new root) = (rs, m)" and "length calls < usize_bound - 3"
  shows "spec_run calls rs ([1 \<mapsto> []], 2) (fsmap_abs m) \<and> fsmap_ok m"
  using fsmap_run_ok [OF fsmap_new_ok, of root] assms
  by (simp add: fsmap_abs_def fsmap_new_def MIRROR_ROOT_ID_def)

theorem fsmap_refines_spec_witness:
  "\<exists>rs m. fsmap_run [Intern [[97]], Intern [[97], [98]], Move [[97]] [[99]], Intern [[99], [98]]] (fsmap_new []) = (rs, m) \<and>
     spec_run [Intern [[97]], Intern [[97], [98]], Move [[97]] [[99]], Intern [[99], [98]]] rs ([1 \<mapsto> []], 2) (fsmap_abs m)"
proof -
  obtain rs m where run:
    "fsmap_run [Intern [[97]], Intern [[97], [98]], Move [[97]] [[99]], Intern [[99], [98]]] (fsmap_new []) = (rs, m)"
    by fastforce
  from fsmap_refines_spec [OF run] run show ?thesis by simp
qed

end
