(* ===== verification/Host_Fs.thy ===== *)
theory Host_Fs
  imports Vfs_Types
begin

text \<open>
  The file system of the host as the sources use it: the operations of the standard library, of
  \<open>tokio::fs\<close> and of \<open>filetime\<close>, on Unix.  The operating system is a parameter, a record of operations
  on a state; nothing is assumed about it here.  The values that cross the boundary are those of the
  standard library.
\<close>

section \<open>Values\<close>

datatype HostErrorKind =
    HE_NotFound
  | HE_PermissionDenied
  | HE_AlreadyExists
  | HE_InvalidInput
  | HE_InvalidData
  | HE_StorageFull
  | HE_Other

record HostError =
  he_kind :: HostErrorKind
  he_raw_os_error :: "int option"

datatype HostFileType = HF_File | HF_Dir | HF_Symlink | HF_BlockDevice | HF_CharDevice | HF_Socket | HF_Fifo

record Metadata =
  md_file_type :: HostFileType
  md_mode :: u32
  md_nlink :: u64
  md_uid :: u32
  md_gid :: u32
  md_len :: u64
  md_blocks :: u64
  md_dev :: u64
  md_ino :: u64
  md_atime :: int
  md_atime_nsec :: int
  md_mtime :: int
  md_mtime_nsec :: int
  md_ctime :: int
  md_ctime_nsec :: int

definition md_is_file :: "Metadata \<Rightarrow> bool" where
  "md_is_file metadata \<longleftrightarrow> md_file_type metadata = HF_File"

definition md_is_dir :: "Metadata \<Rightarrow> bool" where
  "md_is_dir metadata \<longleftrightarrow> md_file_type metadata = HF_Dir"

definition md_is_symlink :: "Metadata \<Rightarrow> bool" where
  "md_is_symlink metadata \<longleftrightarrow> md_file_type metadata = HF_Symlink"

record OpenOptions =
  oo_read :: bool
  oo_write :: bool
  oo_create :: bool
  oo_create_new :: bool

definition options_new :: OpenOptions where
  "options_new = \<lparr>oo_read = False, oo_write = False, oo_create = False, oo_create_new = False\<rparr>"

text \<open>A time to set: the present, or seconds and nanoseconds of the Unix epoch.\<close>

datatype FileTime = FileTime_Now | FileTime_Unix int u32

section \<open>Operations\<close>

text \<open>A host path is the list of its components.\<close>

type_synonym host_path = "bytes list"
type_synonym ('h, 'a) host_op = "'h \<Rightarrow> (HostError + 'a) \<times> 'h"

record ('h, 'f) Host =
  host_symlink_metadata :: "host_path \<Rightarrow> ('h, Metadata) host_op"
  host_open :: "OpenOptions \<Rightarrow> host_path \<Rightarrow> ('h, 'f) host_op"
  host_metadata :: "'f \<Rightarrow> ('h, Metadata) host_op"
  host_seek :: "'f \<Rightarrow> u64 \<Rightarrow> ('h, unit) host_op"
  host_read_exact :: "'f \<Rightarrow> usize \<Rightarrow> ('h, bytes) host_op"
  host_write_all :: "'f \<Rightarrow> bytes \<Rightarrow> ('h, unit) host_op"
  host_sync_data :: "'f \<Rightarrow> ('h, unit) host_op"
  host_sync_all :: "'f \<Rightarrow> ('h, unit) host_op"
  host_set_len :: "'f \<Rightarrow> u64 \<Rightarrow> ('h, unit) host_op"
  host_set_permissions :: "host_path \<Rightarrow> u32 \<Rightarrow> ('h, unit) host_op"
  host_file_set_permissions :: "'f \<Rightarrow> u32 \<Rightarrow> ('h, unit) host_op"
  host_set_file_atime :: "host_path \<Rightarrow> FileTime \<Rightarrow> ('h, unit) host_op"
  host_set_file_mtime :: "host_path \<Rightarrow> FileTime \<Rightarrow> ('h, unit) host_op"
  host_create_dir :: "host_path \<Rightarrow> ('h, unit) host_op"
  host_symlink :: "bytes \<Rightarrow> host_path \<Rightarrow> ('h, unit) host_op"
  host_read_link :: "host_path \<Rightarrow> ('h, bytes) host_op"
  host_remove_dir :: "host_path \<Rightarrow> ('h, unit) host_op"
  host_remove_file :: "host_path \<Rightarrow> ('h, unit) host_op"
  host_rename :: "host_path \<Rightarrow> host_path \<Rightarrow> ('h, unit) host_op"
  host_read_dir :: "host_path \<Rightarrow> ('h, (HostError + bytes) list) host_op"

section \<open>Sequences of operations\<close>

definition vreturn :: "'a \<Rightarrow> ('s, 'a) vfs_op" where
  "vreturn a s = (Inr a, s)"

definition vfail :: "NfsError \<Rightarrow> ('s, 'a) vfs_op" where
  "vfail e s = (Inl e, s)"

definition vbind :: "('s, 'a) vfs_op \<Rightarrow> ('a \<Rightarrow> ('s, 'b) vfs_op) \<Rightarrow> ('s, 'b) vfs_op" where
  "vbind m f s = (case m s of (Inl e, s) \<Rightarrow> (Inl e, s) | (Inr a, s) \<Rightarrow> f a s)"

definition vok :: "('s, 'a) vfs_op \<Rightarrow> ('s, 'a option) vfs_op" where
  "vok m s = (case m s of (r, s) \<Rightarrow> (Inr (r_ok r), s))"

definition vguard :: "bool \<Rightarrow> NfsError \<Rightarrow> ('s, unit) vfs_op" where
  "vguard b e = (if b then vreturn () else vfail e)"

definition vlift :: "NfsError + 'a \<Rightarrow> ('s, 'a) vfs_op" where
  "vlift r s = (r, s)"

definition vwhen :: "'a option \<Rightarrow> ('a \<Rightarrow> ('s, unit) vfs_op) \<Rightarrow> ('s, unit) vfs_op" where
  "vwhen x f = (case x of None \<Rightarrow> vreturn () | Some a \<Rightarrow> f a)"

text \<open>
  A sequence of operations takes its state to a related one.  The relation is graded: the number
  bounds an amount of work, which adds up along the sequence.
\<close>

definition grows :: "(nat \<Rightarrow> 's \<Rightarrow> 's \<Rightarrow> bool) \<Rightarrow> nat \<Rightarrow> ('s, 'a) vfs_op \<Rightarrow> bool" where
  "grows R k m \<longleftrightarrow> (\<forall>s. R k s (snd (m s)))"

section \<open>Graded relations\<close>

named_theorems grows_intros

locale graded =
  fixes R :: "nat \<Rightarrow> 's \<Rightarrow> 's \<Rightarrow> bool"
  assumes none: "R 0 s s"
    and step: "R a s t \<Longrightarrow> R b t u \<Longrightarrow> R (a + b) s u"
    and more: "R a s t \<Longrightarrow> a \<le> b \<Longrightarrow> R b s t"
begin

lemma grows_le: "grows R a m \<Longrightarrow> a \<le> b \<Longrightarrow> grows R b m"
  by (auto simp: grows_def intro: more)

lemma grows_pure [grows_intros]:
  "grows R 0 (vreturn a)" "grows R 0 (vfail e)" "grows R 0 (vlift r)" "grows R 0 (vguard b e)"
  by (auto simp: grows_def vreturn_def vfail_def vlift_def vguard_def intro: none)

lemma grows_vok [grows_intros]: "grows R k m \<Longrightarrow> grows R k (vok m)"
  by (simp add: grows_def vok_def case_prod_beta)

lemma grows_vbind_values:
  assumes "\<And>s. R a s (snd (m s))" and "\<And>s x t. m s = (Inr x, t) \<Longrightarrow> grows R b (f x)"
  shows "grows R (a + b) (vbind m f)"
  unfolding grows_def
proof
  fix s
  obtain r t where m: "m s = (r, t)" by fastforce
  with assms(1) [of s] have st: "R a s t" by simp
  show "R (a + b) s (snd (vbind m f s))"
  proof (cases r)
    case (Inl e)
    with m st show ?thesis by (auto simp: vbind_def intro: more)
  next
    case (Inr x)
    with m have "grows R b (f x)" by (auto intro: assms(2))
    with m Inr st show ?thesis by (auto simp: vbind_def grows_def intro: step)
  qed
qed

lemma grows_vbind [grows_intros]:
  "grows R a m \<Longrightarrow> (\<And>x. grows R b (f x)) \<Longrightarrow> grows R (a + b) (vbind m f)"
  by (rule grows_vbind_values) (auto simp: grows_def)

lemma grows_max:
  "grows R a m \<Longrightarrow> grows R (max a b) m" "grows R b m \<Longrightarrow> grows R (max a b) m"
  by (auto intro: grows_le)

lemma grows_if [grows_intros]: "grows R a x \<Longrightarrow> grows R b y \<Longrightarrow> grows R (max a b) (if c then x else y)"
  by (simp add: grows_max)

lemma grows_option [grows_intros]:
  "grows R a x \<Longrightarrow> (\<And>v. grows R b (f v)) \<Longrightarrow> grows R (max a b) (case_option x f z)"
  by (cases z) (simp_all add: grows_max)

lemma grows_prod [grows_intros]: "(\<And>v w. grows R a (g v w)) \<Longrightarrow> grows R a (case p of (v, w) \<Rightarrow> g v w)"
  by (cases p) simp

lemma grows_vwhen [grows_intros]: "(\<And>a. grows R k (f a)) \<Longrightarrow> grows R k (vwhen x f)"
  using grows_le [OF grows_pure(1)] by (auto simp: vwhen_def split: option.split)

end

end
