(* ===== verification/Mirror_Fs.thy ===== *)
theory Mirror_Fs
  imports Mirror_Map Host_Fs "HOL-Library.List_Lexorder"
begin

text \<open>
  The mirror backend, \<^verbatim>\<open>examples/mirrorfs.rs\<close> on Unix: it serves a directory of the host, whose
  operations are a parameter, and names the objects by the identifiers of \<open>FsMap\<close>.

  Each method is the sequence of the operations that the source performs, on the map behind the
  mutex and on the host, with its early returns.  A method is one step here: what other requests do
  between two of its operations is not modelled.
\<close>

unbundle bit_operations_syntax

section \<open>Attributes\<close>

definition map_raw_os_error :: "int \<Rightarrow> NfsError option" where
  "map_raw_os_error error =
     (if error = 18 then Some Err_CrossDevice
      else if error = 20 then Some Err_NotDirectory
      else if error = 21 then Some Err_IsDirectory
      else if error = 36 then Some Err_NameTooLong
      else if error = 39 \<or> error = 66 then Some Err_NotEmpty
      else None)"

definition map_io_error :: "HostError \<Rightarrow> NfsError" where
  "map_io_error error =
     (case he_kind error of
        HE_NotFound \<Rightarrow> Err_NotFound
      | HE_PermissionDenied \<Rightarrow> Err_Access
      | HE_AlreadyExists \<Rightarrow> Err_Exists
      | HE_InvalidInput \<Rightarrow> Err_Invalid
      | HE_InvalidData \<Rightarrow> Err_Invalid
      | HE_StorageFull \<Rightarrow> Err_NoSpace
      | HE_Other \<Rightarrow>
          (case Option.bind (he_raw_os_error error) map_raw_os_error of Some e \<Rightarrow> e | None \<Rightarrow> Err_Io))"

definition metadata_time :: "int \<Rightarrow> int \<Rightarrow> NfsTime" where
  "metadata_time seconds nanoseconds =
     \<lparr>time_seconds = of_int (max seconds 0), time_nanoseconds = of_int (min (max nanoseconds 0) 999999999)\<rparr>"

definition metadata_file_type :: "Metadata \<Rightarrow> FileType" where
  "metadata_file_type metadata =
     (case md_file_type metadata of
        HF_File \<Rightarrow> FT_Regular
      | HF_Dir \<Rightarrow> FT_Directory
      | HF_Symlink \<Rightarrow> FT_Symlink
      | HF_BlockDevice \<Rightarrow> FT_BlockDevice
      | HF_CharDevice \<Rightarrow> FT_CharacterDevice
      | HF_Socket \<Rightarrow> FT_Socket
      | HF_Fifo \<Rightarrow> FT_Fifo)"

definition metadata_to_attributes :: "u64 \<Rightarrow> Metadata \<Rightarrow> FileAttributes" where
  "metadata_to_attributes i metadata =
     \<lparr>fa_file_type = metadata_file_type metadata, fa_mode = md_mode metadata AND 4095,
      fa_links = ucast (md_nlink metadata), fa_uid = md_uid metadata, fa_gid = md_gid metadata,
      fa_size = md_len metadata, fa_used = of_nat (saturating_mul (unat (md_blocks metadata)) 512),
      fa_device = None, fa_fs_id = md_dev metadata, fa_file_id = i,
      fa_access_time = metadata_time (md_atime metadata) (md_atime_nsec metadata),
      fa_modify_time = metadata_time (md_mtime metadata) (md_mtime_nsec metadata),
      fa_change_time = metadata_time (md_ctime metadata) (md_ctime_nsec metadata)\<rparr>"

definition metadata_to_wcc :: "Metadata \<Rightarrow> WccAttributes" where
  "metadata_to_wcc metadata =
     \<lparr>wcc_size = md_len metadata,
      wcc_modify_time = metadata_time (md_mtime metadata) (md_mtime_nsec metadata),
      wcc_change_time = metadata_time (md_ctime metadata) (md_ctime_nsec metadata)\<rparr>"

definition directory_verifier :: "Metadata \<Rightarrow> bytes" where
  "directory_verifier metadata =
     be64 (word_rotl 17 (of_int (md_mtime metadata)) XOR of_int (md_mtime_nsec metadata) XOR md_ino metadata)"

definition validate_attributes :: "SetAttributes \<Rightarrow> NfsError + unit" where
  "validate_attributes sa = (if sa_uid sa \<noteq> None \<or> sa_gid sa \<noteq> None then Inl Err_NotSupported else Inr ())"

definition set_time_to_file_time :: "SetTime \<Rightarrow> FileTime" where
  "set_time_to_file_time time =
     (case time of
        ServerTime \<Rightarrow> FileTime_Now
      | ClientTime t \<Rightarrow> FileTime_Unix (sint (time_seconds t)) (time_nanoseconds t))"

section \<open>State\<close>

record 'h Mirror =
  mi_map :: FsMap
  mi_host :: 'h

definition on_host :: "('h, 'a) host_op \<Rightarrow> ('h Mirror, 'a) vfs_op" where
  "on_host op s = (case op (mi_host s) of (r, h) \<Rightarrow> (r_map_err map_io_error r, s\<lparr>mi_host := h\<rparr>))"

definition on_map :: "(FsMap \<Rightarrow> (NfsError + 'a) \<times> FsMap) \<Rightarrow> ('h Mirror, 'a) vfs_op" where
  "on_map op s = (case op (mi_map s) of (r, m) \<Rightarrow> (r, s\<lparr>mi_map := m\<rparr>))"

definition read_map :: "(FsMap \<Rightarrow> NfsError + 'a) \<Rightarrow> ('h Mirror, 'a) vfs_op" where
  "read_map op s = (op (mi_map s), s)"

definition mirror_new :: "host_path \<Rightarrow> 'h \<Rightarrow> 'h Mirror" where
  "mirror_new root h = \<lparr>mi_map = fsmap_new root, mi_host = h\<rparr>"

definition mirror_key :: "u64 \<Rightarrow> ObjectKey" where
  "mirror_key i = \<lparr>obj_file_id = i, obj_generation = MIRROR_GENERATION\<rparr>"

section \<open>Helpers\<close>

definition object_path :: "ObjectKey \<Rightarrow> ('h Mirror, u64 \<times> host_path) vfs_op" where
  "object_path object =
     read_map (\<lambda>m. r_bind (fm_relative m object) (\<lambda>relative. Inr (obj_file_id object, fm_path m relative)))"

definition child_path :: "ObjectKey \<Rightarrow> NfsName \<Rightarrow> ('h Mirror, relative \<times> host_path) vfs_op" where
  "child_path parent name =
     read_map (\<lambda>m. r_bind (child_relative m parent name) (\<lambda>relative. Inr (relative, fm_path m relative)))"

definition mirror_created :: "relative \<Rightarrow> Metadata \<Rightarrow> ('h Mirror, CreatedObject) vfs_op" where
  "mirror_created relative metadata =
     vbind (on_map (intern relative)) (\<lambda>i.
     vreturn \<lparr>co_object = mirror_key i, co_attributes = Some (metadata_to_attributes i metadata)\<rparr>)"

definition parent_snapshot ::
  "('h, 'f) Host \<Rightarrow> ObjectKey \<Rightarrow> ('h Mirror, WccAttributes option \<times> host_path) vfs_op" where
  "parent_snapshot host parent =
     vbind (object_path parent) (\<lambda>(_, path).
     vbind (on_host (host_symlink_metadata host path)) (\<lambda>metadata.
     vreturn (Some (metadata_to_wcc metadata), path)))"

text \<open>The attributes of a directory after a change, if they can be read.\<close>

definition after_change ::
  "('h, 'f) Host \<Rightarrow> host_path \<Rightarrow> ObjectKey \<Rightarrow> ('h Mirror, FileAttributes option) vfs_op" where
  "after_change host path parent =
     vbind (vok (on_host (host_symlink_metadata host path))) (\<lambda>metadata.
     vreturn (map_option (metadata_to_attributes (obj_file_id parent)) metadata))"

definition apply_mode :: "('h, 'f) Host \<Rightarrow> host_path \<Rightarrow> u32 \<Rightarrow> ('h Mirror, unit) vfs_op" where
  "apply_mode host path mode = on_host (host_set_permissions host path ((mode OR 128) AND 4095))"

definition mirror_apply_attributes :: "('h, 'f) Host \<Rightarrow> host_path \<Rightarrow> SetAttributes \<Rightarrow> ('h Mirror, unit) vfs_op" where
  "mirror_apply_attributes host path sa =
     vbind (vlift (validate_attributes sa)) (\<lambda>_.
     vbind (vwhen (sa_mode sa) (apply_mode host path)) (\<lambda>_.
     vbind (vwhen (sa_size sa) (\<lambda>n.
       vbind (on_host (host_open host (options_new\<lparr>oo_write := True\<rparr>) path)) (\<lambda>file.
       on_host (host_set_len host file n)))) (\<lambda>_.
     vbind (vwhen (sa_access_time sa) (\<lambda>time. on_host (host_set_file_atime host path (set_time_to_file_time time)))) (\<lambda>_.
     vwhen (sa_modify_time sa) (\<lambda>time. on_host (host_set_file_mtime host path (set_time_to_file_time time)))))))"

datatype CreateKind = CreateFile CreateMode | CreateDirectory | CreateSymlink bytes

definition create_file ::
  "('h, 'f) Host \<Rightarrow> relative \<Rightarrow> host_path \<Rightarrow> SetAttributes \<Rightarrow> CreateMode \<Rightarrow> ('h Mirror, unit) vfs_op" where
  "create_file host relative path sa mode =
     (case mode of
        Exclusive verifier \<Rightarrow>
          vbind (vok (on_host (host_symlink_metadata host path))) (\<lambda>existing.
          case existing of
            Some _ \<Rightarrow>
              vbind (read_map (\<lambda>m. exclusive_verifier_of m relative)) (\<lambda>known.
              vguard (known = Some verifier) Err_Exists)
          | None \<Rightarrow>
              vbind (on_host (host_open host (options_new\<lparr>oo_write := True, oo_create_new := True\<rparr>) path)) (\<lambda>_.
              on_map (remember_exclusive_verifier relative verifier)))
      | _ \<Rightarrow>
          vbind (on_host (host_open host
            (if mode = Unchecked then options_new\<lparr>oo_write := True, oo_create := True\<rparr>
             else options_new\<lparr>oo_write := True, oo_create_new := True\<rparr>) path)) (\<lambda>_.
          mirror_apply_attributes host path sa))"

definition create_object ::
  "('h, 'f) Host \<Rightarrow> ObjectKey \<Rightarrow> NfsName \<Rightarrow> SetAttributes \<Rightarrow> CreateKind \<Rightarrow>
   ('h Mirror, CreatedObject MutationResult) vfs_op" where
  "create_object host parent name sa kind =
     vbind (vlift (validate_attributes sa)) (\<lambda>_.
     vbind (parent_snapshot host parent) (\<lambda>(before, parent_path).
     vbind (on_host (host_symlink_metadata host parent_path)) (\<lambda>metadata.
     vbind (vguard (md_is_dir metadata) Err_NotDirectory) (\<lambda>_.
     vbind (child_path parent name) (\<lambda>(relative, path).
     vbind (case kind of
              CreateFile mode \<Rightarrow> create_file host relative path sa mode
            | CreateDirectory \<Rightarrow>
                vbind (on_host (host_create_dir host path)) (\<lambda>_. mirror_apply_attributes host path sa)
            | CreateSymlink target \<Rightarrow> on_host (host_symlink host target path)) (\<lambda>_.
     vbind (on_host (host_symlink_metadata host path)) (\<lambda>metadata.
     vbind (mirror_created relative metadata) (\<lambda>created.
     vbind (after_change host parent_path parent) (\<lambda>after.
     vreturn \<lparr>mr_value = created, mr_before = before, mr_after = after\<rparr>)))))))))"

definition remove_object ::
  "('h, 'f) Host \<Rightarrow> ObjectKey \<Rightarrow> NfsName \<Rightarrow> bool \<Rightarrow> ('h Mirror, unit MutationResult) vfs_op" where
  "remove_object host parent name directory =
     vbind (parent_snapshot host parent) (\<lambda>(before, parent_path).
     vbind (child_path parent name) (\<lambda>(relative, path).
     vbind (on_host (host_symlink_metadata host path)) (\<lambda>metadata.
     vbind (if directory
            then vbind (vguard (md_is_dir metadata) Err_NotDirectory) (\<lambda>_. on_host (host_remove_dir host path))
            else vbind (vguard (\<not> md_is_dir metadata) Err_IsDirectory) (\<lambda>_. on_host (host_remove_file host path))) (\<lambda>_.
     vbind (on_map (forget_prefix relative)) (\<lambda>_.
     vbind (after_change host parent_path parent) (\<lambda>after.
     vreturn \<lparr>mr_value = (), mr_before = before, mr_after = after\<rparr>))))))"

section \<open>Methods\<close>

definition mirror_capabilities :: "'h Mirror \<Rightarrow> VfsCapabilities" where
  "mirror_capabilities s = CAPABILITIES_READ_WRITE\<lparr>cap_hard_links := False, cap_symbolic_links := True, cap_mknod := False\<rparr>"

definition mirror_root :: "'h Mirror \<Rightarrow> ObjectKey" where
  "mirror_root s = mirror_key MIRROR_ROOT_ID"

definition mirror_getattr ::
  "('h, 'f) Host \<Rightarrow> RequestContext \<Rightarrow> ObjectKey \<Rightarrow> ('h Mirror, FileAttributes) vfs_op" where
  "mirror_getattr host ctx object =
     vbind (object_path object) (\<lambda>(i, path).
     vbind (on_host (host_symlink_metadata host path)) (\<lambda>metadata.
     vreturn (metadata_to_attributes i metadata)))"

text \<open>The two special names, by their bytes.\<close>

definition mirror_lookup ::
  "('h, 'f) Host \<Rightarrow> RequestContext \<Rightarrow> ObjectKey \<Rightarrow> NfsName \<Rightarrow> ('h Mirror, CreatedObject) vfs_op" where
  "mirror_lookup host ctx parent name =
     (if name_bytes name = [46] \<or> name_bytes name = [46, 46]
      then
        vbind (read_map (\<lambda>m. fm_relative m parent)) (\<lambda>relative.
        let relative = (if name_bytes name = [46, 46] then butlast relative else relative) in
        vbind (read_map (\<lambda>m. Inr (fm_path m relative))) (\<lambda>path.
        vbind (on_host (host_symlink_metadata host path)) (\<lambda>metadata.
        vbind (on_map (intern relative)) (\<lambda>i.
        vreturn \<lparr>co_object = mirror_key i, co_attributes = Some (metadata_to_attributes i metadata)\<rparr>))))
      else
        vbind (child_path parent name) (\<lambda>(relative, path).
        vbind (on_host (host_symlink_metadata host path)) (\<lambda>metadata.
        mirror_created relative metadata)))"

definition mirror_access :: "RequestContext \<Rightarrow> ObjectKey \<Rightarrow> u32 \<Rightarrow> ('h Mirror, u32) vfs_op" where
  "mirror_access ctx object requested = vreturn requested"

definition mirror_setattr ::
  "('h, 'f) Host \<Rightarrow> RequestContext \<Rightarrow> ObjectKey \<Rightarrow> SetAttributes \<Rightarrow> NfsTime option \<Rightarrow>
   ('h Mirror, unit MutationResult) vfs_op" where
  "mirror_setattr host ctx object sa guard =
     vbind (object_path object) (\<lambda>(i, path).
     vbind (on_host (host_symlink_metadata host path)) (\<lambda>before_metadata.
     vbind (vguard (case guard of
                      Some g \<Rightarrow> g = fa_change_time (metadata_to_attributes i before_metadata)
                    | None \<Rightarrow> True) Err_NotSynchronized) (\<lambda>_.
     vbind (mirror_apply_attributes host path sa) (\<lambda>_.
     vbind (on_host (host_symlink_metadata host path)) (\<lambda>after_metadata.
     vreturn \<lparr>mr_value = (), mr_before = Some (metadata_to_wcc before_metadata),
              mr_after = Some (metadata_to_attributes i after_metadata)\<rparr>)))))"

definition mirror_readlink :: "('h, 'f) Host \<Rightarrow> RequestContext \<Rightarrow> ObjectKey \<Rightarrow> ('h Mirror, bytes) vfs_op" where
  "mirror_readlink host ctx object =
     vbind (object_path object) (\<lambda>(_, path).
     vbind (on_host (host_symlink_metadata host path)) (\<lambda>metadata.
     vbind (vguard (md_is_symlink metadata) Err_BadType) (\<lambda>_.
     on_host (host_read_link host path))))"

definition mirror_read ::
  "('h, 'f) Host \<Rightarrow> RequestContext \<Rightarrow> ObjectKey \<Rightarrow> u64 \<Rightarrow> u32 \<Rightarrow> ('h Mirror, VfsReadResult) vfs_op" where
  "mirror_read host ctx object offset count =
     vbind (object_path object) (\<lambda>(i, path).
     vbind (on_host (host_open host (options_new\<lparr>oo_read := True\<rparr>) path)) (\<lambda>file.
     vbind (on_host (host_metadata host file)) (\<lambda>metadata.
     vbind (vguard (md_is_file metadata) (if md_is_dir metadata then Err_IsDirectory else Err_Invalid)) (\<lambda>_.
     let start = min (unat offset) (unat (md_len metadata));
         end_pos = min (saturating_add (unat offset) (unat count)) (unat (md_len metadata)) in
     vbind (on_host (host_seek host file (of_nat start))) (\<lambda>_.
     vbind (on_host (host_read_exact host file (end_pos - start))) (\<lambda>data.
     vreturn \<lparr>vr_data = data, vr_eof = (end_pos = unat (md_len metadata)),
              vr_attributes = Some (metadata_to_attributes i metadata)\<rparr>))))))"

definition mirror_write ::
  "('h, 'f) Host \<Rightarrow> RequestContext \<Rightarrow> ObjectKey \<Rightarrow> u64 \<Rightarrow> bytes \<Rightarrow> WriteStability \<Rightarrow>
   ('h Mirror, VfsWriteResult MutationResult) vfs_op" where
  "mirror_write host ctx object offset data requested =
     vbind (object_path object) (\<lambda>(i, path).
     vbind (on_host (host_symlink_metadata host path)) (\<lambda>before_metadata.
     vbind (vguard (md_is_file before_metadata)
              (if md_is_dir before_metadata then Err_IsDirectory else Err_Invalid)) (\<lambda>_.
     vbind (on_host (host_open host (options_new\<lparr>oo_write := True\<rparr>) path)) (\<lambda>file.
     vbind (on_host (host_seek host file offset)) (\<lambda>_.
     vbind (on_host (host_write_all host file data)) (\<lambda>_.
     vbind (case requested of
              Unstable \<Rightarrow> vreturn ()
            | DataSync \<Rightarrow> on_host (host_sync_data host file)
            | FileSync \<Rightarrow> on_host (host_sync_all host file)) (\<lambda>_.
     vbind (on_host (host_metadata host file)) (\<lambda>after_metadata.
     vreturn \<lparr>mr_value = \<lparr>vw_count = of_nat (min (length data) u32_max), vw_committed = requested\<rparr>,
              mr_before = Some (metadata_to_wcc before_metadata),
              mr_after = Some (metadata_to_attributes i after_metadata)\<rparr>))))))))"

definition mirror_create ::
  "('h, 'f) Host \<Rightarrow> RequestContext \<Rightarrow> ObjectKey \<Rightarrow> NfsName \<Rightarrow> SetAttributes \<Rightarrow> CreateMode \<Rightarrow>
   ('h Mirror, CreatedObject MutationResult) vfs_op" where
  "mirror_create host ctx parent name sa mode = create_object host parent name sa (CreateFile mode)"

definition mirror_mkdir ::
  "('h, 'f) Host \<Rightarrow> RequestContext \<Rightarrow> ObjectKey \<Rightarrow> NfsName \<Rightarrow> SetAttributes \<Rightarrow>
   ('h Mirror, CreatedObject MutationResult) vfs_op" where
  "mirror_mkdir host ctx parent name sa = create_object host parent name sa CreateDirectory"

definition mirror_symlink ::
  "('h, 'f) Host \<Rightarrow> RequestContext \<Rightarrow> ObjectKey \<Rightarrow> NfsName \<Rightarrow> bytes \<Rightarrow> SetAttributes \<Rightarrow>
   ('h Mirror, CreatedObject MutationResult) vfs_op" where
  "mirror_symlink host ctx parent name target sa = create_object host parent name sa (CreateSymlink target)"

definition mirror_remove ::
  "('h, 'f) Host \<Rightarrow> RequestContext \<Rightarrow> ObjectKey \<Rightarrow> NfsName \<Rightarrow> ('h Mirror, unit MutationResult) vfs_op" where
  "mirror_remove host ctx parent name = remove_object host parent name False"

definition mirror_rmdir ::
  "('h, 'f) Host \<Rightarrow> RequestContext \<Rightarrow> ObjectKey \<Rightarrow> NfsName \<Rightarrow> ('h Mirror, unit MutationResult) vfs_op" where
  "mirror_rmdir host ctx parent name = remove_object host parent name True"

definition mirror_rename ::
  "('h, 'f) Host \<Rightarrow> RequestContext \<Rightarrow> ObjectKey \<Rightarrow> NfsName \<Rightarrow> ObjectKey \<Rightarrow> NfsName \<Rightarrow>
   ('h Mirror, unit MutationResult \<times> unit MutationResult) vfs_op" where
  "mirror_rename host ctx from_parent from_name to_parent to_name =
     vbind (parent_snapshot host from_parent) (\<lambda>(from_before, from_parent_path).
     vbind (parent_snapshot host to_parent) (\<lambda>(to_before, to_parent_path).
     vbind (child_path from_parent from_name) (\<lambda>(from_relative, from_path).
     vbind (child_path to_parent to_name) (\<lambda>(to_relative, to_path).
     vbind (on_host (host_rename host from_path to_path)) (\<lambda>_.
     vbind (on_map (move_prefix from_relative to_relative)) (\<lambda>_.
     vbind (after_change host from_parent_path from_parent) (\<lambda>from_after.
     vbind (after_change host to_parent_path to_parent) (\<lambda>to_after.
     vreturn (\<lparr>mr_value = (), mr_before = from_before, mr_after = from_after\<rparr>,
              \<lparr>mr_value = (), mr_before = to_before, mr_after = to_after\<rparr>)))))))))"

text \<open>The loop over the entries of a host directory, and the loop over the selected ones.\<close>

fun read_children ::
  "('h, 'f) Host \<Rightarrow> host_path \<Rightarrow> (HostError + bytes) list \<Rightarrow> ('h Mirror, (bytes \<times> Metadata) list) vfs_op" where
  "read_children host path [] = vreturn []"
| "read_children host path (entry # entries) =
     vbind (vlift (r_map_err map_io_error entry)) (\<lambda>name.
     vbind (on_host (host_symlink_metadata host (path @ [name]))) (\<lambda>metadata.
     vbind (read_children host path entries) (\<lambda>children.
     vreturn ((name, metadata) # children))))"

fun intern_entries ::
  "ObjectKey \<Rightarrow> usize \<Rightarrow> (bytes \<times> Metadata) list \<Rightarrow> ('h Mirror, DirectoryEntry list) vfs_op" where
  "intern_entries directory position [] = vreturn []"
| "intern_entries directory position ((name, metadata) # selected) =
     vbind (vlift (nfs_name_new name)) (\<lambda>nfs_name.
     vbind (read_map (\<lambda>m. child_relative m directory nfs_name)) (\<lambda>relative.
     vbind (on_map (intern relative)) (\<lambda>i.
     vbind (intern_entries directory (Suc position) selected) (\<lambda>entries.
     vreturn
       (\<lparr>de_object = mirror_key i, de_file_id = i, de_name = nfs_name, de_cookie = of_nat (Suc position),
         de_attributes = Some (metadata_to_attributes i metadata)\<rparr> # entries)))))"

definition mirror_readdir ::
  "('h, 'f) Host \<Rightarrow> RequestContext \<Rightarrow> ObjectKey \<Rightarrow> u64 \<Rightarrow> bytes \<Rightarrow> usize \<Rightarrow>
   ('h Mirror, ReadDirectoryPage) vfs_op" where
  "mirror_readdir host ctx directory cookie verifier backend_hint =
     vbind (object_path directory) (\<lambda>(_, directory_path).
     vbind (on_host (host_symlink_metadata host directory_path)) (\<lambda>directory_metadata.
     vbind (vguard (md_is_dir directory_metadata) Err_NotDirectory) (\<lambda>_.
     let current_verifier = directory_verifier directory_metadata in
     vbind (vguard (cookie = 0 \<or> verifier = current_verifier) Err_BadCookie) (\<lambda>_.
     vbind (on_host (host_read_dir host directory_path)) (\<lambda>entries.
     vbind (read_children host directory_path entries) (\<lambda>children.
     let children = sort_key fst children; start = unat cookie in
     vbind (intern_entries directory start (take (max backend_hint 1) (drop start children))) (\<lambda>entries.
     vreturn \<lparr>page_verifier = current_verifier, page_entries = entries,
              page_eof = (length children \<le> saturating_add start (length entries))\<rparr>)))))))"

definition mirror_fsstat :: "RequestContext \<Rightarrow> ObjectKey \<Rightarrow> ('h Mirror, FsStat) vfs_op" where
  "mirror_fsstat ctx object =
     vreturn \<lparr>fs_total_bytes = 2 ^ 40, fs_free_bytes = 2 ^ 39, fs_available_bytes = 2 ^ 39,
       fs_total_files = 1000000, fs_free_files = 999000, fs_available_files = 999000, fs_invariant_seconds = 1\<rparr>"

definition mirror_fsinfo :: "RequestContext \<Rightarrow> ObjectKey \<Rightarrow> ('h Mirror, FsInfo) vfs_op" where
  "mirror_fsinfo ctx object =
     vreturn \<lparr>fi_max_read = 1024 * 1024, fi_preferred_read = 128 * 1024, fi_read_multiple = 4096,
       fi_max_write = 1024 * 1024, fi_preferred_write = 128 * 1024, fi_write_multiple = 4096,
       fi_preferred_readdir = 32 * 1024, fi_max_file_size = - 1,
       fi_time_granularity = \<lparr>time_seconds = 0, time_nanoseconds = 1\<rparr>\<rparr>"

definition mirror_pathconf :: "RequestContext \<Rightarrow> ObjectKey \<Rightarrow> ('h Mirror, PathConf) vfs_op" where
  "mirror_pathconf ctx object =
     vreturn \<lparr>pc_max_links = - 1, pc_max_name_length = of_nat NFS_NAME_MAX_LEN, pc_no_truncation = True,
       pc_chown_restricted = True, pc_case_insensitive = False, pc_case_preserving = True\<rparr>"

definition mirror_commit ::
  "('h, 'f) Host \<Rightarrow> RequestContext \<Rightarrow> ObjectKey \<Rightarrow> u64 \<Rightarrow> u32 \<Rightarrow> ('h Mirror, unit MutationResult) vfs_op" where
  "mirror_commit host ctx object offset count =
     vbind (object_path object) (\<lambda>(i, path).
     vbind (on_host (host_symlink_metadata host path)) (\<lambda>before_metadata.
     vbind (on_host (host_open host (options_new\<lparr>oo_read := True, oo_write := True\<rparr>) path)) (\<lambda>file.
     vbind (on_host (host_sync_all host file)) (\<lambda>_.
     vbind (on_host (host_symlink_metadata host path)) (\<lambda>after_metadata.
     vreturn \<lparr>mr_value = (), mr_before = Some (metadata_to_wcc before_metadata),
              mr_after = Some (metadata_to_attributes i after_metadata)\<rparr>)))))"

definition mirror_fs :: "('h, 'f) Host \<Rightarrow> 'h Mirror Vfs" where
  "mirror_fs host =
     (vfs_with_defaults mirror_capabilities mirror_root (mirror_getattr host) (mirror_lookup host))
       \<lparr>vfs_access := mirror_access, vfs_setattr := mirror_setattr host, vfs_readlink := mirror_readlink host,
        vfs_read_bytes := mirror_read host, vfs_write := mirror_write host, vfs_create := mirror_create host,
        vfs_mkdir := mirror_mkdir host, vfs_symlink := mirror_symlink host, vfs_remove := mirror_remove host,
        vfs_rmdir := mirror_rmdir host, vfs_rename := mirror_rename host, vfs_readdir := mirror_readdir host,
        vfs_fsstat := mirror_fsstat, vfs_fsinfo := mirror_fsinfo, vfs_pathconf := mirror_pathconf,
        vfs_commit := mirror_commit host\<rparr>"

section \<open>How the methods use the map\<close>

text \<open>
  The methods change the map by calls of its operations only, and never forget or move the root.
\<close>

fun proper_call :: "map_call \<Rightarrow> bool" where
  "proper_call (Forget q) \<longleftrightarrow> q \<noteq> []"
| "proper_call (Move from to) \<longleftrightarrow> from \<noteq> [] \<and> to \<noteq> []"
| "proper_call _ \<longleftrightarrow> True"

definition map_evolves :: "nat \<Rightarrow> 'h Mirror \<Rightarrow> 'h Mirror \<Rightarrow> bool" where
  "map_evolves k s t \<longleftrightarrow>
     (\<exists>calls. list_all proper_call calls \<and> length calls \<le> k \<and> snd (fsmap_run calls (mi_map s)) = mi_map t)"

text \<open>A directory of the host fits into memory, as a vector of its entries does.\<close>

definition directories_fit :: "('h, 'f) Host \<Rightarrow> bool" where
  "directories_fit host \<longleftrightarrow>
     (\<forall>path h entries h'. host_read_dir host path h = (Inr entries, h') \<longrightarrow> length entries < 2 ^ 63)"

text \<open>
  What holds between requests: the map is well formed, its root is the served directory, and the root
  handle names it.  There are identifiers left.
\<close>

definition mirror_good :: "host_path \<Rightarrow> 'h Mirror \<Rightarrow> bool" where
  "mirror_good root s \<longleftrightarrow>
     fsmap_ok (mi_map s) \<and> fm_root (mi_map s) = root \<and> fm_relative (mi_map s) (mirror_root s) = Inr [] \<and>
     unat (fm_next_file_id (mi_map s)) < 2 ^ 62"

definition ids_left :: "'h Mirror \<Rightarrow> bool" where
  "ids_left s \<longleftrightarrow> unat (fm_next_file_id (mi_map s)) < 2 ^ 62"

text \<open>What a handle for a path stands for after the object at one path has been renamed to another.\<close>

definition renamed :: "relative \<Rightarrow> relative \<Rightarrow> relative \<Rightarrow> NfsError + relative" where
  "renamed from to p =
     (if from \<noteq> to \<and> prefix to p then Inl Err_Stale
      else if prefix from p then Inr (to @ drop (length from) p)
      else Inr p)"

text \<open>The path that a name leads to from a directory.\<close>

definition led_to :: "relative \<Rightarrow> NfsName \<Rightarrow> relative" where
  "led_to p name =
     (if name_bytes name = [46] then p
      else if name_bytes name = [46, 46] then butlast p
      else p @ [name_bytes name])"

text \<open>
  A directory that nobody changes: the host shows the same names, which can be sent to a client, and
  shows each of the objects.
\<close>

definition still_directory :: "('h, 'f) Host \<Rightarrow> host_path \<Rightarrow> Metadata \<Rightarrow> bytes list \<Rightarrow> 'h \<Rightarrow> bool" where
  "still_directory host path metadata names h \<longleftrightarrow>
     host_symlink_metadata host path h = (Inr metadata, h) \<and> md_is_dir metadata \<and>
     host_read_dir host path h = (Inr (map Inr names), h) \<and> distinct names \<and> length names < 2 ^ 63 \<and>
     (\<forall>name\<in>set names. nfs_name_new name = Inr (NfsName name) \<and>
        (\<exists>m. host_symlink_metadata host (path @ [name]) h = (Inr m, h)))"

text \<open>The names of a directory without an identifier, for each of which one is left.\<close>

definition listable :: "host_path \<Rightarrow> relative \<Rightarrow> bytes list \<Rightarrow> ObjectKey \<Rightarrow> 'h \<Rightarrow> 'h Mirror \<Rightarrow> bool" where
  "listable root p names object h s \<longleftrightarrow>
     mi_host s = h \<and> fsmap_ok (mi_map s) \<and> fm_root (mi_map s) = root \<and> fm_relative (mi_map s) object = Inr p \<and>
     unat (fm_next_file_id (mi_map s)) +
       card {name \<in> set names. p @ [name] \<notin> ran (map_of (fm_id_to_relative (mi_map s)))} < usize_bound - 1"

text \<open>A host that answers every request: each path is a directory with the same three names.\<close>

definition calm_metadata :: Metadata where
  "calm_metadata =
     \<lparr>md_file_type = HF_Dir, md_mode = 493, md_nlink = 2, md_uid = 0, md_gid = 0, md_len = 0, md_blocks = 0,
      md_dev = 1, md_ino = 1, md_atime = 0, md_atime_nsec = 0, md_mtime = 0, md_mtime_nsec = 0, md_ctime = 0,
      md_ctime_nsec = 0\<rparr>"

definition calm_host :: "(unit, unit) Host" where
  "calm_host =
     \<lparr>host_symlink_metadata = \<lambda>_ h. (Inr calm_metadata, h), host_open = \<lambda>_ _ h. (Inr (), h),
      host_metadata = \<lambda>_ h. (Inr calm_metadata, h), host_seek = \<lambda>_ _ h. (Inr (), h),
      host_read_exact = \<lambda>_ n h. (Inr (replicate n 0), h), host_write_all = \<lambda>_ _ h. (Inr (), h),
      host_sync_data = \<lambda>_ h. (Inr (), h), host_sync_all = \<lambda>_ h. (Inr (), h), host_set_len = \<lambda>_ _ h. (Inr (), h),
      host_set_permissions = \<lambda>_ _ h. (Inr (), h), host_file_set_permissions = \<lambda>_ _ h. (Inr (), h),
      host_set_file_atime = \<lambda>_ _ h. (Inr (), h), host_set_file_mtime = \<lambda>_ _ h. (Inr (), h),
      host_create_dir = \<lambda>_ h. (Inr (), h), host_symlink = \<lambda>_ _ h. (Inr (), h),
      host_read_link = \<lambda>_ h. (Inr [], h), host_remove_dir = \<lambda>_ h. (Inr (), h),
      host_remove_file = \<lambda>_ h. (Inr (), h), host_rename = \<lambda>_ _ h. (Inr (), h),
      host_read_dir = \<lambda>_ h. (Inr [Inr [99], Inr [97], Inr [98]], h)\<rparr>"

definition calm_ctx :: RequestContext where
  "calm_ctx = \<lparr>ctx_principal = Anonymous, ctx_client_addr = \<lparr>sock_ip = V4 127 0 0 1, sock_port = 700\<rparr>,
     ctx_export_id = 1\<rparr>"

text \<open>A mirror of that host that knows three directories, one of them below another.\<close>

definition calm_mirror :: "unit Mirror" where
  "calm_mirror =
     \<lparr>mi_map = snd (fsmap_run [Intern [[97]], Intern [[98]], Intern [[97], [99]]] (fsmap_new [[115]])), mi_host = ()\<rparr>"

lemma fsmap_run_append:
  "snd (fsmap_run (xs @ ys) m) = snd (fsmap_run ys (snd (fsmap_run xs m)))"
  by (induction xs arbitrary: m) (simp_all add: Let_def case_prod_beta)

interpretation evolving: graded map_evolves
proof
  fix s t u :: "'h Mirror" and a b :: nat
  show "map_evolves 0 s s" by (simp add: map_evolves_def)
  show "map_evolves (a + b) s u" if "map_evolves a s t" "map_evolves b t u"
  proof -
    from that obtain xs ys where "list_all proper_call xs" "snd (fsmap_run xs (mi_map s)) = mi_map t"
      "list_all proper_call ys" "snd (fsmap_run ys (mi_map t)) = mi_map u" "length xs \<le> a" "length ys \<le> b"
      by (auto simp: map_evolves_def)
    then show ?thesis
      unfolding map_evolves_def by (intro exI [of _ "xs @ ys"]) (simp add: fsmap_run_append)
  qed
  show "map_evolves b s t" if "map_evolves a s t" "a \<le> b" using that by (force simp: map_evolves_def)
qed

lemma map_evolves_call:
  "proper_call call \<Longrightarrow> mi_map t = snd (fsmap_call call (mi_map s)) \<Longrightarrow> map_evolves 1 s t"
  unfolding map_evolves_def by (intro exI [of _ "[call]"]) (simp add: case_prod_beta)

lemma grows_on_host [grows_intros]: "grows map_evolves 0 (on_host op)"
  by (simp add: grows_def map_evolves_def on_host_def case_prod_beta)

lemma grows_read_map [grows_intros]: "grows map_evolves 0 (read_map op)"
  by (simp add: grows_def read_map_def evolving.none)

lemma grows_intern [grows_intros]: "grows map_evolves 1 (on_map (intern p))"
  by (auto simp: grows_def on_map_def case_prod_beta simp del: One_nat_def intro!: map_evolves_call [of "Intern p"])

lemma grows_remember [grows_intros]: "grows map_evolves 1 (on_map (remember_exclusive_verifier p v))"
  by (auto simp: grows_def on_map_def case_prod_beta simp del: One_nat_def intro!: map_evolves_call [of "Remember p v"])

lemma grows_forget: "p \<noteq> [] \<Longrightarrow> grows map_evolves 1 (on_map (forget_prefix p))"
  by (auto simp: grows_def on_map_def case_prod_beta simp del: One_nat_def intro!: map_evolves_call [of "Forget p"])

lemma grows_move: "p \<noteq> [] \<Longrightarrow> q \<noteq> [] \<Longrightarrow> grows map_evolves 1 (on_map (move_prefix p q))"
  by (auto simp: grows_def on_map_def case_prod_beta simp del: One_nat_def intro!: map_evolves_call [of "Move p q"])

text \<open>Steps whose results matter: the path of a child, and the entries of a directory.\<close>

lemma child_path_Inr:
  "child_path parent name s = (Inr (relative, path), t) \<longleftrightarrow>
     t = s \<and> path = fm_path (mi_map s) relative \<and>
     (\<exists>p. fm_relative (mi_map s) parent = Inr p \<and> relative = p @ [name_bytes name])"
  by (cases "fm_relative (mi_map s) parent")
    (auto simp: child_path_def read_map_def child_relative_def nfs_name_to_os_string_def)

lemma grows_child_path:
  assumes "\<And>relative path. relative \<noteq> [] \<Longrightarrow> grows map_evolves b (f relative path)"
  shows "grows map_evolves (0 + b) (vbind (child_path parent name) (\<lambda>(relative, path). f relative path))"
proof (rule evolving.grows_vbind_values)
  show "map_evolves 0 s (snd (child_path parent name s))" for s :: "'a Mirror"
    by (simp add: child_path_def read_map_def evolving.none)
  show "grows map_evolves b (case x of (relative, path) \<Rightarrow> f relative path)"
    if "child_path parent name s = (Inr x, t)" for s t :: "'a Mirror" and x
    using that by (cases x) (auto simp: child_path_Inr intro!: assms)
qed

lemma grows_children: "grows map_evolves 0 (read_children host path entries)"
proof (induction entries)
  case (Cons entry entries)
  show ?case
    unfolding read_children.simps by (rule evolving.grows_le, (rule grows_intros Cons.IH)+, simp)
qed (simp add: grows_intros)

lemma read_children_length:
  "read_children host path entries s = (Inr children, t) \<Longrightarrow> length children = length entries"
  by (induction entries arbitrary: s children)
    (fastforce simp: vreturn_def vbind_def vlift_def split: prod.splits sum.splits)+

lemma grows_intern_entries: "grows map_evolves (length selected) (intern_entries directory position selected)"
proof (induction directory position selected rule: intern_entries.induct)
  case (2 directory position name metadata selected)
  show ?case
    unfolding intern_entries.simps by (rule evolving.grows_le, (rule grows_intros "2.IH")+, simp)
qed (simp add: grows_intros)

lemma grows_listing:
  assumes "directories_fit host"
    and "\<And>entries. length entries < 2 ^ 63 \<Longrightarrow> grows map_evolves b (f entries)"
  shows "grows map_evolves (0 + b) (vbind (on_host (host_read_dir host path)) f)"
  using assms
  by (intro evolving.grows_vbind_values)
    (auto simp: directories_fit_def on_host_def grows_on_host [unfolded grows_def on_host_def] split: prod.splits sum.splits)

lemmas mirror_defs =
  object_path_def child_path_def mirror_created_def parent_snapshot_def after_change_def apply_mode_def
  mirror_apply_attributes_def create_file_def

lemma grows_stability [grows_intros]:
  "grows map_evolves a x \<Longrightarrow> grows map_evolves b y \<Longrightarrow> grows map_evolves c z \<Longrightarrow>
    grows map_evolves (max a (max b c)) (case_WriteStability x y z w)"
  by (cases w) (simp_all add: evolving.grows_max)

lemma grows_mode [grows_intros]:
  "grows map_evolves a x \<Longrightarrow> grows map_evolves b y \<Longrightarrow> (\<And>v. grows map_evolves c (g v)) \<Longrightarrow>
    grows map_evolves (max a (max b c)) (case_CreateMode x y g m)"
  by (cases m) (simp_all add: evolving.grows_max)

lemma grows_kind [grows_intros]:
  "(\<And>v. grows map_evolves a (f v)) \<Longrightarrow> grows map_evolves b y \<Longrightarrow> (\<And>v. grows map_evolves c (h v)) \<Longrightarrow>
    grows map_evolves (max a (max b c)) (case_CreateKind f y h kind)"
  by (cases kind) (simp_all add: evolving.grows_max)

lemma grows_helpers [grows_intros]:
  "grows map_evolves 0 (object_path object)" "grows map_evolves 1 (mirror_created relative metadata)"
  "grows map_evolves 0 (parent_snapshot host object)" "grows map_evolves 0 (after_change host path object)"
  "grows map_evolves 0 (mirror_apply_attributes host path sa)"
  "grows map_evolves 1 (create_file host relative path sa mode)"
  unfolding mirror_defs by (rule evolving.grows_le, (rule grows_intros)+, simp)+

lemma grows_create_object: "grows map_evolves 2 (create_object host parent name sa kind)"
  unfolding create_object_def by (rule evolving.grows_le, (rule grows_child_path grows_intros)+, simp)

lemma grows_remove_object: "grows map_evolves 2 (remove_object host parent name directory)"
  unfolding remove_object_def
  by (rule evolving.grows_le, (rule grows_child_path grows_forget grows_intros | assumption)+, simp)

lemma grows_rename: "grows map_evolves 2 (mirror_rename host ctx p n p' n')"
  unfolding mirror_rename_def
  by (rule evolving.grows_le, (rule grows_child_path grows_move grows_intros | assumption)+, simp)

lemma grows_methods:
  "grows map_evolves 2 (mirror_getattr host ctx object)" "grows map_evolves 2 (mirror_lookup host ctx object name)"
  "grows map_evolves 2 (mirror_access ctx object requested)" "grows map_evolves 2 (mirror_setattr host ctx object sa guard)"
  "grows map_evolves 2 (mirror_readlink host ctx object)" "grows map_evolves 2 (mirror_read host ctx object offset count)"
  "grows map_evolves 2 (mirror_write host ctx object offset data stability)"
  "grows map_evolves 2 (mirror_fsstat ctx object)" "grows map_evolves 2 (mirror_fsinfo ctx object)"
  "grows map_evolves 2 (mirror_pathconf ctx object)" "grows map_evolves 2 (mirror_commit host ctx object offset count)"
  unfolding mirror_getattr_def mirror_lookup_def mirror_access_def mirror_setattr_def mirror_readlink_def mirror_read_def
    mirror_write_def mirror_fsstat_def mirror_fsinfo_def mirror_pathconf_def mirror_commit_def Let_def child_path_def
  by (rule evolving.grows_le, (rule grows_intros)+, simp)+

lemma grows_readdir:
  assumes "directories_fit host"
  shows "grows map_evolves (2 ^ 63) (mirror_readdir host ctx object cookie verifier hint)"
proof -
  have selected: "grows map_evolves (2 ^ 63) (intern_entries object position (take n (drop m (sort_key fst children))))"
    if "length children < 2 ^ 63" for position m n and children :: "(bytes \<times> Metadata) list"
    using that by (intro evolving.grows_le [OF grows_intern_entries]) simp
  have children: "grows map_evolves (0 + b) (vbind (read_children host path entries) f)"
    if "\<And>children. length children = length entries \<Longrightarrow> grows map_evolves b (f children)"
    for b path entries and f :: "(bytes \<times> Metadata) list \<Rightarrow> ('a Mirror, 'c) vfs_op"
    using grows_children that
    by (intro evolving.grows_vbind_values) (auto simp: grows_def dest: read_children_length)
  show ?thesis
    unfolding mirror_readdir_def Let_def
    by (rule evolving.grows_le, (rule grows_listing [OF assms] children selected grows_intros | simp)+)
qed

section \<open>The invariant\<close>

lemma fm_relative_Inr:
  "fm_relative m object = Inr p \<longleftrightarrow>
     obj_generation object = MIRROR_GENERATION \<and> map_of (fm_id_to_relative m) (obj_file_id object) = Some p"
  by (auto simp: fm_relative_def split: option.split)

lemma spec_call_keeps_root:
  "proper_call call \<Longrightarrow> a i = Some [] \<Longrightarrow> i \<noteq> n \<Longrightarrow> fst (spec_call call (a, n)) i = Some []"
  by (cases call) auto

lemma fsmap_run_keeps_root:
  assumes "fsmap_ok m" and "unat (fm_next_file_id m) + length calls < usize_bound - 1"
    and "list_all proper_call calls" and "map_of (fm_id_to_relative m) i = Some []"
  shows "map_of (fm_id_to_relative (snd (fsmap_run calls m))) i = Some []"
  using assms
proof (induction calls arbitrary: m)
  case (Cons call calls)
  obtain r m' where run: "fsmap_call call m = (r, m')" by fastforce
  have "Suc (unat (fm_next_file_id m)) < usize_bound" using Cons.prems(2) by simp
  note one = fsmap_call_ok [OF Cons.prems(1) this run]
  have "i \<noteq> fm_next_file_id m" using fsmap_okD(6) [OF Cons.prems(1,4)] by auto
  then have "fst (spec_call call (fsmap_abs m)) i = Some []"
    using spec_call_keeps_root [of call "map_of (fm_id_to_relative m)" i] Cons.prems(3,4) by (simp add: fsmap_abs_def)
  then have "map_of (fm_id_to_relative m') i = Some []" using one by (metis fsmap_abs_def fst_conv)
  with Cons.IH [of m'] one Cons.prems(2,3) run show ?case by (simp add: fsmap_abs_def case_prod_beta)
qed simp

lemma evolves_small: "grows map_evolves 2 m \<Longrightarrow> map_evolves (2 ^ 63) s (snd (m s))"
  using evolving.grows_le [of 2 m "2 ^ 63"] by (simp add: grows_def)

lemma mirror_step_evolves:
  assumes "directories_fit host" and "vfs_step (mirror_fs host) s t"
  shows "map_evolves (2 ^ 63) s t"
proof -
  note fits = grows_readdir [OF assms(1), unfolded grows_def, rule_format, simplified]
  note defs = mirror_fs_def vfs_with_defaults_def mirror_create_def mirror_mkdir_def mirror_symlink_def
    mirror_remove_def mirror_rmdir_def
  from assms(2) show ?thesis
    by cases (simp_all add: defs evolves_small [simplified] fits grows_methods grows_create_object grows_remove_object grows_rename
        evolving.more [OF evolving.none])
qed

lemma mirror_good_new: "mirror_good root (mirror_new root h)"
  using fsmap_new_ok [of root]
  by (simp add: mirror_good_def mirror_new_def fm_relative_Inr mirror_root_def mirror_key_def fsmap_new_def MIRROR_ROOT_ID_def)

interpretation mirror: backend_invariant "mirror_fs host" ids_left "\<lambda>s. directories_fit host \<and> mirror_good root s"
  for host :: "('h, 'f) Host" and root
proof
  fix s t
  assume good: "directories_fit host \<and> mirror_good root s" and "vfs_step (mirror_fs host) s t" and left: "ids_left t"
  then have "map_evolves (2 ^ 63) s t" using mirror_step_evolves by blast
  then obtain calls where calls: "list_all proper_call calls" "length calls \<le> 2 ^ 63"
    "snd (fsmap_run calls (mi_map s)) = mi_map t" by (auto simp: map_evolves_def)
  have s: "fsmap_ok (mi_map s)" "unat (fm_next_file_id (mi_map s)) + length calls < usize_bound - 1"
    using good calls(2) by (auto simp: mirror_good_def)
  obtain rs where run: "fsmap_run calls (mi_map s) = (rs, mi_map t)" using calls(3) by (metis prod.collapse)
  from fsmap_run_ok [OF s run] fsmap_run_keeps_root [OF s calls(1)] calls(3) good left
  show "directories_fit host \<and> mirror_good root t"
    by (auto simp: mirror_good_def ids_left_def fm_relative_Inr mirror_root_def)
qed

lemma mirror_good_handles:
  assumes "mirror_good root s" and "fm_relative (mi_map s) object = Inr p" and "fm_relative (mi_map s) object' = Inr p"
  shows "object = object'"
proof -
  have "index_ok (map_of (fm_id_to_relative (mi_map s))) (map_of (fm_relative_to_id (mi_map s)))"
    using assms(1) by (simp add: mirror_good_def fsmap_okD(5))
  from index_okD(3) [OF this, of "obj_file_id object" p "obj_file_id object'"] assms(2,3)
  show ?thesis by (cases object; cases object') (simp add: fm_relative_Inr)
qed

text \<open>
  Handles of the mirror.  Whatever requests are served and whatever the host does or reports, as long
  as fewer than \<open>2 ^ 62\<close> identifiers have been given out and a directory of the host fits into
  memory: the map and its reverse index agree, the served directory is the one the mirror was started
  on, the root handle is never stale and names it, and two handles for the same path are the same
  handle.
\<close>

theorem mirror_map_sound:
  assumes "directories_fit host" and "vfs_reaches (mirror_fs host) ids_left (mirror_new root h) s"
  shows "mirror_good root s \<and>
    (\<forall>object object' p. fm_relative (mi_map s) object = Inr p \<and> fm_relative (mi_map s) object' = Inr p \<longrightarrow>
       object = object')"
  using mirror.reaches_inv [OF assms(2)] assms(1) mirror_good_new [of root h] mirror_good_handles [of root s] by blast

lemma vbind_Inr: "vbind m f s = (Inr y, t) \<longleftrightarrow> (\<exists>x u. m s = (Inr x, u) \<and> f x u = (Inr y, t))"
  by (auto simp: vbind_def split: prod.split sum.split)

lemma quiet: "m s = (r, t) \<Longrightarrow> grows map_evolves 0 m \<Longrightarrow> mi_map t = mi_map s"
  unfolding grows_def map_evolves_def by (metis fsmap_run.simps(1) le_zero_eq length_0_conv snd_conv)

lemmas quiet_helpers = quiet [OF _ grows_helpers(1)] quiet [OF _ grows_helpers(3)] quiet [OF _ grows_helpers(4)]

text \<open>
  Handles follow renamed objects.  After a successful RENAME the host has been asked to rename the
  one path to the other, and every handle stands for the path that this renaming gives: a handle below
  the source now stands for the corresponding path below the target, a handle below the replaced
  target is stale, and all others are as before.
\<close>

theorem mirror_rename_handles:
  assumes "mirror_good root s"
    and "mirror_rename host ctx from_parent from_name to_parent to_name s = (Inr r, t)"
  shows "\<exists>p q source target. fm_relative (mi_map s) from_parent = Inr p \<and> fm_relative (mi_map s) to_parent = Inr q \<and>
    source = p @ [name_bytes from_name] \<and> target = q @ [name_bytes to_name] \<and>
    (\<exists>h h'. host_rename host (root @ source) (root @ target) h = (Inr (), h')) \<and>
    (\<forall>object. fm_relative (mi_map t) object = r_bind (fm_relative (mi_map s) object) (renamed source target))"
proof -
  from assms(2) obtain s2 s3 s4 p q source target path path' where
    s2: "mi_map s2 = mi_map s" and source: "fm_relative (mi_map s) from_parent = Inr p"
      "source = p @ [name_bytes from_name]" "path = fm_path (mi_map s) source" and
    target: "fm_relative (mi_map s) to_parent = Inr q" "target = q @ [name_bytes to_name]" "path' = fm_path (mi_map s) target" and
    host: "on_host (host_rename host path path') s2 = (Inr (), s3)" and
    map: "on_map (move_prefix source target) s3 = (Inr (), s4)" and t: "mi_map t = mi_map s4"
    unfolding mirror_rename_def
    by (auto simp: vbind_Inr vreturn_def child_path_Inr dest!: quiet_helpers)
  have good: "fsmap_ok (mi_map s3)" and root: "fm_root (mi_map s) = root"
    using assms(1) quiet [OF host grows_on_host] s2 by (simp_all add: mirror_good_def)
  from move_prefix_ok [OF good, of source target] map t quiet [OF host grows_on_host] s2
  have "fsmap_abs (mi_map t) = spec_call (Move source target) (fsmap_abs (mi_map s))"
    by (auto simp: on_map_def)
  then have paths: "map_of (fm_id_to_relative (mi_map t)) =
      fst (spec_call (Move source target) (map_of (fm_id_to_relative (mi_map s)), 0))" by (simp add: fsmap_abs_def)
  have "fm_relative (mi_map t) object = r_bind (fm_relative (mi_map s) object) (renamed source target)" for object
    unfolding fm_relative_def paths
    by (cases "map_of (fm_id_to_relative (mi_map s)) (obj_file_id object)") (simp_all add: renamed_def)
  moreover have "\<exists>h h'. host_rename host (root @ source) (root @ target) h = (Inr (), h')"
    using host source target root by (auto simp: on_host_def fm_path_def split: prod.splits)
  ultimately show ?thesis using source target by blast
qed

text \<open>
  What a successful LOOKUP gives: a handle for the path that the name leads to, at the root for
  \<open>..\<close> the root itself, while every other handle stands for what it stood for.
\<close>

theorem mirror_lookup_names:
  assumes "mirror_good root s" and "mirror_lookup host ctx parent name s = (Inr created, t)"
  shows "\<exists>p. fm_relative (mi_map s) parent = Inr p \<and>
    fm_relative (mi_map t) (co_object created) = Inr (led_to p name) \<and>
    (\<forall>object q. fm_relative (mi_map s) object = Inr q \<longrightarrow> fm_relative (mi_map t) object = Inr q)"
proof -
  from assms(2) obtain p s2 i where p: "fm_relative (mi_map s) parent = Inr p" and s2: "mi_map s2 = mi_map s"
    and i: "on_map (intern (led_to p name)) s2 = (Inr i, t)" "co_object created = mirror_key i"
    by (auto simp: mirror_lookup_def led_to_def mirror_created_def vbind_Inr read_map_def vreturn_def Let_def child_path_Inr
        dest!: quiet [OF _ grows_on_host] split: if_splits)
  have ok: "fsmap_ok (mi_map s)" "Suc (unat (fm_next_file_id (mi_map s))) < usize_bound"
    using assms(1) by (auto simp: mirror_good_def)
  obtain m where run: "intern (led_to p name) (mi_map s) = (Inr i, m)" "mi_map t = m"
    using i(1) s2 by (auto simp: on_map_def split: prod.splits)
  from fsmap_call_ok [OF ok, of "Intern (led_to p name)" "Inr (Some i)" m] run(1)
  have new: "map_of (fm_id_to_relative m) i = Some (led_to p name)"
    "fsmap_abs m = spec_call (Intern (led_to p name)) (fsmap_abs (mi_map s))" by (auto simp: fsmap_abs_def)
  have "map_of (fm_id_to_relative m) j = Some q" if "map_of (fm_id_to_relative (mi_map s)) j = Some q" for j q
    using new(2) that fsmap_okD(6) [OF ok(1) that] by (auto simp: fsmap_abs_def split: if_splits)
  with new(1) p i(2) run(2) show ?thesis by (auto simp: fm_relative_Inr mirror_key_def)
qed

section \<open>Listing\<close>

lemma read_children_still:
  assumes "\<forall>name\<in>set names. \<exists>m. host_symlink_metadata host (path @ [name]) (mi_host s) = (Inr m, mi_host s)"
  shows "\<exists>children. read_children host path (map Inr names) s = (Inr children, s) \<and> map fst children = names"
  using assms
proof (induction names)
  case (Cons name names)
  then obtain m children where "host_symlink_metadata host (path @ [name]) (mi_host s) = (Inr m, mi_host s)"
    "read_children host path (map Inr names) s = (Inr children, s)" "map fst children = names" by auto
  then show ?case by (intro exI [of _ "(name, m) # children"]) (simp add: vbind_def vlift_def on_host_def vreturn_def)
qed (simp add: vreturn_def)

lemma map_fst_sort: "map fst (sort_key fst xs) = sort (map fst xs)"
proof -
  have "map fst (insort_key fst x xs) = insort (fst x) (map fst xs)" for x :: "'a \<times> 'b" and xs by (induction xs) auto
  then show ?thesis by (induction xs) simp_all
qed

text \<open>Interning a name uses up an identifier only if the name had none.\<close>

lemma listable_intern:
  assumes "listable root p names object h s" and "name \<in> set names"
  shows "\<exists>i t. on_map (intern (p @ [name])) s = (Inr i, t) \<and> listable root p names object h t"
proof -
  let ?m = "mi_map s" and ?n = "unat (fm_next_file_id (mi_map s))"
  let ?missing = "\<lambda>m. {name \<in> set names. p @ [name] \<notin> ran (map_of (fm_id_to_relative m))}"
  have ok: "fsmap_ok ?m" and room: "?n + card (?missing ?m) < usize_bound - 1"
    using assms(1) by (simp_all add: listable_def)
  show ?thesis
  proof (cases "p @ [name] \<in> ran (map_of (fm_id_to_relative ?m))")
    case True
    then obtain i where "map_of (fm_id_to_relative ?m) i = Some (p @ [name])" by (auto simp: ran_def)
    with intern_known [OF ok this] assms(1) show ?thesis by (simp add: on_map_def)
  next
    case False
    from room have fits: "Suc ?n < usize_bound" by simp
    from intern_fresh [OF ok False fits] obtain m where m: "intern (p @ [name]) ?m = (Inr (fm_next_file_id ?m), m)"
      "fsmap_ok m" "map_of (fm_id_to_relative m) = (map_of (fm_id_to_relative ?m))(fm_next_file_id ?m \<mapsto> p @ [name])"
      "fm_next_file_id m = fm_next_file_id ?m + 1" "fm_root m = fm_root ?m" by blast
    have unused: "map_of (fm_id_to_relative ?m) (fm_next_file_id ?m) = None"
      using fsmap_okD(6) [OF ok, of "fm_next_file_id ?m"] by (cases "map_of (fm_id_to_relative ?m) (fm_next_file_id ?m)") auto
    then have "?missing m = ?missing ?m - {name}" by (auto simp: m(3) ran_map_upd)
    moreover have "Suc (card (?missing ?m - {name})) = card (?missing ?m)"
      by (rule card_Suc_Diff1) (use False assms(2) in auto)
    ultimately have "Suc (card (?missing m)) = card (?missing ?m)" by (rule ssubst)
    then have "unat (fm_next_file_id m) + card (?missing m) < usize_bound - 1"
      using room unat_succ64 [OF fits] m(4) by simp
    moreover have "fm_relative m object = Inr p"
      using assms(1) unused by (auto simp: listable_def fm_relative_Inr m(3))
    ultimately show ?thesis using assms(1) m by (auto simp: on_map_def listable_def)
  qed
qed

lemma intern_entries_still:
  assumes "listable root p names object h s" and "fst ` set selected \<subseteq> set names"
    and "\<forall>name\<in>set names. nfs_name_new name = Inr (NfsName name)"
  shows "\<exists>entries t. intern_entries object position selected s = (Inr entries, t) \<and> listable root p names object h t \<and>
    map (\<lambda>e. name_bytes (de_name e)) entries = map fst selected \<and>
    map de_cookie entries = map (\<lambda>i. of_nat (Suc (position + i))) [0..<length selected]"
  using assms
proof (induction selected arbitrary: position s)
  case (Cons x selected)
  obtain name m where x: "x = (name, m)" by fastforce
  then have name: "name \<in> set names" "nfs_name_new name = Inr (NfsName name)" using Cons.prems by auto
  from listable_intern [OF Cons.prems(1) name(1)] obtain i t where
    t: "on_map (intern (p @ [name])) s = (Inr i, t)" "listable root p names object h t" by blast
  from Cons.IH [OF t(2), of "Suc position"] Cons.prems(2,3) obtain entries u where
    u: "intern_entries object (Suc position) selected t = (Inr entries, u)" "listable root p names object h u"
      "map (\<lambda>e. name_bytes (de_name e)) entries = map fst selected"
      "map de_cookie entries = map (\<lambda>i. of_nat (Suc (Suc position + i))) [0..<length selected]" by auto
  have "child_relative (mi_map s) object (NfsName name) = Inr (p @ [name])"
    using Cons.prems(1) by (simp add: listable_def child_relative_def nfs_name_to_os_string_def)
  with t(1) u name(2) x show ?case
    by (simp add: vbind_def vlift_def read_map_def vreturn_def upt_conv_Cons map_Suc_upt [symmetric] del: upt_Suc)
qed (simp add: vreturn_def)

lemma mirror_readdir_still:
  assumes still: "still_directory host (root @ p) metadata names h" and s: "listable root p names object h s"
    and cookie: "cookie = 0 \<or> v = directory_verifier metadata"
  shows "\<exists>entries t. mirror_readdir host ctx object cookie v hint s =
      (Inr \<lparr>page_verifier = directory_verifier metadata, page_entries = entries,
            page_eof = (length names \<le> saturating_add (unat cookie) (length entries))\<rparr>, t) \<and>
    listable root p names object h t \<and>
    map (\<lambda>e. name_bytes (de_name e)) entries = take (max hint 1) (drop (unat cookie) (sort names)) \<and>
    map de_cookie entries = map (\<lambda>i. of_nat (Suc (unat cookie + i))) [0..<length entries]"
proof -
  let ?start = "unat cookie"
  have host: "mi_host s = h" and path: "fm_relative (mi_map s) object = Inr p" "fm_path (mi_map s) p = root @ p"
    using s by (simp_all add: listable_def fm_path_def)
  from read_children_still [of names host "root @ p" s] still host obtain children where
    children: "read_children host (root @ p) (map Inr names) s = (Inr children, s)" "map fst children = names"
    by (auto simp: still_directory_def)
  let ?selected = "take (max hint 1) (drop ?start (sort_key fst children))"
  have view: "map fst ?selected = take (max hint 1) (drop ?start (sort names))"
    by (simp add: take_map drop_map flip: children(2) map_fst_sort)
  have "fst ` set ?selected = set (take (max hint 1) (drop ?start (sort names)))" using view by (metis list.set_map)
  also have "\<dots> \<subseteq> set names" by (metis in_set_dropD in_set_takeD set_sort subsetI)
  finally have sub: "fst ` set ?selected \<subseteq> set names" .
  have "\<forall>name\<in>set names. nfs_name_new name = Inr (NfsName name)" using still by (simp add: still_directory_def)
  from intern_entries_still [OF s sub this, of ?start] obtain entries t where
    t: "intern_entries object ?start ?selected s = (Inr entries, t)" "listable root p names object h t"
      "map (\<lambda>e. name_bytes (de_name e)) entries = map fst ?selected"
      "map de_cookie entries = map (\<lambda>i. of_nat (Suc (?start + i))) [0..<length ?selected]" by blast
  have size: "length children = length names" "length entries = length ?selected"
    using children(2) arg_cong [OF t(3), of length] by auto
  have same: "s\<lparr>mi_host := h\<rparr> = s" using host by (cases s) simp
  have "mirror_readdir host ctx object cookie v hint s =
      (Inr \<lparr>page_verifier = directory_verifier metadata, page_entries = entries,
            page_eof = (length names \<le> saturating_add ?start (length entries))\<rparr>, t)"
    using still host path children(1) t(1) cookie size(1)
    by (simp add: same mirror_readdir_def still_directory_def vbind_def object_path_def read_map_def on_host_def vguard_def
        vreturn_def Let_def)
  then show ?thesis using t(2-4) unfolding size(2) [symmetric] view by blast
qed

interpretation mirror_dir: paged_directory "mirror_readdir host ctx object" "\<lambda>e. name_bytes (de_name e)"
    "\<lambda>_. sort names" "\<lambda>_. directory_verifier metadata"
    "\<lambda>s. still_directory host (root @ p) metadata names h \<and> listable root p names object h s"
  for host :: "('h, 'f) Host" and ctx object names metadata root p h
proof
  fix s :: "'h Mirror" and cookie :: u64 and v hint
  assume good: "still_directory host (root @ p) metadata names h \<and> listable root p names object h s"
    and cookie: "cookie = 0 \<or> v = directory_verifier metadata"
  let ?start = "unat cookie"
  from mirror_readdir_still [OF conjunct1 [OF good] conjunct2 [OF good] cookie] obtain entries t where
    run: "mirror_readdir host ctx object cookie v hint s =
      (Inr \<lparr>page_verifier = directory_verifier metadata, page_entries = entries,
            page_eof = (length names \<le> saturating_add ?start (length entries))\<rparr>, t)" and
    t: "listable root p names object h t"
      "map (\<lambda>e. name_bytes (de_name e)) entries = take (max hint 1) (drop ?start (sort names))"
      "map de_cookie entries = map (\<lambda>i. of_nat (Suc (?start + i))) [0..<length entries]" by blast
  have size: "length names < 2 ^ 63" "length entries \<le> length names - ?start"
    using good arg_cong [OF t(2), of length] by (auto simp: still_directory_def)
  have "unat (de_cookie (entries ! i)) = ?start + Suc i" if "i < length entries" for i
  proof -
    have "de_cookie (entries ! i) = map de_cookie entries ! i" using that by simp
    also have "\<dots> = of_nat (Suc (?start + i))" using that by (simp add: t(3))
    finally have eq: "de_cookie (entries ! i) = of_nat (Suc (?start + i))" .
    have "Suc (?start + i) < usize_bound" using that size by simp
    then show ?thesis unfolding eq by (subst unat_of_nat64) simp_all
  qed
  moreover have "length names \<le> saturating_add ?start (length entries) \<longleftrightarrow> length (sort names) \<le> ?start + length entries"
    using size by (auto simp: saturating_add_def)
  ultimately show "\<exists>page t. mirror_readdir host ctx object cookie v hint s = (Inr page, t) \<and>
      page_verifier page = directory_verifier metadata \<and>
      map (\<lambda>e. name_bytes (de_name e)) (page_entries page) = take (max hint 1) (drop ?start (sort names)) \<and>
      (page_eof page \<longleftrightarrow> length (sort names) \<le> ?start + length (page_entries page)) \<and>
      (\<forall>i<length (page_entries page). unat (de_cookie (page_entries page ! i)) = ?start + Suc i) \<and>
      (still_directory host (root @ p) metadata names h \<and> listable root p names object h t) \<and>
      sort names = sort names \<and> directory_verifier metadata = directory_verifier metadata"
    using run good t(1,2) by auto
qed

text \<open>
  Complete listings.  Of a directory that does not change, and as long as there are identifiers for
  its names, a client that pages with whatever sizes gets every name exactly once and in order,
  provided it asks for as many pages as there are names.  The handle of the directory stays valid.
\<close>

theorem mirror_listing_complete:
  assumes "still_directory host (root @ p) metadata names h" and "listable root p names object h s"
    and "length names \<le> length hints" and "hints \<noteq> []"
  shows "\<exists>entries t. list_pages (mirror_readdir host ctx object) 0 verifier hints s = Some (entries, t) \<and>
    map (\<lambda>e. name_bytes (de_name e)) entries = sort names \<and> fm_relative (mi_map t) object = Inr p"
  using mirror_dir.list_pages_complete [of host root p metadata names h object s 0 verifier hints ctx] assms
  by (auto simp: listable_def)

lemma calm_fits: "directories_fit calm_host"
  by (auto simp: directories_fit_def calm_host_def)

theorem mirror_map_sound_witness:
  "mirror_good [[115]] (snd (vfs_mkdir (mirror_fs calm_host) calm_ctx (mirror_key 1) (NfsName [97]) set_attributes_default
     (mirror_new [[115]] ())))"
proof -
  let ?s = "snd (vfs_mkdir (mirror_fs calm_host) calm_ctx (mirror_key 1) (NfsName [97]) set_attributes_default
     (mirror_new [[115]] ()))"
  have "valid_name (NfsName [97])" by code_simp
  moreover have "ids_left ?s"
    by (simp add: mirror_fs_def vfs_with_defaults_def) code_simp
  ultimately have "vfs_reaches (mirror_fs calm_host) ids_left (mirror_new [[115]] ()) ?s"
    by (rule reaches_step [OF reaches_start vfs_step.intros(9)])
  from mirror_map_sound [OF calm_fits this] show ?thesis by simp
qed

lemma calm_mirror_good: "mirror_good [[115]] calm_mirror"
proof -
  obtain rs m where run: "fsmap_run [Intern [[97]], Intern [[98]], Intern [[97], [99]]] (fsmap_new [[115]]) = (rs, m)"
    by fastforce
  have "unat (fm_next_file_id (fsmap_new [[115]])) + length [Intern [[97]], Intern [[98]], Intern [[97], [99]]] <
      usize_bound - 1" by (simp add: fsmap_new_def MIRROR_ROOT_ID_def)
  from fsmap_run_ok [OF fsmap_new_ok this run] have "fsmap_ok m" "fm_root m = fm_root (fsmap_new [[115]])" by blast+
  moreover have "fm_relative (mi_map calm_mirror) (mirror_root calm_mirror) = Inr []"
    "unat (fm_next_file_id (mi_map calm_mirror)) < 2 ^ 62" by code_simp+
  ultimately show ?thesis using run by (simp add: mirror_good_def calm_mirror_def fsmap_new_def)
qed

theorem mirror_rename_handles_witness:
  "\<exists>r t. mirror_rename calm_host calm_ctx (mirror_key 1) (NfsName [97]) (mirror_key 1) (NfsName [98]) calm_mirror = (Inr r, t) \<and>
     fm_relative (mi_map t) (mirror_key 2) = Inr [[98]] \<and> fm_relative (mi_map t) (mirror_key 3) = Inl Err_Stale \<and>
     fm_relative (mi_map t) (mirror_key 4) = Inr [[98], [99]]"
proof -
  have "\<not> isl (fst (mirror_rename calm_host calm_ctx (mirror_key 1) (NfsName [97]) (mirror_key 1) (NfsName [98]) calm_mirror))"
    by code_simp
  then obtain r t where run: "mirror_rename calm_host calm_ctx (mirror_key 1) (NfsName [97]) (mirror_key 1) (NfsName [98])
      calm_mirror = (Inr r, t)" by (metis isl_def sum.exhaust_sel surjective_pairing)
  have before: "fm_relative (mi_map calm_mirror) (mirror_key 1) = Inr []"
    "fm_relative (mi_map calm_mirror) (mirror_key 2) = Inr [[97]]" "fm_relative (mi_map calm_mirror) (mirror_key 3) = Inr [[98]]"
    "fm_relative (mi_map calm_mirror) (mirror_key 4) = Inr [[97], [99]]" by code_simp+
  from mirror_rename_handles [OF calm_mirror_good run] before
  have "fm_relative (mi_map t) object = r_bind (fm_relative (mi_map calm_mirror) object) (renamed [[97]] [[98]])" for object
    by auto
  with before run show ?thesis by (auto simp: renamed_def)
qed

theorem mirror_lookup_names_witness:
  "\<exists>created t. mirror_lookup calm_host calm_ctx (mirror_key 4) (NfsName [46, 46]) calm_mirror = (Inr created, t) \<and>
     fm_relative (mi_map t) (co_object created) = Inr [[97]]"
proof -
  have "\<not> isl (fst (mirror_lookup calm_host calm_ctx (mirror_key 4) (NfsName [46, 46]) calm_mirror))" by code_simp
  then obtain created t where run: "mirror_lookup calm_host calm_ctx (mirror_key 4) (NfsName [46, 46]) calm_mirror =
      (Inr created, t)" by (metis isl_def sum.exhaust_sel surjective_pairing)
  have "fm_relative (mi_map calm_mirror) (mirror_key 4) = Inr [[97], [99]]" by code_simp
  with mirror_lookup_names [OF calm_mirror_good run] run show ?thesis by (auto simp: led_to_def)
qed

theorem mirror_listing_complete_witness:
  "\<exists>entries t. list_pages (mirror_readdir calm_host calm_ctx (mirror_key 2)) 0 [] [1, 1, 1] calm_mirror = Some (entries, t) \<and>
     map (\<lambda>e. name_bytes (de_name e)) entries = [[97], [98], [99]] \<and> fm_relative (mi_map t) (mirror_key 2) = Inr [[97]]"
proof -
  have "still_directory calm_host ([[115]] @ [[97]]) calm_metadata [[99], [97], [98]] ()"
    by (simp add: still_directory_def calm_host_def calm_metadata_def md_is_dir_def nfs_name_new_def NFS_NAME_MAX_LEN_def)
  moreover have "listable [[115]] [[97]] [[99], [97], [98]] (mirror_key 2) () calm_mirror"
  proof -
    define missing where
      "missing = {name \<in> set [[99], [97], [98]]. [[97]] @ [name] \<notin> ran (map_of (fm_id_to_relative (mi_map calm_mirror)))}"
    have "card missing \<le> length [[99], [97], [98 :: u8]]"
      unfolding missing_def by (rule order_trans [OF card_mono card_length]) auto
    moreover have "unat (fm_next_file_id (mi_map calm_mirror)) = 5" "mi_host calm_mirror = ()"
      "fm_relative (mi_map calm_mirror) (mirror_key 2) = Inr [[97]]" by code_simp+
    ultimately show ?thesis
      using calm_mirror_good unfolding listable_def mirror_good_def missing_def [symmetric] by simp
  qed
  moreover have "sort [[99], [97], [98]] = [[97], [98], [99 :: u8]]" by code_simp
  ultimately show ?thesis
    using mirror_listing_complete [of calm_host "[[115]]" "[[97]]" calm_metadata "[[99], [97], [98]]" "()" "mirror_key 2"
      calm_mirror "[1, 1, 1]"] by fastforce
qed

end
