(* ===== verification/Spec2Isabelle.thy ===== *)
theory Spec2Isabelle
  imports Server_Lifecycle Legacy_Runs Demo_Fs Mirror_Fs
begin

text \<open>
  Verification of \<open>nfsembed\<close>, an embeddable NFSv3 server.
\<close>

end
